(* ===== verification/Prelude.thy ===== *)
theory Prelude
  imports Main "HOL-Library.Word" "HOL-Library.Signed_Division" "HOL-Library.Sublist"
begin

text \<open>
  What every component of the development shares: the exceptions of the C++ code as values of
  a result type and the bind that propagates them, the \<open>std::string\<close> operations and 64-bit
  arithmetic the sources use, and the record of DuckDB's \<open>StringUtil\<close> functions.

  The last are not part of the repository (DuckDB is a submodule), so they are a parameter of
  the model: every definition that calls one takes a \<open>string_util\<close> record, and what a proof
  needs of their documented behaviour is the hypothesis \<open>string_util_ok\<close>. The instance
  \<open>duck_strings\<close> shows that the hypothesis can hold.
\<close>

section \<open>Exceptions and results\<close>

text \<open>The DuckDB exception classes the sources throw.\<close>

datatype exn_class =
    InvalidInputException | NotImplementedException | ConversionException | BinderException
  | CatalogException | PermissionException | ConstraintException | IOException
  | InternalException | PoolException | OtherException

text \<open>
  An exception: its class, the leading words of its message, which tell the throw sites apart,
  and every argument that is formatted into the message.
\<close>

datatype exn = Exn (exn_kind: exn_class) (exn_text: string) (exn_args: "string list")

type_synonym 'a res = "exn + 'a"

definition bindE :: "'a res \<Rightarrow> ('a \<Rightarrow> 'b res) \<Rightarrow> 'b res" where
  "bindE m f = (case m of Inl e \<Rightarrow> Inl e | Inr x \<Rightarrow> f x)"

fun mapE :: "('a \<Rightarrow> 'b res) \<Rightarrow> 'a list \<Rightarrow> 'b list res" where
  "mapE f [] = Inr []"
| "mapE f (x # xs) = bindE (f x) (\<lambda>y. bindE (mapE f xs) (\<lambda>ys. Inr (y # ys)))"

definition is_ok :: "'a res \<Rightarrow> bool" where
  "is_ok m = (case m of Inl _ \<Rightarrow> False | Inr _ \<Rightarrow> True)"

lemma bindE_simps [simp]: "bindE (Inl e) f = Inl e" "bindE (Inr x) f = f x"
  by (simp_all add: bindE_def)

lemma is_ok_simps [simp]: "\<not> is_ok (Inl e)" "is_ok (Inr x)"
  by (simp_all add: is_ok_def)

lemma is_ok_iff: "is_ok m \<longleftrightarrow> (\<exists>x. m = Inr x)"
  by (cases m) auto

lemma bindE_eq_Inr [simp]: "bindE m f = Inr y \<longleftrightarrow> (\<exists>x. m = Inr x \<and> f x = Inr y)"
  by (cases m) auto

lemma bindE_eq_Inl: "bindE m f = Inl e \<longleftrightarrow> m = Inl e \<or> (\<exists>x. m = Inr x \<and> f x = Inl e)"
  by (cases m) auto

lemma bindE_assoc: "bindE (bindE m f) g = bindE m (\<lambda>x. bindE (f x) g)"
  by (cases m) auto

lemma bindE_cong [fundef_cong]:
  "m = m' \<Longrightarrow> (\<And>x. m' = Inr x \<Longrightarrow> f x = g x) \<Longrightarrow> bindE m f = bindE m' g"
  by (cases m') auto

lemma mapE_cong [fundef_cong]:
  "xs = ys \<Longrightarrow> (\<And>x. x \<in> set ys \<Longrightarrow> f x = g x) \<Longrightarrow> mapE f xs = mapE g ys"
  by (induction xs arbitrary: ys) auto

lemma mapE_eq_Inr: "mapE f xs = Inr ys \<longleftrightarrow> list_all2 (\<lambda>x y. f x = Inr y) xs ys"
  by (induction xs arbitrary: ys) (auto simp: list_all2_Cons1)

lemma mapE_length: "mapE f xs = Inr ys \<Longrightarrow> length ys = length xs"
  by (auto simp: mapE_eq_Inr dest: list_all2_lengthD)

lemma mapE_set: "mapE f xs = Inr ys \<Longrightarrow> y \<in> set ys \<Longrightarrow> \<exists>x\<in>set xs. f x = Inr y"
  by (induction xs arbitrary: ys) auto

lemma mapE_Inr [simp]: "mapE (\<lambda>x. Inr (f x)) xs = Inr (map f xs)"
  by (induction xs) auto

section \<open>64-bit signed arithmetic\<close>

text \<open>
  Signed overflow is undefined in C++: an operation whose exact result does not fit returns
  \<open>None\<close>. Division truncates toward zero (\<open>sdiv\<close>, \<open>smod\<close>).
\<close>

definition in_int64 :: "int \<Rightarrow> bool" where
  "in_int64 x \<longleftrightarrow> - (2 ^ 63) \<le> x \<and> x < 2 ^ 63"

definition mul64 :: "int \<Rightarrow> int \<Rightarrow> int option" where
  "mul64 a b = (if in_int64 (a * b) then Some (a * b) else None)"

lemma mul64_Some [simp]: "mul64 a b = Some c \<longleftrightarrow> c = a * b \<and> in_int64 (a * b)"
  by (auto simp: mul64_def)

text \<open>A truncated quotient corrected by one when a negative remainder is left is the floor.\<close>

lemma sdiv_floor:
  fixes a b :: int
  assumes "0 < b"
  shows "(if a smod b \<noteq> 0 \<and> a < 0 then a sdiv b - 1 else a sdiv b) = a div b"
proof (cases "0 \<le> a")
  case True
  with assms show ?thesis
    by (cases "a = 0") (auto simp: signed_divide_int_def)
next
  case False
  then obtain n where n: "a = - n" "0 < n" by (metis neg_0_less_iff_less not_less minus_minus)
  from assms n have q: "a sdiv b = - (n div b)"
    by (simp add: signed_divide_int_def)
  moreover have "a smod b = a - a sdiv b * b"
    by (metis add_diff_cancel_left' sdiv_mult_smod_eq)
  ultimately have "a smod b = - (n mod b)"
    using n by (simp add: minus_div_mult_eq_mod [symmetric])
  with q n assms show ?thesis
    by (simp add: zdiv_zminus1_eq_if)
qed

section \<open>Strings of the C++ standard library\<close>

text \<open>Position of the first character with a property, as \<open>find\<close> and \<open>find_first_of\<close> return.\<close>

fun find_if_from :: "(char \<Rightarrow> bool) \<Rightarrow> string \<Rightarrow> nat \<Rightarrow> nat option" where
  "find_if_from P [] i = None"
| "find_if_from P (c # cs) i = (if P c then Some i else find_if_from P cs (Suc i))"

definition str_find :: "string \<Rightarrow> char \<Rightarrow> nat option" where
  "str_find s c = find_if_from (\<lambda>d. d = c) s 0"

definition find_first_of :: "string \<Rightarrow> string \<Rightarrow> nat \<Rightarrow> nat option" where
  "find_first_of s cs pos = find_if_from (\<lambda>d. d \<in> set cs) (drop pos s) pos"

definition str_rfind :: "string \<Rightarrow> char \<Rightarrow> nat option" where
  "str_rfind s c = map_option (\<lambda>i. length s - Suc i) (find_if_from (\<lambda>d. d = c) (rev s) 0)"

lemma find_if_from_shift: "find_if_from P s i = map_option (\<lambda>j. i + j) (find_if_from P s 0)"
proof (induction s arbitrary: i)
  case (Cons c s)
  have "find_if_from P s (Suc i) = map_option (\<lambda>j. Suc i + j) (find_if_from P s 0)"
    and "find_if_from P s (Suc 0) = map_option (\<lambda>j. Suc 0 + j) (find_if_from P s 0)"
    by (rule Cons.IH)+
  then show ?case by (auto simp: option.map_comp o_def)
qed simp

lemma find_if_from_Some:
  "find_if_from P s 0 = Some i \<Longrightarrow> i < length s \<and> P (s ! i) \<and> (\<forall>j<i. \<not> P (s ! j))"
proof (induction s arbitrary: i)
  case (Cons c s)
  show ?case
  proof (cases "P c")
    case True
    with Cons.prems show ?thesis by simp
  next
    case False
    with Cons.prems obtain k where k: "find_if_from P s 0 = Some k" "i = Suc k"
      by (auto simp: find_if_from_shift [of P s "Suc 0"])
    with Cons.IH [OF k(1)] False show ?thesis
      by (auto simp: nth_Cons less_Suc_eq_0_disj split: nat.splits)
  qed
qed simp

lemma find_if_from_None [simp]: "find_if_from P s i = None \<longleftrightarrow> (\<forall>c\<in>set s. \<not> P c)"
  by (induction s arbitrary: i) auto

text \<open>\<open>substr\<close> with both bounds inside the string; the sources never call it outside.\<close>

definition substr :: "string \<Rightarrow> nat \<Rightarrow> nat \<Rightarrow> string" where
  "substr s pos n = take n (drop pos s)"

text \<open>\<open>std::to_string\<close> of an unsigned number.\<close>

definition digit_char :: "nat \<Rightarrow> char" where
  "digit_char d = char_of (48 + d)"

fun to_string :: "nat \<Rightarrow> string" where
  "to_string n = (if n < 10 then [digit_char n] else to_string (n div 10) @ [digit_char (n mod 10)])"

declare to_string.simps [simp del]

definition digits_value :: "string \<Rightarrow> nat" where
  "digits_value s = foldl (\<lambda>n c. n * 10 + (of_char c - 48)) 0 s"

definition ascii_digit :: "char \<Rightarrow> bool" where
  "ascii_digit c \<longleftrightarrow> (of_char c :: nat) \<in> {48..57}"

lemma digit_char_value: "d < 10 \<Longrightarrow> (of_char (digit_char d) :: nat) = 48 + d"
  by (simp add: digit_char_def)

lemma ascii_digit_digit_char: "d < 10 \<Longrightarrow> ascii_digit (digit_char d)"
  by (simp add: ascii_digit_def digit_char_value)

lemma to_string_digits: "\<forall>c\<in>set (to_string n). ascii_digit c"
proof (induction n rule: to_string.induct)
  case (1 n)
  then show ?case
    by (subst to_string.simps) (auto simp: ascii_digit_digit_char)
qed

lemma to_string_value: "digits_value (to_string n) = n"
proof (induction n rule: to_string.induct)
  case (1 n)
  show ?case
  proof (cases "n < 10")
    case True
    then show ?thesis by (subst to_string.simps) (simp add: digits_value_def digit_char_value)
  next
    case False
    with 1 have "digits_value (to_string (n div 10)) = n div 10" by simp
    with False show ?thesis
      by (subst to_string.simps) (simp add: digits_value_def digit_char_value)
  qed
qed

lemma to_string_inj: "to_string m = to_string n \<longleftrightarrow> m = n"
  by (metis to_string_value)

lemma to_string_nonempty [simp]: "to_string n \<noteq> []"
  by (subst to_string.simps) simp

text \<open>
  \<open>std::stoll\<close>: leading white space, an optional sign, then as many digits as there are; the
  rest is ignored. \<open>None\<close> stands for \<open>invalid_argument\<close> (no digit) and \<open>out_of_range\<close>.
\<close>

definition c_isspace :: "char \<Rightarrow> bool" where
  "c_isspace c \<longleftrightarrow> (of_char c :: nat) \<in> {9, 10, 11, 12, 13, 32}"

definition stoll :: "string \<Rightarrow> int option" where
  "stoll s =
     (let t = dropWhile c_isspace s;
          neg = (case t of c # _ \<Rightarrow> c = CHR ''-'' | [] \<Rightarrow> False);
          body = (case t of c # cs \<Rightarrow> (if c = CHR ''-'' \<or> c = CHR ''+'' then cs else t) | [] \<Rightarrow> []);
          ds = takeWhile ascii_digit body;
          v = (if neg then - int (digits_value ds) else int (digits_value ds))
      in if ds = [] \<or> \<not> in_int64 v then None else Some v)"

section \<open>DuckDB's string utilities\<close>

record string_util =
  CharacterIsSpace :: "char \<Rightarrow> bool"
  CharacterIsDigit :: "char \<Rightarrow> bool"
  CharacterIsAlpha :: "char \<Rightarrow> bool"
  CharacterIsAlphaNumeric :: "char \<Rightarrow> bool"
  Lower :: "string \<Rightarrow> string"
  Trim :: "string \<Rightarrow> string"
  RTrim :: "string \<Rightarrow> string"
  Split :: "string \<Rightarrow> char \<Rightarrow> string list"
  StartsWith :: "string \<Rightarrow> string \<Rightarrow> bool"
  EndsWith :: "string \<Rightarrow> string \<Rightarrow> bool"
  Join :: "string list \<Rightarrow> string \<Rightarrow> string"
  Replace :: "string \<Rightarrow> string \<Rightarrow> string \<Rightarrow> string"
  URLDecode :: "string \<Rightarrow> string"
  CIEquals :: "string \<Rightarrow> string \<Rightarrow> bool"

definition rtrim_by :: "(char \<Rightarrow> bool) \<Rightarrow> string \<Rightarrow> string" where
  "rtrim_by p s = rev (dropWhile p (rev s))"

definition trim_by :: "(char \<Rightarrow> bool) \<Rightarrow> string \<Rightarrow> string" where
  "trim_by p s = rtrim_by p (dropWhile p s)"

definition ascii_lower_char :: "char \<Rightarrow> char" where
  "ascii_lower_char c = (if (of_char c :: nat) \<in> {65..90} then char_of (of_char c + 32 :: nat) else c)"

definition ascii_alpha :: "char \<Rightarrow> bool" where
  "ascii_alpha c \<longleftrightarrow> (of_char c :: nat) \<in> {65..90} \<union> {97..122}"

fun join_with :: "string list \<Rightarrow> string \<Rightarrow> string" where
  "join_with [] sep = []"
| "join_with [x] sep = x"
| "join_with (x # y # zs) sep = x @ sep @ join_with (y # zs) sep"

fun split_on :: "string \<Rightarrow> char \<Rightarrow> string list" where
  "split_on [] d = [[]]"
| "split_on (c # cs) d =
     (if c = d then [] # split_on cs d
      else (case split_on cs d of [] \<Rightarrow> [[c]] | p # ps \<Rightarrow> (c # p) # ps))"

definition string_util_ok :: "string_util \<Rightarrow> bool" where
  "string_util_ok U \<longleftrightarrow>
     CharacterIsSpace U = c_isspace \<and> CharacterIsDigit U = ascii_digit \<and>
     CharacterIsAlpha U = ascii_alpha \<and>
     CharacterIsAlphaNumeric U = (\<lambda>c. ascii_alpha c \<or> ascii_digit c) \<and>
     Lower U = map ascii_lower_char \<and> Trim U = trim_by c_isspace \<and> RTrim U = rtrim_by c_isspace \<and>
     (\<forall>s p. StartsWith U s p \<longleftrightarrow> prefix p s) \<and> (\<forall>s p. EndsWith U s p \<longleftrightarrow> suffix p s) \<and>
     (\<forall>ss sep. Join U ss sep = join_with ss sep) \<and>
     (\<forall>s d p. p \<in> set (Split U s d) \<longrightarrow> d \<notin> set p \<and> set p \<subseteq> set s) \<and>
     (\<forall>s c r. Replace U s [c] r = concat (map (\<lambda>d. if d = c then r else [d]) s)) \<and>
     (\<forall>s. CHR ''%'' \<notin> set s \<and> CHR ''+'' \<notin> set s \<longrightarrow> URLDecode U s = s) \<and>
     (\<forall>a b. CIEquals U a b \<longleftrightarrow> map ascii_lower_char a = map ascii_lower_char b)"

text \<open>An instance with the documented behaviour, at which hypotheses are discharged.\<close>

definition duck_strings :: string_util where
  "duck_strings = \<lparr>
     CharacterIsSpace = c_isspace, CharacterIsDigit = ascii_digit, CharacterIsAlpha = ascii_alpha,
     CharacterIsAlphaNumeric = (\<lambda>c. ascii_alpha c \<or> ascii_digit c),
     Lower = map ascii_lower_char, Trim = trim_by c_isspace, RTrim = rtrim_by c_isspace,
     Split = split_on, StartsWith = (\<lambda>s p. prefix p s), EndsWith = (\<lambda>s p. suffix p s),
     Join = join_with, Replace = (\<lambda>s a b. concat (map (\<lambda>c. if [c] = a then b else [c]) s)),
     URLDecode = (\<lambda>s. s),
     CIEquals = (\<lambda>a b. map ascii_lower_char a = map ascii_lower_char b)\<rparr>"

lemma split_on_pieces: "p \<in> set (split_on s d) \<Longrightarrow> d \<notin> set p \<and> set p \<subseteq> set s"
  by (induction s arbitrary: p) (fastforce split: if_splits list.splits)+

lemma duck_strings_ok: "string_util_ok duck_strings"
  using split_on_pieces by (auto simp: string_util_ok_def duck_strings_def)

named_theorems string_util_laws \<open>consequences of string_util_ok for single functions\<close>

lemma string_util_okD [string_util_laws]:
  assumes "string_util_ok U"
  shows "CharacterIsSpace U = c_isspace" "CharacterIsDigit U = ascii_digit"
    "CharacterIsAlpha U = ascii_alpha"
    "CharacterIsAlphaNumeric U = (\<lambda>c. ascii_alpha c \<or> ascii_digit c)"
    "Lower U = map ascii_lower_char" "Trim U = trim_by c_isspace" "RTrim U = rtrim_by c_isspace"
    "StartsWith U s p \<longleftrightarrow> prefix p s" "EndsWith U s p \<longleftrightarrow> suffix p s"
    "Join U ss sep = join_with ss sep"
    "CIEquals U a b \<longleftrightarrow> map ascii_lower_char a = map ascii_lower_char b"
    "Replace U s [c] r = concat (map (\<lambda>d. if d = c then r else [d]) s)"
  using assms by (auto simp: string_util_ok_def)

lemma rtrim_by_last: "rtrim_by p s = [] \<or> \<not> p (last (rtrim_by p s))"
proof (cases "dropWhile p (rev s)")
  case Nil
  then show ?thesis by (simp add: rtrim_by_def)
next
  case (Cons c cs)
  then have "\<not> p c" by (metis hd_dropWhile list.distinct(1) list.sel(1))
  with Cons show ?thesis by (simp add: rtrim_by_def)
qed

lemma rtrim_by_prefix: "prefix (rtrim_by p s) s"
  unfolding rtrim_by_def
  by (metis rev_swap suffix_dropWhile suffix_to_prefix rev_rev_ident)

lemma rtrim_by_length: "length (rtrim_by p s) \<le> length s"
  using prefix_length_le [OF rtrim_by_prefix] .

lemma trim_by_length: "length (trim_by p s) \<le> length s"
  unfolding trim_by_def
  using rtrim_by_length [of p "dropWhile p s"] length_dropWhile_le [of p s] by (rule le_trans)

lemma trim_by_set: "set (trim_by p s) \<subseteq> set s"
  unfolding trim_by_def rtrim_by_def by (auto dest!: set_dropWhileD)

lemma trim_by_id: "s \<noteq> [] \<Longrightarrow> \<not> p (hd s) \<Longrightarrow> \<not> p (last s) \<Longrightarrow> trim_by p s = s"
  unfolding trim_by_def rtrim_by_def
  by (metis dropWhile_eq_self_iff hd_rev rev_is_Nil_conv rev_rev_ident)

end
