(* ===== verification/ChUtils.thy ===== *)
theory ChUtils
  imports Prelude
begin

unbundle bit_operations_syntax

text \<open>
  \<open>src/src/clickhouse_utils.cpp\<close>: quoting of identifiers and literals, the UTF-8 check every
  string read from ClickHouse passes through, the clean-up of user SQL, and the rescaling of
  date-time ticks between decimal precisions. The quoting laws are a locale: whatever scanner
  reads a quoted token back makes quoting injective and qualified names unambiguous.
\<close>

section \<open>Quoting\<close>

definition QuoteWith :: "string \<Rightarrow> char \<Rightarrow> string" where
  "QuoteWith text quote =
     quote # concat (map (\<lambda>c. if c = CHR 0x5C \<or> c = quote then [CHR 0x5C, c] else [c]) text) @ [quote]"

definition QuoteIdentifier :: "string \<Rightarrow> string" where
  "QuoteIdentifier identifier = QuoteWith identifier (CHR 0x60)"

definition QualifiedName :: "string \<Rightarrow> string \<Rightarrow> string" where
  "QualifiedName database table = QuoteIdentifier database @ ''.'' @ QuoteIdentifier table"

definition QuoteLiteral :: "string \<Rightarrow> string" where
  "QuoteLiteral literal = QuoteWith literal (CHR 0x27)"

text \<open>
  The scanning loop the sources read a quoted token with (\<open>SplitFieldName\<close> for quoted Tuple
  element names, after the opening quote): a backslash takes the next character verbatim, the
  quote ends the token. Returns the token and what follows the closing quote.
\<close>

fun ScanQuoted :: "char \<Rightarrow> string \<Rightarrow> string \<times> string" where
  "ScanQuoted q [] = ([], [])"
| "ScanQuoted q [c] = (if c = q then ([], []) else ([c], []))"
| "ScanQuoted q (c # d # cs) =
     (if c = CHR 0x5C then (let (name, rest) = ScanQuoted q cs in (d # name, rest))
      else if c = q then ([], d # cs)
      else (let (name, rest) = ScanQuoted q (d # cs) in (c # name, rest)))"

lemma ScanQuoted_end: "q \<noteq> CHR 0x5C \<Longrightarrow> ScanQuoted q (q # rest) = ([], rest)"
  by (cases rest) auto

lemma ScanQuoted_plain:
  "c \<noteq> CHR 0x5C \<Longrightarrow> c \<noteq> q \<Longrightarrow> cs \<noteq> [] \<Longrightarrow>
   ScanQuoted q (c # cs) = (c # fst (ScanQuoted q cs), snd (ScanQuoted q cs))"
  by (cases cs) (auto split: prod.splits)

lemma ScanQuoted_QuoteWith:
  assumes "q \<noteq> CHR 0x5C"
  shows "ScanQuoted q (tl (QuoteWith s q) @ rest) = (s, rest)"
proof (induction s)
  case Nil
  with assms show ?case by (simp add: QuoteWith_def ScanQuoted_end)
next
  case (Cons c s)
  then show ?case
    using assms by (auto simp: QuoteWith_def ScanQuoted_plain)
qed

text \<open>The contract between a quoting function and a scanner of quoted tokens.\<close>

locale quoting =
  fixes quote :: "string \<Rightarrow> string"
    and scan :: "string \<Rightarrow> string \<times> string"
  assumes scan_quote: "scan (quote s @ rest) = (s, rest)"
begin

lemma quote_append_inj: "quote a @ r = quote b @ s \<longleftrightarrow> a = b \<and> r = s"
  by (metis Pair_inject scan_quote)

lemma quote_inj: "quote a = quote b \<longleftrightarrow> a = b"
  using quote_append_inj [of a "[]" b "[]"] by simp

end

interpretation ident: quoting QuoteIdentifier "\<lambda>s. ScanQuoted (CHR 0x60) (tl s)"
proof
  fix s rest
  have "tl (QuoteIdentifier s @ rest) = tl (QuoteWith s (CHR 0x60)) @ rest"
    by (simp add: QuoteIdentifier_def QuoteWith_def)
  then show "ScanQuoted (CHR 0x60) (tl (QuoteIdentifier s @ rest)) = (s, rest)"
    by (simp add: ScanQuoted_QuoteWith)
qed

interpretation lit: quoting QuoteLiteral "\<lambda>s. ScanQuoted (CHR 0x27) (tl s)"
proof
  fix s rest
  have "tl (QuoteLiteral s @ rest) = tl (QuoteWith s (CHR 0x27)) @ rest"
    by (simp add: QuoteLiteral_def QuoteWith_def)
  then show "ScanQuoted (CHR 0x27) (tl (QuoteLiteral s @ rest)) = (s, rest)"
    by (simp add: ScanQuoted_QuoteWith)
qed

section \<open>UTF-8\<close>

text \<open>
  The lead byte decides the length of the sequence and the first bits of the code point; each
  continuation byte adds six bits (\<open>uint32_t\<close>, so a 32-bit word).
\<close>

definition Utf8Lead :: "8 word \<Rightarrow> (nat \<times> 32 word) option" where
  "Utf8Lead c =
     (if c AND 0xE0 = 0xC0 then Some (2, ucast (c AND 0x1F))
      else if c AND 0xF0 = 0xE0 then Some (3, ucast (c AND 0x0F))
      else if c AND 0xF8 = 0xF0 then Some (4, ucast (c AND 0x07))
      else None)"

fun Utf8Continue :: "32 word \<Rightarrow> 8 word list \<Rightarrow> 32 word option" where
  "Utf8Continue code_point [] = Some code_point"
| "Utf8Continue code_point (b # bs) =
     (if b AND 0xC0 \<noteq> 0x80 then None
      else Utf8Continue (push_bit 6 code_point OR ucast (b AND 0x3F)) bs)"

definition Utf8Reject :: "nat \<Rightarrow> 32 word \<Rightarrow> bool" where
  "Utf8Reject len code_point \<longleftrightarrow>
     len = 2 \<and> code_point < 0x80 \<or> len = 3 \<and> code_point < 0x800 \<or>
     len = 4 \<and> code_point < 0x10000 \<or> code_point > 0x10FFFF \<or>
     code_point \<ge> 0xD800 \<and> code_point \<le> 0xDFFF"

function IsValidUtf8 :: "8 word list \<Rightarrow> bool" where
  "IsValidUtf8 [] = True"
| "IsValidUtf8 (c # rest) =
     (if c < 0x80 then IsValidUtf8 rest
      else (case Utf8Lead c of
              None \<Rightarrow> False
            | Some (len, code_point) \<Rightarrow>
                if len > length (c # rest) then False
                else (case Utf8Continue code_point (take (len - 1) rest) of
                        None \<Rightarrow> False
                      | Some cp \<Rightarrow>
                          if Utf8Reject len cp then False else IsValidUtf8 (drop (len - 1) rest))))"
  by pat_completeness auto
termination
  by (relation "measure length") auto

section \<open>SQL text\<close>

text \<open>The loop calls DuckDB's \<open>RTrim\<close>, so that it ends depends on that function.\<close>

partial_function (option) StripLoop :: "string_util \<Rightarrow> string \<Rightarrow> string option" where
  "StripLoop U sql =
     (if sql \<noteq> [] \<and> last sql = CHR '';'' then StripLoop U (RTrim U (butlast sql)) else Some sql)"

definition StripTrailingSemicolons :: "string_util \<Rightarrow> string \<Rightarrow> string option" where
  "StripTrailingSemicolons U sql = StripLoop U (RTrim U sql)"

definition ThrowReadOnly :: "string \<Rightarrow> 'a res" where
  "ThrowReadOnly database_name =
     Inl (Exn PermissionException ''Cannot write to ClickHouse database'' [database_name])"

section \<open>Ticks\<close>

fun PowerOfTen :: "nat \<Rightarrow> int option" where
  "PowerOfTen 0 = Some 1"
| "PowerOfTen (Suc exponent) =
     (case PowerOfTen exponent of None \<Rightarrow> None | Some result \<Rightarrow> mul64 result 10)"

definition ScaleTicks :: "int \<Rightarrow> nat \<Rightarrow> nat \<Rightarrow> int option" where
  "ScaleTicks ticks from_precision to_precision =
     (if from_precision = to_precision then Some ticks
      else if from_precision < to_precision then
        (case PowerOfTen (to_precision - from_precision) of
           None \<Rightarrow> None
         | Some p \<Rightarrow> mul64 ticks p)
      else
        (case PowerOfTen (from_precision - to_precision) of
           None \<Rightarrow> None
         | Some divisor \<Rightarrow>
             (let result = ticks sdiv divisor
              in Some (if ticks smod divisor \<noteq> 0 \<and> ticks < 0 then result - 1 else result))))"

lemma PowerOfTen_le: "e \<le> 18 \<Longrightarrow> PowerOfTen e = Some (10 ^ e)"
proof (induction e)
  case (Suc e)
  then have "PowerOfTen e = Some (10 ^ e)" by simp
  moreover have "(10::int) ^ Suc e \<le> 10 ^ 18"
    using Suc.prems by (intro power_increasing) auto
  moreover have "(0::int) \<le> 10 ^ e" by simp
  ultimately show ?case by (simp add: in_int64_def del: zero_le_power)
qed simp

lemma PowerOfTen_Some: "PowerOfTen e = Some p \<Longrightarrow> p = 10 ^ e"
  by (induction e arbitrary: p) (auto split: option.splits)

lemma ScaleTicks_down:
  "to \<le> from \<Longrightarrow> from \<le> to + 18 \<Longrightarrow> ScaleTicks ticks from to = Some (ticks div 10 ^ (from - to))"
  using sdiv_floor [of "10 ^ (from - to)" ticks]
  by (cases "from = to") (auto simp: ScaleTicks_def PowerOfTen_le Let_def)

lemma ScaleTicks_up:
  "from < to \<Longrightarrow> to \<le> from + 18 \<Longrightarrow>
   ScaleTicks ticks from to =
     (if in_int64 (ticks * 10 ^ (to - from)) then Some (ticks * 10 ^ (to - from)) else None)"
  by (simp add: ScaleTicks_def PowerOfTen_le mul64_def)

section \<open>Properties\<close>

text \<open>
  Quoting cannot be escaped from: scanning the text of a quoted identifier or literal,
  followed by anything, gives back exactly the original string and what followed; and two
  qualified names are the same SQL only if their database and table names are the same.
\<close>

theorem quoting_safe:
  "ScanQuoted (CHR 0x60) (tl (QuoteIdentifier s @ rest)) = (s, rest) \<and>
   ScanQuoted (CHR 0x27) (tl (QuoteLiteral s @ rest)) = (s, rest) \<and>
   (QualifiedName d t = QualifiedName d' t') = (d = d' \<and> t = t')"
  using ident.scan_quote [of s rest] lit.scan_quote [of s rest]
  by (auto simp: QualifiedName_def ident.quote_append_inj ident.quote_inj)

lemma StripLoop_rtrim:
  assumes "RTrim U = rtrim_by c_isspace" and "sql = [] \<or> \<not> c_isspace (last sql)"
  shows "\<exists>r. StripLoop U sql = Some r \<and> prefix r sql \<and>
    (r = [] \<or> last r \<noteq> CHR '';'' \<and> \<not> c_isspace (last r))"
  using assms(2)
proof (induction sql rule: length_induct)
  case (1 sql)
  show ?case
  proof (cases "sql \<noteq> [] \<and> last sql = CHR '';''")
    case True
    let ?t = "rtrim_by c_isspace (butlast sql)"
    have "length ?t < length sql"
      using True rtrim_by_length [of c_isspace "butlast sql"] by (cases sql) auto
    moreover have "?t = [] \<or> \<not> c_isspace (last ?t)" by (rule rtrim_by_last)
    ultimately obtain r where r: "StripLoop U ?t = Some r" "prefix r ?t"
      "r = [] \<or> last r \<noteq> CHR '';'' \<and> \<not> c_isspace (last r)"
      using "1.IH" by blast
    have "prefix ?t sql"
      using rtrim_by_prefix [of c_isspace "butlast sql"] True
      by (metis append_butlast_last_id prefixI prefix_order.trans)
    with r True assms(1) show ?thesis
      by (auto simp: StripLoop.simps [of U sql] intro: prefix_order.trans)
  next
    case False
    with "1.prems" show ?thesis by (auto simp: StripLoop.simps [of U sql])
  qed
qed

text \<open>
  With DuckDB's documented \<open>RTrim\<close>, the clean-up loop of user SQL always ends; the result
  is a prefix of the input that ends neither in white space nor in a semicolon, so the wrapped
  query cannot contain a stray statement separator at its end.
\<close>

theorem StripTrailingSemicolons_ends:
  assumes "string_util_ok U"
  shows "\<exists>r. StripTrailingSemicolons U sql = Some r \<and> prefix r sql \<and>
    (r = [] \<or> last r \<noteq> CHR '';'' \<and> \<not> c_isspace (last r))"
proof -
  have "RTrim U = rtrim_by c_isspace" using assms by (simp add: string_util_laws)
  then show ?thesis
    using StripLoop_rtrim [of U "rtrim_by c_isspace sql"] rtrim_by_last [of c_isspace sql]
      rtrim_by_prefix [of c_isspace sql]
    by (auto simp: StripTrailingSemicolons_def intro: prefix_order.trans)
qed

theorem StripTrailingSemicolons_ends_witness:
  "\<exists>r. StripTrailingSemicolons duck_strings ''SELECT 1; ;'' = Some r \<and> prefix r ''SELECT 1; ;'' \<and>
    (r = [] \<or> last r \<noteq> CHR '';'' \<and> \<not> c_isspace (last r))"
  by (rule StripTrailingSemicolons_ends [OF duck_strings_ok])

text \<open>
  Rescaling ticks between precisions at most 18 digits apart: downwards it is the exact
  floor (also for instants before 1970, where C++ division truncates), upwards it is exact or
  leaves the 64-bit range, and rescaling up and back down is the identity.
\<close>

theorem ScaleTicks_correct:
  assumes "from \<le> 18" and "to \<le> 18"
  shows "(to \<le> from \<longrightarrow> ScaleTicks ticks from to = Some (ticks div 10 ^ (from - to))) \<and>
    (from < to \<longrightarrow> ScaleTicks ticks from to =
       (if in_int64 (ticks * 10 ^ (to - from)) then Some (ticks * 10 ^ (to - from)) else None)) \<and>
    (from \<le> to \<longrightarrow> ScaleTicks ticks from to = Some ticks' \<longrightarrow> ScaleTicks ticks' to from = Some ticks)"
proof (intro conjI impI)
  show "ScaleTicks ticks from to = Some (ticks div 10 ^ (from - to))" if "to \<le> from"
    using that assms by (intro ScaleTicks_down) auto
  show "ScaleTicks ticks from to =
      (if in_int64 (ticks * 10 ^ (to - from)) then Some (ticks * 10 ^ (to - from)) else None)"
    if "from < to" using that assms by (intro ScaleTicks_up) auto
  show "ScaleTicks ticks' to from = Some ticks"
    if "from \<le> to" "ScaleTicks ticks from to = Some ticks'"
  proof (cases "from = to")
    case False
    with that assms have "ticks' = ticks * 10 ^ (to - from)"
      by (auto simp: ScaleTicks_up split: if_splits)
    then show ?thesis using that assms by (simp add: ScaleTicks_down)
  qed (use that in \<open>simp add: ScaleTicks_def\<close>)
qed

theorem ScaleTicks_correct_witness:
  "ScaleTicks (- 1) 9 6 = Some (- 1) \<and> ScaleTicks (- 1) 6 9 = Some (- 1000) \<and>
   ScaleTicks (- 1000) 9 6 = Some (- 1)"
  using ScaleTicks_correct [of 9 6 "- 1" 0] ScaleTicks_correct [of 6 9 "- 1" "- 1000"]
  by (simp add: in_int64_def)

end
