(* ===== verification/Utf8.thy ===== *)
theory Utf8
  imports ChUtils
begin

text \<open>
  What \<open>IsValidUtf8\<close> decides: a byte sequence is accepted exactly when it is the
  concatenation of the UTF-8 encodings of Unicode scalar values. The encoder is the
  specification (RFC 3629), written on numbers and independent of the bit masks of the code.
\<close>

section \<open>The encoder\<close>

definition scalar_value :: "nat \<Rightarrow> bool" where
  "scalar_value n \<longleftrightarrow> n < 0xD800 \<or> 0xDFFF < n \<and> n \<le> 0x10FFFF"

definition encode_nat :: "nat \<Rightarrow> nat list" where
  "encode_nat n =
     (if n < 0x80 then [n]
      else if n < 0x800 then [0xC0 + n div 64, 0x80 + n mod 64]
      else if n < 0x10000 then [0xE0 + n div 4096, 0x80 + n div 64 mod 64, 0x80 + n mod 64]
      else [0xF0 + n div 262144, 0x80 + n div 4096 mod 64, 0x80 + n div 64 mod 64, 0x80 + n mod 64])"

definition encode :: "nat \<Rightarrow> 8 word list" where
  "encode n = map word_of_nat (encode_nat n)"

definition encode_all :: "nat list \<Rightarrow> 8 word list" where
  "encode_all ns = concat (map encode ns)"

section \<open>The masks of the code on numbers\<close>

lemma byte_cases:
  fixes b :: "8 word"
  assumes "list_all (\<lambda>n. P (word_of_nat n)) [0..<256]"
  shows "P b"
proof -
  have "unat b < 256" using unsigned_less [of b] by simp
  then have "P (word_of_nat (unat b))" using assms unfolding list_all_iff by (metis atLeastLessThan_iff set_upt zero_le)
  then show ?thesis by simp
qed

lemma lead2: "(b :: 8 word) AND 0xE0 = 0xC0 \<longleftrightarrow> unat b div 32 = 6"
  by (rule byte_cases) code_simp
lemma lead3: "(b :: 8 word) AND 0xF0 = 0xE0 \<longleftrightarrow> unat b div 16 = 14"
  by (rule byte_cases) code_simp
lemma lead4: "(b :: 8 word) AND 0xF8 = 0xF0 \<longleftrightarrow> unat b div 8 = 30"
  by (rule byte_cases) code_simp
lemma cont: "(b :: 8 word) AND 0xC0 = 0x80 \<longleftrightarrow> unat b div 64 = 2"
  by (rule byte_cases) code_simp

lemma mask_unat: "unat ((b :: 8 word) AND mask n) = unat b mod 2 ^ n"
proof -
  have "unat (b AND mask n) = take_bit n (unat b)"
    by (simp only: take_bit_eq_mask [symmetric] unsigned_take_bit_eq)
  then show ?thesis by (simp only: take_bit_eq_mod)
qed

lemma low_bits:
  "unat ((b :: 8 word) AND 0x1F) = unat b mod 32" "unat (b AND 0x0F) = unat b mod 16"
  "unat (b AND 0x07) = unat b mod 8" "unat (b AND 0x3F) = unat b mod 64"
  using mask_unat [of b 5] mask_unat [of b 4] mask_unat [of b 3] mask_unat [of b 6]
  by (simp_all add: mask_eq_exp_minus_1)

lemma append_bits:
  fixes cp :: "32 word" and x :: "8 word"
  assumes "unat cp < 2 ^ 26" and "unat x < 64"
  shows "unat (push_bit 6 cp OR ucast x) = unat cp * 64 + unat x"
proof -
  have x: "unat (ucast x :: 32 word) = unat x"
    using assms(2) by (simp add: unsigned_ucast_eq take_bit_eq_mod)
  have "unat (take_bit 6 (ucast x :: 32 word)) = take_bit 6 (unat x)"
    by (simp only: unsigned_take_bit_eq x)
  also have "\<dots> = unat (ucast x :: 32 word)"
    using assms(2) by (simp only: take_bit_eq_mod x) simp
  finally have t: "take_bit 6 (ucast x :: 32 word) = ucast x"
    by (simp only: unsigned_word_eqI)
  have "push_bit 6 cp AND take_bit 6 (ucast x :: 32 word) = 0"
    by (rule bit_eqI) (auto simp: bit_simps)
  then have "push_bit 6 cp OR ucast x = cp * 64 + ucast x"
    using t by (simp add: disjunctive_add_eq_or [symmetric] push_bit_eq_mult)
  moreover have "unat (cp * 64) = unat cp * 64"
    using assms(1) by (simp add: unat_word_ariths)
  ultimately show ?thesis
    using assms x by (simp add: unat_word_ariths)
qed


section \<open>The same check on numbers\<close>

lemma unat_ucast_byte: "unat (ucast (x :: 8 word) :: 32 word) = unat x"
proof -
  have "unat x < 2 ^ 8" using unsigned_less [of x] by simp
  then have "unat x < 2 ^ 32" by simp
  then show ?thesis by (simp add: unsigned_ucast_eq take_bit_nat_eq_self)
qed

definition lead_nat :: "nat \<Rightarrow> (nat \<times> nat) option" where
  "lead_nat c = (if c div 32 = 6 then Some (2, c mod 32) else if c div 16 = 14 then Some (3, c mod 16)
     else if c div 8 = 30 then Some (4, c mod 8) else None)"

fun continue_nat :: "nat \<Rightarrow> nat list \<Rightarrow> nat option" where
  "continue_nat n [] = Some n"
| "continue_nat n (b # bs) = (if b div 64 \<noteq> 2 then None else continue_nat (n * 64 + b mod 64) bs)"

definition reject_nat :: "nat \<Rightarrow> nat \<Rightarrow> bool" where
  "reject_nat len n \<longleftrightarrow> len = 2 \<and> n < 0x80 \<or> len = 3 \<and> n < 0x800 \<or> len = 4 \<and> n < 0x10000 \<or>
     0x10FFFF < n \<or> 0xD800 \<le> n \<and> n \<le> 0xDFFF"

function valid_nat :: "nat list \<Rightarrow> bool" where
  "valid_nat [] = True"
| "valid_nat (c # rest) =
     (if c < 0x80 then valid_nat rest
      else (case lead_nat c of None \<Rightarrow> False
            | Some (len, n) \<Rightarrow>
                if len > length (c # rest) then False
                else (case continue_nat n (take (len - 1) rest) of None \<Rightarrow> False
                      | Some n' \<Rightarrow> if reject_nat len n' then False else valid_nat (drop (len - 1) rest))))"
  by pat_completeness auto
termination
  by (relation "measure length") auto

lemma Utf8Lead_nat: "map_option (apsnd unat) (Utf8Lead c) = lead_nat (unat c)"
  by (simp add: Utf8Lead_def lead_nat_def lead2 lead3 lead4 unat_ucast_byte low_bits)

lemma Utf8Lead_bound: "Utf8Lead c = Some (len, cp) \<Longrightarrow> unat cp < 32 \<and> len \<le> 4"
  by (auto simp: Utf8Lead_def unat_ucast_byte low_bits split: if_splits
      intro: order_less_trans [OF mod_less_divisor])

lemma Utf8Continue_nat:
  "(unat cp + 1) * 64 ^ length bs \<le> 2 ^ 32 \<Longrightarrow>
   map_option unat (Utf8Continue cp bs) = continue_nat (unat cp) (map unat bs)"
proof (induction bs arbitrary: cp)
  case (Cons b bs)
  let ?cp = "push_bit 6 cp OR ucast (b AND 0x3F)"
  have "(unat cp + 1) * 64 * 1 \<le> (unat cp + 1) * 64 * 64 ^ length bs"
    by (rule mult_le_mono2) simp
  also have "\<dots> \<le> 2 ^ 32" using Cons.prems by (simp add: algebra_simps)
  finally have "unat cp < 2 ^ 26" by simp
  then have cp: "unat ?cp = unat cp * 64 + unat b mod 64"
    by (subst append_bits) (simp_all add: low_bits)
  then have "unat ?cp + 1 \<le> (unat cp + 1) * 64"
    by (simp add: Suc_le_eq)
  then have "(unat ?cp + 1) * 64 ^ length bs \<le> (unat cp + 1) * 64 * 64 ^ length bs"
    by (rule mult_le_mono1)
  also have "\<dots> \<le> 2 ^ 32" using Cons.prems by (simp add: algebra_simps)
  finally have "map_option unat (Utf8Continue ?cp bs) = continue_nat (unat ?cp) (map unat bs)"
    by (rule Cons.IH)
  then show ?case unfolding cp by (simp add: cont)
qed simp

lemma Utf8Reject_nat: "Utf8Reject len cp = reject_nat len (unat cp)"
  by (simp add: Utf8Reject_def reject_nat_def word_less_nat_alt word_le_nat_alt)

lemma IsValidUtf8_nat: "IsValidUtf8 bs = valid_nat (map unat bs)"
proof (induction bs rule: IsValidUtf8.induct)
  case (2 c rest)
  show ?case
  proof (cases "c < 0x80")
    case True
    with 2 show ?thesis by (simp add: word_less_nat_alt)
  next
    case False
    show ?thesis
    proof (cases "Utf8Lead c")
      case None
      with False Utf8Lead_nat [of c] show ?thesis by (simp add: word_less_nat_alt)
    next
      case (Some p)
      then obtain len cp where l: "Utf8Lead c = Some (len, cp)" by (cases p) auto
      then have ln: "lead_nat (unat c) = Some (len, unat cp)" using Utf8Lead_nat [of c] by simp
      let ?t = "take (len - 1) rest"
      have "length ?t \<le> 3" using Utf8Lead_bound [OF l] by auto
      then have "(64::nat) ^ length ?t \<le> 64 ^ 3" by (intro power_increasing) auto
      then have "(unat cp + 1) * 64 ^ length ?t \<le> 32 * 64 ^ 3"
        using Utf8Lead_bound [OF l] by (intro mult_le_mono) auto
      then have "map_option unat (Utf8Continue cp ?t) = continue_nat (unat cp) (map unat ?t)"
        by (intro Utf8Continue_nat) simp
      then have cn: "continue_nat (unat cp) (take (len - 1) (map unat rest)) =
          map_option unat (Utf8Continue cp ?t)" by (simp add: take_map)
      show ?thesis
      proof (cases "len \<le> length (c # rest) \<and> Utf8Continue cp ?t \<noteq> None")
        case True
        then obtain cp' where "Utf8Continue cp ?t = Some cp'" by auto
        with True False l ln cn 2(2) [OF False l refl] show ?thesis
          by (simp add: word_less_nat_alt Utf8Reject_nat drop_map)
      next
        case c: False
        with False l ln cn show ?thesis by (auto simp: word_less_nat_alt)
      qed
    qed
  qed
qed simp


section \<open>Decoding inverts encoding\<close>

lemma small_cases: "list_all P [0..<k] \<Longrightarrow> n < k \<Longrightarrow> P n"
  by (auto simp: list_all_iff)

lemma continuation_byte:
  "(128 + m mod 64) div 64 = (2::nat)" "(128 + m mod 64) mod 64 = (m mod 64 :: nat)"
proof -
  have "list_all (\<lambda>x. (128 + x) div 64 = (2::nat) \<and> (128 + x) mod 64 = x) [0..<64]" by code_simp
  from small_cases [OF this, of "m mod 64"]
  show "(128 + m mod 64) div 64 = (2::nat)" "(128 + m mod 64) mod 64 = (m mod 64 :: nat)" by simp_all
qed

lemma sextets:
  fixes n :: nat
  shows "n div 64 * 64 + n mod 64 = n"
    "n div 4096 * 4096 + n div 64 mod 64 * 64 + n mod 64 = n"
    "n div 262144 * 262144 + n div 4096 mod 64 * 4096 + n div 64 mod 64 * 64 + n mod 64 = n"
proof -
  have "n div 4096 = n div 64 div 64" "n div 262144 = n div 4096 div 64"
    using div_mult2_eq [of n 64 64] div_mult2_eq [of n 4096 64] by simp_all
  moreover note div_mult_mod_eq [of n 64] div_mult_mod_eq [of "n div 64" 64]
    div_mult_mod_eq [of "n div 4096" 64]
  ultimately show "n div 64 * 64 + n mod 64 = n"
    "n div 4096 * 4096 + n div 64 mod 64 * 64 + n mod 64 = n"
    "n div 262144 * 262144 + n div 4096 mod 64 * 4096 + n div 64 mod 64 * 64 + n mod 64 = n"
    by linarith+
qed

lemma lead_nat_bytes:
  "d < 32 \<Longrightarrow> lead_nat (192 + d) = Some (2, d)" "d < 16 \<Longrightarrow> lead_nat (224 + d) = Some (3, d)"
  "d < 8 \<Longrightarrow> lead_nat (240 + d) = Some (4, d)"
proof -
  have "list_all (\<lambda>d. lead_nat (192 + d) = Some (2, d)) [0..<32]"
    "list_all (\<lambda>d. lead_nat (224 + d) = Some (3, d)) [0..<16]"
    "list_all (\<lambda>d. lead_nat (240 + d) = Some (4, d)) [0..<8]" by code_simp+
  from this [THEN small_cases]
  show "d < 32 \<Longrightarrow> lead_nat (192 + d) = Some (2, d)" "d < 16 \<Longrightarrow> lead_nat (224 + d) = Some (3, d)"
    "d < 8 \<Longrightarrow> lead_nat (240 + d) = Some (4, d)" by simp_all
qed

lemma valid_nat_encode:
  assumes "scalar_value n"
  shows "valid_nat (encode_nat n @ rest) = valid_nat rest"
proof -
  consider "n < 0x80" | "0x80 \<le> n" "n < 0x800" | "0x800 \<le> n" "n < 0x10000" | "0x10000 \<le> n" by linarith
  then show ?thesis
  proof cases
    case 2
    then have "n div 64 < 32" by auto
    with 2 show ?thesis
      by (simp add: encode_nat_def lead_nat_bytes continuation_byte reject_nat_def)
  next
    case 3
    then have "n div 4096 < 16" by auto
    moreover have "(n div 4096 * 64 + n div 64 mod 64) * 64 + n mod 64 = n"
      using sextets(2) [of n] by (simp add: add_mult_distrib)
    ultimately show ?thesis using 3 assms
      by (auto simp: encode_nat_def lead_nat_bytes continuation_byte reject_nat_def scalar_value_def
          numeral_2_eq_2)
  next
    case 4
    then have m: "n \<le> 0x10FFFF" using assms by (auto simp: scalar_value_def)
    then have "n div 262144 < 8" by auto
    moreover have "((n div 262144 * 64 + n div 4096 mod 64) * 64 + n div 64 mod 64) * 64 + n mod 64 = n"
      using sextets(3) [of n] by (simp add: add_mult_distrib)
    ultimately show ?thesis using 4 m
      by (auto simp: encode_nat_def lead_nat_bytes continuation_byte reject_nat_def
          numeral_3_eq_3)
  qed (simp add: encode_nat_def)
qed


lemma high_part: "b div k = q \<Longrightarrow> b = q * k + b mod (k :: nat)"
  using div_mult_mod_eq [of b k] by simp

lemma sextet_split:
  fixes h x :: nat
  assumes "x < 64"
  shows "(h * 64 + x) div 64 = h" "(h * 64 + x) mod 64 = x"
  using assms by simp_all

lemma encode_nat_3:
  "0x800 \<le> n \<Longrightarrow> n < 0x10000 \<Longrightarrow> n div 4096 = a \<Longrightarrow> n div 64 mod 64 = b \<Longrightarrow> n mod 64 = d \<Longrightarrow>
   encode_nat n = [224 + a, 128 + b, 128 + d]"
  by (simp add: encode_nat_def)

lemma encode_nat_4:
  "0x10000 \<le> n \<Longrightarrow> n div 262144 = a \<Longrightarrow> n div 4096 mod 64 = b \<Longrightarrow> n div 64 mod 64 = d \<Longrightarrow>
   n mod 64 = e \<Longrightarrow> encode_nat n = [240 + a, 128 + b, 128 + d, 128 + e]"
  by (simp add: encode_nat_def)

lemma divs_64: "n div 4096 = n div 64 div (64::nat)" "n div 262144 = n div 64 div 64 div (64::nat)"
  using div_mult2_eq [of n 64 64] div_mult2_eq [of n 4096 64] by simp_all

lemma sextet_bound: "h < k \<Longrightarrow> x < 64 \<Longrightarrow> h * 64 + x < k * (64 :: nat)"
  by simp

lemma valid_nat_decode:
  assumes "valid_nat (c # rest)"
  shows "\<exists>n rest'. scalar_value n \<and> c # rest = encode_nat n @ rest' \<and> valid_nat rest'"
proof (cases "c < 0x80")
  case True
  with assms show ?thesis
    by (intro exI [of _ c] exI [of _ rest]) (simp add: scalar_value_def encode_nat_def)
next
  case False
  with assms obtain len m where l1: "lead_nat c = Some (len, m)" by (auto split: option.splits)
  moreover have "len \<le> length (c # rest)"
    using assms False l1 by (rule_tac ccontr) simp
  ultimately have l: "lead_nat c = Some (len, m)" "len \<le> length (c # rest)" by simp_all
  from l consider "c div 32 = 6" "len = 2" "m = c mod 32" | "c div 16 = 14" "len = 3" "m = c mod 16"
    | "c div 8 = 30" "len = 4" "m = c mod 8"
    by (auto simp: lead_nat_def split: if_splits)
  then show ?thesis
  proof cases
    case 1
    with l obtain b bs where r: "rest = b # bs" by (cases rest) auto
    let ?n = "c mod 32 * 64 + b mod 64"
    from assms False l 1 r have v: "b div 64 = 2" "\<not> reject_nat 2 ?n" "valid_nat bs"
      by (auto split: option.splits if_splits)
    have "c mod 32 < 32" "b mod 64 < 64" by simp_all
    then have "?n < 0x800" "?n div 64 = c mod 32" "?n mod 64 = b mod 64" by (simp_all add: sextet_split)
    moreover have "192 + c mod 32 = c" "128 + b mod 64 = b"
      using high_part [OF 1(1)] high_part [OF v(1)] by simp_all
    ultimately have "encode_nat ?n = [c, b]" "scalar_value ?n"
      using v(2) by (auto simp: encode_nat_def reject_nat_def scalar_value_def)
    with v r show ?thesis by (intro exI [of _ ?n] exI [of _ bs]) simp
  next
    case 2
    with l obtain b1 b2 bs where r: "rest = b1 # b2 # bs"
      by (cases rest; cases "tl rest") auto
    let ?h = "c mod 16 * 64 + b1 mod 64"
    let ?n = "?h * 64 + b2 mod 64"
    from assms False l 2 r have v: "b1 div 64 = 2" "b2 div 64 = 2" "\<not> reject_nat 3 ?n" "valid_nat bs"
      by (auto split: option.splits if_splits simp: numeral_2_eq_2)
    have s: "c mod 16 < 16" "b1 mod 64 < 64" "b2 mod 64 < 64" by simp_all
    have h: "?h div 64 = c mod 16" "?h mod 64 = b1 mod 64" by (rule sextet_split, rule s)+
    have n: "?n div 64 = ?h" "?n mod 64 = b2 mod 64" by (rule sextet_split, rule s)+
    have bytes: "224 + c mod 16 = c" "128 + b1 mod 64 = b1" "128 + b2 mod 64 = b2"
      using high_part [OF 2(1)] high_part [OF v(1)] high_part [OF v(2)] by simp_all
    have "?n < 0x10000" "0x800 \<le> ?n"
      using sextet_bound [OF sextet_bound [OF s(1,2)] s(3)] v(3) by (simp_all add: reject_nat_def)
    then have "encode_nat ?n = [c, b1, b2]"
      by (subst encode_nat_3 [OF _ _ refl refl refl]) (simp_all only: divs_64 n h bytes)
    moreover have "scalar_value ?n" using v(3) unfolding reject_nat_def scalar_value_def by linarith
    ultimately show ?thesis using v r by (intro exI [of _ ?n] exI [of _ bs]) simp
  next
    case 3
    with l obtain b1 b2 b3 bs where r: "rest = b1 # b2 # b3 # bs"
      by (cases rest; cases "tl rest"; cases "tl (tl rest)") auto
    let ?g = "c mod 8 * 64 + b1 mod 64"
    let ?h = "?g * 64 + b2 mod 64"
    let ?n = "?h * 64 + b3 mod 64"
    from assms False l 3 r have v: "b1 div 64 = 2" "b2 div 64 = 2" "b3 div 64 = 2"
      "\<not> reject_nat 4 ?n" "valid_nat bs"
      by (auto split: option.splits if_splits simp: numeral_3_eq_3)
    have s: "b1 mod 64 < 64" "b2 mod 64 < 64" "b3 mod 64 < 64" by simp_all
    have g: "?g div 64 = c mod 8" "?g mod 64 = b1 mod 64" by (rule sextet_split, rule s)+
    have h: "?h div 64 = ?g" "?h mod 64 = b2 mod 64" by (rule sextet_split, rule s)+
    have n: "?n div 64 = ?h" "?n mod 64 = b3 mod 64" by (rule sextet_split, rule s)+
    have bytes: "240 + c mod 8 = c" "128 + b1 mod 64 = b1" "128 + b2 mod 64 = b2"
      "128 + b3 mod 64 = b3"
      using high_part [OF 3(1)] high_part [OF v(1)] high_part [OF v(2)] high_part [OF v(3)] by simp_all
    have "0x10000 \<le> ?n" using v(4) by (simp add: reject_nat_def)
    then have "encode_nat ?n = [c, b1, b2, b3]"
      by (subst encode_nat_4 [OF _ refl refl refl refl]) (simp_all only: divs_64 n h g bytes)
    moreover have "scalar_value ?n" using v(4) unfolding reject_nat_def scalar_value_def by linarith
    ultimately show ?thesis using v r by (intro exI [of _ ?n] exI [of _ bs]) simp
  qed
qed

lemma valid_nat_iff:
  "valid_nat bs \<longleftrightarrow> (\<exists>ns. list_all scalar_value ns \<and> bs = concat (map encode_nat ns))"
proof
  show "valid_nat bs \<Longrightarrow> \<exists>ns. list_all scalar_value ns \<and> bs = concat (map encode_nat ns)"
  proof (induction bs rule: length_induct)
    case (1 bs)
    show ?case
    proof (cases bs)
      case (Cons c rest)
      with 1 obtain n rest' where n: "scalar_value n" "bs = encode_nat n @ rest'" "valid_nat rest'"
        using valid_nat_decode by metis
      have "encode_nat n \<noteq> []" by (simp add: encode_nat_def)
      with n have "length rest' < length bs" by simp
      with 1 n obtain ns where "list_all scalar_value ns" "rest' = concat (map encode_nat ns)" by blast
      with n show ?thesis by (intro exI [of _ "n # ns"]) simp
    qed (intro exI [of _ "[]"], simp)
  qed
  have "list_all scalar_value ns \<Longrightarrow> valid_nat (concat (map encode_nat ns))" for ns
    by (induction ns) (auto simp: valid_nat_encode)
  then show "\<exists>ns. list_all scalar_value ns \<and> bs = concat (map encode_nat ns) \<Longrightarrow> valid_nat bs" by auto
qed

lemma encode_nat_bytes: "scalar_value n \<Longrightarrow> \<forall>b\<in>set (encode_nat n). b < 256"
  by (auto simp: encode_nat_def scalar_value_def intro: order_less_trans [OF mod_less_divisor]
      less_mult_imp_div_less)

lemma unat_encode_all:
  "list_all scalar_value ns \<Longrightarrow> map unat (encode_all ns) = concat (map encode_nat ns)"
proof (induction ns)
  case (Cons n ns)
  then have "\<forall>b\<in>set (encode_nat n). b < 256" by (auto dest: encode_nat_bytes)
  then have "map unat (encode n) = encode_nat n"
    unfolding encode_def by (auto simp: unat_of_nat intro!: map_idI)
  with Cons show ?case by (simp add: encode_all_def)
qed (simp add: encode_all_def)


section \<open>The check decides well-formedness\<close>

text \<open>
  C33. \<open>IsValidUtf8\<close> accepts a byte string exactly when it is the concatenation of the UTF-8
  encodings of Unicode scalar values: no overlong form, no surrogate, nothing beyond U+10FFFF
  and no truncated sequence passes, and every well-formed text does.
\<close>

theorem IsValidUtf8_iff:
  "IsValidUtf8 bs = (\<exists>ns. list_all scalar_value ns \<and> bs = encode_all ns)"
proof -
  have "map unat bs = concat (map encode_nat ns) \<longleftrightarrow> bs = encode_all ns"
    if "list_all scalar_value ns" for ns
  proof -
    have "inj (unat :: 8 word \<Rightarrow> nat)" by (rule injI) (rule unsigned_word_eqI)
    then show ?thesis by (simp add: unat_encode_all [OF that, symmetric] inj_map_eq_map)
  qed
  then show ?thesis unfolding IsValidUtf8_nat valid_nat_iff by blast
qed

end
