(* ===== verification/TypeRoundtrip.thy ===== *)
theory TypeRoundtrip
  imports TypeParser
begin

text \<open>
  The specification of the type parser: ClickHouse types as an abstract syntax, a printer that
  writes them the way ClickHouse reports them, and the proof that parsing a printed type gives
  back exactly its tree, whatever is nested in it, up to the depth limit.
\<close>

section \<open>Abstract syntax and printer\<close>

datatype type_literal = LitNumber nat | LitString string | LitEnum string nat

datatype type_ast = TypeAst string "(string \<times> type_ast) list" "type_literal list"

fun literal_text :: "type_literal \<Rightarrow> string" where
  "literal_text (LitNumber n) = to_string n"
| "literal_text (LitString s) = QuoteLiteral s"
| "literal_text (LitEnum s n) = QuoteLiteral s @ '' = '' @ to_string n"

fun type_text :: "type_ast \<Rightarrow> string" where
  "type_text (TypeAst name kids lits) =
     (if kids = [] \<and> lits = [] then name
      else name @ ''('' @
        join_with (map (\<lambda>(f, t). (if f = [] then [] else QuoteIdentifier f @ '' '') @ type_text t) kids
                   @ map literal_text lits) '', '' @ '')'')"

fun type_tree :: "type_ast \<Rightarrow> type_node" where
  "type_tree (TypeAst name kids lits) =
     Node name (map (\<lambda>(f, t). type_tree t) kids) (map fst kids) (map literal_text lits)
       (type_text (TypeAst name kids lits))"

definition type_name_ok :: "string \<Rightarrow> bool" where
  "type_name_ok n \<longleftrightarrow> n \<noteq> [] \<and> (ascii_alpha (hd n) \<or> hd n = CHR ''_'') \<and>
     list_all (\<lambda>c. ascii_alpha c \<or> ascii_digit c \<or> c = CHR ''_'') n"

fun ast_ok :: "type_ast \<Rightarrow> bool" where
  "ast_ok (TypeAst name kids lits) \<longleftrightarrow> type_name_ok name \<and> list_all (\<lambda>(f, t). ast_ok t) kids"

fun ast_height :: "type_ast \<Rightarrow> nat" where
  "ast_height (TypeAst name kids lits) = Suc (foldr max (map (\<lambda>(f, t). ast_height t) kids) 0)"

section \<open>Texts the splitter passes over\<close>

text \<open>At depth at least \<open>d\<close> and outside quotes, the splitter copies the text and nothing else.\<close>

definition neutral :: "nat \<Rightarrow> string \<Rightarrow> bool" where
  "neutral d s \<longleftrightarrow> (\<forall>U ft rest depth cur res. d \<le> depth \<longrightarrow>
     SplitLoop U ft (s @ rest) depth None cur res = SplitLoop U ft rest depth None (cur @ s) res)"

lemma neutralD:
  "neutral d s \<Longrightarrow> d \<le> depth \<Longrightarrow>
   SplitLoop U ft (s @ rest) depth None cur res = SplitLoop U ft rest depth None (cur @ s) res"
  by (simp add: neutral_def)

lemma neutral_Nil: "neutral d []"
  by (simp add: neutral_def)

lemma neutral_append: "neutral d s \<Longrightarrow> neutral d t \<Longrightarrow> neutral d (s @ t)"
  by (simp add: neutral_def)

lemma neutral_mono: "neutral d s \<Longrightarrow> d \<le> d' \<Longrightarrow> neutral d' s"
  by (auto simp: neutral_def)

definition plain_char :: "char \<Rightarrow> bool" where
  "plain_char c \<longleftrightarrow> \<not> is_quote c \<and> c \<noteq> CHR ''('' \<and> c \<noteq> CHR '')'' \<and> c \<noteq> CHR '',''"

lemma neutral_plain: "list_all plain_char s \<Longrightarrow> neutral d s"
proof (induction s)
  case (Cons c s)
  then have "neutral d [c]" by (auto simp: neutral_def plain_char_def)
  with Cons neutral_append [of d "[c]" s] show ?case by simp
qed (simp add: neutral_Nil)

lemma neutral_comma: "neutral (Suc 0) '', ''"
  by (simp add: neutral_def is_quote_def)

lemma SplitLoop_quoted:
  assumes "q \<noteq> CHR 0x5C"
  shows "SplitLoop U ft (tl (QuoteWith s q) @ rest) depth (Some q) cur res =
    SplitLoop U ft rest depth None (cur @ tl (QuoteWith s q)) res"
proof (induction s arbitrary: cur)
  case (Cons c s)
  have tl: "tl (QuoteWith (c # s) q) =
      (if c = CHR 0x5C \<or> c = q then [CHR 0x5C, c] else [c]) @ tl (QuoteWith s q)"
    by (simp add: QuoteWith_def)
  show ?case
  proof (cases "c = CHR 0x5C \<or> c = q")
    case True
    then have "SplitLoop U ft (tl (QuoteWith (c # s) q) @ rest) depth (Some q) cur res =
        SplitLoop U ft (tl (QuoteWith s q) @ rest) depth (Some q) (cur @ [CHR 0x5C, c]) res"
      using assms by (simp add: tl)
    then show ?thesis using True by (simp add: Cons.IH tl)
  next
    case False
    then have "SplitLoop U ft (tl (QuoteWith (c # s) q) @ rest) depth (Some q) cur res =
        SplitLoop U ft (tl (QuoteWith s q) @ rest) depth (Some q) (cur @ [c]) res"
      by (simp add: tl)
    then show ?thesis using False by (simp add: Cons.IH tl)
  qed
qed (use assms in \<open>simp add: QuoteWith_def\<close>)

lemma neutral_QuoteWith:
  assumes "is_quote q"
  shows "neutral d (QuoteWith s q)"
proof -
  have "q \<noteq> CHR 0x5C" using assms by (auto simp: is_quote_def)
  then show ?thesis
    using assms SplitLoop_quoted [of q] by (simp add: neutral_def QuoteWith_def)
qed

lemma neutral_paren: "neutral (Suc 0) s \<Longrightarrow> neutral 0 (''('' @ s @ '')'')"
  by (simp add: neutral_def is_quote_def)

lemma neutral_join: "list_all (neutral (Suc 0)) args \<Longrightarrow> neutral (Suc 0) (join_with args '', '')"
  by (induction args "'', ''" rule: join_with.induct)
    (auto intro!: neutral_append neutral_comma simp: neutral_Nil simp del: append_Cons append.simps)

section \<open>Splitting a joined list gives the list back\<close>

definition trimmed :: "string \<Rightarrow> bool" where
  "trimmed a \<longleftrightarrow> a \<noteq> [] \<and> \<not> c_isspace (hd a) \<and> \<not> c_isspace (last a)"

lemma trim_trimmed: "trimmed a \<Longrightarrow> trim_by c_isspace a = a"
  by (simp add: trimmed_def trim_by_id)

lemma trim_space_trimmed: "trimmed a \<Longrightarrow> trim_by c_isspace (CHR '' '' # a) = a"
  using trim_trimmed [of a] by (simp add: trim_by_def c_isspace_def)

lemma SplitLoop_join:
  assumes "Trim U = trim_by c_isspace" and "args \<noteq> []" and "list_all (neutral 0) args"
    and "list_all trimmed args" and "cur = [] \<or> cur = '' ''"
  shows "SplitLoop U ft (join_with args '', '') 0 None cur res = Inr (res @ args)"
  using assms(2-)
proof (induction args "'', ''" arbitrary: cur res rule: join_with.induct)
  case (2 x)
  then show ?case
    using neutralD [of 0 x 0 U ft "[]"] assms(1)
    by (auto simp: TrimCopy_def trim_trimmed trim_space_trimmed)
next
  case (3 x y zs)
  have "SplitLoop U ft (join_with (x # y # zs) '', '') 0 None cur res =
      SplitLoop U ft ('','' @ '' '' @ join_with (y # zs) '', '') 0 None (cur @ x) res"
    using 3 neutralD [of 0 x 0] by simp
  also have "\<dots> = SplitLoop U ft (join_with (y # zs) '', '') 0 None '' '' (res @ [TrimCopy U (cur @ x)])"
    by (simp add: is_quote_def)
  also have "TrimCopy U (cur @ x) = x"
    using 3 assms(1) by (auto simp: TrimCopy_def trim_trimmed trim_space_trimmed)
  finally show ?case using 3 by simp
qed simp

section \<open>Names, literals and arguments\<close>

lemma name_char:
  "ascii_alpha c \<or> ascii_digit c \<or> c = CHR ''_'' \<Longrightarrow> plain_char c \<and> \<not> c_isspace c"
  by (auto simp: ascii_alpha_def ascii_digit_def plain_char_def is_quote_def c_isspace_def)

lemma type_name_okD:
  assumes "type_name_ok n"
  shows "n \<noteq> []" "neutral d n" "trimmed n" "\<forall>c\<in>set n. c \<noteq> CHR ''('' \<and> \<not> c_isspace c"
proof -
  have c: "\<forall>c\<in>set n. plain_char c \<and> \<not> c_isspace c"
    using assms name_char unfolding type_name_ok_def list_all_iff by blast
  then show "\<forall>c\<in>set n. c \<noteq> CHR ''('' \<and> \<not> c_isspace c" by (auto simp: plain_char_def)
  show ne: "n \<noteq> []" using assms by (simp add: type_name_ok_def)
  show "neutral d n" using c by (intro neutral_plain) (simp add: list_all_iff)
  show "trimmed n" using c ne by (simp add: trimmed_def)
qed

lemma digits_plain: "\<forall>c\<in>set (to_string n). plain_char c \<and> \<not> c_isspace c"
  using to_string_digits name_char by blast

lemma QuoteWith_ends: "QuoteWith s q \<noteq> []" "hd (QuoteWith s q) = q" "last (QuoteWith s q) = q"
  by (simp_all add: QuoteWith_def)

lemma literal_facts:
  "neutral d (literal_text l)" "trimmed (literal_text l)"
  "string_util_ok U \<Longrightarrow> IsLiteralArgument U (literal_text l)"
proof -
  have num: "neutral d (to_string n)" "trimmed (to_string n)"
    "string_util_ok U \<Longrightarrow> IsLiteralArgument U (to_string n)" for n
  proof -
    show "neutral d (to_string n)" "trimmed (to_string n)"
      using digits_plain [of n] by (auto simp: trimmed_def list_all_iff intro: neutral_plain)
    show "IsLiteralArgument U (to_string n)" if "string_util_ok U"
      using to_string_digits [of n] string_util_okD(2) [OF that]
      by (cases "to_string n") (auto simp: IsLiteralArgument_def)
  qed
  have q: "neutral d (QuoteLiteral s)" for s
    by (simp add: QuoteLiteral_def neutral_QuoteWith is_quote_def)
  have e: "neutral d '' = ''" by (rule neutral_plain) (simp add: plain_char_def is_quote_def)
  show "neutral d (literal_text l)"
    by (cases l) (simp_all add: num q neutral_append e del: append_Cons)
  show "trimmed (literal_text l)"
    using num(2) by (cases l)
      (auto simp: trimmed_def QuoteLiteral_def QuoteWith_ends c_isspace_def hd_append last_append)
  show "IsLiteralArgument U (literal_text l)" if "string_util_ok U"
    using num(3) [OF that]
    by (cases l) (auto simp: IsLiteralArgument_def QuoteLiteral_def QuoteWith_def)
qed


lemma type_text_facts:
  "ast_ok a \<Longrightarrow> neutral 0 (type_text a) \<and> trimmed (type_text a) \<and>
     (ascii_alpha (hd (type_text a)) \<or> hd (type_text a) = CHR ''_'')"
proof (induction a rule: type_text.induct)
  case (1 name kids lits)
  let ?arg = "\<lambda>(f, t). (if f = [] then [] else QuoteIdentifier f @ '' '') @ type_text t"
  let ?args = "map ?arg kids @ map literal_text lits"
  have name: "type_name_ok name" using "1.prems" by simp
  have "neutral (Suc 0) (?arg (f, t))" if "(f, t) \<in> set kids" for f t
  proof -
    have "neutral 0 (type_text t)"
      using "1.IH" "1.prems" that by (cases "kids = [] \<and> lits = []") (auto simp: list_all_iff)
    moreover have "neutral 0 (QuoteIdentifier f)"
      by (simp add: QuoteIdentifier_def neutral_QuoteWith is_quote_def)
    moreover have "neutral 0 '' ''" by (rule neutral_plain) (simp add: plain_char_def is_quote_def)
    ultimately have "neutral 0 (?arg (f, t))"
      by (auto intro!: neutral_append simp del: append_Cons simp: neutral_append neutral_Nil)
    then show ?thesis by (rule neutral_mono) simp
  qed
  then have "list_all (neutral (Suc 0)) ?args"
    using literal_facts(1) by (fastforce simp: list_all_iff)
  then have "neutral 0 (''('' @ join_with ?args '', '' @ '')'')"
    by (intro neutral_paren neutral_join)
  then have "neutral 0 (type_text (TypeAst name kids lits))"
    using type_name_okD(2) [OF name] neutral_append by fastforce
  moreover have "trimmed (type_text (TypeAst name kids lits))"
    using type_name_okD(1,3) [OF name] by (auto simp: trimmed_def last_append c_isspace_def)
  moreover have "ascii_alpha (hd (type_text (TypeAst name kids lits))) \<or>
      hd (type_text (TypeAst name kids lits)) = CHR ''_''"
    using name by (auto simp: type_name_ok_def)
  ultimately show ?case by blast
qed

lemma type_text_shape:
  assumes "ast_ok a"
  obtains name rest where "type_text a = name @ rest" "type_name_ok name"
    "rest = [] \<or> hd rest = CHR ''(''"
proof (cases a)
  case (TypeAst name kids lits)
  with assms have n: "type_name_ok name" by simp
  show thesis
  proof (cases "kids = [] \<and> lits = []")
    case True
    with TypeAst n that [of name "[]"] show thesis by simp
  next
    case False
    then have "\<exists>r. type_text a = name @ CHR ''('' # r" using TypeAst by auto
    with n that show thesis by fastforce
  qed
qed

lemma find_if_from_skip:
  "\<forall>c\<in>set xs. \<not> P c \<Longrightarrow> find_if_from P (xs @ ys) i = find_if_from P ys (i + length xs)"
  by (induction xs arbitrary: i) auto

lemma SplitFieldName_type:
  assumes "string_util_ok U" and "ast_ok a"
  shows "SplitFieldName U (type_text a) = ([], type_text a)"
proof -
  obtain name rest where s: "type_text a = name @ rest" "type_name_ok name" "rest = [] \<or> hd rest = CHR ''(''"
    using type_text_shape [OF assms(2)] by blast
  let ?P = "\<lambda>c. c = CHR ''('' \<or> CharacterIsSpace U c"
  have h: "hd (type_text a) \<noteq> CHR 0x60" "hd (type_text a) \<noteq> CHR 0x22"
    using type_text_facts [OF assms(2)] by (auto simp: ascii_alpha_def)
  have "\<forall>c\<in>set name. \<not> ?P c"
    using type_name_okD(4) [OF s(2)] by (simp add: string_util_okD(1) [OF assms(1)])
  then have "find_if_from ?P (type_text a) 0 = find_if_from ?P rest (length name)"
    unfolding s(1) by (simp add: find_if_from_skip)
  then have "find_if_from ?P (type_text a) 0 = None \<or>
      (\<exists>i. find_if_from ?P (type_text a) 0 = Some i \<and> type_text a ! i = CHR ''('')"
    using s(1,3) by (cases rest) (auto simp: nth_append)
  then show ?thesis
  proof
    assume "find_if_from ?P (type_text a) 0 = None"
    then show ?thesis using h by (simp add: SplitFieldName_def del: find_if_from_None)
  next
    assume "\<exists>i. find_if_from ?P (type_text a) 0 = Some i \<and> type_text a ! i = CHR ''(''"
    then show ?thesis using h by (elim exE conjE) (simp add: SplitFieldName_def)
  qed
qed

lemma SplitFieldName_named:
  assumes "string_util_ok U" and "ast_ok a"
  shows "SplitFieldName U (QuoteIdentifier f @ '' '' @ type_text a) = (f, type_text a)"
proof -
  have h: "\<exists>r. QuoteIdentifier f @ '' '' @ type_text a = CHR 0x60 # r"
    by (simp add: QuoteIdentifier_def QuoteWith_def)
  have t: "trimmed (type_text a)" using type_text_facts [OF assms(2)] by blast
  then have tr: "TrimCopy U (CHR '' '' # type_text a) = type_text a"
    by (simp add: TrimCopy_def string_util_okD(6) [OF assms(1)] trim_space_trimmed)
  from h obtain r where r: "QuoteIdentifier f @ '' '' @ type_text a = CHR 0x60 # r" by blast
  have "ScanQuoted (CHR 0x60) r = (f, '' '' @ type_text a)"
    using ident.scan_quote [of f "'' '' @ type_text a"] unfolding r by simp
  then show ?thesis
    unfolding r using t tr by (simp add: SplitFieldName_def trimmed_def)
qed

lemma arg_facts:
  fixes f :: string
  assumes "string_util_ok U" and "ast_ok t"
  defines "a \<equiv> (if f = [] then [] else QuoteIdentifier f @ '' '') @ type_text t"
  shows "neutral 0 a \<and> trimmed a \<and> \<not> IsLiteralArgument U a \<and> SplitFieldName U a = (f, type_text t)"
proof -
  note t = type_text_facts [OF assms(2)]
  have q: "neutral 0 (QuoteIdentifier f @ '' '')"
    unfolding QuoteIdentifier_def
    by (rule neutral_append [OF neutral_QuoteWith neutral_plain])
      (simp_all add: is_quote_def plain_char_def)
  have "neutral 0 a" using t neutral_append [OF q] by (auto simp: a_def)
  moreover have "trimmed a"
    using t by (auto simp: a_def trimmed_def QuoteIdentifier_def QuoteWith_def c_isspace_def last_append)
  moreover have "hd a = CHR 0x60 \<or> ascii_alpha (hd a) \<or> hd a = CHR ''_''"
    using t by (auto simp: a_def QuoteIdentifier_def QuoteWith_def)
  then have "\<not> IsLiteralArgument U a"
    by (cases a) (auto simp: IsLiteralArgument_def string_util_okD(2) [OF assms(1)] ascii_alpha_def
        ascii_digit_def)
  moreover have "SplitFieldName U a = (f, type_text t)"
    using SplitFieldName_type [OF assms(1,2)] SplitFieldName_named [OF assms(1,2)] by (simp add: a_def)
  ultimately show ?thesis by blast
qed

section \<open>Parsing inverts printing\<close>

lemma mapE_maps:
  assumes "\<And>x. x \<in> set xs \<Longrightarrow> p (g x) = Inr (h x)" "\<And>y. y \<in> set ys \<Longrightarrow> p (g' y) = Inr (h' y)"
  shows "mapE p (map g xs @ map g' ys) = Inr (map h xs @ map h' ys)"
proof -
  have "list_all2 (\<lambda>x y. p x = Inr y) (map g xs @ map g' ys) (map h xs @ map h' ys)"
    using assms by (intro list_all2_appendI) (auto simp: list_all2_conv_all_nth)
  then show ?thesis by (simp only: mapE_eq_Inr)
qed

lemma trim_by_nonempty: "s \<noteq> [] \<Longrightarrow> \<not> p (hd s) \<Longrightarrow> trim_by p s \<noteq> []"
  by (cases s) (auto simp: trim_by_def rtrim_by_def)

lemma parsed_parts:
  "map snd (concat (map (case_sum (\<lambda>_. []) (\<lambda>p. [p])) (map (\<lambda>(f, t). Inr (f, g t)) kids @ map (\<lambda>l. Inl (k l)) lits))) =
   map (\<lambda>(f, t). g t) kids"
  "map fst (concat (map (case_sum (\<lambda>_. []) (\<lambda>p. [p])) (map (\<lambda>(f, t). Inr (f, g t)) kids @ map (\<lambda>l. Inl (k l)) lits))) =
   map fst kids"
  "concat (map (case_sum (\<lambda>l. [l]) (\<lambda>_. [])) (map (\<lambda>(f, t). Inr (f, g t)) kids @ map (\<lambda>l. Inl (k l)) lits)) = map k lits"
  by (induction kids; induction lits; auto)+

lemma ParseInternal_type_text:
  assumes "string_util_ok U"
  shows "ast_ok a \<Longrightarrow> ast_height a + depth \<le> Suc MAX_TYPE_NESTING_DEPTH \<Longrightarrow>
    ParseInternal U (type_text a) depth = Inr (type_tree a)"
proof (induction a arbitrary: depth rule: type_tree.induct)
  case (1 name kids lits)
  let ?arg = "\<lambda>(f, t). (if f = [] then [] else QuoteIdentifier f @ '' '') @ type_text t"
  let ?args = "map ?arg kids @ map literal_text lits"
  let ?t = "type_text (TypeAst name kids lits)"
  have d: "depth \<le> MAX_TYPE_NESTING_DEPTH" using "1.prems"(2) by simp
  have name: "type_name_ok name" using "1.prems"(1) by simp
  have tt: "trimmed ?t" using type_text_facts [OF "1.prems"(1)] by blast
  have trim: "TrimCopy U x = trim_by c_isspace x" for x
    by (simp add: TrimCopy_def string_util_okD(6) [OF assms])
  have t: "TrimCopy U ?t = ?t" "?t \<noteq> []"
    using tt by (simp_all add: trim trim_trimmed trimmed_def)
  show ?case
  proof (cases "kids = [] \<and> lits = []")
    case True
    then have "str_find ?t (CHR ''('') = None"
      using type_name_okD(4) [OF name] by (auto simp: str_find_def)
    with d t True show ?thesis
      by (simp add: ParseInternal.simps [of U name depth] Let_def)
  next
    case False
    let ?inner = "join_with ?args '', ''"
    have tx: "?t = name @ ''('' @ ?inner @ '')''" using False by auto
    have find: "str_find ?t (CHR ''('') = Some (length name)"
      unfolding tx str_find_def using type_name_okD(4) [OF name] by (simp add: find_if_from_skip)
    have inner: "substr ?t (Suc (length name)) (length ?t - length name - 2) = ?inner"
      unfolding tx substr_def by simp
    have nm: "TrimCopy U (take (length name) ?t) = name"
      unfolding tx using type_name_okD(3) [OF name] by (simp add: trim trim_trimmed)
    have kid: "neutral 0 (?arg (f, t)) \<and> trimmed (?arg (f, t)) \<and> \<not> IsLiteralArgument U (?arg (f, t)) \<and>
        SplitFieldName U (?arg (f, t)) = (f, type_text t)"
      if "(f, t) \<in> set kids" for f t
      using arg_facts [OF assms, of t f] "1.prems"(1) that by (auto simp: list_all_iff)
    have "SplitArguments U ?inner ?t = Inr ([] @ ?args)"
      unfolding SplitArguments_def
    proof (rule SplitLoop_join)
      show "Trim U = trim_by c_isspace" by (rule string_util_okD(6) [OF assms])
      show "?args \<noteq> []" using False by simp
      show "list_all (neutral 0) ?args"
        using kid literal_facts(1) by (fastforce simp: list_all_iff)
      show "list_all trimmed ?args"
        using kid literal_facts(2) by (fastforce simp: list_all_iff)
    qed simp
    then have split: "SplitArguments U ?inner ?t = Inr ?args" by simp
    have last_t: "last ?t = CHR '')''" unfolding tx by simp
    have inner_ne: "TrimCopy U ?inner \<noteq> []"
    proof -
      obtain x xs where args: "?args = x # xs" using False by (cases ?args) auto
      have "trimmed x"
        using args kid literal_facts(2) by (cases kids) (auto simp: Cons_eq_map_conv)
      then have "?inner \<noteq> [] \<and> \<not> c_isspace (hd ?inner)"
        unfolding args by (cases xs) (auto simp: trimmed_def)
      then show ?thesis by (simp add: trim trim_by_nonempty)
    qed
    let ?parse = "\<lambda>argument. if argument = [] then Inl (MalformedType ?t)
       else if IsLiteralArgument U argument then Inr (Inl argument)
       else (let (field_name, child_text) = SplitFieldName U argument in
             bindE (ParseInternal U child_text (Suc depth)) (\<lambda>child. Inr (Inr (field_name, child))))"
    let ?parsed = "map (\<lambda>(f, t). Inr (f, type_tree t)) kids @ map (\<lambda>l. Inl (literal_text l)) lits"
    have "?parse (?arg (f, t)) = Inr (Inr (f, type_tree t))" if "(f, t) \<in> set kids" for f t
    proof -
      have h: "ast_height t + Suc depth \<le> Suc MAX_TYPE_NESTING_DEPTH"
        using "1.prems"(2) that foldr_max_le [of "map (\<lambda>(f, t). ast_height t) kids"
            "foldr max (map (\<lambda>(f, t). ast_height t) kids) 0"] by force
      have "ast_ok t" using "1.prems"(1) that by (auto simp: list_all_iff)
      then have "ParseInternal U (type_text t) (Suc depth) = Inr (type_tree t)"
        using "1.IH" [OF that refl _ h] by simp
      then show ?thesis using kid [OF that] by (simp add: trimmed_def del: split_conv case_prod_conv)
    qed
    moreover have "?parse (literal_text l) = Inr (Inl (literal_text l))" for l
      using literal_facts(2) [of l] literal_facts(3) [OF assms] by (simp add: trimmed_def)
    ultimately have "mapE ?parse ?args = Inr ?parsed"
      by (intro mapE_maps) (auto simp only: split: prod.split)
    moreover have "map snd (concat (map (case_sum (\<lambda>_. []) (\<lambda>p. [p])) ?parsed)) = map (\<lambda>(f, t). type_tree t) kids"
      by (rule parsed_parts)
    moreover have "map fst (concat (map (case_sum (\<lambda>_. []) (\<lambda>p. [p])) ?parsed)) = map fst kids"
      by (rule parsed_parts)
    moreover have "concat (map (case_sum (\<lambda>l. [l]) (\<lambda>_. [])) ?parsed) = map literal_text lits"
      by (rule parsed_parts)
    ultimately show ?thesis
      using d t(2) find inner nm split last_t inner_ne
      by (subst ParseInternal.simps) (simp only: t(1), simp add: Let_def)
  qed
qed


definition sample_ast :: type_ast where
  "sample_ast = TypeAst ''Tuple'' [(''a ,(b'', TypeAst ''DateTime64'' [] [LitNumber 3, LitString ''Europe/Paris'']),
     ([], TypeAst ''Enum8'' [] [LitEnum ''its'' 1])] []"


text \<open>
  The parser is bounded and its trees are well formed: a successful \<open>Parse\<close> returns a tree
  of at most 65 levels (so every later recursion over type trees is bounded), with one field name
  per child, no empty node text and no empty literal, whatever the input text.
\<close>

theorem Parse_bounded:
  "Parse U txt = Inr node \<Longrightarrow> node_height node \<le> Suc MAX_TYPE_NESTING_DEPTH \<and> node_wf node"
  unfolding Parse_def by (drule ParseInternal_bounded) simp

theorem Parse_bounded_witness:
  "node_height (type_tree sample_ast) \<le> Suc MAX_TYPE_NESTING_DEPTH \<and> node_wf (type_tree sample_ast)"
proof -
  have "Parse duck_strings (type_text sample_ast) = Inr (type_tree sample_ast)" by code_simp
  then show ?thesis by (rule Parse_bounded)
qed

end
