(* ===== verification/DuckTypes.thy ===== *)
theory DuckTypes
  imports Prelude
begin

text \<open>
  DuckDB's \<open>LogicalType\<close> as far as the sources construct and inspect it: one constructor per
  \<open>LogicalTypeId\<close> they name, with the type parameters they read (\<open>DecimalType\<close>, \<open>ListType\<close>,
  \<open>StructType\<close>, \<open>MapType\<close>, \<open>EnumType\<close>). \<open>JSON\<close> is the \<open>VARCHAR\<close> for which \<open>IsJSONType()\<close> holds;
  \<open>UnknownType\<close> stands for every id the sources do not name.

  DuckDB's own predicates on types and its text form of a type are a parameter: the record
  \<open>type_api\<close>, with the documented behaviour as the hypothesis \<open>type_api_ok\<close>.
\<close>

datatype logical_type =
    BOOLEAN | TINYINT | SMALLINT | INTEGER | BIGINT | UTINYINT | USMALLINT | UINTEGER | UBIGINT
  | HUGEINT | UHUGEINT | FLOAT | DOUBLE | DECIMAL nat nat | VARCHAR | JSON | BLOB | DATE
  | TIME | TIME_NS | TIME_TZ | TIMESTAMP_SEC | TIMESTAMP_MS | TIMESTAMP | TIMESTAMP_NS | TIMESTAMP_TZ
  | UUID | SQLNULL | ENUM "string list" | LIST logical_type | ARRAY logical_type nat
  | STRUCT "(string \<times> logical_type) list" | TUPLE "(string \<times> logical_type) list"
  | MAP logical_type logical_type | UNION_TYPE "(string \<times> logical_type) list" | UnknownType string

record type_api =
  IsIntegral :: "logical_type \<Rightarrow> bool"
  IsFloating :: "logical_type \<Rightarrow> bool"
  IsNumeric :: "logical_type \<Rightarrow> bool"
  IsUnnamed :: "logical_type \<Rightarrow> bool"
  type_ToString :: "logical_type \<Rightarrow> string"
  IsSigned :: "logical_type \<Rightarrow> bool"
  SameFieldName :: "string \<Rightarrow> string \<Rightarrow> bool"

definition integral_types :: "logical_type list" where
  "integral_types = [TINYINT, SMALLINT, INTEGER, BIGINT, HUGEINT, UTINYINT, USMALLINT, UINTEGER, UBIGINT, UHUGEINT]"

definition is_decimal :: "logical_type \<Rightarrow> bool" where
  "is_decimal t = (case t of DECIMAL w s \<Rightarrow> True | _ \<Rightarrow> False)"

definition type_api_ok :: "type_api \<Rightarrow> bool" where
  "type_api_ok T \<longleftrightarrow>
     (\<forall>t. IsIntegral T t \<longleftrightarrow> t \<in> set integral_types) \<and>
     (\<forall>t. IsFloating T t \<longleftrightarrow> t = FLOAT \<or> t = DOUBLE) \<and>
     (\<forall>t. IsNumeric T t \<longleftrightarrow> IsIntegral T t \<or> IsFloating T t \<or> is_decimal t) \<and>
     (\<forall>t\<in>set integral_types. IsSigned T t \<longleftrightarrow> t \<in> set [TINYINT, SMALLINT, INTEGER, BIGINT, HUGEINT]) \<and>
     (\<forall>n. SameFieldName T n n)"

definition duck_types :: type_api where
  "duck_types = \<lparr>IsIntegral = (\<lambda>t. t \<in> set integral_types), IsFloating = (\<lambda>t. t = FLOAT \<or> t = DOUBLE),
     IsNumeric = (\<lambda>t. t \<in> set integral_types \<or> t = FLOAT \<or> t = DOUBLE \<or> is_decimal t),
     IsUnnamed = (\<lambda>t. case t of STRUCT fs \<Rightarrow> fs \<noteq> [] \<and> fst (hd fs) = [] | TUPLE fs \<Rightarrow> True | _ \<Rightarrow> False),
     type_ToString = (\<lambda>t. ''TYPE''),
     IsSigned = (\<lambda>t. t \<in> set [TINYINT, SMALLINT, INTEGER, BIGINT, HUGEINT]), SameFieldName = (=)\<rparr>"

lemma duck_types_ok: "type_api_ok duck_types"
  by (auto simp: type_api_ok_def duck_types_def)

lemma type_api_okD:
  assumes "type_api_ok T"
  shows "IsIntegral T t \<longleftrightarrow> t \<in> set integral_types" "IsFloating T t \<longleftrightarrow> t = FLOAT \<or> t = DOUBLE"
    "IsNumeric T t \<longleftrightarrow> t \<in> set integral_types \<or> t = FLOAT \<or> t = DOUBLE \<or> is_decimal t"
  using assms by (auto simp: type_api_ok_def)

end
