(* ===== verification/Types.thy ===== *)
theory Types
  imports TypeRoundtrip DuckTypes
begin

text \<open>
  The second part of \<open>src/src/clickhouse_types.cpp\<close>: what a parsed ClickHouse type means. The
  DuckDB type it is read as, the expression that reads a column in a form the conversion code
  decodes, and the predicates that decide which filters ClickHouse may evaluate.
\<close>

section \<open>Helpers\<close>

lemma size_child: "c \<in> set (node_children node) \<Longrightarrow> size c < size node"
  by (cases node) (auto dest: size_list_estimation' [where f = size, OF _ order.refl])

function Unwrap :: "type_node \<Rightarrow> type_node" where
  "Unwrap node =
     (if (node_name node = ''Nullable'' \<or> node_name node = ''LowCardinality'') \<and>
         length (node_children node) = 1
      then Unwrap (hd (node_children node))
      else if node_name node = ''SimpleAggregateFunction'' \<and> node_children node \<noteq> []
      then Unwrap (last (node_children node))
      else node)"
  by pat_completeness auto
termination
proof (relation "measure size", goal_cases)
  case (2 node)
  then have "node_children node \<noteq> []" by auto
  then show ?case using size_child by simp
qed (simp_all add: size_child)

declare Unwrap.simps [simp del]

lemma Unwrap_cases:
  obtains c where "c \<in> set (node_children node)" "Unwrap node = Unwrap c" | "Unwrap node = node"
proof (cases "(node_name node = ''Nullable'' \<or> node_name node = ''LowCardinality'') \<and>
    length (node_children node) = 1")
  case True
  then have "hd (node_children node) \<in> set (node_children node)" by (cases "node_children node") auto
  moreover have "Unwrap node = Unwrap (hd (node_children node))"
    using True by (subst Unwrap.simps) (simp only: if_True simp_thms)
  ultimately show thesis by (rule that(1))
next
  case False
  show thesis
  proof (cases "node_name node = ''SimpleAggregateFunction'' \<and> node_children node \<noteq> []")
    case True
    then have "last (node_children node) \<in> set (node_children node)" by simp
    moreover have "Unwrap node = Unwrap (last (node_children node))"
      using False True by (subst Unwrap.simps) (simp only: if_True if_False simp_thms)
    ultimately show thesis by (rule that(1))
  next
    case F: False
    have "Unwrap node = node"
      using False F by (subst Unwrap.simps) (simp only: if_False simp_thms)
    then show thesis by (rule that(2))
  qed
qed

lemma Unwrap_size: "size (Unwrap node) \<le> size node"
proof (induction node rule: measure_induct_rule [of size])
  case (less node)
  show ?case
    by (rule Unwrap_cases [of node]) (use less size_child in \<open>force+\<close>)
qed

lemma Unwrap_child_size: "c \<in> set (node_children (Unwrap node)) \<Longrightarrow> size c < size node"
  using size_child Unwrap_size order.strict_trans2 by blast

text \<open>No wrapper is left: unwrapping again changes nothing.\<close>

lemma Unwrap_idem: "Unwrap (Unwrap node) = Unwrap node"
proof (induction node rule: measure_induct_rule [of size])
  case (less node)
  show ?case
    by (rule Unwrap_cases [of node]) (use less size_child in \<open>simp_all\<close>)
qed

definition ParseIntegerLiteral :: "type_node \<Rightarrow> nat \<Rightarrow> int \<Rightarrow> int res" where
  "ParseIntegerLiteral node index default_value =
     (if index \<ge> length (node_literals node) then Inr default_value
      else (case stoll (node_literals node ! index) of
              None \<Rightarrow> Inl (MalformedType (node_text node))
            | Some v \<Rightarrow> Inr v))"

text \<open>Width and scale of a decimal type, \<open>None\<close> for any other type (the source's \<open>false\<close>).\<close>

definition GetDecimalInfo :: "type_node \<Rightarrow> (nat \<times> nat) option res" where
  "GetDecimalInfo node =
     (let checked = (\<lambda>raw_width raw_scale.
            if raw_width < 1 \<or> raw_width > 76 \<or> raw_scale < 0 \<or> raw_scale > raw_width
            then Inl (MalformedType (node_text node))
            else Inr (Some (nat raw_width, nat raw_scale)));
          fixed = (\<lambda>raw_width. bindE (ParseIntegerLiteral node 0 0) (\<lambda>raw_scale. checked raw_width raw_scale))
      in if node_name node = ''Decimal'' then
           bindE (ParseIntegerLiteral node 0 10) (\<lambda>raw_width.
           bindE (ParseIntegerLiteral node 1 0) (\<lambda>raw_scale. checked raw_width raw_scale))
         else if node_name node = ''Decimal32'' then fixed 9
         else if node_name node = ''Decimal64'' then fixed 18
         else if node_name node = ''Decimal128'' then fixed 38
         else if node_name node = ''Decimal256'' then fixed 76
         else Inr None)"

lemma GetDecimalInfo_bounds:
  "GetDecimalInfo node = Inr (Some (width, scale)) \<Longrightarrow> 1 \<le> width \<and> width \<le> 76 \<and> scale \<le> width"
  by (auto simp: GetDecimalInfo_def Let_def split: if_splits)

lemma GetDecimalInfo_None:
  "node_name node \<notin> {''Decimal'', ''Decimal32'', ''Decimal64'', ''Decimal128'', ''Decimal256''} \<Longrightarrow>
   GetDecimalInfo node = Inr None"
  by (simp add: GetDecimalInfo_def Let_def)

section \<open>Enum entries\<close>

definition unescape_char :: "char \<Rightarrow> char" where
  "unescape_char escaped =
     (if escaped = CHR ''n'' then CHR 0x0A else if escaped = CHR ''t'' then CHR 0x09
      else if escaped = CHR ''r'' then CHR 0x0D else if escaped = CHR ''0'' then CHR 0x00 else escaped)"

text \<open>The label after the opening quote, whether it was closed, and the rest of the literal.\<close>

fun ScanLabel :: "string \<Rightarrow> string \<times> bool \<times> string" where
  "ScanLabel [] = ([], False, [])"
| "ScanLabel [c] = (if c = CHR 0x27 then ([], True, []) else ([c], False, []))"
| "ScanLabel (c # d # cs) =
     (if c = CHR 0x5C then (let (label, closed, rest) = ScanLabel cs in (unescape_char d # label, closed, rest))
      else if c = CHR 0x27 then ([], True, d # cs)
      else (let (label, closed, rest) = ScanLabel (d # cs) in (c # label, closed, rest)))"

definition ParseEnumEntry :: "string_util \<Rightarrow> string \<Rightarrow> nat \<Rightarrow> string \<Rightarrow> (string \<times> int) res" where
  "ParseEnumEntry U node_txt i lit =
     (if lit = [] \<or> hd lit \<noteq> CHR 0x27 then Inl (MalformedType node_txt)
      else (let (label, closed, raw) = ScanLabel (tl lit) in
        if \<not> closed then Inl (MalformedType node_txt)
        else (let rest = TrimCopy U raw in
          if rest = [] then Inr (label, int (Suc i))
          else if hd rest \<noteq> CHR ''='' then Inl (MalformedType node_txt)
          else (case stoll (TrimCopy U (tl rest)) of
                  None \<Rightarrow> Inl (MalformedType node_txt)
                | Some v \<Rightarrow> Inr (label, v)))))"

definition ParseEnumEntries :: "string_util \<Rightarrow> type_node \<Rightarrow> (string \<times> int) list res" where
  "ParseEnumEntries U node =
     bindE (mapE (\<lambda>(i, lit). ParseEnumEntry U (node_text node) i lit) (enumerate 0 (node_literals node)))
       (\<lambda>entries. Inr (sort_key snd entries))"

section \<open>Type families\<close>

definition IsSemiStructured :: "string \<Rightarrow> bool" where
  "IsSemiStructured name \<longleftrightarrow> name \<in> set [''JSON'', ''Object'', ''Variant'', ''Dynamic'']"

definition IsGeoType :: "string \<Rightarrow> bool" where
  "IsGeoType name \<longleftrightarrow> name \<in> set [''Point'', ''Ring'', ''LineString'', ''MultiLineString'', ''Polygon'',
     ''MultiPolygon'', ''Geometry'']"

definition NATIVE_TYPES :: "string list" where
  "NATIVE_TYPES = [''Bool'', ''Int8'', ''Int16'', ''Int32'', ''Int64'', ''UInt8'', ''UInt16'', ''UInt32'',
     ''UInt64'', ''Int128'', ''UInt128'', ''Float32'', ''Float64'', ''String'', ''FixedString'', ''Date'',
     ''Date32'', ''DateTime'', ''DateTime64'', ''Time'', ''Time64'', ''UUID'', ''Enum8'', ''Enum16'',
     ''Nothing'', ''AggregateFunction'']"

definition IsNativeScalar :: "string \<Rightarrow> bool" where
  "IsNativeScalar name \<longleftrightarrow> name \<in> set NATIVE_TYPES"

section \<open>The DuckDB type of a ClickHouse type\<close>

text \<open>The names that map to a fixed type before decimals are looked at.\<close>

definition fixed_types :: "(string \<times> logical_type) list" where
  "fixed_types = [(''Bool'', BOOLEAN), (''Int8'', TINYINT), (''Int16'', SMALLINT), (''Int32'', INTEGER),
     (''Int64'', BIGINT), (''UInt8'', UTINYINT), (''UInt16'', USMALLINT), (''UInt32'', UINTEGER),
     (''UInt64'', UBIGINT), (''Int128'', HUGEINT), (''UInt128'', UHUGEINT), (''Float32'', FLOAT),
     (''BFloat16'', FLOAT), (''Float64'', DOUBLE)]"

text \<open>\<open>ClickhouseColumnType\<close>: the type and whether values of it can be read at all.\<close>

function ToDuckDB :: "string_util \<Rightarrow> type_node \<Rightarrow> (logical_type \<times> bool) res" where
  "ToDuckDB U node =
     (let type = Unwrap node; name = node_name type; children = node_children type in
      case map_of fixed_types name of
        Some t \<Rightarrow> Inr (t, True)
      | None \<Rightarrow>
        bindE (GetDecimalInfo type) (\<lambda>info. case info of
          Some (width, scale) \<Rightarrow> Inr (if width \<le> 38 then DECIMAL width scale else VARCHAR, True)
        | None \<Rightarrow>
          if name = ''String'' \<or> name = ''FixedString'' then Inr (VARCHAR, True)
          else if name = ''Date'' \<or> name = ''Date32'' then Inr (DATE, True)
          else if name = ''DateTime'' \<or> name = ''DateTime64'' then Inr (TIMESTAMP_TZ, True)
          else if name = ''Time'' then Inr (TIME, True)
          else if name = ''Time64'' then
            bindE (ParseIntegerLiteral type 0 3) (\<lambda>p. Inr (if p > 6 then TIME_NS else TIME, True))
          else if name = ''UUID'' then Inr (UUID, True)
          else if (name = ''Enum8'' \<or> name = ''Enum16'') \<and> node_literals type \<noteq> [] then
            bindE (ParseEnumEntries U type) (\<lambda>entries. Inr (ENUM (map fst entries), True))
          else if name = ''Array'' \<and> length children = 1 then
            bindE (mapE (ToDuckDB U) children) (\<lambda>cs. Inr (LIST (fst (hd cs)), snd (hd cs)))
          else if name = ''Tuple'' \<and> children \<noteq> [] then
            bindE (mapE (ToDuckDB U) children) (\<lambda>cs.
              Inr (STRUCT (map (\<lambda>(i, f, t, r). (if f = [] then to_string (Suc i) else f, t))
                     (enumerate 0 (zip (node_field_names type) cs))), list_all snd cs))
          else if name = ''Map'' \<and> length children = 2 then
            bindE (mapE (ToDuckDB U) children) (\<lambda>cs.
              Inr (MAP (fst (cs ! 0)) (fst (cs ! 1)), snd (cs ! 0) \<and> snd (cs ! 1)))
          else if IsSemiStructured name then Inr (JSON, True)
          else if name = ''AggregateFunction'' then Inr (VARCHAR, False)
          else Inr (VARCHAR, True)))"
  by pat_completeness auto
termination
  by (relation "measure (\<lambda>(U, node). size node)") (auto intro: Unwrap_child_size)

declare ToDuckDB.simps [simp del]

end
