(* ===== verification/Reading.thy ===== *)
theory Reading
  imports Types
begin

text \<open>
  The rest of \<open>src/src/clickhouse_types.cpp\<close>: the expression a column is read through, the
  predicates that decide which filters ClickHouse may evaluate, the wrappers of a column type and
  \<open>ClickhouseColumnInfo\<close>. What ties them together: a column whose filters are pushed down is read
  as it is, so both sides look at the same value.
\<close>

section \<open>Read expressions\<close>

text \<open>
  \<open>ArrayReadExpression\<close> is written with the reader of the elements as an argument, which breaks the
  mutual recursion of the source.
\<close>

definition ArrayReadExpression ::
  "(type_node \<Rightarrow> string \<Rightarrow> nat \<Rightarrow> string res) \<Rightarrow> type_node \<Rightarrow> string \<Rightarrow> nat \<Rightarrow> string res" where
  "ArrayReadExpression read_element element array_expr depth =
     (let variable = ''x'' @ to_string depth in
      bindE (read_element element variable (Suc depth)) (\<lambda>element_expr.
        if element_expr = variable then Inr array_expr
        else Inr (''arrayMap('' @ variable @ '' -> '' @ element_expr @ '', '' @ array_expr @ '')'')))"

lemma ArrayReadExpression_cong [fundef_cong]:
  assumes "e = e'" "a = a'" "d = d'" "\<And>x n. f e' x n = g e' x n"
  shows "ArrayReadExpression f e a d = ArrayReadExpression g e' a' d'"
  using assms by (simp add: ArrayReadExpression_def)

function ReadExpressionInternal :: "string_util \<Rightarrow> type_node \<Rightarrow> string \<Rightarrow> nat \<Rightarrow> string res" where
  "ReadExpressionInternal U node expr depth =
     (let type = Unwrap node; name = node_name type; children = node_children type in
      bindE (GetDecimalInfo type) (\<lambda>info. case info of
        Some (width, scale) \<Rightarrow> Inr (if width \<le> 38 then expr else ''toString('' @ expr @ '')'')
      | None \<Rightarrow>
        if IsNativeScalar name then Inr expr
        else if name = ''BFloat16'' then Inr (''toFloat32('' @ expr @ '')'')
        else if IsGeoType name then Inr (''wkt('' @ expr @ '')'')
        else if IsSemiStructured name then Inr (''toJSONString('' @ expr @ '')'')
        else if name = ''Array'' \<and> length children = 1 then
          ArrayReadExpression (ReadExpressionInternal U)
            (children ! 0) expr depth
        else if name = ''Tuple'' \<and> children \<noteq> [] then
          (let element = (\<lambda>i. ''tupleElement('' @ expr @ '', '' @ to_string (Suc i) @ '')'') in
           bindE (mapE (\<lambda>(i, c). ReadExpressionInternal U c (element i) (Suc depth))
                    (enumerate 0 children)) (\<lambda>elements.
             if elements = map element [0..<length children] then Inr expr
             else Inr (''tuple('' @ Join U elements '', '' @ '')'')))
        else if name = ''Map'' \<and> length children = 2 then
          bindE (ArrayReadExpression (ReadExpressionInternal U)
                   (children ! 0) (''mapKeys('' @ expr @ '')'') depth) (\<lambda>keys.
          bindE (ArrayReadExpression (ReadExpressionInternal U)
                   (children ! 1) (''mapValues('' @ expr @ '')'') depth) (\<lambda>vals.
            Inr (''arrayZip('' @ keys @ '', '' @ vals @ '')'')))
        else Inr (''toString('' @ expr @ '')'')))"
  by pat_completeness auto
termination
  by (relation "measure (\<lambda>(U, node, e, d). size node)")
    (auto intro!: Unwrap_child_size simp: in_set_enumerate_eq)

declare ReadExpressionInternal.simps [simp del]

definition ReadExpression :: "string_util \<Rightarrow> type_node \<Rightarrow> string \<Rightarrow> string res" where
  "ReadExpression U node expr = ReadExpressionInternal U node expr 0"

section \<open>What ClickHouse may evaluate\<close>

definition PUSHDOWN_TYPES :: "string list" where
  "PUSHDOWN_TYPES = [''Bool'', ''Int8'', ''Int16'', ''Int32'', ''Int64'', ''UInt8'', ''UInt16'', ''UInt32'',
     ''UInt64'', ''Int128'', ''UInt128'', ''String'', ''Date'', ''Date32'', ''DateTime'', ''DateTime64'',
     ''Enum8'', ''Enum16'']"

definition SupportsPushdown :: "type_node \<Rightarrow> bool res" where
  "SupportsPushdown node =
     (let type = Unwrap node in
      bindE (GetDecimalInfo type) (\<lambda>info. case info of
        Some (width, scale) \<Rightarrow> Inr (width \<le> 38)
      | None \<Rightarrow>
        if node_name type = ''DateTime64'' then bindE (ParseIntegerLiteral type 0 3) (\<lambda>p. Inr (p \<le> 6))
        else Inr (node_name type \<in> set PUSHDOWN_TYPES)))"

definition SupportsFilterPushdown :: "type_node \<Rightarrow> bool res" where
  "SupportsFilterPushdown node =
     bindE (SupportsPushdown node) (\<lambda>b. Inr (b \<or> node_name (Unwrap node) = ''UUID''))"

text \<open>The loop over the children returns at the first inexact one.\<close>

fun IsComparedExactly :: "type_node \<Rightarrow> bool res" and AllComparedExactly :: "type_node list \<Rightarrow> bool res" where
  "IsComparedExactly (Node name children names lits txt) =
     (if name = ''FixedString'' then Inr False
      else bindE (if name = ''DateTime64''
                  then bindE (ParseIntegerLiteral (Node name children names lits txt) 0 3) (\<lambda>p. Inr (p > 6))
                  else Inr False)
             (\<lambda>wide. if wide then Inr False else AllComparedExactly children))"
| "AllComparedExactly [] = Inr True"
| "AllComparedExactly (c # cs) =
     bindE (IsComparedExactly c) (\<lambda>b. if \<not> b then Inr False else AllComparedExactly cs)"

section \<open>Wrappers\<close>

record type_wrappers =
  tw_low_cardinality :: bool
  tw_nullable :: bool
  tw_base :: type_node

definition Of :: "type_node \<Rightarrow> type_wrappers" where
  "Of node =
     (let low = (node_name node = ''LowCardinality'' \<and> length (node_children node) = 1);
          inner = (if low then hd (node_children node) else node);
          null = (node_name inner = ''Nullable'' \<and> length (node_children inner) = 1)
      in \<lparr>tw_low_cardinality = low, tw_nullable = null, tw_base = (if null then hd (node_children inner) else inner)\<rparr>)"

definition Wrap :: "type_wrappers \<Rightarrow> string \<Rightarrow> string" where
  "Wrap w type =
     (let result = (if tw_nullable w then ''Nullable('' @ type @ '')'' else type) in
      if tw_low_cardinality w then ''LowCardinality('' @ result @ '')'' else result)"

function IsNullable :: "type_node \<Rightarrow> bool" where
  "IsNullable node =
     (if node_name node = ''Nullable'' then True
      else if (node_name node = ''LowCardinality'' \<or> node_name node = ''SimpleAggregateFunction'') \<and>
              node_children node \<noteq> []
      then IsNullable (last (node_children node))
      else False)"
  by pat_completeness auto
termination
  by (relation "measure size") (auto intro!: size_child)

declare IsNullable.simps [simp del]

definition DateTimePrecision :: "type_node \<Rightarrow> nat option res" where
  "DateTimePrecision node =
     (let type = Unwrap node in
      if node_name type = ''DateTime'' then Inr (Some 0)
      else if node_name type = ''DateTime64'' then
        bindE (ParseIntegerLiteral type 0 3) (\<lambda>p. Inr (if p < 0 then None else Some (nat p)))
      else Inr None)"

definition DecimalScale :: "type_node \<Rightarrow> nat option res" where
  "DecimalScale node = bindE (GetDecimalInfo node) (\<lambda>info. Inr (map_option snd info))"

section \<open>Columns\<close>

record column_info =
  col_name :: string
  clickhouse_type :: string
  type_node :: type_node
  col_type :: logical_type
  col_readable :: bool
  default_kind :: string

definition ColumnInfo_Create :: "string_util \<Rightarrow> string \<Rightarrow> string \<Rightarrow> column_info res" where
  "ColumnInfo_Create U name ctype =
     bindE (Parse U ctype) (\<lambda>node.
     bindE (ToDuckDB U node) (\<lambda>(t, r).
       Inr \<lparr>col_name = name, clickhouse_type = ctype, type_node = node, col_type = t,
            col_readable = r, default_kind = []\<rparr>))"

section \<open>Pushed-down columns are read as they are\<close>

lemma pushdown_native:
  "set PUSHDOWN_TYPES \<subseteq> set NATIVE_TYPES" "''UUID'' \<in> set NATIVE_TYPES" "''DateTime64'' \<in> set NATIVE_TYPES"
  by code_simp+

text \<open>
  Where ClickHouse evaluates a filter on a column, DuckDB reads that very column: if
  \<open>SupportsFilterPushdown\<close> holds, \<open>ReadExpression\<close> returns the expression unchanged, so the value the
  filter compares in ClickHouse is the value DuckDB would have compared.
\<close>

theorem pushdown_reads_unchanged:
  assumes "SupportsFilterPushdown node = Inr True"
  shows "ReadExpression U node expr = Inr expr"
proof -
  from assms obtain info where info: "GetDecimalInfo (Unwrap node) = Inr info"
    by (auto simp: SupportsFilterPushdown_def SupportsPushdown_def Let_def)
  show ?thesis
  proof (cases info)
    case None
    then have "IsNativeScalar (node_name (Unwrap node))"
      using assms info pushdown_native
      by (auto simp: SupportsFilterPushdown_def SupportsPushdown_def Let_def IsNativeScalar_def split: if_splits)
    with None info show ?thesis
      unfolding ReadExpression_def by (subst ReadExpressionInternal.simps) (simp add: Let_def)
  next
    case (Some ws)
    obtain width scale where ws: "ws = (width, scale)" by fastforce
    have "width \<le> 38"
    proof (rule ccontr)
      assume "\<not> width \<le> 38"
      moreover have "node_name (Unwrap node) \<noteq> ''UUID''"
        using Some info GetDecimalInfo_None [of "Unwrap node"] by auto
      ultimately show False
        using assms info Some ws by (auto simp: SupportsFilterPushdown_def SupportsPushdown_def Let_def)
    qed
    with Some ws info show ?thesis
      unfolding ReadExpression_def by (subst ReadExpressionInternal.simps) (simp add: Let_def)
  qed
qed

theorem pushdown_reads_unchanged_witness:
  "ReadExpression duck_strings (Node ''DateTime64'' [] [] [''6''] ''DateTime64(6)'') ''`ts`'' = Inr ''`ts`''"
  by (rule pushdown_reads_unchanged) code_simp

section \<open>Exact comparison holds at every level\<close>

fun subnodes :: "type_node \<Rightarrow> type_node list" where
  "subnodes (Node name children names lits txt) =
     Node name children names lits txt # concat (map subnodes children)"

definition exact_node :: "type_node \<Rightarrow> bool" where
  "exact_node n \<longleftrightarrow> node_name n \<noteq> ''FixedString'' \<and>
     (node_name n = ''DateTime64'' \<longrightarrow>
       (case ParseIntegerLiteral n 0 3 of Inl e \<Rightarrow> False | Inr p \<Rightarrow> p \<le> 6))"

lemma list_all_concat: "list_all P (concat (map f xs)) \<longleftrightarrow> list_all (\<lambda>x. list_all P (f x)) xs"
  by (induction xs) auto

lemma IsComparedExactly_levels:
  "IsComparedExactly node = Inr True \<longleftrightarrow> list_all exact_node (subnodes node)"
  "AllComparedExactly cs = Inr True \<longleftrightarrow> list_all (\<lambda>c. list_all exact_node (subnodes c)) cs"
proof (induction node and cs rule: IsComparedExactly_AllComparedExactly.induct)
  case (1 name children names lits tx)
  let ?n = "Node name children names lits tx"
  let ?head = "if name = ''DateTime64'' then bindE (ParseIntegerLiteral ?n 0 3) (\<lambda>p. Inr (p > 6)) else Inr False"
  have sub: "list_all exact_node (subnodes ?n) \<longleftrightarrow>
      exact_node ?n \<and> list_all (\<lambda>c. list_all exact_node (subnodes c)) children"
    by (simp add: list_all_concat)
  show ?case
  proof (cases "exact_node ?n")
    case True
    then have n: "name \<noteq> ''FixedString''" by (simp add: exact_node_def)
    have h: "?head = Inr False" using True by (auto simp: exact_node_def split: sum.splits)
    have "IsComparedExactly ?n = AllComparedExactly children"
      unfolding IsComparedExactly.simps h using n by simp
    moreover have "AllComparedExactly children = Inr True \<longleftrightarrow>
        list_all (\<lambda>c. list_all exact_node (subnodes c)) children"
      by (rule "1.IH" [OF n h]) simp
    ultimately show ?thesis using True sub by (simp only: simp_thms)
  next
    case False
    then have "IsComparedExactly ?n \<noteq> Inr True"
      by (auto simp: exact_node_def split: sum.splits if_splits)
    with False sub show ?thesis by simp
  qed
next
  case (3 c cs)
  then show ?case by (cases "IsComparedExactly c") auto
qed simp

text \<open>
  \<open>IsComparedExactly\<close>, which UPDATE and DELETE predicates rely on, holds of a type exactly when
  no type nested in it, at any level, is a \<open>FixedString\<close> or a \<open>DateTime64\<close> whose precision exceeds
  the microseconds DuckDB reads.
\<close>

theorem IsComparedExactly_iff:
  "IsComparedExactly node = Inr True \<longleftrightarrow> list_all exact_node (subnodes node)"
  by (rule IsComparedExactly_levels)

section \<open>Wrappers come back\<close>

definition wrap_ast :: "type_wrappers \<Rightarrow> type_ast \<Rightarrow> type_ast" where
  "wrap_ast w a =
     (let n = (if tw_nullable w then TypeAst ''Nullable'' [([], a)] [] else a) in
      if tw_low_cardinality w then TypeAst ''LowCardinality'' [([], n)] [] else n)"

lemma Wrap_text: "Wrap w (type_text a) = type_text (wrap_ast w a)"
  by (simp add: Wrap_def wrap_ast_def Let_def)

text \<open>
  \<open>Wrap\<close> and \<open>Of\<close> are inverse: wrapping the text of a type that is not itself \<open>Nullable\<close> or
  \<open>LowCardinality\<close> in given wrappers and parsing the result yields the same two wrappers and the
  tree of that type.
\<close>

theorem Wrap_Of:
  assumes "string_util_ok U" and "ast_ok a" and "ast_height a \<le> 63"
    and "case a of TypeAst name _ _ \<Rightarrow> name \<noteq> ''Nullable'' \<and> name \<noteq> ''LowCardinality''"
  shows "\<exists>node. Parse U (Wrap w (type_text a)) = Inr node \<and>
    Of node = w\<lparr>tw_base := type_tree a\<rparr>"
proof -
  have ok: "ast_ok (wrap_ast w a)" "ast_height (wrap_ast w a) \<le> Suc MAX_TYPE_NESTING_DEPTH"
    using assms(2,3)
    by (auto simp: wrap_ast_def Let_def type_name_ok_def ascii_alpha_def MAX_TYPE_NESTING_DEPTH_def)
  have "Parse U (Wrap w (type_text a)) = Inr (type_tree (wrap_ast w a))"
    unfolding Wrap_text
    using ParseInternal_type_text [OF assms(1) ok(1), of 0] ok(2) by (simp add: Parse_def)
  moreover have "Of (type_tree (wrap_ast w a)) = w\<lparr>tw_base := type_tree a\<rparr>"
    using assms(4) by (cases w; cases a) (auto simp: wrap_ast_def Of_def Let_def)
  ultimately show ?thesis by blast
qed

theorem Wrap_Of_witness:
  "\<exists>node. Parse duck_strings (Wrap \<lparr>tw_low_cardinality = True, tw_nullable = True, tw_base = type_tree sample_ast\<rparr>
       (type_text sample_ast)) = Inr node \<and>
     Of node = \<lparr>tw_low_cardinality = True, tw_nullable = True, tw_base = type_tree sample_ast\<rparr>"
proof -
  have "ast_ok sample_ast" "ast_height sample_ast \<le> 63" by code_simp+
  moreover have "case sample_ast of TypeAst name _ _ \<Rightarrow> name \<noteq> ''Nullable'' \<and> name \<noteq> ''LowCardinality''"
    by (simp add: sample_ast_def)
  ultimately show ?thesis
    using Wrap_Of [OF duck_strings_ok, of sample_ast
        "\<lparr>tw_low_cardinality = True, tw_nullable = True, tw_base = type_tree sample_ast\<rparr>"] by simp
qed

end
