(* ===== verification/DdlTypes.thy ===== *)
theory DdlTypes
  imports Reading
begin

text \<open>
  \<open>src/src/clickhouse_ddl_types.cpp\<close>: the ClickHouse type a DuckDB type is created with, and the
  round trip through it: a column created for a DuckDB type is read back with that type, up to the
  documented widenings (BLOB to VARCHAR, every timestamp to TIMESTAMP WITH TIME ZONE).
\<close>

section \<open>Translation of the type\<close>

definition EnumTypeSql :: "string_util \<Rightarrow> string list \<Rightarrow> string res" where
  "EnumTypeSql U labels =
     (let size = length labels in
      if size > 32767 then Inl (Exn NotImplementedException ''DuckDB ENUM has no ClickHouse equivalent'' [to_string size])
      else bindE (mapE (\<lambda>(i, label).
             if str_find label (CHR 0x27) \<noteq> None \<or> str_find label (CHR 0x5C) \<noteq> None then
               Inl (Exn NotImplementedException ''ENUM label contains a quote or a backslash'' [QuoteLiteral label])
             else Inr (QuoteLiteral label @ '' = '' @ to_string (Suc i)))
           (enumerate 0 labels))
         (\<lambda>entries. Inr ((if size \<le> 127 then ''Enum8('' else ''Enum16('') @ Join U entries '', '' @ '')'')))"

text \<open>
  The case for \<open>TUPLE\<close> and \<open>STRUCT\<close>, with the translation of a field's type as an argument.
\<close>

definition TupleSql ::
  "string_util \<Rightarrow> type_api \<Rightarrow> logical_type \<Rightarrow> (logical_type \<Rightarrow> string res) \<Rightarrow> (string \<times> logical_type) list \<Rightarrow> string res" where
  "TupleSql U T type translate children =
     bindE (mapE (\<lambda>(name, child).
         if IsUnnamed T type \<or> name = [] then
           Inl (Exn NotImplementedException ''STRUCT fields must be named'' [type_ToString T type])
         else bindE (translate child) (\<lambda>s. Inr (QuoteIdentifier name @ '' '' @ s)))
       children)
     (\<lambda>parts. Inr (''Tuple('' @ Join U parts '', '' @ '')''))"

lemma TupleSql_cong [fundef_cong]:
  assumes "type = type'" "children = children'" "\<And>c. c \<in> snd ` set children' \<Longrightarrow> f c = g c"
  shows "TupleSql U T type f children = TupleSql U T type' g children'"
proof -
  have "f c = g c" if "(n, c) \<in> set children'" for n c
    using assms(3) that by force
  then show ?thesis
    unfolding assms(1,2) TupleSql_def
    by (intro arg_cong [where f = "\<lambda>m. bindE m _"] mapE_cong refl) (auto split: prod.splits)
qed

text \<open>
  A switch whose cases either return at once or fall through to the wrapping in \<open>Nullable\<close>. The
  fields of an unnamed struct or tuple are refused one by one, so an empty one passes the check.
\<close>

function ToClickhouse :: "string_util \<Rightarrow> type_api \<Rightarrow> logical_type \<Rightarrow> bool \<Rightarrow> string res" where
  "ToClickhouse U T type nullable =
     (let wrap = (\<lambda>result. Inr (if nullable then ''Nullable('' @ result @ '')'' else result))
      in case type of
        BOOLEAN \<Rightarrow> wrap ''Bool''
      | TINYINT \<Rightarrow> wrap ''Int8'' | SMALLINT \<Rightarrow> wrap ''Int16'' | INTEGER \<Rightarrow> wrap ''Int32''
      | BIGINT \<Rightarrow> wrap ''Int64'' | UTINYINT \<Rightarrow> wrap ''UInt8'' | USMALLINT \<Rightarrow> wrap ''UInt16''
      | UINTEGER \<Rightarrow> wrap ''UInt32'' | UBIGINT \<Rightarrow> wrap ''UInt64'' | HUGEINT \<Rightarrow> wrap ''Int128''
      | UHUGEINT \<Rightarrow> wrap ''UInt128'' | FLOAT \<Rightarrow> wrap ''Float32'' | DOUBLE \<Rightarrow> wrap ''Float64''
      | DECIMAL width scale \<Rightarrow>
          wrap (''Decimal('' @ to_string width @ '', '' @ to_string scale @ '')'')
      | JSON \<Rightarrow> Inr ''JSON''
      | VARCHAR \<Rightarrow> wrap ''String'' | BLOB \<Rightarrow> wrap ''String'' | DATE \<Rightarrow> wrap ''Date32''
      | TIMESTAMP_SEC \<Rightarrow> wrap (''DateTime('UTC')'')
      | TIMESTAMP_MS \<Rightarrow> wrap (''DateTime64(3, 'UTC')'')
      | TIMESTAMP \<Rightarrow> wrap (''DateTime64(6, 'UTC')'')
      | TIMESTAMP_TZ \<Rightarrow> wrap (''DateTime64(6, 'UTC')'')
      | TIMESTAMP_NS \<Rightarrow> wrap (''DateTime64(9, 'UTC')'')
      | TIME \<Rightarrow> wrap ''Time64(6)'' | TIME_NS \<Rightarrow> wrap ''Time64(9)'' | UUID \<Rightarrow> wrap ''UUID''
      | ENUM labels \<Rightarrow> bindE (EnumTypeSql U labels) wrap
      | LIST child \<Rightarrow> bindE (ToClickhouse U T child True) (\<lambda>s. Inr (''Array('' @ s @ '')''))
      | TUPLE children \<Rightarrow> TupleSql U T type (\<lambda>c. ToClickhouse U T c True) children
      | STRUCT children \<Rightarrow> TupleSql U T type (\<lambda>c. ToClickhouse U T c True) children
      | MAP key val \<Rightarrow>
          bindE (ToClickhouse U T key False) (\<lambda>k.
          bindE (ToClickhouse U T val True) (\<lambda>v. Inr (''Map('' @ k @ '', '' @ v @ '')'')))
      | _ \<Rightarrow> Inl (Exn NotImplementedException ''DuckDB type has no ClickHouse equivalent'' [type_ToString T type]))"

  by pat_completeness auto
termination
  by (relation "measure (\<lambda>(U, T, type, n). size type)")
    (auto dest: size_list_estimation' [where f = "size_prod (\<lambda>_. 0) size", OF _ order.refl])

declare ToClickhouse.simps [simp del]

section \<open>The round trip\<close>

text \<open>The type as an abstract ClickHouse type, and the DuckDB type it is read back as.\<close>

definition nullable_ast :: "bool \<Rightarrow> type_ast \<Rightarrow> type_ast" where
  "nullable_ast null a = (if null then TypeAst ''Nullable'' [([], a)] [] else a)"

definition leaf :: "string \<Rightarrow> type_literal list \<Rightarrow> type_ast" where
  "leaf name lits = TypeAst name [] lits"

fun base_ast :: "logical_type \<Rightarrow> type_ast" where
  "base_ast BOOLEAN = leaf ''Bool'' []"
| "base_ast TINYINT = leaf ''Int8'' []"
| "base_ast SMALLINT = leaf ''Int16'' []"
| "base_ast INTEGER = leaf ''Int32'' []"
| "base_ast BIGINT = leaf ''Int64'' []"
| "base_ast UTINYINT = leaf ''UInt8'' []"
| "base_ast USMALLINT = leaf ''UInt16'' []"
| "base_ast UINTEGER = leaf ''UInt32'' []"
| "base_ast UBIGINT = leaf ''UInt64'' []"
| "base_ast HUGEINT = leaf ''Int128'' []"
| "base_ast UHUGEINT = leaf ''UInt128'' []"
| "base_ast FLOAT = leaf ''Float32'' []"
| "base_ast DOUBLE = leaf ''Float64'' []"
| "base_ast (DECIMAL w s) = leaf ''Decimal'' [LitNumber w, LitNumber s]"
| "base_ast DATE = leaf ''Date32'' []"
| "base_ast TIMESTAMP_SEC = leaf ''DateTime'' [LitString ''UTC'']"
| "base_ast TIMESTAMP_MS = leaf ''DateTime64'' [LitNumber 3, LitString ''UTC'']"
| "base_ast TIMESTAMP = leaf ''DateTime64'' [LitNumber 6, LitString ''UTC'']"
| "base_ast TIMESTAMP_TZ = leaf ''DateTime64'' [LitNumber 6, LitString ''UTC'']"
| "base_ast TIMESTAMP_NS = leaf ''DateTime64'' [LitNumber 9, LitString ''UTC'']"
| "base_ast TIME = leaf ''Time64'' [LitNumber 6]"
| "base_ast TIME_NS = leaf ''Time64'' [LitNumber 9]"
| "base_ast UUID = leaf ''UUID'' []"
| "base_ast (ENUM labels) = leaf (if length labels \<le> 127 then ''Enum8'' else ''Enum16'')
     (map (\<lambda>(i, label). LitEnum label (Suc i)) (enumerate 0 labels))"
| "base_ast JSON = leaf ''JSON'' []"
| "base_ast _ = leaf ''String'' []"

fun ast_of :: "logical_type \<Rightarrow> bool \<Rightarrow> type_ast" where
  "ast_of (LIST child) null = TypeAst ''Array'' [([], ast_of child True)] []"
| "ast_of (STRUCT children) null = TypeAst ''Tuple'' (map (\<lambda>(n, c). (n, ast_of c True)) children) []"
| "ast_of (TUPLE children) null = TypeAst ''Tuple'' (map (\<lambda>(n, c). (n, ast_of c True)) children) []"
| "ast_of (MAP key val) null = TypeAst ''Map'' [([], ast_of key False), ([], ast_of val True)] []"
| "ast_of JSON null = base_ast JSON"
| "ast_of type null = nullable_ast null (base_ast type)"

fun read_back :: "logical_type \<Rightarrow> logical_type" where
  "read_back BLOB = VARCHAR"
| "read_back TIMESTAMP_SEC = TIMESTAMP_TZ"
| "read_back TIMESTAMP_MS = TIMESTAMP_TZ"
| "read_back TIMESTAMP = TIMESTAMP_TZ"
| "read_back TIMESTAMP_NS = TIMESTAMP_TZ"
| "read_back (LIST child) = LIST (read_back child)"
| "read_back (STRUCT children) = STRUCT (map (\<lambda>(n, c). (n, read_back c)) children)"
| "read_back (TUPLE children) = STRUCT (map (\<lambda>(n, c). (n, read_back c)) children)"
| "read_back (MAP key val) = MAP (read_back key) (read_back val)"
| "read_back type = type"

text \<open>
  DuckDB's own bounds on decimals, and no empty \<open>ENUM\<close> or \<open>STRUCT\<close> (whose ClickHouse text has an
  empty argument list).
\<close>

fun duck_type_ok :: "logical_type \<Rightarrow> bool" where
  "duck_type_ok (DECIMAL w s) \<longleftrightarrow> 1 \<le> w \<and> w \<le> 38 \<and> s \<le> w"
| "duck_type_ok (ENUM labels) \<longleftrightarrow> labels \<noteq> []"
| "duck_type_ok (LIST child) \<longleftrightarrow> duck_type_ok child"
| "duck_type_ok (STRUCT children) \<longleftrightarrow> children \<noteq> [] \<and> list_all (\<lambda>(n, c). duck_type_ok c) children"
| "duck_type_ok (TUPLE children) \<longleftrightarrow> children \<noteq> [] \<and> list_all (\<lambda>(n, c). duck_type_ok c) children"
| "duck_type_ok (MAP key val) \<longleftrightarrow> duck_type_ok key \<and> duck_type_ok val"
| "duck_type_ok _ \<longleftrightarrow> True"

subsection \<open>Reading the pieces\<close>

lemma stoll_to_string: "in_int64 (int n) \<Longrightarrow> stoll (to_string n) = Some (int n)"
proof -
  assume n: "in_int64 (int n)"
  have d: "\<forall>c\<in>set (to_string n). ascii_digit c \<and> \<not> c_isspace c \<and> c \<noteq> CHR ''-'' \<and> c \<noteq> CHR ''+''"
    using to_string_digits by (fastforce simp: ascii_digit_def c_isspace_def)
  then obtain c cs where c: "to_string n = c # cs" by (cases "to_string n") auto
  have "dropWhile c_isspace (to_string n) = to_string n" using d c by simp
  moreover have tw: "takeWhile ascii_digit cs = cs"
    using d unfolding c by (simp add: takeWhile_eq_all_conv)
  ultimately show ?thesis
    using n d to_string_value [of n] unfolding c by (simp add: stoll_def Let_def tw)
qed

lemma ScanLabel_plain:
  "\<forall>c\<in>set l. c \<noteq> CHR 0x27 \<and> c \<noteq> CHR 0x5C \<Longrightarrow> ScanLabel (l @ CHR 0x27 # rest) = (l, True, rest)"
proof (induction l)
  case Nil
  show ?case by (cases rest) auto
next
  case (Cons c l)
  then show ?case by (cases l) auto
qed

lemma QuoteLiteral_plain:
  "\<forall>c\<in>set l. c \<noteq> CHR 0x27 \<and> c \<noteq> CHR 0x5C \<Longrightarrow> QuoteLiteral l = CHR 0x27 # l @ [CHR 0x27]"
proof -
  assume "\<forall>c\<in>set l. c \<noteq> CHR 0x27 \<and> c \<noteq> CHR 0x5C"
  then have "concat (map (\<lambda>c. if c = CHR 0x5C \<or> c = CHR 0x27 then [CHR 0x5C, c] else [c]) l) = l"
    by (induction l) auto
  then show ?thesis by (simp add: QuoteLiteral_def QuoteWith_def)
qed

lemma ParseEnumEntry_LitEnum:
  assumes "string_util_ok U" and "in_int64 (int n)" and "\<forall>c\<in>set l. c \<noteq> CHR 0x27 \<and> c \<noteq> CHR 0x5C"
  shows "ParseEnumEntry U tx i (literal_text (LitEnum l n)) = Inr (l, int n)"
proof -
  have "trimmed (to_string n)" using literal_facts(2) [of "LitNumber n"] by simp
  then have t1: "trim_by c_isspace ('' '' @ to_string n) = to_string n"
    and "trimmed (''= '' @ to_string n)"
    by (simp_all add: trim_space_trimmed trimmed_def c_isspace_def)
  then have t2: "trim_by c_isspace ('' = '' @ to_string n) = ''= '' @ to_string n"
    using trim_space_trimmed [of "''= '' @ to_string n"] by simp
  show ?thesis
    using t1 t2 stoll_to_string [OF assms(2)]
    by (simp add: ParseEnumEntry_def QuoteLiteral_plain [OF assms(3)] ScanLabel_plain [OF assms(3)]
        TrimCopy_def string_util_okD(6) [OF assms(1)])
qed

lemma ParseEnumEntries_ast:
  assumes "string_util_ok U" and "length labels \<le> 32767"
    and "\<forall>l\<in>set labels. \<forall>c\<in>set l. c \<noteq> CHR 0x27 \<and> c \<noteq> CHR 0x5C"
    and "node_literals node = map literal_text (map (\<lambda>(i, l). LitEnum l (Suc i)) (enumerate 0 labels))"
  shows "ParseEnumEntries U node = Inr (map (\<lambda>(i, l). (l, int (Suc i))) (enumerate 0 labels))"
proof -
  let ?es = "map (\<lambda>(i, l). (l, int (Suc i))) (enumerate 0 labels)"
  have "mapE (\<lambda>(i, lit). ParseEnumEntry U (node_text node) i lit) (enumerate 0 (node_literals node)) = Inr ?es"
    unfolding mapE_eq_Inr assms(4)
  proof (rule list_all2_all_nthI, goal_cases)
    case (2 i)
    then have i: "i < length labels" by simp
    have "ParseEnumEntry U (node_text node) i (literal_text (LitEnum (labels ! i) (Suc i))) =
        Inr (labels ! i, int (Suc i))"
    proof (rule ParseEnumEntry_LitEnum [OF assms(1)])
      show "in_int64 (int (Suc i))" using i assms(2) by (simp add: in_int64_def)
      show "\<forall>c\<in>set (labels ! i). c \<noteq> CHR 0x27 \<and> c \<noteq> CHR 0x5C" using assms(3) nth_mem [OF i] by blast
    qed
    with i show ?case by (simp add: nth_enumerate_eq del: literal_text.simps)
  qed simp
  moreover have "map snd ?es = map (\<lambda>i. int (Suc i)) [0..<length labels]"
    by (rule nth_equalityI) (simp_all add: nth_enumerate_eq)
  then have "sorted (map snd ?es)" by (simp add: sorted_iff_nth_mono)
  then have "sort_key snd ?es = ?es" by (rule sort_key_id_if_sorted)
  ultimately show ?thesis by (simp add: ParseEnumEntries_def)
qed


lemma Unwrap_leaf: "node_children node = [] \<Longrightarrow> Unwrap node = node"
  by (subst Unwrap.simps) simp

lemma Unwrap_Nullable: "Unwrap (Node ''Nullable'' [c] fs ls tx) = Unwrap c"
  by (subst Unwrap.simps) simp

lemma ToDuckDB_Nullable: "ToDuckDB U (Node ''Nullable'' [c] fs ls tx) = ToDuckDB U c"
  by (subst (1 2) ToDuckDB.simps) (simp only: Unwrap_Nullable)

definition leaf_ok :: "string_util \<Rightarrow> logical_type \<Rightarrow> bool" where
  "leaf_ok U t \<longleftrightarrow> ast_ok (base_ast t) \<and> ToDuckDB U (type_tree (base_ast t)) = Inr (read_back t, True)"

lemmas leaf_eval = leaf_ok_def leaf_def ToDuckDB.simps [of _ "Node _ [] _ _ _"] Unwrap_leaf Let_def fixed_types_def
  type_name_ok_def ascii_alpha_def ascii_digit_def GetDecimalInfo_None ParseIntegerLiteral_def
  stoll_to_string in_int64_def IsSemiStructured_def

lemma fixed_leaf_ok:
  "t \<in> {BOOLEAN, TINYINT, SMALLINT, INTEGER, BIGINT, UTINYINT, USMALLINT, UINTEGER, UBIGINT, HUGEINT,
     UHUGEINT, FLOAT, DOUBLE} \<Longrightarrow> leaf_ok U t"
  by (elim insertE emptyE) (simp_all add: leaf_eval)

lemma time_leaf_ok:
  "t \<in> {VARCHAR, BLOB, JSON, DATE, TIMESTAMP_SEC, TIMESTAMP_MS, TIMESTAMP, TIMESTAMP_TZ, TIMESTAMP_NS, TIME, TIME_NS, UUID}
    \<Longrightarrow> leaf_ok U t"
  by (elim insertE emptyE) (simp_all add: leaf_eval stoll_to_string [of 6, simplified] stoll_to_string [of 9, simplified])

lemma decimal_leaf_ok: "duck_type_ok (DECIMAL w s) \<Longrightarrow> leaf_ok U (DECIMAL w s)"
  by (simp add: leaf_eval GetDecimalInfo_def)

lemma EnumTypeSql_ok:
  assumes "string_util_ok U" and "EnumTypeSql U labels = Inr s"
  shows "length labels \<le> 32767" "\<forall>l\<in>set labels. \<forall>c\<in>set l. c \<noteq> CHR 0x27 \<and> c \<noteq> CHR 0x5C"
    "s = (if length labels \<le> 127 then ''Enum8('' else ''Enum16('') @
       join_with (map literal_text (map (\<lambda>(i, l). LitEnum l (Suc i)) (enumerate 0 labels))) '', '' @ '')''"
proof -
  show len: "length labels \<le> 32767" using assms(2) by (auto simp: EnumTypeSql_def Let_def split: if_splits)
  let ?f = "\<lambda>(i, label).
     if str_find label (CHR 0x27) \<noteq> None \<or> str_find label (CHR 0x5C) \<noteq> None then
       Inl (Exn NotImplementedException ''ENUM label contains a quote or a backslash'' [QuoteLiteral label])
     else Inr (QuoteLiteral label @ '' = '' @ to_string (Suc i))"
  from assms(2) len obtain entries where e: "mapE ?f (enumerate 0 labels) = Inr entries"
    and s: "s = (if length labels \<le> 127 then ''Enum8('' else ''Enum16('') @ Join U entries '', '' @ '')''"
    by (auto simp: EnumTypeSql_def Let_def)
  have one: "i < length labels \<Longrightarrow> ?f (i, labels ! i) = Inr (entries ! i)" for i
    using list_all2_nthD [OF e [unfolded mapE_eq_Inr], of i] by (simp add: nth_enumerate_eq)
  have ne: "(str_find l c = None) = (\<forall>d\<in>set l. d \<noteq> c)" for l :: string and c by (auto simp: str_find_def)
  show "\<forall>l\<in>set labels. \<forall>c\<in>set l. c \<noteq> CHR 0x27 \<and> c \<noteq> CHR 0x5C"
  proof
    fix l assume "l \<in> set labels"
    then obtain i where "i < length labels" "l = labels ! i" by (metis in_set_conv_nth)
    then show "\<forall>c\<in>set l. c \<noteq> CHR 0x27 \<and> c \<noteq> CHR 0x5C"
      using one [of i] by (auto simp: ne split: if_splits)
  qed
  have "entries = map literal_text (map (\<lambda>(i, l). LitEnum l (Suc i)) (enumerate 0 labels))"
  proof (rule nth_equalityI)
    show "length entries = length (map literal_text (map (\<lambda>(i, l). LitEnum l (Suc i)) (enumerate 0 labels)))"
      using mapE_length [OF e] by simp
    fix i assume "i < length entries"
    then have "i < length labels" using mapE_length [OF e] by simp
    then show "entries ! i = map literal_text (map (\<lambda>(i, l). LitEnum l (Suc i)) (enumerate 0 labels)) ! i"
      using one [of i] by (simp add: nth_enumerate_eq split: if_splits)
  qed
  with s show "s = (if length labels \<le> 127 then ''Enum8('' else ''Enum16('') @
       join_with (map literal_text (map (\<lambda>(i, l). LitEnum l (Suc i)) (enumerate 0 labels))) '', '' @ '')''"
    by (simp add: string_util_okD(10) [OF assms(1)])
qed

lemma enum_leaf_ok:
  assumes "string_util_ok U" and "EnumTypeSql U labels = Inr s" and "labels \<noteq> []"
  shows "s = type_text (base_ast (ENUM labels)) \<and> leaf_ok U (ENUM labels)"
proof -
  note e = EnumTypeSql_ok [OF assms(1,2)]
  have ne: "enumerate 0 labels \<noteq> []" using assms(3) by (cases labels) auto
  have "ParseEnumEntries U (Node name [] [] (map literal_text (map (\<lambda>(i, l). LitEnum l (Suc i)) (enumerate 0 labels))) tx) =
      Inr (map (\<lambda>(i, l). (l, int (Suc i))) (enumerate 0 labels))" for name tx
    by (rule ParseEnumEntries_ast [OF assms(1) e(1,2)]) simp
  moreover have "map fst (map (\<lambda>(i, l). (l, int (Suc i))) (enumerate 0 labels)) = labels"
    by (rule nth_equalityI) (simp_all add: nth_enumerate_eq)
  ultimately have "leaf_ok U (ENUM labels)"
    using ne by (cases "length labels \<le> 127") (simp_all add: leaf_eval del: map_map)
  moreover have "s = type_text (base_ast (ENUM labels))"
    using e(3) ne by (simp add: leaf_def)
  ultimately show ?thesis by blast
qed

definition translated :: "string_util \<Rightarrow> logical_type \<Rightarrow> bool \<Rightarrow> string \<Rightarrow> bool" where
  "translated U t null s \<longleftrightarrow> s = type_text (ast_of t null) \<and> ast_ok (ast_of t null) \<and>
     ToDuckDB U (type_tree (ast_of t null)) = Inr (read_back t, True)"

lemma translated_leaf:
  assumes "leaf_ok U t" and "s = (if null then ''Nullable('' @ type_text (base_ast t) @ '')'' else type_text (base_ast t))"
    and "ast_of t null = nullable_ast null (base_ast t)"
  shows "translated U t null s"
  using assms
  by (auto simp: translated_def leaf_ok_def nullable_ast_def ToDuckDB_Nullable type_name_ok_def ascii_alpha_def)

lemma ToDuckDB_Array:
  "ToDuckDB U (Node ''Array'' [c] fs [] tx) = bindE (ToDuckDB U c) (\<lambda>r. Inr (LIST (fst r), snd r))"
proof -
  have "Unwrap (Node ''Array'' [c] fs [] tx) = Node ''Array'' [c] fs [] tx"
    by (subst Unwrap.simps) simp
  then show ?thesis
    by (subst ToDuckDB.simps) (cases "ToDuckDB U c"; simp add: Let_def fixed_types_def GetDecimalInfo_None)
qed

lemma ToDuckDB_Map:
  "ToDuckDB U (Node ''Map'' [k, v] fs [] tx) =
    bindE (ToDuckDB U k) (\<lambda>x. bindE (ToDuckDB U v) (\<lambda>y. Inr (MAP (fst x) (fst y), snd x \<and> snd y)))"
proof -
  have "Unwrap (Node ''Map'' [k, v] fs [] tx) = Node ''Map'' [k, v] fs [] tx"
    by (subst Unwrap.simps) simp
  then show ?thesis
    by (subst ToDuckDB.simps)
      (cases "ToDuckDB U k"; cases "ToDuckDB U v"; simp add: Let_def fixed_types_def GetDecimalInfo_None)
qed

lemma ToDuckDB_Tuple:
  assumes "mapE (ToDuckDB U) cs = Inr (map (\<lambda>(n, t). (t, True)) flds)" and "cs \<noteq> []"
    and "map fst flds = ns" and "\<forall>n\<in>set ns. n \<noteq> []"
  shows "ToDuckDB U (Node ''Tuple'' cs ns [] tx) = Inr (STRUCT flds, True)"
proof -
  have u: "Unwrap (Node ''Tuple'' cs ns [] tx) = Node ''Tuple'' cs ns [] tx"
    by (subst Unwrap.simps) simp
  have "map (\<lambda>(i, f, t, r). (if f = [] then to_string (Suc i) else f, t))
      (enumerate 0 (zip ns (map (\<lambda>(n, t). (t, True)) flds))) = flds"
    by (rule nth_equalityI)
      (use assms(3,4) in \<open>auto simp: nth_enumerate_eq split: prod.splits\<close>)
  moreover have "list_all snd (map (\<lambda>(n, t). (t, True)) flds)"
    by (auto simp: list_all_iff)
  ultimately show ?thesis
    by (subst ToDuckDB.simps) (simp add: u Let_def fixed_types_def GetDecimalInfo_None assms(1,2))
qed

lemma translated_tuple:
  assumes U: "string_util_ok U" and "TupleSql U T t (\<lambda>c. ToClickhouse U T c True) children = Inr s"
    and "children \<noteq> []"
    and IH: "\<And>n c s. (n, c) \<in> set children \<Longrightarrow> ToClickhouse U T c True = Inr s \<Longrightarrow> translated U c True s"
  shows "translated U (STRUCT children) null s"
proof -
  let ?f = "\<lambda>(name, child).
     if IsUnnamed T t \<or> name = [] then
       Inl (Exn NotImplementedException ''STRUCT fields must be named'' [type_ToString T t])
     else bindE (ToClickhouse U T child True) (\<lambda>s. Inr (QuoteIdentifier name @ '' '' @ s))"
  let ?g = "\<lambda>(n, c). QuoteIdentifier n @ '' '' @ type_text (ast_of c True)"
  obtain parts where p: "mapE ?f children = Inr parts" and s: "s = ''Tuple('' @ Join U parts '', '' @ '')''"
    using assms(2) by (auto simp: TupleSql_def)
  have one: "fst x \<noteq> [] \<and> ?f x = Inr (?g x) \<and> translated U (snd x) True (type_text (ast_of (snd x) True))"
    if x: "x \<in> set children" for x
  proof -
    obtain n c where nc: "x = (n, c)" by fastforce
    obtain i where i: "i < length children" "children ! i = x" using x by (metis in_set_conv_nth)
    have "?f (children ! i) = Inr (parts ! i)"
      using list_all2_nthD [OF p [unfolded mapE_eq_Inr] i(1)] .
    then obtain sc where sc: "n \<noteq> []" "ToClickhouse U T c True = Inr sc" "\<not> IsUnnamed T t"
      using i(2) nc by (auto split: if_splits)
    have tr: "translated U c True sc" using IH x nc sc(2) by blast
    then have "sc = type_text (ast_of c True)" by (simp add: translated_def)
    then show ?thesis using nc sc tr by simp
  qed
  have "mapE ?f children = Inr (map ?g children)"
    unfolding mapE_eq_Inr using one by (auto simp: list_all2_conv_all_nth list_all2_map2 simp del: split_paired_All)
  then have "parts = map ?g children" using p by simp
  moreover have "map (\<lambda>(f, t). (if f = [] then [] else QuoteIdentifier f @ '' '') @ type_text t)
      (map (\<lambda>(n, c). (n, ast_of c True)) children) = map ?g children"
    using one by (auto simp: fst_def)
  ultimately have tx: "s = type_text (ast_of (STRUCT children) null)"
    using s assms(3) by (simp add: string_util_okD(10) [OF U] del: map_map)
  have ok: "ast_ok (ast_of (STRUCT children) null)"
    using one by (auto simp: list_all_iff translated_def type_name_ok_def ascii_alpha_def)
  have "mapE (ToDuckDB U) (map (\<lambda>(n, c). type_tree (ast_of c True)) children) =
      Inr (map (\<lambda>(n, t). (t, True)) (map (\<lambda>(n, c). (n, read_back c)) children))"
    using mapE_maps [of children "ToDuckDB U" "\<lambda>x. type_tree (ast_of (snd x) True)"
        "\<lambda>x. (read_back (snd x), True)" "[]"] one
    by (simp add: translated_def case_prod_beta' o_def)
  then have "ToDuckDB U (Node ''Tuple'' (map (\<lambda>(n, c). type_tree (ast_of c True)) children) (map fst children) [] tx) =
      Inr (STRUCT (map (\<lambda>(n, c). (n, read_back c)) children), True)" for tx
    by (rule ToDuckDB_Tuple) (use assms(3) one in \<open>auto simp: case_prod_beta o_def\<close>)
  moreover have "map (\<lambda>(f, t). type_tree t) (map (\<lambda>(n, c). (n, ast_of c True)) children) =
      map (\<lambda>(n, c). type_tree (ast_of c True)) children" by auto
  moreover have "map fst (map (\<lambda>(n, c). (n, ast_of c True)) children) = map fst children" by auto
  ultimately show ?thesis
    using tx ok by (simp add: translated_def del: map_map)
qed


lemma simple_translated:
  assumes "t \<in> {BOOLEAN, TINYINT, SMALLINT, INTEGER, BIGINT, UTINYINT, USMALLINT, UINTEGER, UBIGINT, HUGEINT,
      UHUGEINT, FLOAT, DOUBLE} \<union> {VARCHAR, BLOB, DATE, TIMESTAMP_SEC, TIMESTAMP_MS, TIMESTAMP, TIMESTAMP_TZ,
      TIMESTAMP_NS, TIME, TIME_NS, UUID}"
    and "ToClickhouse U T t null = Inr s"
  shows "translated U t null s"
proof (rule translated_leaf)
  show "leaf_ok U t" using assms(1) fixed_leaf_ok [of t U] time_leaf_ok [of t U] by fast
  have lits: "literal_text (LitString ''UTC'') = CHR 0x27 # ''UTC'' @ [CHR 0x27]"
    "to_string 3 = ''3''" "to_string 6 = ''6''" "to_string 9 = ''9''" by code_simp+
  have n: "s = ''Nullable('' @ type_text (base_ast t) @ '')''" if "ToClickhouse U T t True = Inr s"
    using assms(1) that by (elim UnE insertE emptyE) (simp_all add: ToClickhouse.simps leaf_def lits del: literal_text.simps(2))
  have p: "s = type_text (base_ast t)" if "ToClickhouse U T t False = Inr s"
    using assms(1) that by (elim UnE insertE emptyE) (simp_all add: ToClickhouse.simps leaf_def lits del: literal_text.simps(2))
  show "s = (if null then ''Nullable('' @ type_text (base_ast t) @ '')'' else type_text (base_ast t))"
    using n p assms(2) by (cases null) simp_all
  show "ast_of t null = nullable_ast null (base_ast t)"
    using assms(1) by (elim UnE insertE emptyE) simp_all
qed

lemma unsupported_error:
  "t = TIME_TZ \<or> t = SQLNULL \<or> (\<exists>c n. t = ARRAY c n) \<or> (\<exists>cs. t = UNION_TYPE cs) \<or> (\<exists>n. t = UnknownType n) \<Longrightarrow>
   ToClickhouse U T t null = Inl (Exn NotImplementedException ''DuckDB type has no ClickHouse equivalent'' [type_ToString T t])"
  by (elim disjE exE) (simp_all add: ToClickhouse.simps)

lemma ToClickhouse_translated:
  assumes U: "string_util_ok U"
  shows "ToClickhouse U T t null = Inr s \<Longrightarrow> duck_type_ok t \<Longrightarrow> translated U t null s"
proof (induction t arbitrary: null s)
  case (ENUM labels)
  then show ?case
    using enum_leaf_ok [OF U, of labels]
    by (intro translated_leaf) (auto simp: ToClickhouse.simps [of U T "ENUM labels"] Let_def)
next
  case (DECIMAL w sc)
  then show ?case
    by (intro translated_leaf decimal_leaf_ok)
      (auto simp: ToClickhouse.simps [of U T "DECIMAL w sc"] Let_def leaf_def)
next
  case (LIST t)
  then obtain s' where s': "ToClickhouse U T t True = Inr s'" "s = ''Array('' @ s' @ '')''"
    by (auto simp: ToClickhouse.simps [of U T "LIST t"] Let_def)
  have "translated U t True s'" using LIST s'(1) by simp
  then show ?case using s'(2)
    by (simp add: translated_def ToDuckDB_Array type_name_ok_def ascii_alpha_def)
next
  case (MAP k v)
  then obtain sk sv where s': "ToClickhouse U T k False = Inr sk" "ToClickhouse U T v True = Inr sv"
      "s = ''Map('' @ sk @ '', '' @ sv @ '')''"
    by (auto simp: ToClickhouse.simps [of U T "MAP k v"] Let_def)
  have "translated U k False sk" "translated U v True sv" using MAP s' by simp_all
  then show ?case using s'(3)
    by (simp add: translated_def ToDuckDB_Map type_name_ok_def ascii_alpha_def)
next
  case (STRUCT children)
  show ?case
  proof (rule translated_tuple [OF U])
    show "TupleSql U T (STRUCT children) (\<lambda>c. ToClickhouse U T c True) children = Inr s"
      using STRUCT.prems by (simp add: ToClickhouse.simps [of U T "STRUCT children"] Let_def)
    show "children \<noteq> []" using STRUCT.prems by simp
    show "translated U c True s" if "(n, c) \<in> set children" "ToClickhouse U T c True = Inr s" for n c s
      using STRUCT.IH [OF that(1) _ that(2)] STRUCT.prems(2) that(1) by (auto simp: list_all_iff)
  qed
next
  case (TUPLE children)
  have "translated U (STRUCT children) null s"
  proof (rule translated_tuple [OF U])
    show "TupleSql U T (TUPLE children) (\<lambda>c. ToClickhouse U T c True) children = Inr s"
      using TUPLE.prems by (simp add: ToClickhouse.simps [of U T "TUPLE children"] Let_def)
    show "children \<noteq> []" using TUPLE.prems by simp
    show "translated U c True s" if "(n, c) \<in> set children" "ToClickhouse U T c True = Inr s" for n c s
      using TUPLE.IH [OF that(1) _ that(2)] TUPLE.prems(2) that(1) by (auto simp: list_all_iff)
  qed
  then show ?case by (simp add: translated_def)
next
  case JSON
  then show ?case
    using time_leaf_ok [of JSON U]
    by (simp add: ToClickhouse.simps [of U T JSON] Let_def translated_def leaf_ok_def leaf_def)
qed ((rule simple_translated, simp, assumption) | simp add: unsupported_error)+


text \<open>
  C2. A column created for a DuckDB type is read back with it: whenever \<open>ToClickhouse\<close> translates a
  type (with DuckDB's decimal bounds and no empty enum or struct) into a text that nests at most the
  parser's 65 levels, parsing that text and mapping it with \<open>ToDuckDB\<close> succeeds, is readable, and gives
  the same type except that BLOB becomes VARCHAR and every timestamp TIMESTAMP WITH TIME ZONE.
\<close>

theorem created_type_reads_back:
  assumes "string_util_ok U" and "duck_type_ok t" and "ast_height (ast_of t null) \<le> Suc MAX_TYPE_NESTING_DEPTH"
    and "ToClickhouse U T t null = Inr s"
  shows "bindE (Parse U s) (ToDuckDB U) = Inr (read_back t, True)"
proof -
  have tr: "translated U t null s" using assms by (intro ToClickhouse_translated)
  then have "ParseInternal U s 0 = Inr (type_tree (ast_of t null))"
    using assms(1,3) ParseInternal_type_text [of U "ast_of t null" 0] by (simp add: translated_def)
  with tr show ?thesis by (simp add: Parse_def translated_def)
qed

definition sample_type :: logical_type where
  "sample_type = STRUCT [(''id'', UBIGINT), (''a b'', MAP VARCHAR (LIST (DECIMAL 18 4))), (''kind'', ENUM [''x'', ''y'']),
     (''at'', TIMESTAMP_MS)]"

lemma sample_type_created: "is_ok (ToClickhouse duck_strings duck_types sample_type True)"
  by (simp add: sample_type_def ToClickhouse.simps TupleSql_def EnumTypeSql_def Let_def str_find_def duck_types_def)

theorem created_type_reads_back_witness:
  "bindE (ToClickhouse duck_strings duck_types sample_type True) (\<lambda>s. bindE (Parse duck_strings s) (ToDuckDB duck_strings)) =
   Inr (STRUCT [(''id'', UBIGINT), (''a b'', MAP VARCHAR (LIST (DECIMAL 18 4))), (''kind'', ENUM [''x'', ''y'']),
     (''at'', TIMESTAMP_TZ)], True)"
proof -
  from sample_type_created obtain s where s: "ToClickhouse duck_strings duck_types sample_type True = Inr s"
    by (auto simp: is_ok_iff)
  have "duck_type_ok sample_type" "ast_height (ast_of sample_type True) \<le> Suc MAX_TYPE_NESTING_DEPTH" by code_simp+
  from created_type_reads_back [OF duck_strings_ok this s]
  have r: "bindE (Parse duck_strings s) (ToDuckDB duck_strings) = Inr (read_back sample_type, True)" .
  have "read_back sample_type = STRUCT [(''id'', UBIGINT), (''a b'', MAP VARCHAR (LIST (DECIMAL 18 4))),
      (''kind'', ENUM [''x'', ''y'']), (''at'', TIMESTAMP_TZ)]"
    by (simp add: sample_type_def)
  with r show ?thesis unfolding s bindE_simps by simp
qed

end
