(* ===== verification/Transactions.thy ===== *)
theory Transactions
  imports Prelude
begin

text \<open>
  \<open>src/src/storage/clickhouse_transaction.cpp\<close>: the transactions of one attached database and the
  catalog entries its cache has retired. The contract the cache relies on is the locale
  \<open>retirement\<close>: an entry retired while a transaction is active is kept until that transaction ends.

  A transaction object is identified by its id. Ids are \<open>idx_t\<close> (64 bits) in the code and unbounded
  here: the counter starts at 1 and grows by one per transaction.
\<close>

section \<open>State\<close>

record txn =
  transaction_id :: nat
  written :: bool

record 'e retired_batch =
  stamp :: nat
  batch_entries :: "'e list"

record 'e txn_manager =
  transactions :: "txn list"
  next_transaction_id :: nat
  retired :: "'e retired_batch list"

definition empty_manager :: "'e txn_manager" where
  "empty_manager = \<lparr>transactions = [], next_transaction_id = 1, retired = []\<rparr>"

section \<open>Operations\<close>

definition StartTransaction :: "'e txn_manager \<Rightarrow> nat \<times> 'e txn_manager" where
  "StartTransaction m =
     (let tid = next_transaction_id m in
      (tid, m\<lparr>transactions := transactions m @ [\<lparr>transaction_id = tid, written = False\<rparr>],
            next_transaction_id := Suc tid\<rparr>))"

definition MarkWritten :: "nat \<Rightarrow> 'e txn_manager \<Rightarrow> 'e txn_manager" where
  "MarkWritten tid m = m\<lparr>transactions :=
     map (\<lambda>t. if transaction_id t = tid then t\<lparr>written := True\<rparr> else t) (transactions m)\<rparr>"

definition HasWritten :: "nat \<Rightarrow> 'e txn_manager \<Rightarrow> bool" where
  "HasWritten tid m = list_ex (\<lambda>t. transaction_id t = tid \<and> written t) (transactions m)"

definition RetireEntries :: "'e list \<Rightarrow> 'e txn_manager \<Rightarrow> 'e txn_manager" where
  "RetireEntries es m =
     (if es = [] then m
      else m\<lparr>retired := retired m @ [\<lparr>stamp = next_transaction_id m, batch_entries = es\<rparr>]\<rparr>)"

text \<open>The loop that counts the releasable prefix.\<close>

fun ReleaseCount :: "nat \<Rightarrow> 'e retired_batch list \<Rightarrow> nat" where
  "ReleaseCount oldest_active [] = 0"
| "ReleaseCount oldest_active (b # bs) =
     (if stamp b \<le> oldest_active then Suc (ReleaseCount oldest_active bs) else 0)"

definition OldestActive :: "'e txn_manager \<Rightarrow> nat" where
  "OldestActive m = foldl min (next_transaction_id m) (map transaction_id (transactions m))"

text \<open>Returns the batches that are destroyed once the lock is released.\<close>

definition EndTransaction :: "nat \<Rightarrow> 'e txn_manager \<Rightarrow> 'e retired_batch list \<times> 'e txn_manager" where
  "EndTransaction tid m =
     (let m1 = m\<lparr>transactions := filter (\<lambda>t. transaction_id t \<noteq> tid) (transactions m)\<rparr>;
          release_count = ReleaseCount (OldestActive m1) (retired m1)
      in (take release_count (retired m1), m1\<lparr>retired := drop release_count (retired m1)\<rparr>))"

definition CommitTransaction :: "nat \<Rightarrow> 'e txn_manager \<Rightarrow> 'e retired_batch list \<times> 'e txn_manager" where
  "CommitTransaction tid m = EndTransaction tid m"

text \<open>
  A rollback after a write logs a warning (the first component), when the client context is still
  alive; the writes themselves are not undone.
\<close>

definition RollbackTransaction ::
  "bool \<Rightarrow> nat \<Rightarrow> 'e txn_manager \<Rightarrow> bool \<times> 'e retired_batch list \<times> 'e txn_manager" where
  "RollbackTransaction context_alive tid m = (HasWritten tid m \<and> context_alive, EndTransaction tid m)"

section \<open>Views of the state\<close>

definition active :: "'e txn_manager \<Rightarrow> nat set" where
  "active m = transaction_id ` set (transactions m)"

text \<open>The batch of the entry outlives the transaction: its stamp is above the id.\<close>

definition kept_for :: "'e txn_manager \<Rightarrow> nat \<Rightarrow> 'e \<Rightarrow> bool" where
  "kept_for m t e \<longleftrightarrow> (\<exists>b\<in>set (retired m). e \<in> set (batch_entries b) \<and> t < stamp b)"

definition manager_inv :: "'e txn_manager \<Rightarrow> bool" where
  "manager_inv m \<longleftrightarrow>
     distinct (map transaction_id (transactions m)) \<and>
     (\<forall>t\<in>active m. t < next_transaction_id m) \<and>
     sorted (map stamp (retired m)) \<and>
     (\<forall>b\<in>set (retired m). stamp b \<le> next_transaction_id m \<and> batch_entries b \<noteq> [])"

lemma manager_inv_empty: "manager_inv empty_manager"
  by (simp add: manager_inv_def empty_manager_def active_def)

lemma manager_inv_start: "manager_inv m \<Longrightarrow> manager_inv (snd (StartTransaction m))"
  by (force simp: manager_inv_def StartTransaction_def Let_def active_def)

lemma manager_inv_retire: "manager_inv m \<Longrightarrow> manager_inv (RetireEntries es m)"
  by (auto simp: manager_inv_def RetireEntries_def active_def sorted_append)

lemma active_MarkWritten [simp]: "active (MarkWritten t m) = active m"
proof -
  have "map transaction_id (transactions (MarkWritten t m)) = map transaction_id (transactions m)"
    by (simp add: MarkWritten_def)
  then show ?thesis unfolding active_def by (metis set_map)
qed

lemma manager_inv_mark: "manager_inv m \<Longrightarrow> manager_inv (MarkWritten t m)"
proof -
  assume "manager_inv m"
  moreover have "map transaction_id (transactions (MarkWritten t m)) = map transaction_id (transactions m)"
    by (simp add: MarkWritten_def)
  ultimately show ?thesis
    unfolding manager_inv_def by (simp only: active_MarkWritten) (simp add: MarkWritten_def)
qed

section \<open>What a transaction's end releases\<close>

lemma ReleaseCount_takeWhile: "ReleaseCount n bs = length (takeWhile (\<lambda>b. stamp b \<le> n) bs)"
  by (induction bs) auto

lemma takeWhile_sorted_filter:
  "sorted (map f bs) \<Longrightarrow> takeWhile (\<lambda>b. f b \<le> n) bs = filter (\<lambda>b. f b \<le> n) bs \<and>
     dropWhile (\<lambda>b. f b \<le> n) bs = filter (\<lambda>b. \<not> f b \<le> n) bs" for n :: nat
proof (induction bs)
  case (Cons b bs)
  show ?case
  proof (cases "f b \<le> n")
    case False
    then have "\<forall>c\<in>set bs. \<not> f c \<le> n" using Cons.prems by auto
    with False show ?thesis by (simp add: filter_empty_conv filter_id_conv)
  qed (use Cons in simp)
qed simp

lemma foldl_min: "foldl min (a :: nat) xs = Min (insert a (set xs))"
proof (induction xs arbitrary: a)
  case (Cons x xs)
  then have "foldl min a (x # xs) = Min (insert (min a x) (set xs))" by simp
  also have "\<dots> = Min (insert a (insert x (set xs)))"
    by (cases "xs = []") (simp_all add: min.assoc)
  finally show ?case by simp
qed simp

lemma OldestActive_Min: "OldestActive m = Min (insert (next_transaction_id m) (active m))"
  by (simp add: OldestActive_def foldl_min active_def)

lemma OldestActive_le: "t \<in> active m \<Longrightarrow> OldestActive m \<le> t"
  by (simp add: OldestActive_Min active_def)

lemma EndTransaction_parts:
  fixes tid :: nat
  assumes "manager_inv m"
  defines "m1 \<equiv> m\<lparr>transactions := filter (\<lambda>t. transaction_id t \<noteq> tid) (transactions m)\<rparr>"
  shows "EndTransaction tid m =
    (filter (\<lambda>b. stamp b \<le> OldestActive m1) (retired m),
     m1\<lparr>retired := filter (\<lambda>b. \<not> stamp b \<le> OldestActive m1) (retired m)\<rparr>)"
  using takeWhile_sorted_filter [of stamp "retired m" "OldestActive m1"] assms(1)
  by (simp add: EndTransaction_def Let_def m1_def [symmetric] ReleaseCount_takeWhile
      takeWhile_eq_take [symmetric] dropWhile_eq_drop [symmetric] manager_inv_def) (simp add: m1_def)

lemma EndTransaction_active: "active (snd (EndTransaction t m)) = active m - {t}"
  by (auto simp: EndTransaction_def Let_def active_def)

lemma manager_inv_end: "manager_inv m \<Longrightarrow> manager_inv (snd (EndTransaction t m))"
  using EndTransaction_active [of t m]
  by (auto simp: EndTransaction_parts manager_inv_def distinct_map_filter sorted_filter)

section \<open>The contract with the catalog cache\<close>

datatype 'e txn_op = OpStart | OpMark nat | OpRetire "'e list" | OpEnd nat

fun run_ops ::
  "('m \<Rightarrow> nat \<times> 'm) \<Rightarrow> (nat \<Rightarrow> 'm \<Rightarrow> 'm) \<Rightarrow> ('e list \<Rightarrow> 'm \<Rightarrow> 'm) \<Rightarrow> (nat \<Rightarrow> 'm \<Rightarrow> 'm) \<Rightarrow> 'e txn_op list \<Rightarrow> 'm \<Rightarrow> 'm" where
  "run_ops start mark retire finish [] m = m"
| "run_ops start mark retire finish (p # ops) m = run_ops start mark retire finish ops
     (case p of OpStart \<Rightarrow> snd (start m) | OpMark t \<Rightarrow> mark t m | OpRetire es \<Rightarrow> retire es m | OpEnd t \<Rightarrow> finish t m)"

locale retirement =
  fixes start :: "'m \<Rightarrow> nat \<times> 'm"
    and mark :: "nat \<Rightarrow> 'm \<Rightarrow> 'm"
    and retire :: "'e list \<Rightarrow> 'm \<Rightarrow> 'm"
    and finish :: "nat \<Rightarrow> 'm \<Rightarrow> 'm"
    and live :: "'m \<Rightarrow> nat set"
    and kept :: "'m \<Rightarrow> nat \<Rightarrow> 'e \<Rightarrow> bool"
    and inv :: "'m \<Rightarrow> bool"
  assumes inv_start: "inv m \<Longrightarrow> inv (snd (start m))"
    and inv_mark: "inv m \<Longrightarrow> inv (mark t m)"
    and inv_retire: "inv m \<Longrightarrow> inv (retire es m)"
    and inv_finish: "inv m \<Longrightarrow> inv (finish t m)"
    and live_start: "inv m \<Longrightarrow> fst (start m) \<notin> live m \<and> live (snd (start m)) = insert (fst (start m)) (live m)"
    and live_mark: "live (mark t m) = live m"
    and live_retire: "live (retire es m) = live m"
    and live_finish: "live (finish t m) = live m - {t}"
    and retire_keeps: "inv m \<Longrightarrow> t \<in> live m \<Longrightarrow> e \<in> set es \<Longrightarrow> kept (retire es m) t e"
    and kept_start: "kept m t e \<Longrightarrow> kept (snd (start m)) t e"
    and kept_mark: "kept m t e \<Longrightarrow> kept (mark u m) t e"
    and kept_retire: "kept m t e \<Longrightarrow> kept (retire es m) t e"
    and kept_finish: "inv m \<Longrightarrow> kept m t e \<Longrightarrow> t \<in> live m \<Longrightarrow> t \<noteq> u \<Longrightarrow> kept (finish u m) t e"
begin

lemma run_inv: "inv m \<Longrightarrow> inv (run_ops start mark retire finish ops m)"
  by (induction ops arbitrary: m)
    (auto simp: inv_start inv_mark inv_retire inv_finish split: txn_op.splits)

lemma run_live:
  "inv m \<Longrightarrow> t \<in> live m \<Longrightarrow> OpEnd t \<notin> set ops \<Longrightarrow> t \<in> live (run_ops start mark retire finish ops m)"
proof (induction ops arbitrary: m)
  case (Cons p ops)
  then show ?case
    by (cases p) (simp_all add: inv_start inv_mark inv_retire inv_finish live_start live_mark live_retire live_finish)
qed simp

lemma run_kept:
  "inv m \<Longrightarrow> t \<in> live m \<Longrightarrow> kept m t e \<Longrightarrow> OpEnd t \<notin> set ops \<Longrightarrow>
   kept (run_ops start mark retire finish ops m) t e"
proof (induction ops arbitrary: m)
  case (Cons p ops)
  then show ?case
    by (cases p) (simp_all add: inv_start inv_mark inv_retire inv_finish live_start live_mark live_retire live_finish
      kept_start kept_mark kept_retire kept_finish)
qed simp

lemma retired_until_end:
  assumes "inv m" and "t \<in> live m" and "e \<in> set es" and "OpEnd t \<notin> set ops"
  shows "kept (run_ops start mark retire finish ops (retire es m)) t e"
  by (rule run_kept) (use assms in \<open>simp_all add: inv_retire live_retire retire_keeps\<close>)

end

interpretation txns: retirement StartTransaction MarkWritten RetireEntries
  "\<lambda>t m. snd (EndTransaction t m)" active kept_for manager_inv
proof (unfold_locales, goal_cases)
  case 1 then show ?case by (rule manager_inv_start)
next
  case 2 then show ?case by (rule manager_inv_mark)
next
  case 3 then show ?case by (rule manager_inv_retire)
next
  case 4 then show ?case by (rule manager_inv_end)
next
  case 5 then show ?case
    by (auto simp: manager_inv_def active_def StartTransaction_def Let_def)
next
  case (7 es m) then show ?case by (simp add: active_def RetireEntries_def)
next
  case 8 then show ?case by (rule EndTransaction_active)
next
  case (9 m t e es) then show ?case
    by (auto simp: manager_inv_def kept_for_def RetireEntries_def)
next
  case 10 then show ?case by (simp add: kept_for_def StartTransaction_def Let_def)
next
  case 11 then show ?case by (simp add: kept_for_def MarkWritten_def)
next
  case 12 then show ?case by (auto simp: kept_for_def RetireEntries_def)
next
  case (13 m t e u)
  let ?m1 = "m\<lparr>transactions := filter (\<lambda>t. transaction_id t \<noteq> u) (transactions m)\<rparr>"
  from 13(3,4) have "t \<in> active ?m1" by (auto simp: active_def)
  then have "OldestActive ?m1 \<le> t" by (rule OldestActive_le)
  with 13 show ?case
    by (fastforce simp: EndTransaction_parts kept_for_def)
qed simp

section \<open>Properties\<close>

definition run_manager :: "'e txn_op list \<Rightarrow> 'e txn_manager" where
  "run_manager ops = run_ops StartTransaction MarkWritten RetireEntries (\<lambda>t m. snd (EndTransaction t m)) ops empty_manager"

text \<open>
  C3. A retired entry is kept until every transaction active at its retirement has ended: after any
  history of operations, an entry retired while transaction \<open>t\<close> is active is still owned by a batch of
  the manager after any further operations other than the end of \<open>t\<close>.
\<close>

theorem retired_entries_kept:
  assumes "t \<in> active (run_manager before)" and "e \<in> set es" and "OpEnd t \<notin> set after"
  shows "\<exists>b\<in>set (retired (run_ops StartTransaction MarkWritten RetireEntries (\<lambda>t m. snd (EndTransaction t m)) after
     (RetireEntries es (run_manager before)))). e \<in> set (batch_entries b)"
proof -
  have "manager_inv (run_manager before)"
    unfolding run_manager_def by (rule txns.run_inv) (rule manager_inv_empty)
  from txns.retired_until_end [OF this assms] show ?thesis
    by (auto simp: kept_for_def)
qed

theorem retired_entries_kept_witness:
  "\<exists>b\<in>set (retired (run_ops StartTransaction MarkWritten RetireEntries (\<lambda>t m. snd (EndTransaction t m))
      [OpEnd 1, OpStart, OpRetire [''c''], OpEnd 3]
      (RetireEntries [''a'', ''b''] (run_manager [OpStart, OpStart])))). ''b'' \<in> set (batch_entries b)"
  by (rule retired_entries_kept [of 2]) (code_simp, simp_all)

text \<open>
  Ending a transaction releases exactly what no active transaction can reference: the batches
  it releases and those it keeps are the retired ones, in order; every released batch is stamped at
  most the id of each transaction still active, and every batch kept has an active transaction older
  than its stamp, so none is kept when no transaction is active.
\<close>

theorem EndTransaction_releases:
  "case EndTransaction t (run_manager ops) of (released, m) \<Rightarrow>
     released @ retired m = retired (run_manager ops) \<and> active m = active (run_manager ops) - {t} \<and>
     list_all (\<lambda>b. active m \<inter> {..<stamp b} = {}) released \<and>
     list_all (\<lambda>b. active m \<inter> {..<stamp b} \<noteq> {}) (retired m)"
proof -
  let ?m = "run_manager ops"
  let ?m1 = "?m\<lparr>transactions := filter (\<lambda>x. transaction_id x \<noteq> t) (transactions ?m)\<rparr>"
  have inv: "manager_inv ?m"
    unfolding run_manager_def by (rule txns.run_inv) (rule manager_inv_empty)
  obtain released m where e: "EndTransaction t ?m = (released, m)" by fastforce
  then have parts: "released = filter (\<lambda>b. stamp b \<le> OldestActive ?m1) (retired ?m)"
    "m = ?m1\<lparr>retired := filter (\<lambda>b. \<not> stamp b \<le> OldestActive ?m1) (retired ?m)\<rparr>"
    using EndTransaction_parts [OF inv, of t] by simp_all
  have act: "active m = active ?m1" using parts(2) by (simp add: active_def)
  have "released @ retired m = retired ?m"
    using e by (auto simp: EndTransaction_def Let_def)
  moreover have "active m = active ?m - {t}"
    using EndTransaction_active [of t ?m] e by simp
  moreover have "list_all (\<lambda>b. active m \<inter> {..<stamp b} = {}) released"
    using OldestActive_le [of _ ?m1] act parts(1) by (fastforce simp: list_all_iff)
  moreover have "\<exists>u\<in>active m. u < stamp b" if "b \<in> set (retired m)" for b
  proof -
    from that parts(2) have b: "b \<in> set (retired ?m)" "OldestActive ?m1 < stamp b" by auto
    then have "stamp b \<le> next_transaction_id ?m1" using inv by (simp add: manager_inv_def)
    with b(2) have "OldestActive ?m1 \<noteq> next_transaction_id ?m1" by simp
    moreover have "OldestActive ?m1 \<in> insert (next_transaction_id ?m1) (active ?m1)"
      unfolding OldestActive_Min by (rule Min_in) (simp_all add: active_def)
    ultimately show ?thesis using b(2) act by auto
  qed
  then have "list_all (\<lambda>b. active m \<inter> {..<stamp b} \<noteq> {}) (retired m)"
    unfolding list_all_iff by blast
  ultimately show ?thesis unfolding e by simp
qed

end
