(* ===== verification/CacheSafety.thy ===== *)
theory CacheSafety
  imports CatalogSet
begin

text \<open>
  The catalog cache under concurrency (\<open>clickhouse_catalog_set.cpp\<close> and
  \<open>clickhouse_transaction.cpp\<close> together). One action is what a thread does under one lock:
  starting or ending its transaction, a step of a load under \<open>load_lock\<close>, a lookup under
  \<open>entry_lock\<close>, the two halves of \<open>ClearEntries\<close>. Any interleaving of any number of connections is a
  sequence of actions. The ghost list \<open>holds\<close> records the raw pointers handed out.
\<close>

section \<open>System and actions\<close>

record 'a system =
  manager :: "'a entry txn_manager"
  cache :: "'a catalog_set"
  loading :: bool
  clearing :: "'a entry list list"
  next_entry :: nat
  holds :: "(nat \<times> 'a entry) list"

definition initial_system :: "'a system" where
  "initial_system = \<lparr>manager = empty_manager, cache = empty_set, loading = False, clearing = [],
     next_entry = 0, holds = []\<rparr>"

datatype 'a action =
    Begin | Write nat | Finish nat
  | LoadBegin nat | LoadCreate string 'a | LoadDone | LoadFail
  | Lookup nat string | Snapshot nat
  | ClearRemove | ClearRetire

text \<open>
  \<open>TryLoadEntries\<close> keeps \<open>load_lock\<close> from its check of \<open>is_loaded\<close> to its end, so a load excludes other
  loads and \<open>ClearRemove\<close> but no lookup. Whoever looks up, scans or loads has started its transaction
  before (\<open>TryLoadEntries\<close> does so first). \<open>ClearRetire\<close> is the call of \<open>RetireEntries\<close> by the thread
  whose \<open>ClearRemove\<close> came first; ending a transaction drops the pointers it held.
\<close>

fun perform :: "string_util \<Rightarrow> 'a action \<Rightarrow> 'a system \<Rightarrow> 'a system option" where
  "perform U Begin s = Some (s\<lparr>manager := snd (StartTransaction (manager s))\<rparr>)"
| "perform U (Write t) s = Some (s\<lparr>manager := MarkWritten t (manager s)\<rparr>)"
| "perform U (Finish t) s =
     Some (s\<lparr>manager := snd (EndTransaction t (manager s)), holds := filter (\<lambda>(u, e). u \<noteq> t) (holds s)\<rparr>)"
| "perform U (LoadBegin t) s =
     (if t \<in> active (manager s) \<and> \<not> is_loaded (cache s) \<and> \<not> loading s
      then Some (s\<lparr>loading := True\<rparr>) else None)"
| "perform U (LoadCreate name c) s =
     (if loading s
      then Some (s\<lparr>cache := CreateEntry \<lparr>entry_id = next_entry s, entry_name = name, contents = c\<rparr> (cache s),
                  next_entry := Suc (next_entry s)\<rparr>)
      else None)"
| "perform U LoadDone s =
     (if loading s then Some (s\<lparr>cache := (cache s)\<lparr>is_loaded := True\<rparr>, loading := False\<rparr>) else None)"
| "perform U LoadFail s =
     (if loading s
      then Some (s\<lparr>cache := (cache s)\<lparr>entries := Map.empty, ordered_entries := []\<rparr>, loading := False\<rparr>)
      else None)"
| "perform U (Lookup t name) s =
     (if t \<in> active (manager s)
      then (case FindEntry U name (cache s) of
              None \<Rightarrow> Some s
            | Some e \<Rightarrow> Some (s\<lparr>holds := (t, e) # holds s\<rparr>))
      else None)"
| "perform U (Snapshot t) s =
     (if t \<in> active (manager s)
      then Some (s\<lparr>holds := map (Pair t) (ordered_entries (cache s)) @ holds s\<rparr>) else None)"
| "perform U ClearRemove s =
     (if loading s then None
      else (let (cleared, c) = RemoveEntries (cache s) in
            Some (s\<lparr>cache := c, clearing := clearing s @ [cleared]\<rparr>)))"
| "perform U ClearRetire s =
     (case clearing s of
        [] \<Rightarrow> None
      | es # rest \<Rightarrow> Some (s\<lparr>clearing := rest, manager := RetireEntries es (manager s)\<rparr>))"

text \<open>
  The states reachable by any interleaving; with \<open>early\<close>, those in which a load fails only before it
  has created an entry.
\<close>

inductive reachable :: "string_util \<Rightarrow> bool \<Rightarrow> 'a system \<Rightarrow> bool" for U early where
  reachable_initial: "reachable U early initial_system"
| reachable_step: "reachable U early s \<Longrightarrow> perform U a s = Some s' \<Longrightarrow>
    (early \<Longrightarrow> a = LoadFail \<Longrightarrow> ordered_entries (cache s) = []) \<Longrightarrow> reachable U early s'"

text \<open>An entry is alive while some \<open>shared_ptr\<close> owns it: the cache, a clear under way, a batch.\<close>

definition owned :: "'a system \<Rightarrow> 'a entry \<Rightarrow> bool" where
  "owned s e \<longleftrightarrow> e \<in> set (ordered_entries (cache s)) \<or> (\<exists>es\<in>set (clearing s). e \<in> set es) \<or>
     (\<exists>b\<in>set (retired (manager s)). e \<in> set (batch_entries b))"

section \<open>The invariant\<close>

text \<open>A held entry is in the cache, on its way to the manager, or in a batch stamped above its holder.\<close>

definition protected :: "'a system \<Rightarrow> nat \<Rightarrow> 'a entry \<Rightarrow> bool" where
  "protected s t e \<longleftrightarrow> e \<in> set (ordered_entries (cache s)) \<or> (\<exists>es\<in>set (clearing s). e \<in> set es) \<or>
     kept_for (manager s) t e"

definition system_inv :: "'a system \<Rightarrow> bool" where
  "system_inv s \<longleftrightarrow> manager_inv (manager s) \<and> set_inv (cache s) \<and>
     (\<forall>(t, e)\<in>set (holds s). t \<in> active (manager s) \<and> protected s t e)"

lemma system_inv_initial: "system_inv initial_system"
  by (simp add: system_inv_def initial_system_def manager_inv_empty set_inv_empty)

lemma FindEntry_cached: "set_inv c \<Longrightarrow> FindEntry U name c = Some e \<Longrightarrow> e \<in> set (ordered_entries c)"
  by (auto simp: FindEntry_def set_inv_def find_Some_iff split: option.splits)

lemma system_invI:
  assumes "manager_inv (manager s')" "set_inv (cache s')"
    and "\<And>t e. (t, e) \<in> set (holds s') \<Longrightarrow> t \<in> active (manager s') \<and> protected s' t e"
  shows "system_inv s'"
  using assms by (auto simp: system_inv_def)

lemma system_invD:
  assumes "system_inv s"
  shows "manager_inv (manager s)" "set_inv (cache s)"
    "(t, e) \<in> set (holds s) \<Longrightarrow> t \<in> active (manager s)" "(t, e) \<in> set (holds s) \<Longrightarrow> protected s t e"
  using assms by (auto simp: system_inv_def)

lemma protected_manager:
  assumes "protected s t e" and "kept_for (manager s) t e \<Longrightarrow> kept_for m t e"
  shows "protected (s\<lparr>manager := m, holds := h\<rparr>) t e" "protected (s\<lparr>manager := m\<rparr>) t e"
  using assms by (auto simp: protected_def)

lemma protected_step:
  assumes "protected s t e" and "manager s' = manager s"
    and "set (ordered_entries (cache s)) \<subseteq> set (ordered_entries (cache s')) \<union> (\<Union>es\<in>set (clearing s'). set es)"
    and "set (clearing s) \<subseteq> set (clearing s')"
  shows "protected s' t e"
  using assms unfolding protected_def by (simp only: assms(2)) blast

lemma protected_cached: "e \<in> set (ordered_entries (cache s)) \<Longrightarrow> protected s t e"
  by (simp add: protected_def)

lemma inv_Begin:
  assumes "system_inv s" and "perform U Begin s = Some s'"
  shows "system_inv s'"
proof -
  note inv = system_invD [OF assms(1)]
  have s': "s' = s\<lparr>manager := snd (StartTransaction (manager s))\<rparr>" using assms(2) by simp
  show ?thesis
    unfolding s' using inv txns.live_start [OF inv(1)]
    by (intro system_invI conjI protected_manager) (simp_all add: txns.inv_start txns.kept_start)
qed

lemma inv_Write:
  assumes "system_inv s" and "perform U (Write t) s = Some s'"
  shows "system_inv s'"
proof -
  note inv = system_invD [OF assms(1)]
  have s': "s' = s\<lparr>manager := MarkWritten t (manager s)\<rparr>" using assms(2) by simp
  show ?thesis
    unfolding s' using inv
    by (intro system_invI conjI protected_manager) (simp_all add: txns.inv_mark txns.kept_mark)
qed

lemma inv_Finish:
  assumes "system_inv s" and "perform U (Finish t) s = Some s'"
  shows "system_inv s'"
proof -
  note inv = system_invD [OF assms(1)]
  have s': "s' = s\<lparr>manager := snd (EndTransaction t (manager s)), holds := filter (\<lambda>(u, e). u \<noteq> t) (holds s)\<rparr>"
    using assms(2) by simp
  show ?thesis
    unfolding s' using inv
    by (intro system_invI conjI protected_manager)
      (auto simp: txns.inv_finish txns.live_finish intro: txns.kept_finish)
qed

lemma inv_Lookup:
  assumes "system_inv s" and "perform U (Lookup t name) s = Some s'"
  shows "system_inv s'"
proof -
  note inv = system_invD [OF assms(1)]
  consider "s' = s" | e where "s' = s\<lparr>holds := (t, e) # holds s\<rparr>" "FindEntry U name (cache s) = Some e"
      "t \<in> active (manager s)"
    using assms(2) by (auto split: option.splits if_splits)
  then show ?thesis
  proof cases
    case 2
    have e: "e \<in> set (ordered_entries (cache s))" using FindEntry_cached [OF inv(2) 2(2)] .
    show ?thesis
      unfolding 2(1)
    proof (rule system_invI)
      fix u x assume "(u, x) \<in> set (holds (s\<lparr>holds := (t, e) # holds s\<rparr>))"
      then consider "u = t" "x = e" | "(u, x) \<in> set (holds s)" by auto
      then show "u \<in> active (manager (s\<lparr>holds := (t, e) # holds s\<rparr>)) \<and> protected (s\<lparr>holds := (t, e) # holds s\<rparr>) u x"
      proof cases
        case 1
        then show ?thesis using e 2(3) by (simp add: protected_cached)
      next
        case 2
        from protected_step [OF inv(4) [OF this]] inv(3) [OF 2] show ?thesis by auto
      qed
    qed (use inv in simp_all)
  qed (use assms(1) in simp)
qed

lemma inv_ClearRemove:
  assumes "system_inv s" and "perform U ClearRemove s = Some s'"
  shows "system_inv s'"
proof -
  note inv = system_invD [OF assms(1)]
  have s': "s' = s\<lparr>cache := snd (RemoveEntries (cache s)),
      clearing := clearing s @ [ordered_entries (cache s)]\<rparr>"
    using assms(2) by (auto simp: RemoveEntries_def split: if_splits)
  show ?thesis
    unfolding s' using inv(1,3)
    by (intro system_invI conjI protected_step [OF inv(4)])
      (auto simp: set_inv_def RemoveEntries_def)
qed

lemma inv_ClearRetire:
  assumes "system_inv s" and "perform U ClearRetire s = Some s'"
  shows "system_inv s'"
proof -
  note inv = system_invD [OF assms(1)]
  obtain es rest where c: "clearing s = es # rest"
    and s': "s' = s\<lparr>clearing := rest, manager := RetireEntries es (manager s)\<rparr>"
    using assms(2) by (auto split: list.splits)
  have "protected s' t e" if "(t, e) \<in> set (holds s)" for t e
    using inv(4) [OF that] c txns.retire_keeps [OF inv(1) inv(3) [OF that], of e es]
      txns.kept_retire [of "manager s" t e es]
    unfolding s' by (simp add: protected_def) blast
  then show ?thesis
    unfolding s' using inv(1-3)
    by (intro system_invI conjI) (auto simp: txns.inv_retire txns.live_retire)
qed

lemma inv_LoadCreate:
  assumes "system_inv s" and "perform U (LoadCreate name c) s = Some s'"
  shows "system_inv s'"
proof -
  note inv = system_invD [OF assms(1)]
  have s': "s' = s\<lparr>cache := CreateEntry \<lparr>entry_id = next_entry s, entry_name = name, contents = c\<rparr> (cache s),
      next_entry := Suc (next_entry s)\<rparr>"
    using assms(2) by (auto split: if_splits)
  show ?thesis
    unfolding s' using inv(1-3)
    by (intro system_invI conjI protected_step [OF inv(4)])
      (auto simp: set_inv_create, auto simp: CreateEntry_def)
qed

lemma inv_LoadFail:
  assumes "system_inv s" and "perform U LoadFail s = Some s'" and "ordered_entries (cache s) = []"
  shows "system_inv s'"
proof -
  note inv = system_invD [OF assms(1)]
  have s': "s' = s\<lparr>cache := (cache s)\<lparr>entries := Map.empty, ordered_entries := []\<rparr>, loading := False\<rparr>"
    and e: "ordered_entries (cache s) = []"
    using assms(2,3) by (auto split: if_splits)
  show ?thesis
    unfolding s' using inv(1,3) e
    by (intro system_invI conjI protected_step [OF inv(4)]) (auto simp: set_inv_def)
qed

lemma inv_Snapshot:
  assumes "system_inv s" and "perform U (Snapshot t) s = Some s'"
  shows "system_inv s'"
proof -
  note inv = system_invD [OF assms(1)]
  have s': "s' = s\<lparr>holds := map (Pair t) (ordered_entries (cache s)) @ holds s\<rparr>" "t \<in> active (manager s)"
    using assms(2) by (auto split: if_splits)
  show ?thesis
    unfolding s'(1)
  proof (rule system_invI)
    fix u x assume "(u, x) \<in> set (holds (s\<lparr>holds := map (Pair t) (ordered_entries (cache s)) @ holds s\<rparr>))"
    then consider "u = t" "x \<in> set (ordered_entries (cache s))" | "(u, x) \<in> set (holds s)" by auto
    then show "u \<in> active (manager (s\<lparr>holds := map (Pair t) (ordered_entries (cache s)) @ holds s\<rparr>)) \<and>
        protected (s\<lparr>holds := map (Pair t) (ordered_entries (cache s)) @ holds s\<rparr>) u x"
    proof cases
      case 1
      then show ?thesis using s'(2) by (simp add: protected_cached)
    next
      case 2
      from protected_step [OF inv(4) [OF this]] inv(3) [OF 2] show ?thesis by auto
    qed
  qed (use inv in simp_all)
qed

lemma inv_LoadBegin:
  assumes "system_inv s" and "perform U (LoadBegin t) s = Some s'"
  shows "system_inv s'"
proof -
  note inv = system_invD [OF assms(1)]
  have s': "s' = s\<lparr>loading := True\<rparr>" using assms(2) by (auto split: if_splits)
  show ?thesis
    unfolding s' using inv(1-3) by (intro system_invI conjI protected_step [OF inv(4)]) auto
qed

lemma inv_LoadDone:
  assumes "system_inv s" and "perform U LoadDone s = Some s'"
  shows "system_inv s'"
proof -
  note inv = system_invD [OF assms(1)]
  have s': "s' = s\<lparr>cache := (cache s)\<lparr>is_loaded := True\<rparr>, loading := False\<rparr>"
    using assms(2) by (auto split: if_splits)
  show ?thesis
    unfolding s' using inv(1-3)
    by (intro system_invI conjI protected_step [OF inv(4)]) (auto simp: set_inv_def)
qed

lemmas action_invs = inv_Begin inv_Write inv_Finish inv_Lookup inv_ClearRemove inv_ClearRetire inv_LoadCreate inv_LoadFail inv_Snapshot inv_LoadBegin inv_LoadDone

lemma perform_inv:
  assumes "system_inv s" and "perform U a s = Some s'"
    and "a = LoadFail \<Longrightarrow> ordered_entries (cache s) = []"
  shows "system_inv s'"
  using assms by (cases a) (auto intro: action_invs simp del: perform.simps)

lemma reachable_inv: "reachable U True s \<Longrightarrow> system_inv s"
  by (induction rule: reachable.induct) (auto intro: system_inv_initial perform_inv)

section \<open>Properties\<close>

text \<open>
  C4. No dangling catalog entry: in any interleaving of transactions, loads, lookups, scans and cache
  clears by any number of connections in which a load that fails has not created an entry yet, every
  entry a still active transaction has obtained is owned by the cache, a clear under way or a retired
  batch, hence not freed.
\<close>

theorem held_entries_owned:
  assumes "reachable U True s" and "(t, e) \<in> set (holds s)"
  shows "owned s e"
proof -
  have "protected s t e" by (rule system_invD(4) [OF reachable_inv]) (rule assms)+
  then show ?thesis by (auto simp: protected_def owned_def kept_for_def)
qed

text \<open>A schedule, and the state it leads to.\<close>

fun run_actions :: "string_util \<Rightarrow> 'a action list \<Rightarrow> 'a system \<Rightarrow> 'a system option" where
  "run_actions U [] s = Some s"
| "run_actions U (a # as) s = (case perform U a s of None \<Rightarrow> None | Some s' \<Rightarrow> run_actions U as s')"

lemma run_actions_reachable:
  "reachable U early s \<Longrightarrow> run_actions U as s = Some s' \<Longrightarrow> (early \<Longrightarrow> LoadFail \<notin> set as) \<Longrightarrow> reachable U early s'"
  by (induction as arbitrary: s) (auto split: option.splits intro: reachable_step)

definition clear_schedule :: "unit action list" where
  "clear_schedule = [Begin, LoadBegin 1, LoadCreate ''a'' (), LoadDone, Lookup 1 ''a'', Begin, ClearRemove,
     ClearRetire, Finish 2]"

theorem held_entries_owned_witness:
  "\<exists>s. reachable duck_strings True s \<and> (1, entry_of 0 ''a'') \<in> set (holds s) \<and> owned s (entry_of 0 ''a'')"
proof -
  have "(case run_actions duck_strings clear_schedule initial_system of
      None \<Rightarrow> False | Some s \<Rightarrow> holds s = [(1, entry_of 0 ''a'')])" by code_simp
  then obtain s where s: "run_actions duck_strings clear_schedule initial_system = Some s"
      "holds s = [(1, entry_of 0 ''a'')]"
    by (auto split: option.splits)
  have r: "reachable duck_strings True s"
    by (rule run_actions_reachable [OF reachable_initial s(1)]) (simp add: clear_schedule_def)
  have h: "(1, entry_of 0 ''a'') \<in> set (holds s)" using s(2) by simp
  from held_entries_owned [OF r h] r h show ?thesis by blast
qed

text \<open>
  C37. The failure path of \<open>TryLoadEntries\<close> is the exception: it drops the entries created so far
  without retiring them, and a lookup that passed its own \<open>TryLoadEntries\<close> before a concurrent clear
  can have taken one meanwhile. There is a schedule after which a pointer held by an active
  transaction has no owner left.
\<close>

definition failing_schedule :: "unit action list" where
  "failing_schedule = [Begin, Begin, LoadBegin 1, LoadCreate ''a'' (), LoadDone, ClearRemove, ClearRetire,
     LoadBegin 2, LoadCreate ''a'' (), Lookup 1 ''a'', LoadFail]"

theorem failed_load_frees_held_entry:
  "\<exists>s t e. reachable duck_strings False s \<and> t \<in> active (manager s) \<and> (t, e) \<in> set (holds s) \<and>
     \<not> owned s (e :: unit entry)"
proof -
  have "(case run_actions duck_strings failing_schedule initial_system of
      None \<Rightarrow> False
    | Some s \<Rightarrow> holds s = [(1, entry_of 1 ''a'')] \<and> ordered_entries (cache s) = [] \<and> clearing s = [] \<and>
        1 \<in> active (manager s) \<and> map batch_entries (retired (manager s)) = [[entry_of 0 ''a'']])" by code_simp
  then obtain s where s: "run_actions duck_strings failing_schedule initial_system = Some s"
      "holds s = [(1, entry_of 1 ''a'')]" "ordered_entries (cache s) = []" "clearing s = []"
      "1 \<in> active (manager s)" "map batch_entries (retired (manager s)) = [[entry_of 0 ''a'']]"
    by (auto split: option.splits)
  have "reachable duck_strings False s"
    by (rule run_actions_reachable [OF reachable_initial s(1)]) simp
  moreover have "\<not> owned s (entry_of 1 ''a'')"
    using s(3,4,6) by (auto simp: owned_def entry_of_def Cons_eq_map_conv)
  ultimately show ?thesis
    using s(2,5) by (intro exI [of _ s] exI [of _ 1] exI [of _ "entry_of 1 ''a''"]) simp
qed

end
