(* ===== verification/Pool.thy ===== *)
theory Pool
  imports Prelude
begin

text \<open>
  \<open>src/database-connector/src/include/dbconnector/pool/\<close>: the connection pool. Its state, and one
  definition per operation or, where an operation releases \<open>pool_lock\<close> half way (around a health
  check or the opening of a connection), per locked section of it.

  What the pool's subclass decides (\<open>CreateNewConnection\<close>, \<open>CheckConnectionHealthy\<close>,
  \<open>TryRecoverConnection\<close>, \<open>ResetConnection\<close>) and what the clock reads are inputs of these definitions.
  Time points are nanoseconds; the zero time point means that no timeout is configured. Counters are
  \<open>uint64_t\<close> in the code and unbounded here.
\<close>

section \<open>State\<close>

datatype acquire_mode = FORCE | WAIT | TRY

record 'c cached =
  connection :: 'c
  created_at :: int
  returned_at :: int

record 'c pool =
  acquire_mode :: acquire_mode
  max_connections :: nat
  wait_timeout_millis :: nat
  max_lifetime_millis :: nat
  idle_timeout_millis :: nat
  tl_cache_enabled :: bool
  available :: "'c cached list"
  available_connections :: nat
  total_connections :: nat
  shutdown_flag :: bool
  cache_hits :: nat
  cache_misses :: nat
  try_failures :: nat
  tl_cache_hits :: nat
  tl_cache_misses :: nat
  reaper_joinable :: bool
  reaper_shutdown_flag :: bool

record pool_config =
  cfg_acquire_mode :: acquire_mode
  cfg_max_connections :: nat
  cfg_wait_timeout_millis :: nat
  cfg_tl_cache_enabled :: bool
  cfg_max_lifetime_millis :: nat
  cfg_idle_timeout_millis :: nat
  cfg_start_reaper_thread :: bool

text \<open>The coefficient is \<open>1.5\<close> in the code; \<open>float\<close> multiplication and truncation of a small count.\<close>

definition DefaultPoolSize :: "nat \<Rightarrow> nat \<Rightarrow> nat \<Rightarrow> nat" where
  "DefaultPoolSize min_connections max_conns detected = min max_conns (max min_connections (detected * 3 div 2))"

definition default_config :: "nat \<Rightarrow> pool_config" where
  "default_config detected = \<lparr>cfg_acquire_mode = FORCE, cfg_max_connections = DefaultPoolSize 4 32 detected,
     cfg_wait_timeout_millis = 30000, cfg_tl_cache_enabled = False, cfg_max_lifetime_millis = 0,
     cfg_idle_timeout_millis = 60000, cfg_start_reaper_thread = True\<rparr>"

section \<open>Acquire modes\<close>

definition mode_FromString :: "string \<Rightarrow> acquire_mode res" where
  "mode_FromString mode_str =
     (let ms = map ascii_lower_char mode_str in
      if ms = ''force'' then Inr FORCE
      else if ms = ''wait'' then Inr WAIT
      else if ms = ''try'' then Inr TRY
      else Inl (Exn PoolException ''Invalid unsupported acquire mode'' [mode_str]))"

fun mode_ToString :: "acquire_mode \<Rightarrow> string" where
  "mode_ToString FORCE = ''force''"
| "mode_ToString WAIT = ''wait''"
| "mode_ToString TRY = ''try''"

section \<open>Expiry\<close>

definition TimeoutEnabled :: "'c pool \<Rightarrow> bool" where
  "TimeoutEnabled p \<longleftrightarrow> max_lifetime_millis p > 0 \<or> idle_timeout_millis p > 0"

definition GetNowForTimeoutPurposes :: "'c pool \<Rightarrow> int \<Rightarrow> int" where
  "GetNowForTimeoutPurposes p clock = (if TimeoutEnabled p then clock else 0)"

definition TimePointExpired :: "int \<Rightarrow> nat \<Rightarrow> int \<Rightarrow> bool" where
  "TimePointExpired point timeout_millis now =
     (if now = 0 then False
      else if timeout_millis = 0 then False
      else (let age_signed_millis = (now - point) sdiv 1000000;
                age_millis = (if age_signed_millis > 0 then nat age_signed_millis else 0)
            in age_millis \<ge> timeout_millis))"

definition IsExpired :: "'c pool \<Rightarrow> 'c cached \<Rightarrow> int \<Rightarrow> bool" where
  "IsExpired p c now =
     (if now = 0 then False
      else TimePointExpired (created_at c) (max_lifetime_millis p) now \<or>
           TimePointExpired (returned_at c) (idle_timeout_millis p) now)"

definition IsExpiredSince :: "'c pool \<Rightarrow> int \<Rightarrow> int \<Rightarrow> bool" where
  "IsExpiredSince p created now =
     (if now = 0 then False else TimePointExpired created (max_lifetime_millis p) now)"

section \<open>Counting\<close>

definition DecrementTotalConnections :: "'c pool \<Rightarrow> 'c pool" where
  "DecrementTotalConnections p =
     (if total_connections p > 0 then p\<lparr>total_connections := total_connections p - 1\<rparr> else p)"

definition IsPoolDisabled :: "'c pool \<Rightarrow> bool" where
  "IsPoolDisabled p \<longleftrightarrow> max_connections p = 0"

definition set_available :: "'c cached list \<Rightarrow> 'c pool \<Rightarrow> 'c pool" where
  "set_available cs p = p\<lparr>available := cs, available_connections := length cs\<rparr>"

section \<open>Acquiring\<close>

text \<open>
  What a locked section of an acquisition ends with: a connection to use, a connection whose health
  is checked with the lock released, the permission to open a new one, an empty result, a wait on the
  condition variable, or an exception.
\<close>

datatype 'c outcome = Use "'c cached" | Probe "'c cached" | Create | Empty | Wait | Throw exn

definition shut_down :: "acquire_mode \<Rightarrow> 'c outcome" where
  "shut_down mode = (if mode = TRY then Empty else Throw (Exn PoolException ''Connection pool has been shut down'' []))"

text \<open>The loop over \<open>available\<close> as long as it need not release the lock: expired ones are dropped.\<close>

function NextCandidate :: "int \<Rightarrow> 'c pool \<Rightarrow> 'c cached option \<times> 'c pool" where
  "NextCandidate now p =
     (case available p of
        [] \<Rightarrow> (None, p)
      | c # cs \<Rightarrow>
          (let p1 = set_available cs p in
           if IsExpired p1 c now then NextCandidate now (DecrementTotalConnections p1) else (Some c, p1)))"
  by pat_completeness auto
termination
  by (relation "measure (\<lambda>(now, p). length (available p))")
    (auto simp: set_available_def DecrementTotalConnections_def)

declare NextCandidate.simps [simp del]

text \<open>
  A locked section of \<open>WaitAcquire\<close>, \<open>TryAcquire\<close> or \<open>ForceAcquire\<close>, from the top of its loop to the
  point where the lock is released or the function returns.
\<close>

definition AcquireLocked :: "acquire_mode \<Rightarrow> int \<Rightarrow> 'c pool \<Rightarrow> 'c outcome \<times> 'c pool" where
  "AcquireLocked mode now p =
     (if shutdown_flag p then (shut_down mode, p)
      else (case NextCandidate now p of
              (Some c, p1) \<Rightarrow> (Probe c, p1)
            | (None, p1) \<Rightarrow>
                if mode = FORCE \<or> total_connections p1 < max_connections p1
                then (Create, p1\<lparr>total_connections := total_connections p1 + 1\<rparr>)
                else if mode = TRY then (Empty, p1\<lparr>try_failures := try_failures p1 + 1\<rparr>)
                else (Wait, p1)))"

text \<open>The locked section after a health check, which goes back to the loop for an unhealthy one.\<close>

definition AcquireProbed :: "acquire_mode \<Rightarrow> int \<Rightarrow> 'c cached \<Rightarrow> bool \<Rightarrow> 'c pool \<Rightarrow> 'c outcome \<times> 'c pool" where
  "AcquireProbed mode now c healthy p =
     (if shutdown_flag p then (shut_down mode, DecrementTotalConnections p)
      else if healthy then (Use c, p\<lparr>cache_hits := cache_hits p + 1\<rparr>)
      else AcquireLocked mode now (DecrementTotalConnections p))"

text \<open>After \<open>CreateNewConnection\<close>: the new connection, or the exception it threw.\<close>

definition AcquireCreated :: "int \<Rightarrow> 'c res \<Rightarrow> 'c pool \<Rightarrow> 'c outcome \<times> 'c pool" where
  "AcquireCreated now result p =
     (let p1 = p\<lparr>cache_misses := cache_misses p + 1\<rparr> in
      case result of
        Inr conn \<Rightarrow> (Use \<lparr>connection = conn, created_at = now, returned_at = now\<rparr>, p1)
      | Inl ex \<Rightarrow> (Throw ex, DecrementTotalConnections p1))"

text \<open>What \<open>Acquire\<close> dispatches to, and the checks the three acquisitions start with.\<close>

definition AcquireDispatch :: "'c pool \<Rightarrow> acquire_mode" where
  "AcquireDispatch p = (if IsPoolDisabled p then FORCE else acquire_mode p)"

definition disabled_check :: "'c pool \<Rightarrow> unit res" where
  "disabled_check p =
     (if IsPoolDisabled p then Inl (Exn PoolException ''Connection pool is disabled (pool_size=0)'' []) else Inr ())"

text \<open>The first locked block of \<open>ForceAcquire\<close>: whether the connection is created outside the pool.\<close>

definition ForceCheck :: "'c pool \<Rightarrow> bool res" where
  "ForceCheck p =
     (if shutdown_flag p then Inl (Exn PoolException ''Connection pool has been shut down'' [])
      else Inr (IsPoolDisabled p))"

definition wait_timeout_error :: "'c pool \<Rightarrow> exn" where
  "wait_timeout_error p = Exn PoolException ''Connection pool timeout''
     [to_string (max_connections p), to_string (wait_timeout_millis p)]"

section \<open>Thread-local cache\<close>

text \<open>The weak pointer to the owning pool: expired (or never set), this pool, or another one.\<close>

datatype tl_owner = OwnerGone | OwnerThis | OwnerOther

record 'c tl_cache =
  cached_conn :: "'c cached option"
  tl_owner :: tl_owner
  tl_available :: bool

definition empty_tl :: "'c tl_cache" where
  "empty_tl = \<lparr>cached_conn = None, tl_owner = OwnerGone, tl_available = False\<rparr>"

definition ReturnFromThreadLocalCache :: "int \<Rightarrow> 'c cached option \<Rightarrow> 'c pool \<Rightarrow> 'c pool" where
  "ReturnFromThreadLocalCache clock cached p =
     (case cached of
        None \<Rightarrow> p
      | Some c \<Rightarrow>
          (let now = GetNowForTimeoutPurposes p clock in
           if IsExpired p c now \<or> shutdown_flag p \<or> total_connections p > max_connections p
           then DecrementTotalConnections p
           else set_available (available p @ [c]) p))"

text \<open>\<open>Clear\<close> of a cache this pool owns (or whose pool is gone); the destructor does the same.\<close>

definition tl_Clear :: "int \<Rightarrow> 'c tl_cache \<Rightarrow> 'c pool \<Rightarrow> 'c tl_cache \<times> 'c pool" where
  "tl_Clear clock cache p =
     (empty_tl, if tl_owner cache = OwnerThis then ReturnFromThreadLocalCache clock (cached_conn cache) p else p)"

definition TryAcquireFromThreadLocal ::
  "int \<Rightarrow> int \<Rightarrow> ('c \<Rightarrow> bool) \<Rightarrow> 'c tl_cache \<Rightarrow> 'c pool \<Rightarrow> 'c cached option \<times> 'c tl_cache \<times> 'c pool" where
  "TryAcquireFromThreadLocal now clock healthy cache p =
     (let miss = (\<lambda>(ch, q). (None, ch, q\<lparr>tl_cache_misses := tl_cache_misses q + 1\<rparr>)) in
      if \<not> tl_cache_enabled p then (None, cache, p)
      else if tl_owner cache \<noteq> OwnerThis then
        miss (if tl_owner cache = OwnerGone \<and> cached_conn cache \<noteq> None
              then tl_Clear clock cache p else (cache, p))
      else (case cached_conn cache of
              None \<Rightarrow> miss (cache, p)
            | Some c \<Rightarrow>
                if \<not> tl_available cache then miss (cache, p)
                else if IsExpired p c now then miss (tl_Clear clock cache p)
                else if \<not> healthy (connection c) then miss (tl_Clear clock cache p)
                else (Some c, cache\<lparr>tl_available := False, cached_conn := None\<rparr>,
                      p\<lparr>tl_cache_hits := tl_cache_hits p + 1\<rparr>)))"

definition TryReturnToThreadLocal ::
  "'c cached \<Rightarrow> 'c tl_cache \<Rightarrow> 'c pool \<Rightarrow> bool \<times> 'c tl_cache" where
  "TryReturnToThreadLocal c cache p =
     (if \<not> tl_cache_enabled p then (False, cache)
      else if tl_owner cache = OwnerOther then (False, cache)
      else if cached_conn cache \<noteq> None then (False, cache)
      else if shutdown_flag p then (False, cache)
      else if total_connections p \<ge> max_connections p \<and> available p = [] then (False, cache)
      else (True, \<lparr>cached_conn = Some c, tl_owner = OwnerThis, tl_available = True\<rparr>))"

section \<open>Returning\<close>

definition Discard :: "'c pool \<Rightarrow> 'c pool" where
  "Discard p = DecrementTotalConnections p"

text \<open>
  The checks of \<open>Return\<close> before it looks for a place for the connection: whether it is kept at all.
  \<open>healthy\<close>, \<open>recovered\<close> and \<open>reset_ok\<close> are what the subclass' functions return (no exception).
\<close>

definition Keepable :: "int \<Rightarrow> int \<Rightarrow> bool \<Rightarrow> bool \<Rightarrow> bool \<Rightarrow> 'c pool \<Rightarrow> bool" where
  "Keepable now created healthy recovered reset_ok p =
     (if IsExpiredSince p created now then False
      else if \<not> healthy \<and> \<not> recovered then False
      else reset_ok)"

definition ReturnLocked :: "'c cached \<Rightarrow> 'c pool \<Rightarrow> 'c pool" where
  "ReturnLocked c p =
     (if shutdown_flag p then DecrementTotalConnections p
      else if total_connections p > max_connections p then DecrementTotalConnections p
      else set_available (available p @ [c]) p)"

definition Return ::
  "int \<Rightarrow> 'c \<Rightarrow> int \<Rightarrow> bool \<Rightarrow> bool \<Rightarrow> bool \<Rightarrow> 'c tl_cache \<Rightarrow> 'c pool \<Rightarrow> 'c tl_cache \<times> 'c pool" where
  "Return clock conn created healthy recovered reset_ok cache p =
     (let now = GetNowForTimeoutPurposes p clock;
          c = \<lparr>connection = conn, created_at = created, returned_at = now\<rparr>
      in if \<not> Keepable now created healthy recovered reset_ok p then (cache, Discard p)
         else (case TryReturnToThreadLocal c cache p of
                 (True, cache') \<Rightarrow> (cache', p)
               | (False, _) \<Rightarrow> (cache, ReturnLocked c p)))"

section \<open>Pooled connections\<close>

text \<open>\<open>PooledConnection\<close>: whether it belongs to the pool, its connection while it has one, its flag.\<close>

record 'c pooled =
  pooled_by_pool :: bool
  pooled_conn :: "'c option"
  valid :: bool
  pooled_created_at :: int

definition pooled_from :: "bool \<Rightarrow> 'c cached \<Rightarrow> 'c pooled" where
  "pooled_from by_pool c = \<lparr>pooled_by_pool = by_pool, pooled_conn = Some (connection c), valid = True,
     pooled_created_at = created_at c\<rparr>"

definition Invalidate :: "'c pooled \<Rightarrow> 'c pooled" where
  "Invalidate pc = pc\<lparr>valid := False\<rparr>"

definition pooled_bool :: "'c pooled \<Rightarrow> bool" where
  "pooled_bool pc \<longleftrightarrow> pooled_conn pc \<noteq> None \<and> valid pc"

text \<open>
  \<open>ReturnToPool\<close>, which the destructor and the move assignment call. An exception out of \<open>Return\<close> ends
  in a discard, which is \<open>reset_ok = False\<close> here.
\<close>

definition ReturnToPool ::
  "int \<Rightarrow> bool \<Rightarrow> bool \<Rightarrow> bool \<Rightarrow> 'c tl_cache \<Rightarrow> 'c pooled \<Rightarrow> 'c pool \<Rightarrow> 'c tl_cache \<times> 'c pool" where
  "ReturnToPool clock healthy recovered reset_ok cache pc p =
     (if \<not> pooled_by_pool pc then (cache, p)
      else (case pooled_conn pc of
              None \<Rightarrow> (cache, p)
            | Some conn \<Rightarrow>
                if valid pc then Return clock conn (pooled_created_at pc) healthy recovered reset_ok cache p
                else (cache, Discard p)))"

section \<open>Resizing, shutdown and the reaper\<close>

text \<open>The eviction loop of \<open>SetMaxConnections\<close>, from the back of \<open>available\<close>.\<close>

function EvictLoop :: "'c pool \<Rightarrow> 'c pool" where
  "EvictLoop p =
     (if available p \<noteq> [] \<and> total_connections p > max_connections p
      then EvictLoop (DecrementTotalConnections (set_available (butlast (available p)) p))
      else p)"
  by pat_completeness auto
termination
  by (relation "measure (\<lambda>p. length (available p))")
    (auto simp: set_available_def DecrementTotalConnections_def)

declare EvictLoop.simps [simp del]

definition SetMaxConnections :: "nat \<Rightarrow> 'c pool \<Rightarrow> 'c pool" where
  "SetMaxConnections new_max p = EvictLoop (p\<lparr>max_connections := new_max\<rparr>)"

definition SetAcquireMode :: "acquire_mode \<Rightarrow> 'c pool \<Rightarrow> 'c pool" where
  "SetAcquireMode mode p = p\<lparr>acquire_mode := mode\<rparr>"

definition SetWaitTimeoutMillis :: "nat \<Rightarrow> 'c pool \<Rightarrow> 'c pool" where
  "SetWaitTimeoutMillis n p = p\<lparr>wait_timeout_millis := n\<rparr>"

definition SetMaxLifetimeMillis :: "nat \<Rightarrow> 'c pool \<Rightarrow> 'c pool" where
  "SetMaxLifetimeMillis n p = p\<lparr>max_lifetime_millis := n\<rparr>"

definition SetIdleTimeoutMillis :: "nat \<Rightarrow> 'c pool \<Rightarrow> 'c pool" where
  "SetIdleTimeoutMillis n p = p\<lparr>idle_timeout_millis := n\<rparr>"

text \<open>\<open>Shutdown\<close> after the reaper has been joined.\<close>

definition ShutdownReaper :: "'c pool \<Rightarrow> 'c pool" where
  "ShutdownReaper p =
     (if reaper_joinable p then p\<lparr>reaper_shutdown_flag := True, reaper_joinable := False\<rparr> else p)"

definition Shutdown :: "'c pool \<Rightarrow> 'c pool" where
  "Shutdown p =
     (let p1 = ShutdownReaper p in
      if shutdown_flag p1 then p1 else set_available [] (p1\<lparr>shutdown_flag := True\<rparr>))"

definition CalcReaperSleepSeconds :: "'c pool \<Rightarrow> nat" where
  "CalcReaperSleepSeconds p =
     (let max_lifetime_seconds = max_lifetime_millis p div 1000;
          idle_timeout_seconds = idle_timeout_millis p div 1000;
          sleep_seconds =
            (if max_lifetime_seconds > 0 \<and> idle_timeout_seconds > 0
             then min max_lifetime_seconds idle_timeout_seconds
             else if max_lifetime_seconds > 0 then max_lifetime_seconds
             else if idle_timeout_seconds > 0 then idle_timeout_seconds
             else 30)
      in min 60 (max 1 (sleep_seconds div 2)))"

text \<open>The sweep of \<open>ReaperLoop\<close> over \<open>available\<close>: what it keeps, decrementing for what it drops.\<close>

fun ReaperSweep :: "nat \<Rightarrow> nat \<Rightarrow> int \<Rightarrow> 'c cached list \<Rightarrow> 'c pool \<Rightarrow> 'c cached list \<times> 'c pool" where
  "ReaperSweep max_lifetime idle_timeout now [] p = ([], p)"
| "ReaperSweep max_lifetime idle_timeout now (c # cs) p =
     (if TimePointExpired (created_at c) max_lifetime now \<or> TimePointExpired (returned_at c) idle_timeout now
      then ReaperSweep max_lifetime idle_timeout now cs (DecrementTotalConnections p)
      else (let (kept, p1) = ReaperSweep max_lifetime idle_timeout now cs p in (c # kept, p1)))"

text \<open>One round of \<open>ReaperLoop\<close> after its sleep; \<open>False\<close> when the thread ends.\<close>

definition ReaperRound :: "int \<Rightarrow> 'c pool \<Rightarrow> bool \<times> 'c pool" where
  "ReaperRound clock p =
     (if max_lifetime_millis p = 0 \<and> idle_timeout_millis p = 0 then (False, p\<lparr>reaper_shutdown_flag := True\<rparr>)
      else (let (kept, p1) = ReaperSweep (max_lifetime_millis p) (idle_timeout_millis p) clock (available p) p
            in (True, set_available kept p1)))"

definition EnsureReaperRunning :: "'c pool \<Rightarrow> bool \<times> 'c pool" where
  "EnsureReaperRunning p =
     (if \<not> TimeoutEnabled p then (False, p)
      else if shutdown_flag p then (False, p)
      else if reaper_joinable p \<and> \<not> reaper_shutdown_flag p then (True, p)
      else (True, p\<lparr>reaper_shutdown_flag := False, reaper_joinable := True\<rparr>))"

definition new_pool :: "pool_config \<Rightarrow> 'c pool" where
  "new_pool cfg =
     (let p = \<lparr>acquire_mode = cfg_acquire_mode cfg, max_connections = cfg_max_connections cfg,
            wait_timeout_millis = cfg_wait_timeout_millis cfg, max_lifetime_millis = cfg_max_lifetime_millis cfg,
            idle_timeout_millis = cfg_idle_timeout_millis cfg, tl_cache_enabled = cfg_tl_cache_enabled cfg,
            available = [], available_connections = 0, total_connections = 0, shutdown_flag = False,
            cache_hits = 0, cache_misses = 0, try_failures = 0, tl_cache_hits = 0, tl_cache_misses = 0,
            reaper_joinable = False, reaper_shutdown_flag = True\<rparr>
      in if cfg_start_reaper_thread cfg then snd (EnsureReaperRunning p) else p)"

end
