(* ===== verification/PoolSafety.thy ===== *)
theory PoolSafety
  imports Pool "HOL-Library.Multiset"
begin

text \<open>
  The connection pool under concurrency: any interleaving of acquisitions, health checks, openings,
  returns, resizes, shutdown and reaper rounds by any number of threads is a sequence of actions,
  each one locked section of the code. The accounting invariant, exclusive ownership of connections
  and the bound on their number hold in every reachable state.
\<close>

section \<open>What the operations do\<close>

lemma set_available_simps [simp]:
  "available (set_available cs p) = cs" "available_connections (set_available cs p) = length cs"
  "total_connections (set_available cs p) = total_connections p" "shutdown_flag (set_available cs p) = shutdown_flag p"
  "max_connections (set_available cs p) = max_connections p" "tl_cache_enabled (set_available cs p) = tl_cache_enabled p"
  "IsExpired (set_available cs p) = IsExpired p"
  by (simp_all add: set_available_def IsExpired_def fun_eq_iff)

lemma Decrement_simps [simp]:
  "available (DecrementTotalConnections p) = available p"
  "available_connections (DecrementTotalConnections p) = available_connections p"
  "total_connections (DecrementTotalConnections p) = total_connections p - 1"
  "shutdown_flag (DecrementTotalConnections p) = shutdown_flag p"
  "max_connections (DecrementTotalConnections p) = max_connections p"
  "tl_cache_enabled (DecrementTotalConnections p) = tl_cache_enabled p"
  "IsExpired (DecrementTotalConnections p) = IsExpired p"
  by (simp_all add: DecrementTotalConnections_def IsExpired_def fun_eq_iff)

text \<open>What the loop of an acquisition leaves: the expired prefix is dropped and no longer counted.\<close>

lemma NextCandidate_spec:
  assumes "NextCandidate now p = (r, p')" and "length (available p) \<le> total_connections p"
    and "available_connections p = length (available p)"
  shows "\<exists>dropped. available p = dropped @ (case r of Some c \<Rightarrow> [c] | None \<Rightarrow> []) @ available p' \<and>
    list_all (\<lambda>c. IsExpired p c now) dropped \<and> (\<forall>c. r = Some c \<longrightarrow> \<not> IsExpired p c now) \<and>
    (r = None \<longrightarrow> available p' = []) \<and>
    total_connections p = total_connections p' + length dropped \<and>
    available_connections p' = length (available p') \<and>
    shutdown_flag p' = shutdown_flag p \<and> max_connections p' = max_connections p"
  using assms
proof (induction now p arbitrary: r p' rule: NextCandidate.induct)
  case (1 now p)
  show ?case
  proof (cases "available p")
    case Nil
    with "1.prems" have "r = None" "p' = p" by (auto simp: NextCandidate.simps [of now p])
    with Nil "1.prems" show ?thesis by (intro exI [of _ "[]"]) simp
  next
    case (Cons c cs)
    let ?p1 = "set_available cs p"
    show ?thesis
    proof (cases "IsExpired p c now")
      case True
      then have n: "NextCandidate now (DecrementTotalConnections ?p1) = (r, p')"
        using "1.prems"(1) Cons by (simp add: NextCandidate.simps [of now p] Let_def)
      have "length (available (DecrementTotalConnections ?p1)) \<le> total_connections (DecrementTotalConnections ?p1)"
        "available_connections (DecrementTotalConnections ?p1) = length (available (DecrementTotalConnections ?p1))"
        using "1.prems"(2) Cons by auto
      with "1.IH" [OF Cons refl _ n] True obtain dropped where
        d: "cs = dropped @ (case r of Some c \<Rightarrow> [c] | None \<Rightarrow> []) @ available p'"
          "list_all (\<lambda>c. IsExpired p c now) dropped" "\<forall>c. r = Some c \<longrightarrow> \<not> IsExpired p c now"
          "r = None \<longrightarrow> available p' = []"
          "total_connections p - 1 = total_connections p' + length dropped"
          "available_connections p' = length (available p')"
          "shutdown_flag p' = shutdown_flag p" "max_connections p' = max_connections p"
        by auto
      then show ?thesis
        using Cons True "1.prems"(2) by (intro exI [of _ "c # dropped"]) auto
    next
      case False
      then have "r = Some c" "p' = ?p1"
        using "1.prems"(1) Cons by (auto simp: NextCandidate.simps [of now p] Let_def)
      with False Cons show ?thesis by (intro exI [of _ "[]"]) simp
    qed
  qed
qed

text \<open>A connection under a health check has just been found unexpired.\<close>

lemma EvictLoop_spec:
  assumes "length (available p) \<le> total_connections p" and "available_connections p = length (available p)"
  shows "\<exists>dropped. available p = available (EvictLoop p) @ dropped \<and>
    total_connections p = total_connections (EvictLoop p) + length dropped \<and>
    available_connections (EvictLoop p) = length (available (EvictLoop p)) \<and>
    shutdown_flag (EvictLoop p) = shutdown_flag p \<and> max_connections (EvictLoop p) = max_connections p \<and>
    (available (EvictLoop p) = [] \<or> total_connections (EvictLoop p) \<le> max_connections p)"
  using assms
proof (induction p rule: EvictLoop.induct)
  case (1 p)
  show ?case
  proof (cases "available p \<noteq> [] \<and> total_connections p > max_connections p")
    case True
    let ?p1 = "DecrementTotalConnections (set_available (butlast (available p)) p)"
    have e: "EvictLoop p = EvictLoop ?p1" using True by (subst EvictLoop.simps) simp
    have "length (available ?p1) \<le> total_connections ?p1" "available_connections ?p1 = length (available ?p1)"
      using "1.prems" by auto
    from "1.IH" [OF True this] obtain dropped where
      d: "butlast (available p) = available (EvictLoop p) @ dropped"
        "total_connections p - 1 = total_connections (EvictLoop p) + length dropped"
        "available_connections (EvictLoop p) = length (available (EvictLoop p))"
        "shutdown_flag (EvictLoop p) = shutdown_flag p" "max_connections (EvictLoop p) = max_connections p"
        "available (EvictLoop p) = [] \<or> total_connections (EvictLoop p) \<le> max_connections p"
      unfolding e by auto
    have "available p = available (EvictLoop p) @ dropped @ [last (available p)]"
      using True d(1) append_butlast_last_id [of "available p"] by simp
    then show ?thesis
      using d True by (intro exI [of _ "dropped @ [last (available p)]"]) auto
  next
    case False
    then have "EvictLoop p = p" by (subst EvictLoop.simps) auto
    with False "1.prems" show ?thesis by auto
  qed
qed

lemma ReaperSweep_spec:
  assumes "ReaperSweep ml it now cs p = (kept, p')" and "length cs \<le> total_connections p"
  shows "kept = filter (\<lambda>c. \<not> (TimePointExpired (created_at c) ml now \<or> TimePointExpired (returned_at c) it now)) cs \<and>
    total_connections p + length kept = total_connections p' + length cs \<and>
    available p' = available p \<and> shutdown_flag p' = shutdown_flag p \<and> max_connections p' = max_connections p"
  using assms by (induction cs arbitrary: p kept p') (auto split: if_splits prod.splits, fastforce+)

section \<open>The system\<close>

record 'c pool_system =
  the_pool :: "'c pool"
  probing :: "(acquire_mode \<times> 'c cached) list"
  creating :: "acquire_mode list"
  used :: "'c pooled list"
  caches :: "'c tl_cache list"

definition all_but :: "nat \<Rightarrow> 'a list \<Rightarrow> 'a list" where
  "all_but i xs = take i xs @ drop (Suc i) xs"

text \<open>What a locked section's outcome adds to the system.\<close>

definition settle :: "acquire_mode \<Rightarrow> 'c outcome \<times> 'c pool \<Rightarrow> 'c pool_system \<Rightarrow> 'c pool_system" where
  "settle mode r s =
     (let s1 = s\<lparr>the_pool := snd r\<rparr> in
      case fst r of
        Use c \<Rightarrow> s1\<lparr>used := pooled_from True c # used s\<rparr>
      | Probe c \<Rightarrow> s1\<lparr>probing := (mode, c) # probing s\<rparr>
      | Create \<Rightarrow> s1\<lparr>creating := mode # creating s\<rparr>
      | _ \<Rightarrow> s1)"

datatype 'c pool_action =
    AcquireTL nat int int bool
  | AcquireNext acquire_mode int
  | AcquireUnpooled 'c
  | ProbeDone nat int bool
  | CreateDone nat int "'c res"
  | InvalidateUsed nat
  | Release nat nat int bool bool bool
  | ThreadExit nat int
  | Resize nat
  | Timeouts nat nat
  | EnableTL bool
  | Reap int
  | ShutdownPool

definition conn_mset :: "'c cached list \<Rightarrow> 'c multiset" where
  "conn_mset cs = mset (map connection cs)"

definition used_mset :: "'c pooled list \<Rightarrow> 'c multiset" where
  "used_mset us = mset (map (\<lambda>u. the (pooled_conn u)) us)"

definition tl_held :: "'c tl_cache \<Rightarrow> 'c multiset" where
  "tl_held t = (case cached_conn t of Some c \<Rightarrow> if tl_owner t = OwnerThis then {#connection c#} else {#} | None \<Rightarrow> {#})"

text \<open>Every connection the pool counts, and every connection there is.\<close>

definition counted :: "'c pool_system \<Rightarrow> 'c multiset" where
  "counted s = conn_mset (available (the_pool s)) + conn_mset (map snd (probing s)) +
     used_mset (filter pooled_by_pool (used s)) + sum_list (map tl_held (caches s))"

definition everywhere :: "'c pool_system \<Rightarrow> 'c multiset" where
  "everywhere s = counted s + used_mset (filter (\<lambda>u. \<not> pooled_by_pool u) (used s))"

text \<open>
  Guards: indices exist, a new connection is a new object, and an acquisition outside the pool needs
  what \<open>ForceCheck\<close> says. A hit in a thread's cache becomes a used connection.
\<close>

fun pool_step :: "'c pool_action \<Rightarrow> 'c pool_system \<Rightarrow> 'c pool_system option" where
  "pool_step (AcquireTL th now clock healthy) s =
     (if th < length (caches s) then
        (let (r, cache, p) = TryAcquireFromThreadLocal now clock (\<lambda>c. healthy) (caches s ! th) (the_pool s);
             s1 = s\<lparr>the_pool := p, caches := (caches s)[th := cache]\<rparr>
         in case r of
              None \<Rightarrow> Some s1
            | Some c \<Rightarrow> Some (s1\<lparr>the_pool := p\<lparr>cache_hits := cache_hits p + 1\<rparr>, used := pooled_from True c # used s\<rparr>))
      else None)"
| "pool_step (AcquireNext mode now) s = Some (settle mode (AcquireLocked mode now (the_pool s)) s)"
| "pool_step (AcquireUnpooled conn) s =
     (if ForceCheck (the_pool s) = Inr True \<and> conn \<notin># everywhere s
      then Some (s\<lparr>the_pool := (the_pool s)\<lparr>cache_misses := cache_misses (the_pool s) + 1\<rparr>,
                  used := pooled_from False \<lparr>connection = conn, created_at = 0, returned_at = 0\<rparr> # used s\<rparr>)
      else None)"
| "pool_step (ProbeDone i now healthy) s =
     (if i < length (probing s) then
        (let (mode, c) = probing s ! i in
         Some (settle mode (AcquireProbed mode now c healthy (the_pool s)) (s\<lparr>probing := all_but i (probing s)\<rparr>)))
      else None)"
| "pool_step (CreateDone i now result) s =
     (if i < length (creating s) \<and> (case result of Inl e \<Rightarrow> True | Inr conn \<Rightarrow> conn \<notin># everywhere s) then
        Some (settle (creating s ! i) (AcquireCreated now result (the_pool s)) (s\<lparr>creating := all_but i (creating s)\<rparr>))
      else None)"
| "pool_step (InvalidateUsed i) s =
     (if i < length (used s) then Some (s\<lparr>used := (used s)[i := Invalidate (used s ! i)]\<rparr>) else None)"
| "pool_step (Release i th clock healthy recovered reset_ok) s =
     (if i < length (used s) \<and> th < length (caches s) then
        (let (cache, p) = ReturnToPool clock healthy recovered reset_ok (caches s ! th) (used s ! i) (the_pool s)
         in Some (s\<lparr>the_pool := p, used := all_but i (used s), caches := (caches s)[th := cache]\<rparr>))
      else None)"
| "pool_step (ThreadExit th clock) s =
     (if th < length (caches s) then
        (let (cache, p) = tl_Clear clock (caches s ! th) (the_pool s)
         in Some (s\<lparr>the_pool := p, caches := (caches s)[th := cache]\<rparr>))
      else None)"
| "pool_step (Resize n) s = Some (s\<lparr>the_pool := SetMaxConnections n (the_pool s)\<rparr>)"
| "pool_step (Timeouts ml it) s =
     Some (s\<lparr>the_pool := SetIdleTimeoutMillis it (SetMaxLifetimeMillis ml (the_pool s))\<rparr>)"
| "pool_step (EnableTL b) s = Some (s\<lparr>the_pool := (the_pool s)\<lparr>tl_cache_enabled := b\<rparr>\<rparr>)"
| "pool_step (Reap clock) s = Some (s\<lparr>the_pool := snd (ReaperRound clock (the_pool s))\<rparr>)"
| "pool_step ShutdownPool s = Some (s\<lparr>the_pool := Shutdown (the_pool s)\<rparr>)"

definition start_system :: "pool_config \<Rightarrow> nat \<Rightarrow> 'c pool_system" where
  "start_system cfg threads = \<lparr>the_pool = new_pool cfg, probing = [], creating = [], used = [],
     caches = replicate threads empty_tl\<rparr>"

inductive pool_reachable :: "(('c pool_action \<Rightarrow> bool)) \<Rightarrow> pool_config \<Rightarrow> 'c pool_system \<Rightarrow> bool" for allowed cfg where
  pool_start: "pool_reachable allowed cfg (start_system cfg threads)"
| pool_next: "pool_reachable allowed cfg s \<Longrightarrow> allowed a \<Longrightarrow> pool_step a s = Some s' \<Longrightarrow> pool_reachable allowed cfg s'"

section \<open>The accounting invariant\<close>

definition pool_inv :: "'c pool_system \<Rightarrow> bool" where
  "pool_inv s \<longleftrightarrow>
     available_connections (the_pool s) = length (available (the_pool s)) \<and>
     (\<forall>u\<in>set (used s). pooled_conn u \<noteq> None) \<and>
     (if shutdown_flag (the_pool s)
      then available (the_pool s) = [] \<and> size (counted s) + length (creating s) \<le> total_connections (the_pool s)
      else size (counted s) + length (creating s) = total_connections (the_pool s)) \<and>
     (\<forall>c. count (everywhere s) c \<le> 1)"

lemma all_but_mset: "i < length xs \<Longrightarrow> mset xs = add_mset (xs ! i) (mset (all_but i xs))"
  by (metis add.commute all_but_def id_take_nth_drop mset.simps(2) mset_append union_mset_add_mset_right)

lemma all_but_set: "set (all_but i xs) \<subseteq> set xs"
  by (auto simp: all_but_def dest: in_set_takeD in_set_dropD)

lemma all_but_length: "i < length xs \<Longrightarrow> length xs = Suc (length (all_but i xs))"
  by (simp add: all_but_def)

lemma conn_mset_simps [simp]:
  "conn_mset [] = {#}" "conn_mset (c # cs) = add_mset (connection c) (conn_mset cs)"
  "conn_mset (cs @ ds) = conn_mset cs + conn_mset ds" "size (conn_mset cs) = length cs"
  by (simp_all add: conn_mset_def)

lemma used_mset_simps [simp]:
  "used_mset [] = {#}" "used_mset (u # us) = add_mset (the (pooled_conn u)) (used_mset us)"
  by (simp_all add: used_mset_def)

lemma conn_mset_all_but:
  "i < length xs \<Longrightarrow> conn_mset (map f xs) = add_mset (connection (f (xs ! i))) (conn_mset (map f (all_but i xs)))"
  unfolding conn_mset_def map_map mset_map by (simp add: all_but_mset [of i xs])

lemma used_mset_all_but:
  "i < length us \<Longrightarrow> used_mset (filter P us) =
     (if P (us ! i) then {#the (pooled_conn (us ! i))#} else {#}) + used_mset (filter P (all_but i us))"
proof -
  assume i: "i < length us"
  have "filter P us = filter P (take i us) @ (if P (us ! i) then [us ! i] else []) @ filter P (drop (Suc i) us)"
    using arg_cong [OF id_take_nth_drop [OF i], of "filter P"] by simp
  then show ?thesis by (simp add: used_mset_def all_but_def)
qed

lemma sum_list_update_mset:
  fixes f :: "'a \<Rightarrow> 'b multiset"
  assumes "i < length xs"
  shows "sum_list (map f (xs[i := y])) + f (xs ! i) = sum_list (map f xs) + f y"
  using assms
proof (induction xs arbitrary: i)
  case (Cons x xs)
  then show ?case by (cases i) (auto simp: ac_simps)
qed simp


text \<open>How an outcome and the pool it leaves account for the connections of the pool before.\<close>

definition outcome_mset :: "'c outcome \<Rightarrow> 'c multiset" where
  "outcome_mset r = (case r of Use c \<Rightarrow> {#connection c#} | Probe c \<Rightarrow> {#connection c#} | _ \<Rightarrow> {#})"

definition outcome_creates :: "'c outcome \<Rightarrow> nat" where
  "outcome_creates r = (case r of Create \<Rightarrow> 1 | _ \<Rightarrow> 0)"

lemma outcome_simps [simp]:
  "outcome_mset (Use c) = {#connection c#}" "outcome_mset (Probe c) = {#connection c#}" "outcome_mset Create = {#}"
  "outcome_mset Empty = {#}" "outcome_mset Wait = {#}" "outcome_mset (Throw e) = {#}"
  "outcome_creates (Use c) = 0" "outcome_creates (Probe c) = 0" "outcome_creates Create = 1"
  "outcome_creates Empty = 0" "outcome_creates Wait = 0" "outcome_creates (Throw e) = 0"
  by (simp_all add: outcome_mset_def outcome_creates_def)

lemma outcome_shut_down [simp]: "outcome_mset (shut_down m) = {#}" "outcome_creates (shut_down m) = 0"
  by (simp_all add: shut_down_def)

definition accounts :: "'c multiset \<Rightarrow> 'c pool \<Rightarrow> 'c outcome \<times> 'c pool \<Rightarrow> bool" where
  "accounts extra p rp \<longleftrightarrow>
     (\<exists>dropped. conn_mset (available p) + extra = dropped + outcome_mset (fst rp) + conn_mset (available (snd rp)) \<and>
        total_connections p + outcome_creates (fst rp) = total_connections (snd rp) + size dropped) \<and>
     available_connections (snd rp) = length (available (snd rp)) \<and>
     shutdown_flag (snd rp) = shutdown_flag p \<and> max_connections (snd rp) = max_connections p \<and>
     (shutdown_flag p \<longrightarrow> available (snd rp) = available p)"

lemma accountsI:
  assumes "conn_mset (available p) + extra = dropped + outcome_mset r + conn_mset (available p')"
    and "total_connections p + outcome_creates r = total_connections p' + size dropped"
    and "available_connections p' = length (available p')" and "shutdown_flag p' = shutdown_flag p"
    and "max_connections p' = max_connections p" and "shutdown_flag p \<longrightarrow> available p' = available p"
  shows "accounts extra p (r, p')"
  using assms by (auto simp: accounts_def)

lemma AcquireLocked_accounts:
  assumes "length (available p) \<le> total_connections p" and "available_connections p = length (available p)"
  shows "accounts {#} p (AcquireLocked mode now p)"
proof (cases "shutdown_flag p")
  case True
  then show ?thesis
    using assms by (auto simp: AcquireLocked_def intro!: accountsI [where dropped = "{#}"])
next
  case False
  obtain r p' where n: "NextCandidate now p = (r, p')" by fastforce
  from NextCandidate_spec [OF n assms] obtain dropped where
    d: "available p = dropped @ (case r of Some c \<Rightarrow> [c] | None \<Rightarrow> []) @ available p'"
      "r = None \<longrightarrow> available p' = []"
      "total_connections p = total_connections p' + length dropped"
      "available_connections p' = length (available p')"
      "shutdown_flag p' = shutdown_flag p" "max_connections p' = max_connections p" by auto
  show ?thesis
    using False n d
    by (cases r) (auto simp: AcquireLocked_def intro!: accountsI [where dropped = "conn_mset dropped"])
qed

lemma AcquireProbed_accounts:
  assumes "Suc (length (available p)) \<le> total_connections p" and "available_connections p = length (available p)"
  shows "accounts {#connection c#} p (AcquireProbed mode now c healthy p)"
proof -
  have "accounts {#} (DecrementTotalConnections p) (AcquireLocked mode now (DecrementTotalConnections p))"
    by (rule AcquireLocked_accounts) (use assms in auto)
  then have l: "accounts {#connection c#} p (AcquireLocked mode now (DecrementTotalConnections p))"
    using assms(1) unfolding accounts_def
    by (elim conjE exE, intro conjI) (rule_tac x = "add_mset (connection c) dropped" in exI, auto)
  consider "shutdown_flag p" | "\<not> shutdown_flag p" "healthy" | "\<not> shutdown_flag p" "\<not> healthy" by blast
  then show ?thesis
  proof cases
    case 1
    then show ?thesis
      using assms by (auto simp: AcquireProbed_def intro!: accountsI [where dropped = "{#connection c#}"])
  next
    case 2
    then show ?thesis
      using assms by (auto simp: AcquireProbed_def intro!: accountsI [where dropped = "{#}"])
  next
    case 3
    with l show ?thesis by (simp add: AcquireProbed_def)
  qed
qed

text \<open>What the system holds besides the idle connections.\<close>

definition outside :: "'c pool_system \<Rightarrow> 'c multiset" where
  "outside s = conn_mset (map snd (probing s)) + used_mset (filter pooled_by_pool (used s)) +
     sum_list (map tl_held (caches s))"

lemma counted_outside: "counted s = conn_mset (available (the_pool s)) + outside s"
  by (simp add: counted_def outside_def ac_simps)

lemma settle_fields:
  "the_pool (settle mode rp s) = snd rp" "outside (settle mode rp s) = outside s + outcome_mset (fst rp)"
  "length (creating (settle mode rp s)) = length (creating s) + outcome_creates (fst rp)"
  "everywhere (settle mode rp s) + conn_mset (available (the_pool s)) =
     everywhere s + conn_mset (available (snd rp)) + outcome_mset (fst rp)"
  "(\<forall>u\<in>set (used (settle mode rp s)). pooled_conn u \<noteq> None) = (\<forall>u\<in>set (used s). pooled_conn u \<noteq> None)"
  by (cases "fst rp"; simp add: settle_def Let_def outside_def everywhere_def counted_outside pooled_from_def ac_simps)+


lemma pool_invI:
  assumes "pool_inv s"
    and "available_connections (the_pool s') = length (available (the_pool s'))"
    and "\<forall>u\<in>set (used s'). pooled_conn u \<noteq> None"
    and "shutdown_flag (the_pool s) \<Longrightarrow> shutdown_flag (the_pool s')"
    and "shutdown_flag (the_pool s') \<Longrightarrow> available (the_pool s') = []"
    and "total_connections (the_pool s') + size (counted s) + length (creating s) =
      total_connections (the_pool s) + size (counted s') + length (creating s')"
    and "everywhere s' + lost = everywhere s + fresh" and "\<forall>c\<in>#fresh. c \<notin># everywhere s" and "\<forall>c. count fresh c \<le> 1"
  shows "pool_inv s'"
proof -
  have "count (everywhere s') c \<le> 1" for c
  proof -
    have "count (everywhere s') c + count lost c = count (everywhere s) c + count fresh c"
      using arg_cong [OF assms(7), of "\<lambda>m. count m c"] by simp
    moreover have "count (everywhere s) c \<le> 1" using assms(1) by (simp add: pool_inv_def)
    moreover have "count fresh c = 0 \<or> count (everywhere s) c = 0"
      using assms(8) by (cases "c \<in># fresh") (simp_all add: not_in_iff)
    moreover have "count fresh c \<le> 1" using assms(9) by blast
    ultimately show ?thesis by linarith
  qed
  moreover have "if shutdown_flag (the_pool s')
      then available (the_pool s') = [] \<and> size (counted s') + length (creating s') \<le> total_connections (the_pool s')
      else size (counted s') + length (creating s') = total_connections (the_pool s')"
  proof (cases "shutdown_flag (the_pool s')")
    case True
    have "size (counted s) + length (creating s) \<le> total_connections (the_pool s)"
      using assms(1) by (auto simp: pool_inv_def split: if_splits)
    with True assms(5,6) show ?thesis by simp
  next
    case False
    then have "size (counted s) + length (creating s) = total_connections (the_pool s)"
      using assms(1,4) by (auto simp: pool_inv_def split: if_splits)
    with False assms(6) show ?thesis by simp
  qed
  ultimately show ?thesis using assms(2,3) unfolding pool_inv_def by blast
qed

lemma pool_invD:
  assumes "pool_inv s"
  shows "available_connections (the_pool s) = length (available (the_pool s))"
    "u \<in> set (used s) \<Longrightarrow> pooled_conn u \<noteq> None"
    "shutdown_flag (the_pool s) \<Longrightarrow> available (the_pool s) = []"
    "size (counted s) + length (creating s) \<le> total_connections (the_pool s)"
    "length (available (the_pool s)) + size (outside s) + length (creating s) \<le> total_connections (the_pool s)"
  using assms by (auto simp: pool_inv_def counted_outside split: if_splits)

text \<open>An outcome that accounts for the pool settles into a state that satisfies the invariant.\<close>

lemma settle_inv:
  assumes inv: "pool_inv s" and "accounts extra (the_pool s) rp"
    and s1: "the_pool s1 = the_pool s" "outside s1 + extra = outside s + fresh"
      "everywhere s1 + extra = everywhere s + fresh" "set (used s1) \<subseteq> set (used s)"
      "length (creating s1) + size fresh = length (creating s)"
    and "\<forall>c\<in>#fresh. c \<notin># everywhere s" and "\<forall>c. count fresh c \<le> 1"
  shows "pool_inv (settle mode rp s1)"
proof -
  let ?p = "the_pool s"
  from assms(2) obtain dropped where
    d: "conn_mset (available ?p) + extra = dropped + outcome_mset (fst rp) + conn_mset (available (snd rp))"
      "total_connections ?p + outcome_creates (fst rp) = total_connections (snd rp) + size dropped"
      "available_connections (snd rp) = length (available (snd rp))" "shutdown_flag (snd rp) = shutdown_flag ?p"
      "shutdown_flag ?p \<longrightarrow> available (snd rp) = available ?p"
    by (auto simp: accounts_def)
  note f = settle_fields [of mode rp s1]
  show ?thesis
  proof (rule pool_invI [OF inv, where lost = dropped and fresh = fresh])
    show "\<forall>u\<in>set (used (settle mode rp s1)). pooled_conn u \<noteq> None"
      using f(5) s1(4) pool_invD(2) [OF inv] by blast
    show "everywhere (settle mode rp s1) + dropped = everywhere s + fresh"
    proof (rule multiset_eqI)
      fix c
      show "count (everywhere (settle mode rp s1) + dropped) c = count (everywhere s + fresh) c"
        using arg_cong [OF f(4), of "\<lambda>m. count m c"] arg_cong [OF d(1), of "\<lambda>m. count m c"]
          arg_cong [OF s1(3), of "\<lambda>m. count m c"] s1(1) by simp
    qed
    have sz: "size (conn_mset (available ?p)) + size extra =
        size dropped + size (outcome_mset (fst rp)) + size (conn_mset (available (snd rp)))"
      using arg_cong [OF d(1), of size] by simp
    have "size (outside s1) + size extra = size (outside s) + size fresh"
      using arg_cong [OF s1(2), of size] by simp
    with sz show "total_connections (the_pool (settle mode rp s1)) + size (counted s) + length (creating s) =
        total_connections ?p + size (counted (settle mode rp s1)) + length (creating (settle mode rp s1))"
      using d(2) s1(5) by (simp add: counted_outside f(1,2,3))
    show "shutdown_flag (the_pool (settle mode rp s1)) \<Longrightarrow> available (the_pool (settle mode rp s1)) = []"
      using d(4,5) pool_invD(3) [OF inv] by (simp add: f(1))
  qed (use d(3,4) assms(8,9) in \<open>simp_all add: f(1)\<close>)
qed


section \<open>Every action preserves it\<close>

lemma inv_AcquireNext:
  assumes "pool_inv s" and "pool_step (AcquireNext mode now) s = Some s'"
  shows "pool_inv s'"
proof -
  have "accounts {#} (the_pool s) (AcquireLocked mode now (the_pool s))"
    using pool_invD(1,5) [OF assms(1)] by (intro AcquireLocked_accounts) auto
  from settle_inv [OF assms(1) this, of s "{#}" mode] assms(2) show ?thesis by simp
qed

lemma inv_ProbeDone:
  assumes "pool_inv s" and "pool_step (ProbeDone i now healthy) s = Some s'"
  shows "pool_inv s'"
proof -
  obtain mode c where i: "i < length (probing s)" "probing s ! i = (mode, c)"
    and s': "s' = settle mode (AcquireProbed mode now c healthy (the_pool s)) (s\<lparr>probing := all_but i (probing s)\<rparr>)"
    using assms(2) by (auto split: if_splits prod.splits)
  have o: "outside s = outside (s\<lparr>probing := all_but i (probing s)\<rparr>) + {#connection c#}"
    using conn_mset_all_but [OF i(1), of snd] i(2) by (simp add: outside_def)
  then have "everywhere s = everywhere (s\<lparr>probing := all_but i (probing s)\<rparr>) + {#connection c#}"
    by (simp add: everywhere_def counted_outside)
  moreover have "size (outside s) \<ge> 1" unfolding o by simp
  then have "accounts {#connection c#} (the_pool s) (AcquireProbed mode now c healthy (the_pool s))"
    using pool_invD(1,5) [OF assms(1)] by (intro AcquireProbed_accounts) auto
  ultimately show ?thesis
    unfolding s' by (intro settle_inv [OF assms(1), where fresh = "{#}" and extra = "{#connection c#}"]) (use o in auto)
qed

lemma inv_CreateDone:
  assumes "pool_inv s" and "pool_step (CreateDone i now result) s = Some s'"
  shows "pool_inv s'"
proof -
  let ?s1 = "s\<lparr>creating := all_but i (creating s)\<rparr>"
  have i: "i < length (creating s)" and fresh: "\<And>conn. result = Inr conn \<Longrightarrow> conn \<notin># everywhere s"
    and s': "s' = settle (creating s ! i) (AcquireCreated now result (the_pool s)) ?s1"
    using assms(2) by (auto split: if_splits)
  note l = all_but_length [OF i]
  note f = settle_fields [of "creating s ! i" "AcquireCreated now result (the_pool s)" ?s1]
  have o: "outside ?s1 = outside s" "everywhere ?s1 = everywhere s"
    by (simp_all add: outside_def everywhere_def counted_outside)
  have p: "conn_mset (available (snd (AcquireCreated now result (the_pool s)))) = conn_mset (available (the_pool s))"
    "available (snd (AcquireCreated now result (the_pool s))) = available (the_pool s)"
    "available_connections (snd (AcquireCreated now result (the_pool s))) = available_connections (the_pool s)"
    "shutdown_flag (snd (AcquireCreated now result (the_pool s))) = shutdown_flag (the_pool s)"
    by (auto simp: AcquireCreated_def Let_def split: sum.split)
  show ?thesis
  proof (cases result)
    case (Inl e)
    then have r: "AcquireCreated now result (the_pool s) =
        (Throw e, DecrementTotalConnections ((the_pool s)\<lparr>cache_misses := cache_misses (the_pool s) + 1\<rparr>))"
      by (simp add: AcquireCreated_def Let_def)
    have t: "0 < total_connections (the_pool s)"
      using pool_invD(5) [OF assms(1)] l by linarith
    show ?thesis
      unfolding s' by (rule pool_invI [OF assms(1), where lost = "{#}" and fresh = "{#}"])
        (use f o l t pool_invD(1-3) [OF assms(1)] in \<open>simp_all add: r counted_outside\<close>)
  next
    case (Inr conn)
    then have r: "AcquireCreated now result (the_pool s) = (Use \<lparr>connection = conn, created_at = now, returned_at = now\<rparr>,
        (the_pool s)\<lparr>cache_misses := cache_misses (the_pool s) + 1\<rparr>)"
      by (simp add: AcquireCreated_def Let_def)
    show ?thesis
      unfolding s' by (rule pool_invI [OF assms(1), where lost = "{#}" and fresh = "{#conn#}"])
        (use f o l fresh [OF Inr] pool_invD(1-3) [OF assms(1)] in \<open>simp_all add: r counted_outside\<close>)
  qed
qed

lemma accounts_counters [simp]:
  "accounts e p (r, q\<lparr>tl_cache_misses := n\<rparr>) = accounts e p (r, q)"
  "accounts e p (r, q\<lparr>tl_cache_hits := n\<rparr>) = accounts e p (r, q)"
  "accounts e p (r, q\<lparr>cache_hits := n\<rparr>) = accounts e p (r, q)"
  by (simp_all add: accounts_def)

lemma accounts_drop:
  assumes "Suc (length (available p)) \<le> total_connections p" and "available_connections p = length (available p)"
  shows "accounts {#c#} p (Empty, DecrementTotalConnections p)"
  using assms by (auto intro!: accountsI [where dropped = "{#c#}"])

lemma accounts_append:
  assumes "available_connections p = length (available p)" and "\<not> shutdown_flag p"
  shows "accounts {#connection c#} p (Empty, set_available (available p @ [c]) p)"
  using assms by (auto intro!: accountsI [where dropped = "{#}"])

lemma accounts_same: "available_connections p = length (available p) \<Longrightarrow> accounts {#} p (Empty, p)"
  by (auto intro!: accountsI [where dropped = "{#}"])

lemma tl_held_simps [simp]: "tl_held empty_tl = {#}"
  by (simp add: tl_held_def empty_tl_def)

lemma tl_Clear_accounts:
  assumes "length (available p) + size (tl_held cache) \<le> total_connections p"
    and "available_connections p = length (available p)"
  shows "accounts (tl_held cache) p (Empty, snd (tl_Clear clock cache p)) \<and> tl_held (fst (tl_Clear clock cache p)) = {#}"
proof (cases "tl_owner cache = OwnerThis \<and> cached_conn cache \<noteq> None")
  case True
  then obtain c where c: "tl_owner cache = OwnerThis" "cached_conn cache = Some c" by auto
  then have h: "tl_held cache = {#connection c#}" by (simp add: tl_held_def)
  show ?thesis
    using assms c by (simp add: h tl_Clear_def ReturnFromThreadLocalCache_def Let_def accounts_drop accounts_append)
next
  case False
  then have "tl_held cache = {#}" by (auto simp: tl_held_def split: option.split)
  with False assms(2) show ?thesis
    by (auto simp: tl_Clear_def ReturnFromThreadLocalCache_def accounts_same)
qed

lemma TryAcquireFromThreadLocal_accounts:
  assumes "length (available p) + size (tl_held cache) \<le> total_connections p"
    and "available_connections p = length (available p)"
    and "TryAcquireFromThreadLocal now clock healthy cache p = (r, cache', p')"
  shows "\<exists>extra. tl_held cache = extra + tl_held cache' \<and>
    accounts extra p (case r of Some c \<Rightarrow> Use c | None \<Rightarrow> Empty, p')"
proof -
  note clear = tl_Clear_accounts [OF assms(1,2), of clock]
  note same = accounts_same [OF assms(2)]
  obtain ch q where cl: "tl_Clear clock cache p = (ch, q)" by fastforce
  have miss: ?thesis if "r = None" "cache' = cache" "p' = p \<or> p' = p\<lparr>tl_cache_misses := tl_cache_misses p + 1\<rparr>"
    using that same by auto
  have cleared: ?thesis if "r = None" "cache' = ch" "p' = q\<lparr>tl_cache_misses := tl_cache_misses q + 1\<rparr>"
    using that clear cl by auto
  have hit: ?thesis
    if "r = Some c" "cached_conn cache = Some c" "tl_owner cache = OwnerThis"
      "cache' = cache\<lparr>tl_available := False, cached_conn := None\<rparr>" "p' = p\<lparr>tl_cache_hits := tl_cache_hits p + 1\<rparr>" for c
  proof -
    have "tl_held cache = {#connection c#}" "tl_held cache' = {#}" using that by (simp_all add: tl_held_def)
    moreover have "accounts {#connection c#} p (Use c, p)"
      using assms(2) by (auto intro!: accountsI [where dropped = "{#}"])
    ultimately show ?thesis using that by auto
  qed
  note def = assms(3) [unfolded TryAcquireFromThreadLocal_def Let_def cl prod.case]
  show ?thesis
  proof (cases "tl_cache_enabled p \<and> tl_owner cache = OwnerThis")
    case False
    show ?thesis
    proof (cases "tl_cache_enabled p \<and> tl_owner cache = OwnerGone \<and> cached_conn cache \<noteq> None")
      case True
      with def have "r = None \<and> cache' = ch \<and> p' = q\<lparr>tl_cache_misses := tl_cache_misses q + 1\<rparr>" by auto
      then show ?thesis by (elim conjE) (rule cleared)
    next
      case F: False
      have "r = None \<and> cache' = cache \<and> (p' = p \<or> p' = p\<lparr>tl_cache_misses := tl_cache_misses p + 1\<rparr>)"
      proof (cases "tl_cache_enabled p")
        case True
        then have "tl_owner cache \<noteq> OwnerThis" "\<not> (tl_owner cache = OwnerGone \<and> cached_conn cache \<noteq> None)"
          using False F by blast+
        with True def show ?thesis by (simp only: not_True_eq_False if_False if_True simp_thms prod.case) simp
      qed (use def in simp)
      then show ?thesis by (elim conjE) (rule miss)
    qed
  next
    case True
    show ?thesis
    proof (cases "cached_conn cache")
      case None
      with True def have "r = None \<and> cache' = cache \<and> (p' = p \<or> p' = p\<lparr>tl_cache_misses := tl_cache_misses p + 1\<rparr>)"
        by auto
      then show ?thesis by (elim conjE) (rule miss)
    next
      case (Some c)
      consider "\<not> tl_available cache" | "tl_available cache" "IsExpired p c now \<or> \<not> healthy (connection c)"
        | "tl_available cache" "\<not> IsExpired p c now" "healthy (connection c)" by blast
      then show ?thesis
      proof cases
        case 1
        with Some True def have "r = None \<and> cache' = cache \<and> (p' = p \<or> p' = p\<lparr>tl_cache_misses := tl_cache_misses p + 1\<rparr>)"
          by auto
        then show ?thesis by (elim conjE) (rule miss)
      next
        case 2
        with Some True def have "r = None \<and> cache' = ch \<and> p' = q\<lparr>tl_cache_misses := tl_cache_misses q + 1\<rparr>"
          by (auto split: if_splits)
        then show ?thesis by (elim conjE) (rule cleared)
      next
        case 3
        with Some True def have "r = Some c \<and> cache' = cache\<lparr>tl_available := False, cached_conn := None\<rparr> \<and>
            p' = p\<lparr>tl_cache_hits := tl_cache_hits p + 1\<rparr>" by auto
        with Some True show ?thesis by (elim conjE) (rule hit)
      qed
    qed
  qed
qed

lemma outside_cache:
  assumes "th < length (caches s)"
  shows "outside (s\<lparr>caches := (caches s)[th := t]\<rparr>) + tl_held (caches s ! th) = outside s + tl_held t"
    "everywhere (s\<lparr>caches := (caches s)[th := t]\<rparr>) + tl_held (caches s ! th) = everywhere s + tl_held t"
  using sum_list_update_mset [OF assms, of tl_held t]
  by (simp_all add: outside_def everywhere_def counted_outside ac_simps)

lemma cache_bound:
  assumes "pool_inv s" and "th < length (caches s)"
  shows "length (available (the_pool s)) + size (tl_held (caches s ! th)) \<le> total_connections (the_pool s)"
proof -
  have "size (outside s) \<ge> size (tl_held (caches s ! th))"
    using arg_cong [OF outside_cache(1) [OF assms(2), of empty_tl], of size] by simp
  with pool_invD(5) [OF assms(1)] show ?thesis by linarith
qed

lemma settle_Empty: "settle m (Empty, p) s = s\<lparr>the_pool := p\<rparr>"
  by (simp add: settle_def)

lemma inv_AcquireTL:
  assumes "pool_inv s" and "pool_step (AcquireTL th now clock healthy) s = Some s'"
  shows "pool_inv s'"
proof -
  obtain r cache p where th: "th < length (caches s)"
    and t: "TryAcquireFromThreadLocal now clock (\<lambda>c. healthy) (caches s ! th) (the_pool s) = (r, cache, p)"
    and s': "s' = settle FORCE (case r of Some c \<Rightarrow> Use c | None \<Rightarrow> Empty,
        case r of Some c \<Rightarrow> p\<lparr>cache_hits := cache_hits p + 1\<rparr> | None \<Rightarrow> p) (s\<lparr>caches := (caches s)[th := cache]\<rparr>)"
    using assms(2) by (auto simp: settle_def Let_def split: if_splits prod.splits option.splits)
  from TryAcquireFromThreadLocal_accounts [OF cache_bound [OF assms(1) th] pool_invD(1) [OF assms(1)] t]
  obtain extra where e: "tl_held (caches s ! th) = extra + tl_held cache"
    and a: "accounts extra (the_pool s) (case r of Some c \<Rightarrow> Use c | None \<Rightarrow> Empty, p)" by blast
  have a': "accounts extra (the_pool s) (case r of Some c \<Rightarrow> Use c | None \<Rightarrow> Empty,
      case r of Some c \<Rightarrow> p\<lparr>cache_hits := cache_hits p + 1\<rparr> | None \<Rightarrow> p)"
    using a by (cases r) simp_all
  show ?thesis
    unfolding s'
    by (rule settle_inv [OF assms(1) a', where fresh = "{#}"])
      (use outside_cache [OF th, of cache] in \<open>simp_all add: e add.assoc [symmetric]\<close>)
qed

lemma inv_ThreadExit:
  assumes "pool_inv s" and "pool_step (ThreadExit th clock) s = Some s'"
  shows "pool_inv s'"
proof -
  obtain cache p where th: "th < length (caches s)" and t: "tl_Clear clock (caches s ! th) (the_pool s) = (cache, p)"
    and s': "s' = settle FORCE (Empty, p) (s\<lparr>caches := (caches s)[th := cache]\<rparr>)"
    using assms(2) by (auto simp: settle_Empty split: if_splits prod.splits)
  from tl_Clear_accounts [OF cache_bound [OF assms(1) th] pool_invD(1) [OF assms(1)], of clock] t
  have a: "accounts (tl_held (caches s ! th)) (the_pool s) (Empty, p)" "tl_held cache = {#}" by simp_all
  show ?thesis
    unfolding s'
    by (rule settle_inv [OF assms(1) a(1), where fresh = "{#}"]) (use outside_cache [OF th, of cache] a(2) in simp_all)
qed

lemma inv_AcquireUnpooled:
  assumes "pool_inv s" and "pool_step (AcquireUnpooled conn) s = Some s'"
  shows "pool_inv s'"
proof -
  have c: "conn \<notin># everywhere s"
    and s': "s' = s\<lparr>the_pool := (the_pool s)\<lparr>cache_misses := cache_misses (the_pool s) + 1\<rparr>,
      used := pooled_from False \<lparr>connection = conn, created_at = 0, returned_at = 0\<rparr> # used s\<rparr>"
    using assms(2) by (auto split: if_splits)
  have "counted s' = counted s" "everywhere s' = everywhere s + {#conn#}"
    by (simp_all add: s' counted_def everywhere_def pooled_from_def)
  then show ?thesis
    by (intro pool_invI [OF assms(1), where lost = "{#}" and fresh = "{#conn#}"])
      (use c pool_invD(1-3) [OF assms(1)] in \<open>auto simp: s' pooled_from_def\<close>)
qed

lemma filter_update_same:
  "i < length xs \<Longrightarrow> P y = P (xs ! i) \<Longrightarrow> f y = f (xs ! i) \<Longrightarrow> map f (filter P (xs[i := y])) = map f (filter P xs)"
proof (induction xs arbitrary: i)
  case (Cons x xs)
  then show ?case by (cases i) auto
qed simp

lemma inv_InvalidateUsed:
  assumes "pool_inv s" and "pool_step (InvalidateUsed i) s = Some s'"
  shows "pool_inv s'"
proof -
  have i: "i < length (used s)" and s': "s' = s\<lparr>used := (used s)[i := Invalidate (used s ! i)]\<rparr>"
    using assms(2) by (auto split: if_splits)
  have "used_mset (filter P ((used s)[i := Invalidate (used s ! i)])) = used_mset (filter P (used s))"
    if "\<And>u. P (Invalidate u) = P u" for P
    unfolding used_mset_def by (subst filter_update_same) (use i that in \<open>auto simp: Invalidate_def\<close>)
  then have "counted s' = counted s" "everywhere s' = everywhere s"
    by (simp_all add: s' counted_def everywhere_def Invalidate_def)
  moreover have "\<forall>u\<in>set (used s'). pooled_conn u \<noteq> None"
  proof
    fix u assume "u \<in> set (used s')"
    then have "u \<in> set (used s) \<or> u = Invalidate (used s ! i)"
      using set_update_subset_insert unfolding s' by fastforce
    then show "pooled_conn u \<noteq> None"
      using pool_invD(2) [OF assms(1)] i by (auto simp: Invalidate_def)
  qed
  ultimately show ?thesis
    by (intro pool_invI [OF assms(1), where lost = "{#}" and fresh = "{#}"])
      (use pool_invD(1,3) [OF assms(1)] in \<open>simp_all add: s'\<close>)
qed

text \<open>Returning: kept in the thread's cache, appended to \<open>available\<close>, or no longer counted.\<close>

lemma ReturnLocked_accounts:
  assumes "Suc (length (available p)) \<le> total_connections p" and "available_connections p = length (available p)"
  shows "accounts {#connection c#} p (Empty, ReturnLocked c p)"
  using assms by (simp add: ReturnLocked_def accounts_drop accounts_append)

lemma Return_accounts:
  assumes "Suc (length (available p)) \<le> total_connections p" and "available_connections p = length (available p)"
    and "Return clock conn created healthy recovered reset_ok cache p = (cache', p')"
  shows "\<exists>extra. {#conn#} + tl_held cache = extra + tl_held cache' \<and> accounts extra p (Empty, p')"
proof -
  let ?now = "GetNowForTimeoutPurposes p clock"
  let ?c = "\<lparr>connection = conn, created_at = created, returned_at = ?now\<rparr>"
  show ?thesis
  proof (cases "Keepable ?now created healthy recovered reset_ok p")
    case False
    then have "cache' = cache" "p' = DecrementTotalConnections p"
      using assms(3) by (simp_all add: Return_def Let_def Discard_def)
    with accounts_drop [OF assms(1,2), of conn] show ?thesis by auto
  next
    case True
    obtain b t where t: "TryReturnToThreadLocal ?c cache p = (b, t)" by fastforce
    show ?thesis
    proof (cases b)
      case True
      with t have "t = \<lparr>cached_conn = Some ?c, tl_owner = OwnerThis, tl_available = True\<rparr>" "cached_conn cache = None"
        by (auto simp: TryReturnToThreadLocal_def split: if_splits)
      moreover have "cache' = t" "p' = p"
        using assms(3) t True \<open>Keepable ?now created healthy recovered reset_ok p\<close> by (simp_all add: Return_def Let_def)
      ultimately show ?thesis
        using accounts_same [OF assms(2)] by (simp add: tl_held_def)
    next
      case False
      then have "cache' = cache" "p' = ReturnLocked ?c p"
        using assms(3) t True by (simp_all add: Return_def Let_def)
      with ReturnLocked_accounts [OF assms(1,2), of ?c] show ?thesis by auto
    qed
  qed
qed

lemma ReturnToPool_accounts:
  assumes "Suc (length (available p)) \<le> total_connections p" and "available_connections p = length (available p)"
    and "ReturnToPool clock healthy recovered reset_ok cache u p = (cache', p')"
    and "pooled_by_pool u" and "pooled_conn u = Some conn"
  shows "\<exists>extra. {#conn#} + tl_held cache = extra + tl_held cache' \<and> accounts extra p (Empty, p')"
proof (cases "valid u")
  case True
  with assms(3-5) have "Return clock conn (pooled_created_at u) healthy recovered reset_ok cache p = (cache', p')"
    by (simp add: ReturnToPool_def)
  then show ?thesis by (rule Return_accounts [OF assms(1,2)])
next
  case False
  with assms(3-5) have "cache' = cache" "p' = DecrementTotalConnections p"
    by (simp_all add: ReturnToPool_def Discard_def)
  with accounts_drop [OF assms(1,2), of conn] show ?thesis by auto
qed

lemma inv_Release:
  assumes "pool_inv s" and "pool_step (Release i th clock healthy recovered reset_ok) s = Some s'"
  shows "pool_inv s'"
proof -
  let ?u = "used s ! i" and ?t = "caches s ! th"
  obtain cache p where i: "i < length (used s)" and th: "th < length (caches s)"
    and r: "ReturnToPool clock healthy recovered reset_ok ?t ?u (the_pool s) = (cache, p)"
    and s': "s' = settle FORCE (Empty, p) (s\<lparr>used := all_but i (used s), caches := (caches s)[th := cache]\<rparr>)"
    using assms(2) by (auto simp: settle_Empty split: if_splits prod.splits)
  let ?s1 = "s\<lparr>used := all_but i (used s), caches := (caches s)[th := cache]\<rparr>"
  obtain conn where conn: "pooled_conn ?u = Some conn"
    using pool_invD(2) [OF assms(1), of ?u] i by auto
  note m = used_mset_all_but [OF i]
  note tl = sum_list_update_mset [OF th, of tl_held cache]
  have o: "outside ?s1 + ((if pooled_by_pool ?u then {#conn#} else {#}) + tl_held ?t) = outside s + tl_held cache"
    using tl m [of pooled_by_pool] conn by (simp add: outside_def ac_simps)
  have e: "everywhere ?s1 + ({#conn#} + tl_held ?t) = everywhere s + tl_held cache"
    using tl m [of pooled_by_pool] m [of "\<lambda>u. \<not> pooled_by_pool u"] conn
    by (cases "pooled_by_pool ?u") (simp_all add: everywhere_def counted_outside outside_def ac_simps)
  show ?thesis
  proof (cases "pooled_by_pool ?u")
    case False
    then have rc: "cache = ?t" "p = the_pool s" using r by (simp_all add: ReturnToPool_def)
    have "everywhere ?s1 + {#conn#} = everywhere s" using e rc by simp
    moreover have "outside ?s1 = outside s" using o rc False by simp
    ultimately show ?thesis
      unfolding s' settle_Empty
      by (intro pool_invI [OF assms(1), where lost = "{#conn#}" and fresh = "{#}"])
        (use rc pool_invD(1-3) [OF assms(1)] all_but_set [of i "used s"] in
          \<open>auto simp: counted_outside everywhere_def outside_def\<close>)
  next
    case True
    have "size (outside s) \<ge> 1"
      using m [of pooled_by_pool] True by (simp add: outside_def)
    then have "Suc (length (available (the_pool s))) \<le> total_connections (the_pool s)"
      using pool_invD(5) [OF assms(1)] by linarith
    from ReturnToPool_accounts [OF this pool_invD(1) [OF assms(1)] r True conn] obtain extra where
      x: "{#conn#} + tl_held ?t = extra + tl_held cache" "accounts extra (the_pool s) (Empty, p)" by blast
    have "outside ?s1 + ({#conn#} + tl_held ?t) = outside s + tl_held cache" using o True by simp
    then have "outside ?s1 + extra = outside s" unfolding x(1) by (simp add: add.assoc [symmetric])
    moreover from e have "everywhere ?s1 + extra = everywhere s" unfolding x(1) by (simp add: add.assoc [symmetric])
    ultimately show ?thesis
      unfolding s'
      by (intro settle_inv [OF assms(1) x(2), where fresh = "{#}"]) (use all_but_set [of i "used s"] in auto)
  qed
qed


text \<open>The actions on the pool alone.\<close>

lemma inv_pool_only:
  assumes "pool_inv s" and "s' = s\<lparr>the_pool := p\<rparr>"
    and "available_connections p = length (available p)"
    and "shutdown_flag (the_pool s) \<Longrightarrow> shutdown_flag p" and "shutdown_flag p \<Longrightarrow> available p = []"
    and "total_connections p + length (available (the_pool s)) = total_connections (the_pool s) + length (available p) \<or>
      shutdown_flag p \<and> total_connections p = total_connections (the_pool s)"
    and "conn_mset (available p) + lost = conn_mset (available (the_pool s))"
  shows "pool_inv s'"
proof -
  have o: "outside s' = outside s" "creating s' = creating s" "used s' = used s" by (simp_all add: assms(2) outside_def)
  have e: "everywhere s' + lost = everywhere s"
    using assms(7) by (simp add: everywhere_def counted_outside o assms(2) ac_simps outside_def)
  show ?thesis
  proof (cases "total_connections p + length (available (the_pool s)) = total_connections (the_pool s) + length (available p)")
    case True
    then show ?thesis
      by (intro pool_invI [OF assms(1), where lost = lost and fresh = "{#}"])
        (use e o assms pool_invD(2) [OF assms(1)] in \<open>simp_all add: counted_outside\<close>)
  next
    case False
    with assms(5,6) have p: "shutdown_flag p" "available p = []" "total_connections p = total_connections (the_pool s)"
      by auto
    have "count (everywhere s') c \<le> 1" for c
    proof -
      have "count (everywhere s') c + count lost c = count (everywhere s) c"
        using arg_cong [OF e, of "\<lambda>m. count m c"] by simp
      then show ?thesis using assms(1) by (auto simp: pool_inv_def intro: order.trans [of _ "count (everywhere s) c"])
    qed
    then show ?thesis
      using p o assms(2,3) pool_invD(2,5) [OF assms(1)] by (simp add: pool_inv_def counted_outside)
  qed
qed

lemma inv_Resize:
  assumes "pool_inv s" and "pool_step (Resize n) s = Some s'"
  shows "pool_inv s'"
proof -
  let ?q = "(the_pool s)\<lparr>max_connections := n\<rparr>"
  have "length (available ?q) \<le> total_connections ?q" "available_connections ?q = length (available ?q)"
    using pool_invD(1,5) [OF assms(1)] by auto
  from EvictLoop_spec [OF this] obtain dropped where
    d: "available (the_pool s) = available (SetMaxConnections n (the_pool s)) @ dropped"
      "total_connections (the_pool s) = total_connections (SetMaxConnections n (the_pool s)) + length dropped"
      "available_connections (SetMaxConnections n (the_pool s)) = length (available (SetMaxConnections n (the_pool s)))"
      "shutdown_flag (SetMaxConnections n (the_pool s)) = shutdown_flag (the_pool s)"
    by (auto simp: SetMaxConnections_def)
  show ?thesis
    by (rule inv_pool_only [OF assms(1), where p = "SetMaxConnections n (the_pool s)" and lost = "conn_mset dropped"])
      (use d assms pool_invD(3) [OF assms(1)] in auto)
qed

lemma inv_Timeouts:
  assumes "pool_inv s" and "pool_step (Timeouts ml it) s = Some s'"
  shows "pool_inv s'"
  by (rule inv_pool_only [OF assms(1), where p = "SetIdleTimeoutMillis it (SetMaxLifetimeMillis ml (the_pool s))" and lost = "{#}"])
    (use assms pool_invD(1,3) [OF assms(1)] in \<open>auto simp: SetIdleTimeoutMillis_def SetMaxLifetimeMillis_def\<close>)

lemma inv_EnableTL:
  assumes "pool_inv s" and "pool_step (EnableTL b) s = Some s'"
  shows "pool_inv s'"
  by (rule inv_pool_only [OF assms(1), where p = "(the_pool s)\<lparr>tl_cache_enabled := b\<rparr>" and lost = "{#}"])
    (use assms pool_invD(1,3) [OF assms(1)] in auto)

lemma conn_mset_split: "conn_mset (filter (\<lambda>c. \<not> P c) cs) + conn_mset (filter P cs) = conn_mset cs"
  by (induction cs) auto

lemma inv_Reap:
  assumes "pool_inv s" and "pool_step (Reap clock) s = Some s'"
  shows "pool_inv s'"
proof (cases "max_lifetime_millis (the_pool s) = 0 \<and> idle_timeout_millis (the_pool s) = 0")
  case True
  then show ?thesis
    by (intro inv_pool_only [OF assms(1), where p = "(the_pool s)\<lparr>reaper_shutdown_flag := True\<rparr>" and lost = "{#}"])
      (use assms pool_invD(1,3) [OF assms(1)] in \<open>auto simp: ReaperRound_def\<close>)
next
  case False
  let ?p = "the_pool s"
  let ?old = "\<lambda>c. TimePointExpired (created_at c) (max_lifetime_millis ?p) clock \<or>
    TimePointExpired (returned_at c) (idle_timeout_millis ?p) clock"
  obtain kept q where sw: "ReaperSweep (max_lifetime_millis ?p) (idle_timeout_millis ?p) clock (available ?p) ?p = (kept, q)"
    by fastforce
  have "length (available ?p) \<le> total_connections ?p" using pool_invD(5) [OF assms(1)] by linarith
  from ReaperSweep_spec [OF sw this] have
    k: "kept = filter (\<lambda>c. \<not> ?old c) (available ?p)" "total_connections ?p + length kept = total_connections q + length (available ?p)"
      "shutdown_flag q = shutdown_flag ?p" by auto
  have "conn_mset kept + conn_mset (filter ?old (available ?p)) = conn_mset (available ?p)"
    unfolding k(1) by (rule conn_mset_split)
  then show ?thesis
    by (intro inv_pool_only [OF assms(1), where p = "set_available kept q" and lost = "conn_mset (filter ?old (available ?p))"])
      (use False sw k assms(2) pool_invD(3) [OF assms(1)] in \<open>auto simp: ReaperRound_def\<close>)
qed

lemma inv_Shutdown:
  assumes "pool_inv s" and "pool_step ShutdownPool s = Some s'"
  shows "pool_inv s'"
  by (rule inv_pool_only [OF assms(1), where p = "Shutdown (the_pool s)" and
        lost = "if shutdown_flag (the_pool s) then {#} else conn_mset (available (the_pool s))"])
    (use assms pool_invD(1,3) [OF assms(1)] in \<open>auto simp: Shutdown_def ShutdownReaper_def Let_def\<close>)

lemmas pool_action_invs = inv_AcquireTL inv_AcquireNext inv_AcquireUnpooled inv_ProbeDone inv_CreateDone
  inv_InvalidateUsed inv_Release inv_ThreadExit inv_Resize inv_Timeouts inv_EnableTL inv_Reap inv_Shutdown

lemma pool_step_inv: "pool_inv s \<Longrightarrow> pool_step a s = Some s' \<Longrightarrow> pool_inv s'"
  by (cases a) (auto intro: pool_action_invs simp del: pool_step.simps)

lemma pool_inv_start: "pool_inv (start_system cfg threads)"
proof -
  have "sum_list (map tl_held (replicate threads (empty_tl :: 'a tl_cache))) = {#}"
    by (induction threads) simp_all
  then show ?thesis
    by (simp add: pool_inv_def start_system_def new_pool_def EnsureReaperRunning_def Let_def everywhere_def counted_def
        conn_mset_def used_mset_def)
qed

lemma pool_reachable_inv: "pool_reachable allowed cfg s \<Longrightarrow> pool_inv s"
  by (induction rule: pool_reachable.induct) (auto intro: pool_inv_start pool_step_inv)


section \<open>The bound on the number of connections\<close>

text \<open>Actions that keep to a limit: no forced acquisition, no resize above it.\<close>

fun within :: "nat \<Rightarrow> 'c pool_action \<Rightarrow> bool" where
  "within limit (AcquireNext mode now) \<longleftrightarrow> mode \<noteq> FORCE"
| "within limit (Resize n) \<longleftrightarrow> n \<le> limit"
| "within limit _ \<longleftrightarrow> True"

definition limited :: "nat \<Rightarrow> 'c pool_system \<Rightarrow> bool" where
  "limited limit s \<longleftrightarrow> total_connections (the_pool s) \<le> limit \<and> max_connections (the_pool s) \<le> limit \<and>
     list_all (\<lambda>(m, c). m \<noteq> FORCE) (probing s)"

lemma NextCandidate_total:
  "total_connections (snd (NextCandidate now p)) \<le> total_connections p \<and>
   max_connections (snd (NextCandidate now p)) = max_connections p"
proof (induction now p rule: NextCandidate.induct)
  case (1 now p)
  show ?case
  proof (cases "available p")
    case Nil
    then show ?thesis by (simp add: NextCandidate.simps [of now p])
  next
    case (Cons c cs)
    have "total_connections (snd (NextCandidate now (DecrementTotalConnections (set_available cs p)))) \<le> total_connections p \<and>
        max_connections (snd (NextCandidate now (DecrementTotalConnections (set_available cs p)))) = max_connections p"
      if "IsExpired p c now"
      using "1.IH" [OF Cons refl] that by auto
    with Cons show ?thesis by (simp add: NextCandidate.simps [of now p] Let_def)
  qed
qed

lemma AcquireLocked_limit:
  assumes "mode \<noteq> FORCE" and "total_connections p \<le> limit" and "max_connections p \<le> limit"
  shows "total_connections (snd (AcquireLocked mode now p)) \<le> limit \<and>
    max_connections (snd (AcquireLocked mode now p)) \<le> limit"
  using NextCandidate_total [of now p] assms
  by (auto simp: AcquireLocked_def split: prod.split option.split)

lemma settle_limited:
  assumes "limited limit s" and "mode \<noteq> FORCE" and "total_connections (snd rp) \<le> limit" and "max_connections (snd rp) \<le> limit"
  shows "limited limit (settle mode rp s)"
  using assms by (cases "fst rp") (auto simp: limited_def settle_def Let_def)

lemma tl_limits:
  "total_connections (snd (tl_Clear clock cache p)) \<le> total_connections p"
  "max_connections (snd (tl_Clear clock cache p)) = max_connections p"
  by (auto simp: tl_Clear_def ReturnFromThreadLocalCache_def Let_def split: option.split)

lemma TryAcquireFromThreadLocal_limits:
  assumes "TryAcquireFromThreadLocal now clock healthy cache p = (r, cache', p')"
  shows "total_connections p' \<le> total_connections p \<and> max_connections p' = max_connections p"
  using assms tl_limits [of clock cache p]
  by (cases "tl_Clear clock cache p") (auto simp: TryAcquireFromThreadLocal_def Let_def split: if_splits option.splits)

lemma ReturnToPool_limits:
  "total_connections (snd (ReturnToPool clock healthy recovered reset_ok cache u p)) \<le> total_connections p"
  "max_connections (snd (ReturnToPool clock healthy recovered reset_ok cache u p)) = max_connections p"
  by (auto simp: ReturnToPool_def Return_def ReturnLocked_def Discard_def Let_def split: option.split prod.split bool.split)

lemma EvictLoop_limits:
  "total_connections (EvictLoop p) \<le> total_connections p \<and> max_connections (EvictLoop p) = max_connections p"
proof (induction p rule: EvictLoop.induct)
  case (1 p)
  then show ?case by (subst (1 2) EvictLoop.simps) (auto intro: order.trans)
qed

lemma ReaperSweep_limits:
  "total_connections (snd (ReaperSweep ml it now cs p)) \<le> total_connections p \<and>
   max_connections (snd (ReaperSweep ml it now cs p)) = max_connections p"
proof (induction cs arbitrary: p)
  case (Cons c cs)
  show ?case
    using Cons.IH [of p] Cons.IH [of "DecrementTotalConnections p"] by (auto split: prod.split)
qed simp

lemma pool_step_limited:
  assumes "limited limit s" and "within limit a" and "pool_step a s = Some s'"
  shows "limited limit s'"
proof (cases a)
  case (AcquireTL th now clock healthy)
  then show ?thesis
    using assms by (auto simp: limited_def Let_def split: if_splits prod.splits option.splits
        dest!: TryAcquireFromThreadLocal_limits)
next
  case (AcquireNext mode now)
  then show ?thesis
    using assms AcquireLocked_limit [of mode "the_pool s" limit now]
    by (auto intro!: settle_limited simp: limited_def [of limit s])
next
  case (ProbeDone i now healthy)
  then obtain mode c where i: "i < length (probing s)" "probing s ! i = (mode, c)"
    and s': "s' = settle mode (AcquireProbed mode now c healthy (the_pool s)) (s\<lparr>probing := all_but i (probing s)\<rparr>)"
    using assms(3) by (auto split: if_splits prod.splits)
  have m: "mode \<noteq> FORCE" using assms(1) i nth_mem [OF i(1)] by (auto simp: limited_def list_all_iff)
  have t: "total_connections (snd (AcquireProbed mode now c healthy (the_pool s))) \<le> limit"
    "max_connections (snd (AcquireProbed mode now c healthy (the_pool s))) \<le> limit"
    using assms(1) AcquireLocked_limit [OF m, of "DecrementTotalConnections (the_pool s)" limit now]
    by (auto simp: AcquireProbed_def limited_def)
  have "limited limit (s\<lparr>probing := all_but i (probing s)\<rparr>)"
    using assms(1) all_but_set [of i "probing s"] by (auto simp: limited_def list_all_iff)
  then show ?thesis unfolding s' by (rule settle_limited [OF _ m t])
next
  case (CreateDone i now result)
  then show ?thesis
    using assms by (auto simp: limited_def settle_def Let_def AcquireCreated_def split: if_splits sum.splits)
next
  case (Release i th clock healthy recovered reset_ok)
  then show ?thesis
    using assms ReturnToPool_limits [of clock healthy recovered reset_ok "caches s ! th" "used s ! i" "the_pool s"]
    by (auto simp: limited_def split: if_splits prod.splits)
next
  case (ThreadExit th clock)
  then show ?thesis
    using assms tl_limits [of clock "caches s ! th" "the_pool s"]
    by (auto simp: limited_def split: if_splits prod.splits)
next
  case (Resize n)
  then show ?thesis
    using assms EvictLoop_limits [of "(the_pool s)\<lparr>max_connections := n\<rparr>"]
    by (auto simp: limited_def SetMaxConnections_def)
next
  case (Reap clock)
  then show ?thesis
    using assms ReaperSweep_limits [of "max_lifetime_millis (the_pool s)" "idle_timeout_millis (the_pool s)" clock
        "available (the_pool s)" "the_pool s"]
    by (auto simp: limited_def ReaperRound_def split: prod.splits)
qed (use assms in \<open>auto simp: limited_def SetIdleTimeoutMillis_def SetMaxLifetimeMillis_def Shutdown_def
      ShutdownReaper_def Let_def split: if_splits\<close>)

lemma reachable_limited:
  "pool_reachable (within limit) cfg s \<Longrightarrow> cfg_max_connections cfg \<le> limit \<Longrightarrow> limited limit s"
proof (induction rule: pool_reachable.induct)
  case (pool_start threads)
  then show ?case
    by (simp add: limited_def start_system_def new_pool_def EnsureReaperRunning_def Let_def)
next
  case pool_next
  then show ?case by (auto intro: pool_step_limited)
qed

section \<open>Properties\<close>

text \<open>
  C6. Accounting and exclusive ownership: in every reachable state no connection is in two places
  (idle, under a health check, in use, in a thread's cache), and until the pool is shut down
  \<open>total_connections\<close> is exactly the number of connections the pool owns plus those being opened, and
  \<open>available_connections\<close> the number of idle ones. After shutdown nothing is idle and the count is never
  below what is still out.
\<close>

theorem pool_accounting:
  assumes "pool_reachable allowed cfg s"
  shows "(\<forall>c. count (everywhere s) c \<le> 1) \<and> available_connections (the_pool s) = length (available (the_pool s)) \<and>
    (if shutdown_flag (the_pool s)
     then available (the_pool s) = [] \<and> size (counted s) + length (creating s) \<le> total_connections (the_pool s)
     else total_connections (the_pool s) = size (counted s) + length (creating s))"
  using pool_reachable_inv [OF assms] by (auto simp: pool_inv_def split: if_splits)

text \<open>
  C7. The pool never exceeds its size: as long as no acquisition is forced and no resize goes above a
  limit that the configured maximum keeps to, the connections the pool owns, wherever they are, plus
  those being opened are at most that limit.
\<close>

theorem pool_bounded:
  assumes "pool_reachable (within limit) cfg s" and "cfg_max_connections cfg \<le> limit"
  shows "size (counted s) + length (creating s) \<le> limit"
  using reachable_limited [OF assms] pool_invD(4) [OF pool_reachable_inv [OF assms(1)]]
  by (simp add: limited_def)

fun run_pool :: "'c pool_action list \<Rightarrow> 'c pool_system \<Rightarrow> 'c pool_system option" where
  "run_pool [] s = Some s"
| "run_pool (a # as) s = (case pool_step a s of None \<Rightarrow> None | Some s' \<Rightarrow> run_pool as s')"

lemma run_pool_reachable:
  "pool_reachable allowed cfg s \<Longrightarrow> run_pool as s = Some s' \<Longrightarrow> list_all allowed as \<Longrightarrow> pool_reachable allowed cfg s'"
  by (induction as arbitrary: s) (auto split: option.splits intro: pool_next)

definition small_config :: pool_config where
  "small_config = (default_config 2)\<lparr>cfg_acquire_mode := WAIT, cfg_max_connections := 2\<rparr>"

lemmas pool_eval = start_system_def small_config_def default_config_def new_pool_def EnsureReaperRunning_def
  TimeoutEnabled_def GetNowForTimeoutPurposes_def AcquireLocked_def NextCandidate.simps AcquireCreated_def
  AcquireProbed_def settle_def pooled_from_def everywhere_def counted_def conn_mset_def used_mset_def tl_held_def
  empty_tl_def ReturnToPool_def Return_def ReturnLocked_def Keepable_def TryReturnToThreadLocal_def Discard_def
  Invalidate_def IsExpired_def IsExpiredSince_def TimePointExpired_def signed_divide_int_def all_but_def Let_def
  set_available_def DecrementTotalConnections_def

text \<open>Two connections opened, one returned and taken again, one broken and discarded.\<close>

definition sample_actions :: "nat pool_action list" where
  "sample_actions = [AcquireNext WAIT 5, CreateDone 0 5 (Inr 7), AcquireNext WAIT 6, CreateDone 0 6 (Inr 8),
     AcquireNext WAIT 7, Release 0 0 8 True False True, AcquireNext WAIT 9, ProbeDone 0 9 True,
     InvalidateUsed 1, Release 1 0 10 True False True]"

lemma sample_run:
  "\<exists>s. run_pool sample_actions (start_system small_config 1) = Some s \<and> counted s = {#8#} \<and> creating s = [] \<and>
     \<not> shutdown_flag (the_pool s)"
proof -
  have "(case run_pool sample_actions (start_system small_config 1) of
      None \<Rightarrow> False
    | Some s \<Rightarrow> map connection (available (the_pool s)) @ map (connection o snd) (probing s) @
        map (\<lambda>u. the (pooled_conn u)) (filter pooled_by_pool (used s)) = [8] \<and>
        probing s = [] \<and> creating s = [] \<and> available (the_pool s) = [] \<and> map cached_conn (caches s) = [None] \<and>
        \<not> shutdown_flag (the_pool s))"
    by (simp add: sample_actions_def pool_eval)
  then obtain s where s: "run_pool sample_actions (start_system small_config 1) = Some s"
    "map (\<lambda>u. the (pooled_conn u)) (filter pooled_by_pool (used s)) = [8]"
    "probing s = []" "creating s = []" "available (the_pool s) = []" "map cached_conn (caches s) = [None]"
    "\<not> shutdown_flag (the_pool s)"
    by (auto split: option.splits)
  have "sum_list (map tl_held (caches s)) = {#}"
    using s(6) by (auto simp: tl_held_def)
  then have "counted s = {#8#}"
    by (simp add: counted_def used_mset_def conn_mset_def s(2,3,5))
  with s show ?thesis by blast
qed

theorem pool_accounting_witness:
  "\<exists>s. pool_reachable (\<lambda>a. True) small_config s \<and> counted s = {#(8::nat)#} \<and> total_connections (the_pool s) = 1"
proof -
  obtain s where s: "run_pool sample_actions (start_system small_config 1) = Some s" "counted s = {#8#}"
      "creating s = []" "\<not> shutdown_flag (the_pool s)"
    using sample_run by blast
  have "pool_reachable (\<lambda>a. True) small_config s"
    by (rule run_pool_reachable [OF pool_start s(1)]) (simp add: sample_actions_def)
  with pool_accounting [OF this] s(2-4) show ?thesis by (intro exI [of _ s]) simp
qed

theorem pool_bounded_witness:
  "\<exists>s. pool_reachable (within 2) small_config s \<and> counted s = {#(8::nat)#} \<and> size (counted s) + length (creating s) \<le> 2"
proof -
  obtain s where s: "run_pool sample_actions (start_system small_config 1) = Some s" "counted s = {#8#}"
    using sample_run by blast
  have "pool_reachable (within 2) small_config s"
    by (rule run_pool_reachable [OF pool_start s(1)]) (simp add: sample_actions_def)
  with pool_bounded [OF this] s(2) show ?thesis by (intro exI [of _ s]) (simp add: small_config_def)
qed

text \<open>
  An acquisition takes the oldest idle connection that has not expired and drops the expired
  ones before it; it opens a connection only when none is left and the mode is FORCE or the total is
  below the maximum, comes back empty only in TRY mode and waits only in WAIT mode, both with the
  pool full.
\<close>

theorem AcquireLocked_correct:
  assumes "pool_reachable allowed cfg s" and "\<not> shutdown_flag (the_pool s)"
    and "AcquireLocked mode now (the_pool s) = (r, p)"
  shows "dropWhile (\<lambda>c. IsExpired (the_pool s) c now) (available (the_pool s)) =
      (case r of Probe c \<Rightarrow> c # available p | _ \<Rightarrow> []) \<and>
    (case r of
       Create \<Rightarrow> mode = FORCE \<or> total_connections p \<le> max_connections p
     | Empty \<Rightarrow> mode = TRY \<and> total_connections p \<ge> max_connections p
     | Wait \<Rightarrow> mode = WAIT \<and> total_connections p \<ge> max_connections p
     | Probe c \<Rightarrow> True | _ \<Rightarrow> False)"
proof -
  note inv = pool_invD(1,5) [OF pool_reachable_inv [OF assms(1)]]
  obtain r1 p1 where n: "NextCandidate now (the_pool s) = (r1, p1)" by fastforce
  from NextCandidate_spec [OF n] inv obtain dropped where
    d: "available (the_pool s) = dropped @ (case r1 of Some c \<Rightarrow> [c] | None \<Rightarrow> []) @ available p1"
      "list_all (\<lambda>c. IsExpired (the_pool s) c now) dropped" "\<forall>c. r1 = Some c \<longrightarrow> \<not> IsExpired (the_pool s) c now"
      "r1 = None \<longrightarrow> available p1 = []" by auto
  have dw: "dropWhile (\<lambda>c. IsExpired (the_pool s) c now) (available (the_pool s)) =
      (case r1 of Some c \<Rightarrow> c # available p1 | None \<Rightarrow> [])"
    using d by (cases r1) (auto simp: list_all_iff dropWhile_append2)
  show ?thesis
  proof (cases r1)
    case (Some c)
    with n assms(2,3) dw show ?thesis by (auto simp: AcquireLocked_def)
  next
    case None
    with n assms(2,3) dw show ?thesis by (cases mode) (auto simp: AcquireLocked_def split: if_splits)
  qed
qed

theorem AcquireLocked_correct_witness:
  "\<exists>s p. pool_reachable (within 2) small_config s \<and>
     AcquireLocked WAIT 9 (the_pool s) = (Create, p :: nat pool) \<and> total_connections p \<le> max_connections p"
proof -
  let ?s = "start_system small_config 1 :: nat pool_system"
  have r: "pool_reachable (within 2) small_config ?s" by (rule pool_start)
  have f: "\<not> shutdown_flag (the_pool ?s)" by (simp add: pool_eval)
  obtain p where p: "AcquireLocked WAIT 9 (the_pool ?s) = (Create, p)" by (simp add: pool_eval)
  from AcquireLocked_correct [OF r f p] r p show ?thesis by auto
qed

end
