(* ===== verification/PoolAcquire.thy ===== *)
theory PoolAcquire
  imports PoolSafety
begin

text \<open>
  The acquisitions of the connection pool as a whole (\<open>connection_pool_impl.hpp\<close>): \<open>Acquire\<close> and the three it dispatches to, composed
  of the locked sections of theory \<open>Pool\<close>, for a thread that no other disturbs on the way. A wait then only ends by its
  timeout. \<open>nows\<close> are the readings of the clock: \<open>WaitAcquire\<close> takes a new one for each health check, which the expired
  connections dropped with it share here, and the others keep the first.
\<close>

section \<open>The loops\<close>

definition reading :: "acquire_mode \<Rightarrow> (nat \<Rightarrow> int) \<Rightarrow> nat \<Rightarrow> 'c pool \<Rightarrow> int" where
  "reading mode nows k p = GetNowForTimeoutPurposes p (if mode = WAIT then nows k else nows 0)"

lemma NextCandidate_shorter:
  "NextCandidate now p = (Some c, p') \<Longrightarrow> length (available p') < length (available p)"
proof (induction now p arbitrary: p' rule: NextCandidate.induct)
  case (1 now p)
  then show ?case
    by (cases "available p") (fastforce simp: NextCandidate.simps [of now p] Let_def set_available_def split: if_splits)+
qed

lemma AcquireProbed_shorter:
  "AcquireProbed mode now c healthy p = (Probe c', p') \<Longrightarrow> length (available p') < length (available p)"
  by (auto simp: AcquireProbed_def AcquireLocked_def shut_down_def split: if_splits prod.splits option.splits dest!: NextCandidate_shorter)

definition probing :: "'c outcome \<Rightarrow> bool" where
  "probing out = (case out of Probe c \<Rightarrow> True | _ \<Rightarrow> False)"

text \<open>From the end of the \<open>k\<close>-th locked section on: health checks with the next section each, or the connection that is opened.\<close>

function AcquireLoop ::
  "acquire_mode \<Rightarrow> (nat \<Rightarrow> int) \<Rightarrow> ('c \<Rightarrow> bool) \<Rightarrow> 'c res \<Rightarrow> nat \<Rightarrow> 'c outcome \<Rightarrow> 'c pool \<Rightarrow> 'c cached option res \<times> 'c pool" where
  "AcquireLoop mode nows healthy created k out p =
     (case out of
        Use c \<Rightarrow> (Inr (Some c), p)
      | Probe c \<Rightarrow>
          (case AcquireProbed mode (reading mode nows (Suc k) p) c (healthy (connection c)) p of
             (out', p') \<Rightarrow> AcquireLoop mode nows healthy created (Suc k) out' p')
      | Create \<Rightarrow>
          (case AcquireCreated (reading mode nows k p) created p of
             (Use c, p') \<Rightarrow> (Inr (Some c), p')
           | (Throw ex, p') \<Rightarrow> (Inl ex, p')
           | (_, p') \<Rightarrow> (Inr None, p'))
      | Empty \<Rightarrow> (Inr None, p)
      | Wait \<Rightarrow> (Inl (wait_timeout_error p), p)
      | Throw ex \<Rightarrow> (Inl ex, p))"
  by pat_completeness auto
termination
  by (relation "measure (\<lambda>(mode, nows, healthy, created, k, out, p). if probing out then Suc (length (available p)) else 0)")
    (auto simp: probing_def split: outcome.splits prod.splits dest: AcquireProbed_shorter)

declare AcquireLoop.simps [simp del]

definition hand_out :: "'c cached option res \<Rightarrow> 'c pooled option res" where
  "hand_out r = bindE r (\<lambda>c. Inr (map_option (pooled_from True) c))"

text \<open>After the check that starts it: the thread-local connection, else the loop.\<close>

definition AcquireFrom ::
  "acquire_mode \<Rightarrow> (nat \<Rightarrow> int) \<Rightarrow> ('c \<Rightarrow> bool) \<Rightarrow> 'c res \<Rightarrow> 'c tl_cache \<Rightarrow> 'c pool \<Rightarrow> 'c pooled option res \<times> 'c tl_cache \<times> 'c pool" where
  "AcquireFrom mode nows healthy created cache p =
     (case TryAcquireFromThreadLocal (reading mode nows 0 p) (nows 0) healthy cache p of
        (Some c, cache', p1) \<Rightarrow> (Inr (Some (pooled_from True c)), cache', p1\<lparr>cache_hits := cache_hits p1 + 1\<rparr>)
      | (None, cache', p1) \<Rightarrow>
          (case AcquireLocked mode (reading mode nows 0 p1) p1 of
             (out, p2) \<Rightarrow>
               (case AcquireLoop mode nows healthy created 0 out p2 of
                  (r, p3) \<Rightarrow> (hand_out r, cache', p3))))"

definition WaitAcquire ::
  "(nat \<Rightarrow> int) \<Rightarrow> ('c \<Rightarrow> bool) \<Rightarrow> 'c res \<Rightarrow> 'c tl_cache \<Rightarrow> 'c pool \<Rightarrow> 'c pooled option res \<times> 'c tl_cache \<times> 'c pool" where
  "WaitAcquire nows healthy created cache p =
     (case disabled_check p of Inl ex \<Rightarrow> (Inl ex, cache, p) | Inr u \<Rightarrow> AcquireFrom WAIT nows healthy created cache p)"

definition TryAcquire ::
  "(nat \<Rightarrow> int) \<Rightarrow> ('c \<Rightarrow> bool) \<Rightarrow> 'c res \<Rightarrow> 'c tl_cache \<Rightarrow> 'c pool \<Rightarrow> 'c pooled option res \<times> 'c tl_cache \<times> 'c pool" where
  "TryAcquire nows healthy created cache p =
     (case disabled_check p of Inl ex \<Rightarrow> (Inl ex, cache, p) | Inr u \<Rightarrow> AcquireFrom TRY nows healthy created cache p)"

text \<open>A disabled pool opens a connection that does not belong to it.\<close>

definition ForceAcquire ::
  "(nat \<Rightarrow> int) \<Rightarrow> ('c \<Rightarrow> bool) \<Rightarrow> 'c res \<Rightarrow> 'c tl_cache \<Rightarrow> 'c pool \<Rightarrow> 'c pooled option res \<times> 'c tl_cache \<times> 'c pool" where
  "ForceAcquire nows healthy created cache p =
     (let now = reading FORCE nows 0 p in
      case TryAcquireFromThreadLocal now (nows 0) healthy cache p of
        (Some c, cache', p1) \<Rightarrow> (Inr (Some (pooled_from True c)), cache', p1\<lparr>cache_hits := cache_hits p1 + 1\<rparr>)
      | (None, cache', p1) \<Rightarrow>
          (case ForceCheck p1 of
             Inl ex \<Rightarrow> (Inl ex, cache', p1)
           | Inr True \<Rightarrow>
               (bindE created (\<lambda>conn. Inr (Some (pooled_from False \<lparr>connection = conn, created_at = now, returned_at = now\<rparr>))),
                cache', p1\<lparr>cache_misses := cache_misses p1 + 1\<rparr>)
           | Inr False \<Rightarrow>
               (case AcquireLocked FORCE now p1 of
                  (out, p2) \<Rightarrow>
                    (case AcquireLoop FORCE nows healthy created 0 out p2 of
                       (r, p3) \<Rightarrow> (hand_out r, cache', p3)))))"

definition Acquire ::
  "(nat \<Rightarrow> int) \<Rightarrow> ('c \<Rightarrow> bool) \<Rightarrow> 'c res \<Rightarrow> 'c tl_cache \<Rightarrow> 'c pool \<Rightarrow> 'c pooled option res \<times> 'c tl_cache \<times> 'c pool" where
  "Acquire nows healthy created cache p =
     (case AcquireDispatch p of
        FORCE \<Rightarrow> ForceAcquire nows healthy created cache p
      | WAIT \<Rightarrow> WaitAcquire nows healthy created cache p
      | TRY \<Rightarrow> TryAcquire nows healthy created cache p)"

section \<open>The handle of a connection\<close>

text \<open>
  \<open>PooledConnection\<close>: what moving one leaves in the object it was moved from, and the accessors. The move assignment is
  the one between two different objects; the code leaves an object assigned to itself alone.
\<close>

definition moved_from :: "'c pooled \<Rightarrow> 'c pooled" where
  "moved_from pc = pc\<lparr>pooled_by_pool := False, pooled_conn := None, valid := False\<rparr>"

definition MoveConstruct :: "'c pooled \<Rightarrow> 'c pooled \<times> 'c pooled" where
  "MoveConstruct other = (other, moved_from other)"

definition MoveAssign ::
  "int \<Rightarrow> bool \<Rightarrow> bool \<Rightarrow> bool \<Rightarrow> 'c pooled \<Rightarrow> 'c pooled \<Rightarrow> 'c tl_cache \<Rightarrow> 'c pool \<Rightarrow>
   'c pooled \<times> 'c pooled \<times> 'c tl_cache \<times> 'c pool" where
  "MoveAssign clock healthy recovered reset_ok this other cache p =
     (case ReturnToPool clock healthy recovered reset_ok cache this p of
        (cache', p') \<Rightarrow> (other, moved_from other, cache', p'))"

definition GetConnection :: "'c pooled \<Rightarrow> 'c res" where
  "GetConnection pc =
     (case pooled_conn pc of
        None \<Rightarrow> Inl (Exn PoolException ''PooledConnection::GetConnection - no connection available'' [])
      | Some c \<Rightarrow> Inr c)"

text \<open>However a connection is handed on, it goes back to the pool once: an object it was moved from returns nothing.\<close>

lemma moved_returns_once:
  assumes "MoveAssign clock healthy recovered reset_ok this other cache p = (this', other', cache1, p1)"
    and "ReturnToPool clock1 healthy1 recovered1 reset1 cache1 other' p1 = (cache2, p2)"
  shows "this' = other \<and> (cache2, p2) = ReturnToPool clock healthy recovered reset_ok cache this p \<and>
    (\<exists>ex. GetConnection other' = Inl ex)"
  using assms by (auto simp: MoveAssign_def moved_from_def ReturnToPool_def [of _ _ _ _ cache1] GetConnection_def split: prod.splits)

lemma handed_out_usable: "hand_out (Inr (Some c)) = Inr (Some pc) \<Longrightarrow> pooled_bool pc \<and> GetConnection pc = Inr (connection c)"
  by (auto simp: hand_out_def pooled_bool_def GetConnection_def pooled_from_def)

section \<open>Which connection is handed out\<close>

lemma pool_frames [simp]:
  "TimeoutEnabled (set_available cs p) = TimeoutEnabled p" "TimeoutEnabled (DecrementTotalConnections p) = TimeoutEnabled p"
  by (simp_all add: TimeoutEnabled_def set_available_def DecrementTotalConnections_def)

text \<open>Idle connections that cannot be used are dropped until one can, or none is left.\<close>

definition usable :: "('c \<Rightarrow> bool) \<Rightarrow> int \<Rightarrow> 'c pool \<Rightarrow> 'c cached \<Rightarrow> bool" where
  "usable healthy now p c \<longleftrightarrow> \<not> IsExpired p c now \<and> healthy (connection c)"

definition acquired :: "acquire_mode \<Rightarrow> ('c \<Rightarrow> bool) \<Rightarrow> int \<Rightarrow> 'c res \<Rightarrow> 'c pool \<Rightarrow> 'c cached option res \<Rightarrow> 'c pool \<Rightarrow> bool" where
  "acquired mode healthy now created p r p' \<longleftrightarrow>
     (let rest = dropWhile (\<lambda>c. \<not> usable healthy now p c) (available p);
          left = total_connections p - (length (available p) - length rest)
      in if rest \<noteq> [] then r = Inr (Some (hd rest)) \<and> available p' = tl rest \<and> total_connections p' = left
         else available p' = [] \<and>
           (if mode = FORCE \<or> left < max_connections p then
              (case created of
                 Inr conn \<Rightarrow> r = Inr (Some \<lparr>connection = conn, created_at = now, returned_at = now\<rparr>) \<and> total_connections p' = left + 1
               | Inl ex \<Rightarrow> r = Inl ex \<and> total_connections p' = left)
            else total_connections p' = left \<and> (if mode = TRY then r = Inr None else \<exists>ex. r = Inl ex \<and> exn_kind ex = PoolException)))"

lemma NextCandidate_frame: "NextCandidate now p = (r, p') \<Longrightarrow> IsExpired p' = IsExpired p \<and> TimeoutEnabled p' = TimeoutEnabled p"
proof (induction now p arbitrary: r p' rule: NextCandidate.induct)
  case (1 now p)
  show ?case
  proof (cases "available p")
    case Nil
    with "1.prems" show ?thesis by (simp add: NextCandidate.simps [of now p])
  next
    case (Cons c cs)
    let ?p1 = "set_available cs p"
    show ?thesis
    proof (cases "IsExpired ?p1 c now")
      case True
      with "1.prems" Cons have "NextCandidate now (DecrementTotalConnections ?p1) = (r, p')"
        by (simp add: NextCandidate.simps [of now p] Let_def)
      from "1.IH" [OF Cons refl True this] show ?thesis by simp
    next
      case False
      with "1.prems" Cons show ?thesis by (auto simp: NextCandidate.simps [of now p] Let_def)
    qed
  qed
qed

lemma acquired_skip:
  assumes "available p = dropped @ available p2" "\<forall>c\<in>set dropped. \<not> usable healthy now p c" "IsExpired p2 = IsExpired p"
    and "total_connections p = total_connections p2 + length dropped" "max_connections p2 = max_connections p"
    and "acquired mode healthy now created p2 r p'"
  shows "acquired mode healthy now created p r p'"
proof -
  have u: "usable healthy now p2 = usable healthy now p" using assms(3) by (simp add: usable_def fun_eq_iff)
  have "dropWhile (\<lambda>c. \<not> usable healthy now p c) (available p) = dropWhile (\<lambda>c. \<not> usable healthy now p c) (available p2)"
    using assms(1,2) by (simp add: dropWhile_append2)
  moreover have left: "total_connections p - (length (available p) - length (dropWhile (\<lambda>c. \<not> usable healthy now p c) (available p2))) =
      total_connections p2 - (length (available p2) - length (dropWhile (\<lambda>c. \<not> usable healthy now p c) (available p2)))"
    using assms(1,4) length_dropWhile_le [of "\<lambda>c. \<not> usable healthy now p c" "available p2"] by simp
  ultimately show ?thesis using assms(6) unfolding acquired_def u assms(5) Let_def by (simp only:)
qed

lemma AcquireLoop_acquired:
  fixes p :: "'c pool"
  assumes "\<And>k (q :: 'c pool). TimeoutEnabled q = TimeoutEnabled p \<Longrightarrow> reading mode nows k q = now"
    and "\<not> shutdown_flag p" "length (available p) \<le> total_connections p" "available_connections p = length (available p)"
    and "AcquireLocked mode now p = (out, p1)" "AcquireLoop mode nows healthy created k out p1 = (r, p')"
  shows "acquired mode healthy now created p r p'"
  using assms
proof (induction "length (available p)" arbitrary: p k out p1 rule: less_induct)
  case less
  obtain cand q where n: "NextCandidate now p = (cand, q)" by fastforce
  from NextCandidate_spec [OF n less.prems(3,4)] obtain dropped where
    d: "available p = dropped @ (case cand of Some c \<Rightarrow> [c] | None \<Rightarrow> []) @ available q" "list_all (\<lambda>c. IsExpired p c now) dropped"
      "cand = None \<longrightarrow> available q = []" "total_connections p = total_connections q + length dropped"
      "available_connections q = length (available q)" "shutdown_flag q = shutdown_flag p" "max_connections q = max_connections p"
      "\<forall>c. cand = Some c \<longrightarrow> \<not> IsExpired p c now" by blast
  note frame = NextCandidate_frame [OF n]
  have gone: "\<forall>c\<in>set dropped. \<not> usable healthy now p c" using d(2) by (auto simp: usable_def list_all_iff)
  have now: "reading mode nows j q' = now" if "TimeoutEnabled q' = TimeoutEnabled p" for j and q' :: "'c pool" using less.prems(1) [of q' j] that by simp
  show ?case
  proof (cases cand)
    case None
    have none: "dropWhile (\<lambda>c. \<not> usable healthy now p c) (available p) = []" using d None gone by simp
    have total: "total_connections q = total_connections p - length (available p)" using d None by simp
    have enabled: "TimeoutEnabled (q\<lparr>total_connections := m\<rparr>) = TimeoutEnabled p" for m using frame by (simp add: TimeoutEnabled_def)
    show ?thesis
    proof (cases "mode = FORCE \<or> total_connections q < max_connections q")
      case True
      let ?p1 = "q\<lparr>total_connections := total_connections q + 1\<rparr>"
      have out: "out = Create" "p1 = ?p1" using less.prems(2,5) n None True by (auto simp: AcquireLocked_def)
      have "reading mode nows k ?p1 = now" by (rule now [OF enabled])
      with less.prems(6) True d(6,7) less.prems(2) show ?thesis
        unfolding acquired_def none Let_def out
        using d(3) None
        by (cases created) (auto simp: AcquireLoop.simps AcquireCreated_def total [symmetric] DecrementTotalConnections_def)
    next
      case False
      then have "p1 = (if mode = TRY then q\<lparr>try_failures := try_failures q + 1\<rparr> else q)" "out = (if mode = TRY then Empty else Wait)"
        using less.prems(2,5) n None by (auto simp: AcquireLocked_def)
      with less.prems(6) False d(7) show ?thesis
        unfolding acquired_def none Let_def
        using d(3) None
        by (auto simp: AcquireLoop.simps total [symmetric] wait_timeout_error_def split: if_splits)
    qed
  next
    case (Some c)
    then have out: "out = Probe c" "p1 = q" using less.prems(2,5) n by (simp_all add: AcquireLocked_def)
    have avail: "available p = dropped @ c # available q" using d(1) Some by simp
    have fresh: "\<not> IsExpired p c now" using d(8) Some by simp
    show ?thesis
    proof (cases "healthy (connection c)")
      case True
      have "AcquireProbed mode (reading mode nows (Suc k) q) c True q = (Use c, q\<lparr>cache_hits := cache_hits q + 1\<rparr>)"
        using d(6) less.prems(2) by (simp add: AcquireProbed_def)
      with less.prems(6) True have r: "r = Inr (Some c)" "p' = q\<lparr>cache_hits := cache_hits q + 1\<rparr>"
        unfolding out by (simp_all add: AcquireLoop.simps)
      have "dropWhile (\<lambda>c. \<not> usable healthy now p c) (available p) = c # available q"
        using avail gone fresh True by (simp add: dropWhile_append2 usable_def)
      then show ?thesis using avail d(4) by (simp add: acquired_def r Let_def)
    next
      case False
      let ?p2 = "DecrementTotalConnections q"
      obtain out' p3 where next_section: "AcquireLocked mode now ?p2 = (out', p3)" by fastforce
      have "AcquireProbed mode (reading mode nows (Suc k) q) c False q = (out', p3)"
        using d(6) less.prems(2) next_section now [of q] frame by (simp add: AcquireProbed_def)
      with less.prems(6) False have loop: "AcquireLoop mode nows healthy created (Suc k) out' p3 = (r, p')"
        unfolding out by (simp add: AcquireLoop.simps [of mode nows healthy created k])
      have "length (available ?p2) < length (available p)" using avail by simp
      moreover have "reading mode nows j q' = now" if "TimeoutEnabled q' = TimeoutEnabled ?p2" for j and q' :: "'c pool" using now that frame by simp
      moreover have "\<not> shutdown_flag ?p2" "available_connections ?p2 = length (available ?p2)" using d less.prems(2) by simp_all
      moreover have "length (available ?p2) \<le> total_connections ?p2" using avail d(4) less.prems(3) by simp
      ultimately have step: "acquired mode healthy now created ?p2 r p'" using less.hyps next_section loop by blast
      show ?thesis
        by (rule acquired_skip [where dropped = "dropped @ [c]" and ?p2.0 = ?p2])
          (use avail gone False d(4,7) frame less.prems(3) step in \<open>auto simp: usable_def\<close>)
    qed
  qed
qed

lemma Acquire_miss:
  assumes "\<not> shutdown_flag p" "\<not> IsPoolDisabled p"
    and "\<And>n c. TryAcquireFromThreadLocal n c healthy cache p = (None, cache, p)"
    and "\<And>k. reading (acquire_mode p) nows k p = now"
    and "AcquireLocked (acquire_mode p) now p = (out, p1)" "AcquireLoop (acquire_mode p) nows healthy created 0 out p1 = (r, p2)"
  shows "Acquire nows healthy created cache p = (hand_out r, cache, p2)"
proof (cases "acquire_mode p")
  case FORCE
  with assms show ?thesis
    by (simp only: Acquire_def AcquireDispatch_def ForceAcquire_def ForceCheck_def Let_def if_False acquire_mode.case
        option.case prod.case sum.case bool.case if_True if_False simp_thms)
next
  case WAIT
  with assms show ?thesis
    by (simp only: Acquire_def AcquireDispatch_def WaitAcquire_def AcquireFrom_def disabled_check_def if_False acquire_mode.case
        option.case prod.case sum.case simp_thms)
next
  case TRY
  with assms show ?thesis
    by (simp only: Acquire_def AcquireDispatch_def TryAcquire_def AcquireFrom_def disabled_check_def if_False acquire_mode.case
        option.case prod.case sum.case simp_thms)
qed

text \<open>
  C8. What \<open>Acquire\<close> does from any state the pool can be in, neither shut down nor disabled, without the thread-local cache, which
  the extension leaves off: it hands out the oldest idle connection that has not expired and is healthy, after
  dropping every idle one before it. Only when none is left it opens one, always in FORCE mode and otherwise as long as
  the pool is not full; a full pool gives nothing in TRY mode and the timeout in WAIT mode. What is dropped is no longer
  counted, also when opening fails. (The clock stands still during a \<open>WaitAcquire\<close> here.)
\<close>

theorem Acquire_reuses:
  fixes s :: "'c pool_system"
  assumes "pool_reachable allowed cfg s" and "\<not> shutdown_flag (the_pool s)" "\<not> IsPoolDisabled (the_pool s)" "\<not> tl_cache_enabled (the_pool s)"
    and still: "acquire_mode (the_pool s) = WAIT \<Longrightarrow> \<forall>k. nows k = nows 0"
    and run: "Acquire nows healthy created cache (the_pool s) = (r, cache', p')"
  shows "cache' = cache \<and> (\<exists>r'. r = hand_out r' \<and>
    acquired (acquire_mode (the_pool s)) healthy (GetNowForTimeoutPurposes (the_pool s) (nows 0)) created (the_pool s) r' p')"
proof -
  let ?p = "the_pool s" and ?mode = "acquire_mode (the_pool s)"
  let ?now = "GetNowForTimeoutPurposes ?p (nows 0)"
  note inv = pool_invD(1,5) [OF pool_reachable_inv [OF assms(1)]]
  have now: "reading ?mode nows k q = ?now" if "TimeoutEnabled q = TimeoutEnabled ?p" for k and q :: "'c pool"
    using that spec [OF still, of k] by (cases "?mode = WAIT") (simp_all add: reading_def GetNowForTimeoutPurposes_def)
  have miss: "TryAcquireFromThreadLocal n c healthy cache ?p = (None, cache, ?p)" for n c
    using assms(4) by (simp add: TryAcquireFromThreadLocal_def)
  obtain out p1 where locked: "AcquireLocked ?mode ?now ?p = (out, p1)" by fastforce
  obtain r' p2 where loop: "AcquireLoop ?mode nows healthy created 0 out p1 = (r', p2)" by fastforce
  have "Acquire nows healthy created cache ?p = (hand_out r', cache, p2)"
    by (rule Acquire_miss [OF assms(2,3) miss now [OF refl] locked loop])
  with run have "r = hand_out r'" "cache' = cache" "p' = p2" by simp_all
  moreover have "acquired ?mode healthy ?now created ?p r' p2"
    by (rule AcquireLoop_acquired [OF now assms(2) _ _ locked loop]) (use inv in simp_all)
  ultimately show ?thesis by blast
qed

text \<open>Two connections opened and returned; the older one has died since.\<close>

definition idle_actions :: "nat pool_action list" where
  "idle_actions = [AcquireNext WAIT 5, CreateDone 0 5 (Inr 7), AcquireNext WAIT 6, CreateDone 0 6 (Inr 8),
     Release 1 0 8 True False True, Release 0 0 9 True False True]"

lemma idle_run:
  "\<exists>s. run_pool idle_actions (start_system small_config 1) = Some s \<and> \<not> shutdown_flag (the_pool s) \<and> \<not> IsPoolDisabled (the_pool s) \<and>
     \<not> tl_cache_enabled (the_pool s) \<and> acquire_mode (the_pool s) = WAIT \<and> map connection (available (the_pool s)) = [7, 8] \<and>
     total_connections (the_pool s) = 2 \<and> filter (usable (\<lambda>c. c = 8) 12 (the_pool s)) (available (the_pool s)) \<noteq> [] \<and>
     GetNowForTimeoutPurposes (the_pool s) 12 = 12"
proof -
  have "(case run_pool idle_actions (start_system small_config 1) of
      None \<Rightarrow> False
    | Some s \<Rightarrow> \<not> shutdown_flag (the_pool s) \<and> \<not> IsPoolDisabled (the_pool s) \<and> \<not> tl_cache_enabled (the_pool s) \<and>
        acquire_mode (the_pool s) = WAIT \<and> map connection (available (the_pool s)) = [7, 8] \<and> total_connections (the_pool s) = 2 \<and>
        filter (usable (\<lambda>c. c = 8) 12 (the_pool s)) (available (the_pool s)) \<noteq> [] \<and> GetNowForTimeoutPurposes (the_pool s) 12 = 12)"
    by (simp add: idle_actions_def pool_eval usable_def IsPoolDisabled_def)
  then show ?thesis by (auto split: option.splits)
qed

theorem Acquire_reuses_witness:
  "\<exists>s p' c. pool_reachable (\<lambda>a. True) small_config s \<and> map connection (available (the_pool s)) = [7, 8] \<and>
     Acquire (\<lambda>k. 12) (\<lambda>c. c = 8) (Inl (Exn PoolException ''refused'' [])) empty_tl (the_pool s) = (hand_out (Inr (Some c)), empty_tl, p') \<and>
     connection c = (8 :: nat) \<and> available p' = [] \<and> total_connections p' = 1"
proof -
  obtain s where s: "run_pool idle_actions (start_system small_config 1) = Some s" "\<not> shutdown_flag (the_pool s)" "\<not> IsPoolDisabled (the_pool s)"
      "\<not> tl_cache_enabled (the_pool s)" "acquire_mode (the_pool s) = WAIT" "map connection (available (the_pool s)) = [7, 8]"
      "total_connections (the_pool s) = 2" "filter (usable (\<lambda>c. c = 8) 12 (the_pool s)) (available (the_pool s)) \<noteq> []"
      "GetNowForTimeoutPurposes (the_pool s) 12 = 12"
    by (rule exE [OF idle_run]) (elim conjE)
  have r: "pool_reachable (\<lambda>a. True) small_config s"
    by (rule run_pool_reachable [OF pool_start s(1)]) (simp add: idle_actions_def)
  obtain c d where cd: "available (the_pool s) = [c, d]" "connection c = 7" "connection d = 8" using s(6) by auto
  then have usable: "\<not> usable (\<lambda>c. c = 8) 12 (the_pool s) c" "usable (\<lambda>c. c = 8) 12 (the_pool s) d"
    using s(8) by (auto simp: usable_def split: if_splits)
  obtain r1 cache' p' where run: "Acquire (\<lambda>k. 12) (\<lambda>c. c = 8) (Inl (Exn PoolException ''refused'' [])) empty_tl (the_pool s) = (r1, cache', p')"
    by (metis prod_cases3)
  from Acquire_reuses [OF r s(2-4) _ run] have "r1 = hand_out (Inr (Some d))" "cache' = empty_tl" "available p' = []" "total_connections p' = 1"
    using s(5,7,9) cd usable by (auto simp: acquired_def Let_def)
  with r run s(6) cd(3) show ?thesis by (intro exI [of _ s] exI [of _ p'] exI [of _ d]) simp
qed

end
