(* ===== verification/ConnConfig.thy ===== *)
theory ConnConfig
  imports ChUtils
begin

text \<open>
  \<open>src/src/clickhouse_connection_config.cpp\<close>: the connection configuration and the two syntaxes it is
  read from, \<open>key=value\<close> pairs and URIs. A method that throws leaves its configuration behind
  half changed; its callers drop it with the exception, so the methods return the new
  configuration or the exception.
\<close>

section \<open>Configuration\<close>

record conn_config =
  host :: string
  port :: "16 word"
  user :: string
  password :: string
  database :: string
  secure :: int
  ca_cert :: string
  skip_verify :: bool
  compression :: string
  settings :: "(string \<times> string) list"

definition initial_config :: conn_config where
  "initial_config = \<lparr>host = ''localhost'', port = 0, user = ''default'', password = [], database = ''default'',
     secure = -1, ca_cert = [], skip_verify = False, compression = ''lz4'', settings = []\<rparr>"

definition OptionNames :: "string list" where
  "OptionNames = [''host'', ''port'', ''user'', ''password'', ''database'', ''secure'', ''ca_cert'', ''skip_verify'',
     ''compression'', ''settings'', ''username'', ''dbname'', ''hostname'']"

definition invalid :: "string \<Rightarrow> string list \<Rightarrow> exn" where
  "invalid msg args = Exn InvalidInputException msg args"

definition ParseBoolean :: "string_util \<Rightarrow> string \<Rightarrow> string \<Rightarrow> bool res" where
  "ParseBoolean U key val =
     (let lower = Lower U val in
      if lower \<in> set [''true'', ''1'', ''yes'', ''on''] then Inr True
      else if lower \<in> set [''false'', ''0'', ''no'', ''off''] then Inr False
      else Inl (invalid ''Invalid value for ClickHouse option: expected a boolean'' [val, key]))"

text \<open>The loop accumulates in \<open>uint32_t\<close>; five digits cannot wrap.\<close>

fun PortDigits :: "string_util \<Rightarrow> string \<Rightarrow> 32 word \<Rightarrow> string \<Rightarrow> 32 word res" where
  "PortDigits U full acc [] = Inr acc"
| "PortDigits U full acc (c # cs) =
     (if \<not> CharacterIsDigit U c then Inl (invalid ''Invalid ClickHouse port'' [full])
      else PortDigits U full (acc * 10 + (of_nat (of_char c) - 48)) cs)"

definition ParsePort :: "string_util \<Rightarrow> string \<Rightarrow> 16 word res" where
  "ParsePort U val =
     (if val = [] \<or> length val > 5 then Inl (invalid ''Invalid ClickHouse port'' [val])
      else bindE (PortDigits U val 0 val) (\<lambda>p.
        if p = 0 \<or> p > 65535 then Inl (invalid ''Invalid ClickHouse port'' [val]) else Inr (ucast p)))"

definition IsValidSettingName :: "string_util \<Rightarrow> string \<Rightarrow> bool" where
  "IsValidSettingName U name \<longleftrightarrow>
     name \<noteq> [] \<and> (CharacterIsAlpha U (hd name) \<or> hd name = CHR ''_'') \<and>
     list_all (\<lambda>c. CharacterIsAlphaNumeric U c \<or> c = CHR ''_'') name"

section \<open>Options\<close>

fun AddEntries :: "string_util \<Rightarrow> string list \<Rightarrow> conn_config \<Rightarrow> conn_config res" where
  "AddEntries U [] cfg = Inr cfg"
| "AddEntries U (entry # entries) cfg =
     (let item = Trim U entry in
      if item = [] then AddEntries U entries cfg
      else (let equals = str_find item (CHR ''='');
                name = Trim U (case equals of None \<Rightarrow> item | Some i \<Rightarrow> take i item)
            in if equals = None \<or> \<not> IsValidSettingName U name then
                 Inl (invalid ''Invalid ClickHouse setting: expected name=value'' [item])
               else if Lower U name = ''low_cardinality_allow_in_native_format'' then
                 Inl (invalid ''ClickHouse setting low_cardinality_allow_in_native_format cannot be set'' [])
               else AddEntries U entries
                      (cfg\<lparr>settings := settings cfg @ [(name, Trim U (drop (Suc (the equals)) item))]\<rparr>)))"

definition AddSettings :: "string_util \<Rightarrow> string \<Rightarrow> conn_config \<Rightarrow> conn_config res" where
  "AddSettings U settings_text cfg = AddEntries U (Split U settings_text (CHR '','')) cfg"

definition option_key :: "string_util \<Rightarrow> string \<Rightarrow> string" where
  "option_key U key_p =
     (let key = Lower U key_p in
      if key = ''username'' then ''user''
      else if key = ''dbname'' then ''database''
      else if key = ''hostname'' then ''host''
      else key)"

definition SetOption :: "string_util \<Rightarrow> string \<Rightarrow> string \<Rightarrow> conn_config \<Rightarrow> conn_config res" where
  "SetOption U key_p val cfg =
     (let key = option_key U key_p in
      if key = ''host'' then
        (if val = [] then Inl (invalid ''ClickHouse option host cannot be empty'' []) else Inr (cfg\<lparr>host := val\<rparr>))
      else if key = ''port'' then bindE (ParsePort U val) (\<lambda>p. Inr (cfg\<lparr>port := p\<rparr>))
      else if key = ''user'' then Inr (cfg\<lparr>user := val\<rparr>)
      else if key = ''password'' then Inr (cfg\<lparr>password := val\<rparr>)
      else if key = ''database'' then Inr (cfg\<lparr>database := val\<rparr>)
      else if key = ''secure'' then bindE (ParseBoolean U key val) (\<lambda>b. Inr (cfg\<lparr>secure := if b then 1 else 0\<rparr>))
      else if key = ''ca_cert'' then Inr (cfg\<lparr>ca_cert := val\<rparr>)
      else if key = ''skip_verify'' then bindE (ParseBoolean U key val) (\<lambda>b. Inr (cfg\<lparr>skip_verify := b\<rparr>))
      else if key = ''compression'' then
        (let lower = Lower U val in
         if lower \<noteq> ''lz4'' \<and> lower \<noteq> ''zstd'' \<and> lower \<noteq> ''none'' then
           Inl (invalid ''Invalid value for ClickHouse option compression: expected lz4, zstd or none'' [val])
         else Inr (cfg\<lparr>compression := lower\<rparr>))
      else if key = ''settings'' then AddSettings U val cfg
      else Inl (invalid ''Unknown ClickHouse connection option'' [key_p]))"

section \<open>Key-value pairs\<close>

text \<open>A quoted value after its opening quote: the value and the rest, \<open>None\<close> when it is not closed.\<close>

fun ScanValue :: "string \<Rightarrow> (string \<times> string) option" where
  "ScanValue [] = None"
| "ScanValue [c] = (if c = CHR 0x27 then Some ([], []) else None)"
| "ScanValue (c # d # cs) =
     (if c = CHR 0x5C then map_option (\<lambda>(val, rest). (d # val, rest)) (ScanValue cs)
      else if c = CHR 0x27 then Some ([], d # cs)
      else map_option (\<lambda>(val, rest). (c # val, rest)) (ScanValue (d # cs)))"

lemma ScanValue_length: "ScanValue s = Some (val, rest) \<Longrightarrow> length rest < length s"
  by (induction s arbitrary: val rest rule: ScanValue.induct) (auto split: if_splits simp: less_Suc_eq)

text \<open>
  One round of the loop up to its \<open>SetOption\<close>: the next key, its value and the rest of the text;
  \<open>None\<close> at the end.
\<close>

definition ScanPair :: "string_util \<Rightarrow> string \<Rightarrow> (string \<times> string \<times> string) option res" where
  "ScanPair U str =
     (let t = dropWhile (CharacterIsSpace U) str;
          key = takeWhile (\<lambda>c. c \<noteq> CHR ''='' \<and> \<not> CharacterIsSpace U c) t;
          t2 = dropWhile (CharacterIsSpace U) (dropWhile (\<lambda>c. c \<noteq> CHR ''='' \<and> \<not> CharacterIsSpace U c) t);
          t3 = dropWhile (CharacterIsSpace U) (tl t2)
      in if t = [] then Inr None
         else if t2 = [] \<or> hd t2 \<noteq> CHR ''='' then
           Inl (invalid ''Invalid ClickHouse connection string: expected key=value pairs'' [])
         else if t3 \<noteq> [] \<and> hd t3 = CHR 0x27 then
           (case ScanValue (tl t3) of
              None \<Rightarrow> Inl (invalid ''Invalid ClickHouse connection string: unterminated quoted value'' [key])
            | Some (val, rest) \<Rightarrow> Inr (Some (key, val, rest)))
         else Inr (Some (key, takeWhile (\<lambda>c. \<not> CharacterIsSpace U c) t3, dropWhile (\<lambda>c. \<not> CharacterIsSpace U c) t3)))"

lemma ScanPair_length:
  assumes "ScanPair U str = Inr (Some (key, val, rest))"
  shows "length rest < length str"
proof -
  define t where "t = dropWhile (CharacterIsSpace U) str"
  define t2 where "t2 = dropWhile (CharacterIsSpace U) (dropWhile (\<lambda>c. c \<noteq> CHR ''='' \<and> \<not> CharacterIsSpace U c) t)"
  define t3 where "t3 = dropWhile (CharacterIsSpace U) (tl t2)"
  have r: "t2 \<noteq> []" "(\<exists>v. ScanValue (tl t3) = Some (v, rest)) \<or> rest = dropWhile (\<lambda>c. \<not> CharacterIsSpace U c) t3"
    using assms by (auto simp: ScanPair_def Let_def t_def [symmetric] t2_def [symmetric] t3_def [symmetric]
        split: if_splits option.splits)
  have "length rest \<le> length t3"
    using r(2) ScanValue_length [of "tl t3"] length_dropWhile_le [of _ t3] by (auto simp: less_imp_le dest!: less_imp_le)
  also have "\<dots> \<le> length (tl t2)" unfolding t3_def by (rule length_dropWhile_le)
  also have "\<dots> < length t2" using r(1) by (cases t2) auto
  also have "\<dots> \<le> length t" unfolding t2_def by (rule le_trans [OF length_dropWhile_le length_dropWhile_le])
  also have "\<dots> \<le> length str" unfolding t_def by (rule length_dropWhile_le)
  finally show ?thesis .
qed

function ApplyPairs :: "string_util \<Rightarrow> string \<Rightarrow> conn_config \<Rightarrow> conn_config res" where
  "ApplyPairs U str cfg =
     bindE (ScanPair U str) (\<lambda>r. case r of
       None \<Rightarrow> Inr cfg
     | Some (key, val, rest) \<Rightarrow> bindE (SetOption U key val cfg) (\<lambda>cfg'. ApplyPairs U rest cfg'))"
  by pat_completeness auto
termination
  by (relation "measure (\<lambda>(U, str, cfg). length str)") (auto dest: ScanPair_length)

declare ApplyPairs.simps [simp del]

definition ApplyKeyValuePairs :: "string_util \<Rightarrow> string \<Rightarrow> conn_config \<Rightarrow> conn_config res" where
  "ApplyKeyValuePairs U txt cfg = ApplyPairs U txt cfg"


section \<open>URIs\<close>

definition ParseUserInfo :: "string_util \<Rightarrow> string \<Rightarrow> conn_config \<Rightarrow> conn_config" where
  "ParseUserInfo U user_info cfg =
     (case str_find user_info (CHR '':'') of
        None \<Rightarrow> cfg\<lparr>user := URLDecode U user_info\<rparr>
      | Some colon \<Rightarrow> cfg\<lparr>user := URLDecode U (take colon user_info),
                          password := URLDecode U (drop (Suc colon) user_info)\<rparr>)"

definition ParseAuthority :: "string_util \<Rightarrow> string \<Rightarrow> conn_config \<Rightarrow> conn_config res" where
  "ParseAuthority U authority cfg =
     (if authority \<noteq> [] \<and> hd authority = CHR ''['' then
        (case str_find authority (CHR '']'') of
           None \<Rightarrow> Inl (invalid ''Invalid ClickHouse URI: unterminated IPv6 address literal'' [])
         | Some close \<Rightarrow>
             (let cfg1 = cfg\<lparr>host := substr authority 1 (close - 1)\<rparr>;
                  after = drop (Suc close) authority
              in if after = [] then Inr cfg1
                 else if hd after \<noteq> CHR '':'' then
                   Inl (invalid ''Invalid ClickHouse URI: unexpected characters after the IPv6 address'' [])
                 else bindE (ParsePort U (tl after)) (\<lambda>p. Inr (cfg1\<lparr>port := p\<rparr>))))
      else
        (let with_host = (\<lambda>a c. if a = [] then c else c\<lparr>host := a\<rparr>) in
         case str_rfind authority (CHR '':'') of
           None \<Rightarrow> Inr (with_host authority cfg)
         | Some colon \<Rightarrow>
             bindE (ParsePort U (drop (Suc colon) authority)) (\<lambda>p.
               Inr (with_host (take colon authority) (cfg\<lparr>port := p\<rparr>)))))"

text \<open>The path (without its slash) and the query (without its question mark) of what follows the authority.\<close>

definition SplitRemainder :: "string \<Rightarrow> string \<times> string" where
  "SplitRemainder remainder =
     (if remainder = [] then ([], [])
      else if hd remainder = CHR ''/'' then
        (case str_find remainder (CHR ''?'') of
           None \<Rightarrow> (tl remainder, [])
         | Some question \<Rightarrow> (substr remainder 1 (question - 1), drop (Suc question) remainder))
      else if hd remainder = CHR ''?'' then ([], tl remainder)
      else ([], []))"

fun ApplyParameters :: "string_util \<Rightarrow> string list \<Rightarrow> conn_config \<Rightarrow> conn_config res" where
  "ApplyParameters U [] cfg = Inr cfg"
| "ApplyParameters U (parameter # ps) cfg =
     (if parameter = [] then ApplyParameters U ps cfg
      else (case str_find parameter (CHR ''='') of
              None \<Rightarrow> Inl (invalid ''Invalid ClickHouse URI query parameter: expected key=value'' [])
            | Some equals \<Rightarrow>
                bindE (SetOption U (URLDecode U (take equals parameter)) (URLDecode U (drop (Suc equals) parameter)) cfg)
                  (\<lambda>cfg'. ApplyParameters U ps cfg')))"

definition ApplyUri :: "string_util \<Rightarrow> string \<Rightarrow> conn_config \<Rightarrow> conn_config res" where
  "ApplyUri U uri cfg =
     (let secure_scheme = StartsWith U uri ''clickhouses://'';
          rest = drop (if secure_scheme then 14 else 13) uri;
          cfg1 = (if secure_scheme then cfg\<lparr>secure := 1\<rparr> else cfg);
          last_at = str_rfind rest (CHR ''@'');
          authority_end = find_first_of rest ''/?#'' (case last_at of None \<Rightarrow> 0 | Some i \<Rightarrow> i);
          authority = (case authority_end of None \<Rightarrow> rest | Some i \<Rightarrow> take i rest);
          remainder = (case authority_end of None \<Rightarrow> [] | Some i \<Rightarrow> drop i rest);
          cfg2 = (case last_at of None \<Rightarrow> cfg1 | Some i \<Rightarrow> ParseUserInfo U (take i authority) cfg1);
          host_port = (case last_at of None \<Rightarrow> authority | Some i \<Rightarrow> drop (Suc i) authority);
          (path, query) = SplitRemainder remainder
      in bindE (ParseAuthority U host_port cfg2) (\<lambda>cfg3.
         ApplyParameters U (Split U query (CHR ''&''))
           (if path = [] then cfg3 else cfg3\<lparr>database := URLDecode U path\<rparr>)))"

definition ApplyConnectionString :: "string_util \<Rightarrow> string \<Rightarrow> conn_config \<Rightarrow> conn_config res" where
  "ApplyConnectionString U connection_string cfg =
     (let t = Trim U connection_string in
      if t = [] then Inr cfg
      else if StartsWith U t ''clickhouse://'' \<or> StartsWith U t ''clickhouses://'' then ApplyUri U t cfg
      else ApplyKeyValuePairs U t cfg)"

section \<open>What is derived from the options\<close>

definition IsSecure :: "conn_config \<Rightarrow> bool" where
  "IsSecure cfg = (if secure cfg = -1 then port cfg = 9440 else secure cfg = 1)"

definition GetPort :: "conn_config \<Rightarrow> 16 word" where
  "GetPort cfg = (if port cfg \<noteq> 0 then port cfg else if IsSecure cfg then 9440 else 9000)"

definition ToDisplayString :: "conn_config \<Rightarrow> string" where
  "ToDisplayString cfg =
     (if IsSecure cfg then ''clickhouses'' else ''clickhouse'') @ ''://'' @ user cfg @ ''@'' @ host cfg @ '':'' @
     to_string (unat (GetPort cfg)) @ ''/'' @ database cfg"

section \<open>Ports\<close>

lemma digits_value_fold:
  assumes "list_all ascii_digit s" and "CharacterIsDigit U = ascii_digit"
  shows "PortDigits U full (of_nat n) s = Inr (of_nat (foldl (\<lambda>n c. n * 10 + (of_char c - 48)) n s))"
  using assms(1)
proof (induction s arbitrary: n)
  case (Cons c s)
  then have "(48 :: nat) \<le> of_char c" by (auto simp: ascii_digit_def)
  then have "(of_nat (of_char c) - 48 :: 32 word) = of_nat (of_char c - 48)" by (simp add: of_nat_diff)
  then have "PortDigits U full (of_nat n) (c # s) = PortDigits U full (of_nat (n * 10 + (of_char c - 48))) s"
    using Cons.prems assms(2) by simp
  also have "\<dots> = Inr (of_nat (foldl (\<lambda>n c. n * 10 + (of_char c - 48)) (n * 10 + (of_char c - 48)) s))"
    by (rule Cons.IH) (use Cons.prems in simp)
  finally show ?case by (simp only: foldl_Cons)
qed simp

lemma PortDigits_error:
  assumes "\<not> list_all ascii_digit s" and "CharacterIsDigit U = ascii_digit"
  shows "PortDigits U full acc s = Inl (invalid ''Invalid ClickHouse port'' [full])"
  using assms(1) by (induction s arbitrary: acc) (auto simp: assms(2))

lemma foldl_digits_bound:
  "list_all ascii_digit s \<Longrightarrow> foldl (\<lambda>n c. n * 10 + (of_char c - 48)) n s < Suc n * 10 ^ length s"
proof (induction s arbitrary: n)
  case (Cons c s)
  then have "of_char c - 48 < (10 :: nat)" by (auto simp: ascii_digit_def)
  then have "Suc (n * 10 + (of_char c - 48)) \<le> Suc n * 10" by simp
  then have "Suc (n * 10 + (of_char c - 48)) * 10 ^ length s \<le> Suc n * 10 * 10 ^ length s"
    by (rule mult_right_mono) simp
  moreover have "foldl (\<lambda>n c. n * 10 + (of_char c - 48)) (n * 10 + (of_char c - 48)) s <
      Suc (n * 10 + (of_char c - 48)) * 10 ^ length s"
    by (rule Cons.IH) (use Cons.prems in simp)
  ultimately show ?case by (simp only: foldl_Cons list.size power_Suc add_0_right add_Suc_right mult.assoc [symmetric])
qed simp

lemma digits_value_bound: "list_all ascii_digit s \<Longrightarrow> digits_value s < 10 ^ length s"
  using foldl_digits_bound [of s 0] by (simp add: digits_value_def)

text \<open>
  A port is accepted exactly when it is one to five decimal digits with a value from 1 to 65535,
  and the 16-bit port is that value; the 32-bit accumulation never wraps.
\<close>

theorem ParsePort_iff:
  assumes "string_util_ok U"
  shows "ParsePort U val = Inr p \<longleftrightarrow>
    val \<noteq> [] \<and> length val \<le> 5 \<and> list_all ascii_digit val \<and> 1 \<le> digits_value val \<and> digits_value val \<le> 65535 \<and>
    unat p = digits_value val"
proof (cases "val \<noteq> [] \<and> length val \<le> 5 \<and> list_all ascii_digit val")
  case False
  then show ?thesis
    using PortDigits_error [of val U] string_util_okD(2) [OF assms] by (auto simp: ParsePort_def)
next
  case True
  have "digits_value val < 10 ^ length val" using True digits_value_bound by blast
  also have "\<dots> \<le> 10 ^ 5" using True by (intro power_increasing) auto
  finally have b: "digits_value val < 100000" by simp
  have "PortDigits U val 0 val = Inr (of_nat (digits_value val))"
    using digits_value_fold [of val U val 0] True string_util_okD(2) [OF assms] by (simp add: digits_value_def)
  moreover have u: "unat (of_nat (digits_value val) :: 32 word) = digits_value val"
    using b by (simp add: unat_of_nat)
  then have "(of_nat (digits_value val) :: 32 word) = 0 \<longleftrightarrow> digits_value val = 0"
    by (metis unat_0 unat_eq_zero)
  moreover have "(of_nat (digits_value val) :: 32 word) > 65535 \<longleftrightarrow> digits_value val > 65535"
    using u by (simp add: word_less_nat_alt)
  moreover have "unat (ucast (of_nat (digits_value val) :: 32 word) :: 16 word) = digits_value val"
    if "digits_value val \<le> 65535"
    using u that by (simp add: unsigned_ucast_eq take_bit_nat_eq_self)
  ultimately show ?thesis
    using True by (auto simp: ParsePort_def not_less Suc_le_eq dest: arg_cong [where f = unat] intro: word_unat_eq_iff [THEN iffD2])
qed

theorem ParsePort_iff_witness:
  "\<exists>p. ParsePort duck_strings ''9440'' = Inr p \<and> unat p = 9440"
proof -
  have "digits_value ''9440'' = 9440" "list_all ascii_digit ''9440''" by code_simp+
  then show ?thesis
    using ParsePort_iff [OF duck_strings_ok, of "''9440''" 9440] by (intro exI [of _ 9440]) simp
qed

section \<open>Quoted values survive\<close>

lemma ScanValue_end: "ScanValue (CHR 0x27 # rest) = Some ([], rest)"
  by (cases rest) auto

lemma ScanValue_quote: "ScanValue (tl (QuoteLiteral v) @ rest) = Some (v, rest)"
proof (induction v)
  case Nil
  show ?case by (simp add: QuoteLiteral_def QuoteWith_def ScanValue_end)
next
  case (Cons c v)
  have n: "tl (QuoteLiteral v) @ rest \<noteq> []" by (simp add: QuoteLiteral_def QuoteWith_def)
  show ?case
  proof (cases "c = CHR 0x5C \<or> c = CHR 0x27")
    case True
    then have "tl (QuoteLiteral (c # v)) = [CHR 0x5C, c] @ tl (QuoteLiteral v)"
      by (simp add: QuoteLiteral_def QuoteWith_def)
    with Cons show ?thesis by simp
  next
    case False
    then have t: "tl (QuoteLiteral (c # v)) = c # tl (QuoteLiteral v)"
      by (simp add: QuoteLiteral_def QuoteWith_def)
    obtain d cs where d: "tl (QuoteLiteral v) @ rest = d # cs" using n by (cases "tl (QuoteLiteral v) @ rest") auto
    with False Cons show ?thesis unfolding t by simp
  qed
qed

definition pair_text :: "string \<times> string \<Rightarrow> string" where
  "pair_text kv = fst kv @ ''='' @ QuoteLiteral (snd kv)"

definition key_ok :: "string \<Rightarrow> bool" where
  "key_ok k \<longleftrightarrow> k \<noteq> [] \<and> list_all (\<lambda>c. c \<noteq> CHR ''='' \<and> \<not> c_isspace c) k"

lemma dropWhile_hd: "xs \<noteq> [] \<Longrightarrow> \<not> P (hd xs) \<Longrightarrow> dropWhile P xs = xs"
  by (cases xs) auto

lemma ScanPair_text:
  assumes "string_util_ok U" and "key_ok k" and "list_all c_isspace pre"
  shows "ScanPair U (pre @ pair_text (k, v) @ rest) = Inr (Some (k, v, rest))"
proof -
  note sp = string_util_okD(1) [OF assms(1)]
  have k: "k \<noteq> []" "\<forall>c\<in>set k. c \<noteq> CHR ''='' \<and> \<not> c_isspace c"
    using assms(2) by (auto simp: key_ok_def list_all_iff)
  let ?q = "QuoteLiteral v @ rest"
  have q: "?q = CHR 0x27 # (tl (QuoteLiteral v) @ rest)" by (simp add: QuoteLiteral_def QuoteWith_def)
  have t: "dropWhile c_isspace (pre @ pair_text (k, v) @ rest) = k @ CHR ''='' # ?q"
    using k assms(3) by (cases k) (auto simp: pair_text_def list_all_iff dropWhile_append2)
  have key: "takeWhile (\<lambda>c. c \<noteq> CHR ''='' \<and> \<not> c_isspace c) (k @ CHR ''='' # ?q) = k"
    "dropWhile (\<lambda>c. c \<noteq> CHR ''='' \<and> \<not> c_isspace c) (k @ CHR ''='' # ?q) = CHR ''='' # ?q"
    using k(2) by (simp_all add: takeWhile_append2 dropWhile_append2)
  have "dropWhile c_isspace (CHR ''='' # ?q) = CHR ''='' # ?q" "dropWhile c_isspace ?q = ?q"
    by (simp_all add: c_isspace_def q)
  then show ?thesis
    unfolding ScanPair_def sp t key Let_def using ScanValue_quote [of v rest] by (simp add: q)
qed

fun SetOptions :: "string_util \<Rightarrow> (string \<times> string) list \<Rightarrow> conn_config \<Rightarrow> conn_config res" where
  "SetOptions U [] cfg = Inr cfg"
| "SetOptions U ((k, v) # kvs) cfg = bindE (SetOption U k v cfg) (SetOptions U kvs)"

lemma ApplyPairs_text:
  assumes "string_util_ok U" and "list_all (\<lambda>kv. key_ok (fst kv)) kvs" and "list_all c_isspace pre"
  shows "ApplyPairs U (pre @ join_with (map pair_text kvs) '' '') cfg = SetOptions U kvs cfg"
  using assms(2,3)
proof (induction kvs arbitrary: pre cfg)
  case Nil
  have "dropWhile c_isspace pre = []" using Nil by (simp add: list_all_iff)
  then show ?case
    by (subst ApplyPairs.simps) (simp add: ScanPair_def Let_def string_util_okD(1) [OF assms(1)])
next
  case (Cons kv kvs)
  obtain k v where kv: "kv = (k, v)" by fastforce
  define rest where "rest = (if kvs = [] then [] else '' '' @ join_with (map pair_text kvs) '' '')"
  have j: "join_with (map pair_text (kv # kvs)) '' '' = pair_text (k, v) @ rest"
    by (cases kvs) (simp_all add: rest_def kv)
  have "ApplyPairs U rest c = SetOptions U kvs c" for c
  proof (cases "kvs = []")
    case True
    then show ?thesis using Cons.IH [of "[]" c] by (simp add: rest_def)
  next
    case False
    then show ?thesis using Cons.IH [of "'' ''" c] Cons.prems by (simp add: rest_def c_isspace_def)
  qed
  then have "ApplyPairs U rest = SetOptions U kvs" by (rule ext)
  moreover have "ScanPair U (pre @ pair_text (k, v) @ rest) = Inr (Some (k, v, rest))"
    by (rule ScanPair_text [OF assms(1)]) (use Cons.prems kv in auto)
  ultimately show ?case
    unfolding j by (subst ApplyPairs.simps) (simp add: kv)
qed

text \<open>
  A connection string written as \<open>key='value'\<close> pairs sets exactly those options, in order,
  whatever the values contain: spaces, quotes, backslashes and equals signs all survive the quoting.
\<close>

theorem quoted_pairs_set_options:
  assumes "string_util_ok U" and "list_all (\<lambda>kv. key_ok (fst kv)) kvs"
  shows "ApplyKeyValuePairs U (join_with (map pair_text kvs) '' '') cfg = SetOptions U kvs cfg"
  using ApplyPairs_text [OF assms, of "[]" cfg] by (simp add: ApplyKeyValuePairs_def)

theorem quoted_pairs_set_options_witness:
  "ApplyKeyValuePairs duck_strings (join_with (map pair_text [(''Host'', ''db''), (''password'', [CHR 0x27] @ ''a = b'')]) '' '')
     initial_config = Inr (initial_config\<lparr>host := ''db'', password := [CHR 0x27] @ ''a = b''\<rparr>)"
proof -
  let ?kvs = "[(''Host'', ''db''), (''password'', [CHR 0x27] @ ''a = b'')]"
  have "list_all (\<lambda>kv. key_ok (fst kv)) ?kvs" by (simp add: key_ok_def c_isspace_def)
  from quoted_pairs_set_options [OF duck_strings_ok this]
  show ?thesis by (rule trans) code_simp
qed


section \<open>Credentials in URIs\<close>

lemma str_find_append: "c \<notin> set xs \<Longrightarrow> str_find (xs @ c # ys) c = Some (length xs)"
proof -
  assume "c \<notin> set xs"
  then have "find_if_from (\<lambda>d. d = c) (xs @ c # ys) i = Some (i + length xs)" for i
    by (induction xs arbitrary: i) auto
  then show ?thesis by (simp add: str_find_def)
qed

lemma str_find_None: "c \<notin> set s \<Longrightarrow> str_find s c = None"
proof -
  assume "c \<notin> set s"
  then have "find_if_from (\<lambda>d. d = c) s i = None" for i by (induction s arbitrary: i) auto
  then show ?thesis by (simp add: str_find_def)
qed

lemma str_rfind_append: "c \<notin> set ys \<Longrightarrow> str_rfind (xs @ c # ys) c = Some (length xs)"
  using str_find_append [of c "rev ys" "rev xs"] by (simp add: str_rfind_def str_find_def)

lemma find_if_from_append:
  "\<forall>c\<in>set xs. \<not> P c \<Longrightarrow> P y \<Longrightarrow> find_if_from P (xs @ y # ys) i = Some (i + length xs)"
  by (induction xs arbitrary: i) auto

lemma to_string_lower: "n \<noteq> 0 \<Longrightarrow> 10 ^ (length (to_string n) - 1) \<le> n"
proof (induction n rule: to_string.induct)
  case (1 n)
  show ?case
  proof (cases "n < 10")
    case True
    with 1 show ?thesis by (simp add: to_string.simps [of n])
  next
    case False
    then have "10 ^ (length (to_string (n div 10)) - 1) \<le> n div 10" using 1 by simp
    moreover obtain k where k: "length (to_string (n div 10)) = Suc k"
      by (metis length_0_conv not0_implies_Suc to_string_nonempty)
    moreover have "length (to_string n) = Suc (Suc k)"
      using False k by (subst to_string.simps) simp
    ultimately have "10 ^ k \<le> n div 10" "length (to_string n) - 1 = Suc k" by simp_all
    then show ?thesis by simp
  qed
qed

lemma to_string_free: "\<not> ascii_digit c \<Longrightarrow> c \<notin> set (to_string n)"
  using to_string_digits by blast

lemma ApplyParameters_empty: "\<forall>p\<in>set ps. p = [] \<Longrightarrow> ApplyParameters U ps cfg = Inr cfg"
  by (induction ps) auto

lemma take_append_length: "take (length xs) (xs @ ys) = xs"
  and drop_append_length: "drop (length xs) (xs @ ys) = ys"
  by simp_all

text \<open>Texts without the characters of a list.\<close>

definition free_of :: "string \<Rightarrow> string \<Rightarrow> bool" where
  "free_of cs s \<longleftrightarrow> set cs \<inter> set s = {}"



section \<open>Later sources override earlier ones\<close>

lemma SetOption_keys:
  "option_key U k = ''host'' \<Longrightarrow> SetOption U k v c =
     (if v = [] then Inl (invalid ''ClickHouse option host cannot be empty'' []) else Inr (c\<lparr>host := v\<rparr>))"
  "option_key U k = ''port'' \<Longrightarrow> SetOption U k v c =
     bindE (ParsePort U v) (\<lambda>p. Inr (c\<lparr>port := p\<rparr>))"
  "option_key U k = ''user'' \<Longrightarrow> SetOption U k v c =
     Inr (c\<lparr>user := v\<rparr>)"
  "option_key U k = ''password'' \<Longrightarrow> SetOption U k v c =
     Inr (c\<lparr>password := v\<rparr>)"
  "option_key U k = ''database'' \<Longrightarrow> SetOption U k v c =
     Inr (c\<lparr>database := v\<rparr>)"
  "option_key U k = ''secure'' \<Longrightarrow> SetOption U k v c =
     bindE (ParseBoolean U ''secure'' v) (\<lambda>b. Inr (c\<lparr>secure := if b then 1 else 0\<rparr>))"
  "option_key U k = ''ca_cert'' \<Longrightarrow> SetOption U k v c =
     Inr (c\<lparr>ca_cert := v\<rparr>)"
  "option_key U k = ''skip_verify'' \<Longrightarrow> SetOption U k v c =
     bindE (ParseBoolean U ''skip_verify'' v) (\<lambda>b. Inr (c\<lparr>skip_verify := b\<rparr>))"
  "option_key U k = ''compression'' \<Longrightarrow> SetOption U k v c =
     (if Lower U v \<notin> {''lz4'', ''zstd'', ''none''} then Inl (invalid ''Invalid value for ClickHouse option compression: expected lz4, zstd or none'' [v]) else Inr (c\<lparr>compression := Lower U v\<rparr>))"
  by (simp_all add: SetOption_def Let_def)

text \<open>
  An option set twice has the second value alone, whatever aliases and case its key is written
  with, for every option but \<open>settings\<close>, which accumulate.
\<close>

theorem SetOption_overrides:
  assumes "option_key U k1 = option_key U k2" and "option_key U k1 \<noteq> ''settings''" and "SetOption U k1 v1 cfg = Inr c1"
  shows "SetOption U k2 v2 c1 = SetOption U k2 v2 cfg"
proof -
  define k where "k = option_key U k1"
  have opt: "SetOption U k1 v1 cfg = Inr c1" "k \<noteq> ''settings''" using assms k_def by simp_all
  have key: "option_key U k1 = k" "option_key U k2 = k" using assms(1) by (simp_all add: k_def)
  have "k \<in> {''host'', ''port'', ''user'', ''password'', ''database'', ''secure'', ''ca_cert'', ''skip_verify'', ''compression''}"
  proof (rule ccontr)
    assume "\<not> ?thesis"
    with opt(2) have "SetOption U k1 v1 cfg = Inl (invalid ''Unknown ClickHouse connection option'' [k1])"
      by (simp add: SetOption_def k_def [symmetric] Let_def)
    with opt(1) show False by simp
  qed
  then show ?thesis
  proof (elim insertE emptyE)
  qed (use key opt(1) in \<open>force simp: SetOption_keys split: if_splits\<close>)+
qed

theorem SetOption_overrides_witness:
  "bindE (SetOption duck_strings ''HostName'' ''a'' initial_config) (SetOption duck_strings ''host'' ''b'') =
     Inr (initial_config\<lparr>host := ''b''\<rparr>)"
proof -
  have k: "option_key duck_strings ''HostName'' = ''host''" "option_key duck_strings ''host'' = ''host''" by code_simp+
  have "SetOption duck_strings ''HostName'' ''a'' initial_config = Inr (initial_config\<lparr>host := ''a''\<rparr>)" by code_simp
  moreover from SetOption_overrides [OF _ _ this, of "''host''" "''b''"] k
  have "SetOption duck_strings ''host'' ''b'' (initial_config\<lparr>host := ''a''\<rparr>) = SetOption duck_strings ''host'' ''b'' initial_config"
    by simp
  moreover have "SetOption duck_strings ''host'' ''b'' initial_config = Inr (initial_config\<lparr>host := ''b''\<rparr>)" by code_simp
  ultimately show ?thesis by simp
qed

text \<open>
  The key that follows an unquoted password containing a space is echoed when the leftover of the
  password happens to be followed by an equals sign.
\<close>

lemma password_fragment_echoed:
  "ApplyConnectionString duck_strings ''password=my secret=1'' initial_config =
     Inl (invalid ''Unknown ClickHouse connection option'' [''secret''])"
  by code_simp

end
