(* ===== verification/DuckExpr.thy ===== *)
theory DuckExpr
  imports DuckTypes
begin

text \<open>
  DuckDB's values, bound expressions and table filters, as far as the sources inspect them: a
  \<open>Value\<close> by its type and content, an \<open>Expression\<close> by its class. Functions of DuckDB that the sources
  call on them are the parameter \<open>duck_api\<close>, with the documented behaviour as \<open>duck_api_ok\<close>.
\<close>

section \<open>Values\<close>

text \<open>A floating point number: finite ones are a mantissa and a binary exponent.\<close>

datatype duck_double = NaN | Infinite bool | Finite int int

text \<open>
  Integers of every width carry their type; decimals their width, scale and unscaled value; dates are
  days and timestamps are ticks since the epoch.
\<close>

datatype duck_value =
    NullValue logical_type
  | Boolean bool
  | Integer logical_type int
  | Decimal nat nat int
  | Floating logical_type duck_double
  | Varchar string
  | JsonText string
  | EnumValue "string list" string
  | Uuid nat
  | Date int
  | Timestamp logical_type int
  | TimestampTZ int
  | OtherValue logical_type string

fun value_type :: "duck_value \<Rightarrow> logical_type" where
  "value_type (NullValue t) = t"
| "value_type (Boolean b) = BOOLEAN"
| "value_type (Integer t n) = t"
| "value_type (Decimal w s n) = DECIMAL w s"
| "value_type (Floating t d) = t"
| "value_type (Varchar s) = VARCHAR"
| "value_type (JsonText s) = JSON"
| "value_type (EnumValue ls s) = ENUM ls"
| "value_type (Uuid n) = UUID"
| "value_type (Date d) = DATE"
| "value_type (Timestamp t n) = t"
| "value_type (TimestampTZ n) = TIMESTAMP_TZ"
| "value_type (OtherValue t s) = t"

definition IsNull :: "duck_value \<Rightarrow> bool" where
  "IsNull v = (case v of NullValue t \<Rightarrow> True | _ \<Rightarrow> False)"

text \<open>\<open>type.id() == LogicalTypeId::VARCHAR\<close>; JSON is a VARCHAR with an alias.\<close>

definition is_varchar :: "logical_type \<Rightarrow> bool" where
  "is_varchar t \<longleftrightarrow> t = VARCHAR \<or> t = JSON"

text \<open>Infinite dates and timestamps are the extreme values of their integer type.\<close>

definition date_infinity :: int where "date_infinity = 2147483647"
definition timestamp_infinity :: int where "timestamp_infinity = 9223372036854775807"

definition date_IsFinite :: "int \<Rightarrow> bool" where
  "date_IsFinite d \<longleftrightarrow> d \<noteq> date_infinity \<and> d \<noteq> - date_infinity"

definition timestamp_IsFinite :: "int \<Rightarrow> bool" where
  "timestamp_IsFinite t \<longleftrightarrow> t \<noteq> timestamp_infinity \<and> t \<noteq> - timestamp_infinity"

text \<open>\<open>Date::FromDate\<close>: days since 1970-01-01 of a date of the proleptic Gregorian calendar.\<close>

definition FromDate :: "int \<Rightarrow> int \<Rightarrow> int \<Rightarrow> int" where
  "FromDate year month day =
     (let y = (if month \<le> 2 then year - 1 else year);
          yoe = y mod 400;
          doy = (153 * (month + (if month > 2 then -3 else 9)) + 2) div 5 + day - 1
      in y div 400 * 146097 + yoe * 365 + yoe div 4 - yoe div 100 + doy - 719468)"

section \<open>Expressions\<close>

datatype expr_type =
    COMPARE_EQUAL | COMPARE_NOTEQUAL | COMPARE_LESSTHAN | COMPARE_GREATERTHAN
  | COMPARE_LESSTHANOREQUALTO | COMPARE_GREATERTHANOREQUALTO | COMPARE_IN | COMPARE_NOT_IN
  | CONJUNCTION_AND | CONJUNCTION_OR | OPERATOR_NOT | OPERATOR_IS_NULL | OPERATOR_IS_NOT_NULL
  | OPERATOR_COALESCE | OtherExprType string

datatype duck_expr =
    BoundRef nat logical_type
  | BoundColumnRef nat nat nat logical_type
  | BoundParameter string logical_type
  | Constant duck_value
  | Conjunction expr_type "duck_expr list"
  | Operator expr_type logical_type "duck_expr list"
  | Comparison expr_type duck_expr duck_expr
  | CastExpr bool duck_expr logical_type
  | Between bool bool duck_expr duck_expr duck_expr
  | FunctionCall string logical_type "duck_expr list"
  | CaseExpr "(duck_expr \<times> duck_expr) list" duck_expr logical_type
  | OtherExpr string logical_type

fun return_type :: "duck_expr \<Rightarrow> logical_type" where
  "return_type (BoundRef i t) = t"
| "return_type (BoundColumnRef table col depth t) = t"
| "return_type (BoundParameter p t) = t"
| "return_type (Constant v) = value_type v"
| "return_type (Conjunction t es) = BOOLEAN"
| "return_type (Operator t rt es) = rt"
| "return_type (Comparison t l r) = BOOLEAN"
| "return_type (CastExpr try e t) = t"
| "return_type (Between li ui e lo hi) = BOOLEAN"
| "return_type (FunctionCall f t es) = t"
| "return_type (CaseExpr ws e t) = t"
| "return_type (OtherExpr s t) = t"

section \<open>Table filters\<close>

datatype table_filter =
    ExpressionFilter duck_expr
  | LegacyOptionalFilter | LegacyDynamicFilter | LegacyBloomFilter | LegacyPrefixRangeFilter
  | LegacyFilter string

section \<open>DuckDB's functions on them\<close>

text \<open>
  \<open>TryGetColumnConstantComparison\<close> returns the constant a column is compared with and sets the
  comparison as seen from the column.
\<close>

record duck_api =
  value_ToString :: "duck_value \<Rightarrow> string"
  BooleanValue_Get :: "duck_value \<Rightarrow> bool res"
  StringValue_Get :: "duck_value \<Rightarrow> string res"
  DateValue_Get :: "duck_value \<Rightarrow> int res"
  TimestampTZValue_Get :: "duck_value \<Rightarrow> int res"
  TimestampNSValue_Get :: "duck_value \<Rightarrow> int res"
  CastAsTimestamp :: "duck_value \<Rightarrow> int res"
  Date_ToString :: "int \<Rightarrow> string"
  expr_ToString :: "duck_expr \<Rightarrow> string"
  IsOptionalExpression :: "duck_expr \<Rightarrow> bool"
  IsRootOptionalExpression :: "duck_expr \<Rightarrow> bool"
  ContainsInternalFunction :: "duck_expr \<Rightarrow> string \<Rightarrow> bool"
  IsSimpleFilterColumnRef :: "duck_expr \<Rightarrow> bool"
  TryGetColumnConstantComparison :: "expr_type \<Rightarrow> duck_expr \<Rightarrow> duck_expr \<Rightarrow> (expr_type \<times> duck_value) option"
  IsOptionalFilter :: "table_filter \<Rightarrow> bool"
  IsRootOptionalFilter :: "table_filter \<Rightarrow> bool"
  GetRootOptionalDynamicFilterData :: "table_filter \<Rightarrow> bool"
  FromTableFilter :: "table_filter \<Rightarrow> logical_type option \<Rightarrow> duck_expr res"

text \<open>Getters return the content of a value of their type; a UUID's text orders like its number.\<close>

fun text_less :: "string \<Rightarrow> string \<Rightarrow> bool" where
  "text_less s [] \<longleftrightarrow> False"
| "text_less [] (d # ds) \<longleftrightarrow> True"
| "text_less (c # cs) (d # ds) \<longleftrightarrow>
     (of_char c :: nat) < of_char d \<or> c = d \<and> text_less cs ds"

definition uuid_text_ok :: "duck_api \<Rightarrow> bool" where
  "uuid_text_ok A \<longleftrightarrow> (\<forall>m n. m < 2 ^ 128 \<and> n < 2 ^ 128 \<longrightarrow>
     (text_less (value_ToString A (Uuid m)) (value_ToString A (Uuid n)) \<longleftrightarrow> m < n))"

definition duck_api_ok :: "duck_api \<Rightarrow> bool" where
  "duck_api_ok A \<longleftrightarrow>
     (\<forall>b. BooleanValue_Get A (Boolean b) = Inr b) \<and>
     (\<forall>s. StringValue_Get A (Varchar s) = Inr s) \<and> (\<forall>s. StringValue_Get A (JsonText s) = Inr s) \<and>
     (\<forall>d. DateValue_Get A (Date d) = Inr d) \<and> (\<forall>t. TimestampTZValue_Get A (TimestampTZ t) = Inr t) \<and>
     (\<forall>t. TimestampNSValue_Get A (Timestamp TIMESTAMP_NS t) = Inr t) \<and>
     (\<forall>ls s. value_ToString A (EnumValue ls s) = s) \<and>
     uuid_text_ok A"

section \<open>An instance\<close>

text \<open>
  Numbers print in decimal, UUIDs as 32 hexadecimal digits; dates and expressions get some text; a
  comparison of a column reference with a constant is recognised in both orders.
\<close>

definition hex_digit :: "nat \<Rightarrow> char" where
  "hex_digit d = ''0123456789abcdef'' ! d"

fun hex_text :: "nat \<Rightarrow> nat \<Rightarrow> string" where
  "hex_text 0 n = []"
| "hex_text (Suc k) n = hex_text k (n div 16) @ [hex_digit (n mod 16)]"

definition int_text :: "int \<Rightarrow> string" where
  "int_text n = (if n < 0 then CHR ''-'' # to_string (nat (- n)) else to_string (nat n))"

definition flip_comparison :: "expr_type \<Rightarrow> expr_type" where
  "flip_comparison t = (case t of COMPARE_LESSTHAN \<Rightarrow> COMPARE_GREATERTHAN | COMPARE_GREATERTHAN \<Rightarrow> COMPARE_LESSTHAN
     | COMPARE_LESSTHANOREQUALTO \<Rightarrow> COMPARE_GREATERTHANOREQUALTO
     | COMPARE_GREATERTHANOREQUALTO \<Rightarrow> COMPARE_LESSTHANOREQUALTO | _ \<Rightarrow> t)"

definition no_value :: exn where
  "no_value = Exn InternalException ''value has another type'' []"

definition duck_api_instance :: duck_api where
  "duck_api_instance = \<lparr>
     value_ToString = (\<lambda>v. case v of NullValue t \<Rightarrow> ''NULL'' | Integer t n \<Rightarrow> int_text n | Varchar s \<Rightarrow> s
       | JsonText s \<Rightarrow> s | EnumValue ls s \<Rightarrow> s | Uuid n \<Rightarrow> hex_text 32 n | _ \<Rightarrow> ''value''),
     BooleanValue_Get = (\<lambda>v. case v of Boolean b \<Rightarrow> Inr b | _ \<Rightarrow> Inl no_value),
     StringValue_Get = (\<lambda>v. case v of Varchar s \<Rightarrow> Inr s | JsonText s \<Rightarrow> Inr s | _ \<Rightarrow> Inl no_value),
     DateValue_Get = (\<lambda>v. case v of Date d \<Rightarrow> Inr d | _ \<Rightarrow> Inl no_value),
     TimestampTZValue_Get = (\<lambda>v. case v of TimestampTZ t \<Rightarrow> Inr t | _ \<Rightarrow> Inl no_value),
     TimestampNSValue_Get = (\<lambda>v. case v of Timestamp ty t \<Rightarrow> Inr t | _ \<Rightarrow> Inl no_value),
     CastAsTimestamp = (\<lambda>v. case v of Timestamp ty t \<Rightarrow>
       Inr (if ty = TIMESTAMP_SEC then t * 1000000 else if ty = TIMESTAMP_MS then t * 1000 else t) | _ \<Rightarrow> Inl no_value),
     Date_ToString = int_text,
     expr_ToString = (\<lambda>e. ''expression''),
     IsOptionalExpression = (\<lambda>e. case e of OtherExpr s t \<Rightarrow> s = ''optional'' | _ \<Rightarrow> False),
     IsRootOptionalExpression = (\<lambda>e. False),
     ContainsInternalFunction = (\<lambda>e s. e = OtherExpr s BOOLEAN),
     IsSimpleFilterColumnRef = (\<lambda>e. case e of BoundRef i t \<Rightarrow> True | _ \<Rightarrow> False),
     TryGetColumnConstantComparison = (\<lambda>t l r. case (l, r) of
         (BoundRef i ty, Constant v) \<Rightarrow> Some (t, v)
       | (Constant v, BoundRef i ty) \<Rightarrow> Some (flip_comparison t, v)
       | _ \<Rightarrow> None),
     IsOptionalFilter = (\<lambda>f. False), IsRootOptionalFilter = (\<lambda>f. False),
     GetRootOptionalDynamicFilterData = (\<lambda>f. False),
     FromTableFilter = (\<lambda>f t. Inl no_value)\<rparr>"

lemma text_less_irrefl: "\<not> text_less s s"
  by (induction s) auto

lemma text_less_snoc:
  "length s = length t \<Longrightarrow>
     text_less (s @ [c]) (t @ [d]) \<longleftrightarrow> text_less s t \<or> s = t \<and> (of_char c :: nat) < of_char d"
  by (induction s t rule: list_induct2) auto

lemma hex_text_length: "length (hex_text k n) = k"
  by (induction k arbitrary: n) auto

lemma hex_digits:
  assumes "i < 16" and "j < 16"
  shows "(of_char (hex_digit i) :: nat) < of_char (hex_digit j) \<longleftrightarrow> i < j" and "hex_digit i = hex_digit j \<longleftrightarrow> i = j"
proof -
  have "map (\<lambda>k. of_char (''0123456789abcdef'' ! k) :: nat) [0..<16] =
      [48, 49, 50, 51, 52, 53, 54, 55, 56, 57, 97, 98, 99, 100, 101, 102]" by code_simp
  then have h: "\<forall>k<16. (of_char (hex_digit k) :: nat) = (if k < 10 then 48 + k else 87 + k)"
    by (simp add: upt_rec eval_nat_numeral less_Suc_eq hex_digit_def)
  with assms show "(of_char (hex_digit i) :: nat) < of_char (hex_digit j) \<longleftrightarrow> i < j" by auto
  have "(of_char (hex_digit i) :: nat) = of_char (hex_digit j) \<longleftrightarrow> i = j" using h assms by auto
  then show "hex_digit i = hex_digit j \<longleftrightarrow> i = j" by auto
qed

lemma hex_text_eq: "m < 16 ^ k \<Longrightarrow> n < 16 ^ k \<Longrightarrow> hex_text k m = hex_text k n \<longleftrightarrow> m = n"
proof (induction k arbitrary: m n)
  case (Suc k)
  have "m div 16 < 16 ^ k" "n div 16 < 16 ^ k" using Suc.prems by (simp_all add: less_mult_imp_div_less)
  note IH = Suc.IH [OF this]
  have "m = n \<longleftrightarrow> m div 16 = n div 16 \<and> m mod 16 = n mod 16" by (metis div_mult_mod_eq)
  then show ?case by (simp add: IH hex_digits)
qed simp

lemma digit_less: "r < 16 \<Longrightarrow> s < 16 \<Longrightarrow> q < q' \<or> q = q' \<and> r < s \<longleftrightarrow> q * 16 + r < q' * 16 + (s :: nat)"
  by linarith

lemma hex_text_less: "m < 16 ^ k \<Longrightarrow> n < 16 ^ k \<Longrightarrow> text_less (hex_text k m) (hex_text k n) \<longleftrightarrow> m < n"
proof (induction k arbitrary: m n)
  case (Suc k)
  have b: "m div 16 < 16 ^ k" "n div 16 < 16 ^ k" using Suc.prems by (simp_all add: less_mult_imp_div_less)
  have "text_less (hex_text (Suc k) m) (hex_text (Suc k) n) \<longleftrightarrow>
      m div 16 < n div 16 \<or> m div 16 = n div 16 \<and> m mod 16 < n mod 16"
    by (simp add: text_less_snoc hex_text_length Suc.IH [OF b] hex_text_eq [OF b] hex_digits)
  also have "\<dots> \<longleftrightarrow> m < n" using digit_less [of "m mod 16" "n mod 16" "m div 16" "n div 16"] by simp
  finally show ?case .
qed simp

lemma duck_api_instance_ok: "duck_api_ok duck_api_instance"
proof -
  have "(2 :: nat) ^ 128 = 16 ^ 32" by simp
  then have "uuid_text_ok duck_api_instance"
    unfolding uuid_text_ok_def by (auto simp: duck_api_instance_def hex_text_less simp del: hex_text.simps)
  then show ?thesis unfolding duck_api_ok_def by (simp add: duck_api_instance_def)
qed

lemma FromDate_examples: "FromDate 1970 1 1 = 0" "FromDate 1900 1 1 = -25567" "FromDate 2299 12 31 = 120529"
  by (simp_all add: FromDate_def)

end
