(* ===== verification/FilterPushdown.thy ===== *)
theory FilterPushdown
  imports DuckExpr ChUtils Reading
begin

text \<open>
  \<open>src/src/clickhouse_filter_pushdown.cpp\<close>: the \<open>WHERE\<close> clause for the filters DuckDB pushes into a
  scan. The functions produce SQL text as the code does; a small predicate language with an
  evaluator gives that text its meaning, and the last section states what the translation keeps.
\<close>

section \<open>Constants\<close>

definition unsupported :: "string \<Rightarrow> string list \<Rightarrow> exn" where
  "unsupported msg args = Exn NotImplementedException msg args"

definition TransformComparison :: "expr_type \<Rightarrow> string res" where
  "TransformComparison t = (case t of
       COMPARE_EQUAL \<Rightarrow> Inr ''=''
     | COMPARE_NOTEQUAL \<Rightarrow> Inr ''!=''
     | COMPARE_LESSTHAN \<Rightarrow> Inr ''<''
     | COMPARE_GREATERTHAN \<Rightarrow> Inr ''>''
     | COMPARE_LESSTHANOREQUALTO \<Rightarrow> Inr ''<=''
     | COMPARE_GREATERTHANOREQUALTO \<Rightarrow> Inr ''>=''
     | _ \<Rightarrow> Inl (unsupported ''ClickHouse filter pushdown: unsupported comparison'' []))"

definition IsOrderedComparison :: "expr_type \<Rightarrow> bool" where
  "IsOrderedComparison t \<longleftrightarrow> t \<in> {COMPARE_LESSTHAN, COMPARE_GREATERTHAN, COMPARE_LESSTHANOREQUALTO,
     COMPARE_GREATERTHANOREQUALTO}"

definition DateInPushdownRange :: "int \<Rightarrow> bool" where
  "DateInPushdownRange d \<longleftrightarrow> d \<ge> FromDate 1900 1 1 \<and> d \<le> FromDate 2299 12 31"

definition TransformConstant :: "duck_api \<Rightarrow> duck_value \<Rightarrow> string res" where
  "TransformConstant A v =
     (let t = value_type v in
      if t = BOOLEAN then bindE (BooleanValue_Get A v) (\<lambda>b. Inr (if b then ''true'' else ''false''))
      else if t \<in> {TINYINT, SMALLINT, INTEGER, BIGINT, UTINYINT, USMALLINT, UINTEGER, UBIGINT} then Inr (value_ToString A v)
      else if t = HUGEINT then Inr (''toInt128('' @ QuoteLiteral (value_ToString A v) @ '')'')
      else if t = UHUGEINT then Inr (''toUInt128('' @ QuoteLiteral (value_ToString A v) @ '')'')
      else case t of
        DECIMAL w s \<Rightarrow> Inr (''toDecimal128('' @ QuoteLiteral (value_ToString A v) @ '', '' @ to_string s @ '')'')
      | VARCHAR \<Rightarrow> bindE (StringValue_Get A v) (\<lambda>s. Inr (QuoteLiteral s))
      | JSON \<Rightarrow> bindE (StringValue_Get A v) (\<lambda>s. Inr (QuoteLiteral s))
      | ENUM labels \<Rightarrow> Inr (QuoteLiteral (value_ToString A v))
      | UUID \<Rightarrow> Inr (''toUUID('' @ QuoteLiteral (value_ToString A v) @ '')'')
      | DATE \<Rightarrow> bindE (DateValue_Get A v) (\<lambda>d.
          if \<not> date_IsFinite d then
            Inl (unsupported ''ClickHouse filter pushdown: infinite dates are not supported'' [])
          else if \<not> DateInPushdownRange d then
            Inl (unsupported ''ClickHouse filter pushdown: date is outside the range toDate32 can represent exactly''
              [value_ToString A v])
          else Inr (''toDate32('' @ QuoteLiteral (Date_ToString A d) @ '')''))
      | TIMESTAMP_TZ \<Rightarrow> bindE (TimestampTZValue_Get A v) (\<lambda>ts.
          if \<not> timestamp_IsFinite ts then
            Inl (unsupported ''ClickHouse filter pushdown: infinite timestamps are not supported'' [])
          else Inr (''fromUnixTimestamp64Micro('' @ int_text ts @ '', '' @ [CHR 0x27] @ ''UTC'' @ [CHR 0x27] @ '')''))
      | _ \<Rightarrow> Inl (unsupported ''ClickHouse filter pushdown: unsupported constant type'' []))"

definition FoldOutOfBoundsComparison :: "string \<Rightarrow> expr_type \<Rightarrow> bool \<Rightarrow> string res" where
  "FoldOutOfBoundsComparison column t value_is_below_range =
     bindE (case t of
         COMPARE_EQUAL \<Rightarrow> Inr False
       | COMPARE_NOTEQUAL \<Rightarrow> Inr True
       | COMPARE_LESSTHAN \<Rightarrow> Inr (\<not> value_is_below_range)
       | COMPARE_LESSTHANOREQUALTO \<Rightarrow> Inr (\<not> value_is_below_range)
       | COMPARE_GREATERTHAN \<Rightarrow> Inr value_is_below_range
       | COMPARE_GREATERTHANOREQUALTO \<Rightarrow> Inr value_is_below_range
       | _ \<Rightarrow> Inl (unsupported ''ClickHouse filter pushdown: unsupported comparison'' []))
     (\<lambda>always_true_when_not_null.
        Inr (if always_true_when_not_null then column @ '' IS NOT NULL'' else ''1 = 0''))"

definition TryFoldUnrepresentableComparison :: "duck_api \<Rightarrow> string \<Rightarrow> expr_type \<Rightarrow> duck_value \<Rightarrow> string res" where
  "TryFoldUnrepresentableComparison A column t v =
     (case value_type v of
        DATE \<Rightarrow> bindE (DateValue_Get A v) (\<lambda>d.
          if \<not> date_IsFinite d then FoldOutOfBoundsComparison column t (d = - date_infinity)
          else if \<not> DateInPushdownRange d then FoldOutOfBoundsComparison column t (d < FromDate 1900 1 1)
          else Inr [])
      | TIMESTAMP_TZ \<Rightarrow> bindE (TimestampTZValue_Get A v) (\<lambda>ts.
          if \<not> timestamp_IsFinite ts then FoldOutOfBoundsComparison column t (ts = - timestamp_infinity)
          else Inr [])
      | _ \<Rightarrow> Inr [])"

section \<open>Expressions\<close>

definition is_column :: "duck_expr \<Rightarrow> bool" where
  "is_column e = (case e of BoundRef i t \<Rightarrow> True | BoundColumnRef a b c t \<Rightarrow> True | _ \<Rightarrow> False)"

definition IsVarcharCastOfColumnReference :: "duck_expr \<Rightarrow> bool" where
  "IsVarcharCastOfColumnReference e = (case e of
     CastExpr try child t \<Rightarrow> is_varchar t \<and> is_column child | _ \<Rightarrow> False)"

definition IsRuntimeHintExpression :: "duck_api \<Rightarrow> duck_expr \<Rightarrow> bool" where
  "IsRuntimeHintExpression A e \<longleftrightarrow>
     ContainsInternalFunction A e ''__internal_tablefilter_dynamic'' \<or>
     ContainsInternalFunction A e ''__internal_tablefilter_bloom_filter'' \<or>
     ContainsInternalFunction A e ''__internal_tablefilter_prefix_range''"

definition unsupported_filter :: "duck_api \<Rightarrow> duck_expr \<Rightarrow> exn" where
  "unsupported_filter A e =
     unsupported ''ClickHouse filter pushdown: unsupported expression filter'' [expr_ToString A e]"

text \<open>
  The values of an \<open>IN\<close> list after its first child: a date or timestamp no literal can represent is
  left out, any other failure is rethrown.
\<close>

fun InValues :: "duck_api \<Rightarrow> duck_expr \<Rightarrow> duck_expr list \<Rightarrow> string list res" where
  "InValues A e [] = Inr []"
| "InValues A e (child # children) =
     (case child of
        Constant v \<Rightarrow>
          (case TransformConstant A v of
             Inr s \<Rightarrow> bindE (InValues A e children) (\<lambda>ss. Inr (s # ss))
           | Inl ex \<Rightarrow>
               if exn_kind ex = NotImplementedException \<and> value_type v \<in> {DATE, TIMESTAMP_TZ}
               then InValues A e children else Inl ex)
      | _ \<Rightarrow> Inl (unsupported_filter A e))"

definition TransformOperator ::
  "string_util \<Rightarrow> duck_api \<Rightarrow> string \<Rightarrow> duck_expr \<Rightarrow> expr_type \<Rightarrow> duck_expr list \<Rightarrow> string res" where
  "TransformOperator U A column e t children =
     (let subject = length children = 1 \<and> IsSimpleFilterColumnRef A (hd children) in
      if subject \<and> t = OPERATOR_IS_NULL then Inr (column @ '' IS NULL'')
      else if subject \<and> t = OPERATOR_IS_NOT_NULL then Inr (column @ '' IS NOT NULL'')
      else if t = COMPARE_IN \<or> t = COMPARE_NOT_IN then
        bindE (InValues A e (tl children)) (\<lambda>vals.
          Inr (if vals = [] then (if t = COMPARE_IN then ''1 = 0'' else ''1 = 1'')
               else column @ (if t = COMPARE_IN then '' IN '' else '' NOT IN '') @ ''('' @ Join U vals '', '' @ '')''))
      else Inl (unsupported_filter A e))"

definition TransformColumnConstant :: "duck_api \<Rightarrow> string \<Rightarrow> expr_type \<Rightarrow> duck_value \<Rightarrow> string res" where
  "TransformColumnConstant A column t c =
     bindE (TryFoldUnrepresentableComparison A column t c) (\<lambda>folded.
       if folded \<noteq> [] then Inr folded
       else bindE (TransformComparison t) (\<lambda>op.
         if value_type c = UUID \<and> IsOrderedComparison t
         then Inr (''toString('' @ column @ '') '' @ op @ '' '' @ QuoteLiteral (value_ToString A c))
         else bindE (TransformConstant A c) (\<lambda>s. Inr (column @ '' '' @ op @ '' '' @ s))))"

definition TransformCompare :: "duck_api \<Rightarrow> string \<Rightarrow> duck_expr \<Rightarrow> expr_type \<Rightarrow> duck_expr \<Rightarrow> duck_expr \<Rightarrow> string res" where
  "TransformCompare A column e t left right =
     (case TryGetColumnConstantComparison A t left right of
        Some (t', c) \<Rightarrow> TransformColumnConstant A column t' c
      | None \<Rightarrow>
          (let other = (if IsVarcharCastOfColumnReference left then Some right
                        else if IsVarcharCastOfColumnReference right then Some left else None) in
           case other of
             Some (Constant v) \<Rightarrow>
               if (t = COMPARE_EQUAL \<or> t = COMPARE_NOTEQUAL) \<and> \<not> IsNull v \<and> is_varchar (value_type v)
               then bindE (StringValue_Get A v) (\<lambda>s.
                 Inr (column @ (if t = COMPARE_EQUAL then '' = '' else '' != '') @ QuoteLiteral s))
               else Inl (unsupported_filter A e)
           | _ \<Rightarrow> Inl (unsupported_filter A e)))"

text \<open>
  The children of a conjunction: \<open>None\<close> when an \<open>OR\<close> returns early, because one of its branches does
  not restrict the rows.
\<close>

function TransformExpressionFilter :: "string_util \<Rightarrow> duck_api \<Rightarrow> string \<Rightarrow> duck_expr \<Rightarrow> string res"
  and ConjunctionParts :: "string_util \<Rightarrow> duck_api \<Rightarrow> string \<Rightarrow> bool \<Rightarrow> duck_expr list \<Rightarrow> string list option res" where
  "TransformExpressionFilter U A column e =
     (if IsOptionalExpression A e \<or> IsRootOptionalExpression A e then Inr []
      else case e of
        Conjunction t children \<Rightarrow>
          (let is_and = (t = CONJUNCTION_AND) in
           bindE (ConjunctionParts U A column is_and children) (\<lambda>r. case r of
             None \<Rightarrow> Inr []
           | Some parts \<Rightarrow>
               Inr (if parts = [] then [] else ''('' @ Join U parts (if is_and then '' AND '' else '' OR '') @ '')'')))
      | _ \<Rightarrow>
        if IsRuntimeHintExpression A e then Inr []
        else (case e of
            Operator t rt children \<Rightarrow> TransformOperator U A column e t children
          | Comparison t left right \<Rightarrow> TransformCompare A column e t left right
          | _ \<Rightarrow> Inl (unsupported_filter A e)))"
| "ConjunctionParts U A column is_and [] = Inr (Some [])"
| "ConjunctionParts U A column is_and (child # children) =
     bindE (TransformExpressionFilter U A column child) (\<lambda>part.
       if is_and \<and> part = [] then ConjunctionParts U A column is_and children
       else if part = [] then Inr None
       else bindE (ConjunctionParts U A column is_and children) (\<lambda>r. Inr (map_option ((#) part) r)))"
  by pat_completeness auto
termination
  by (relation "measure (\<lambda>x. case x of Inl (U, A, column, e) \<Rightarrow> size e | Inr (U, A, column, b, es) \<Rightarrow> size_list size es)")
    auto

declare TransformExpressionFilter.simps [simp del]

section \<open>Filters\<close>

definition TransformFilter ::
  "string_util \<Rightarrow> duck_api \<Rightarrow> string \<Rightarrow> table_filter \<Rightarrow> logical_type option \<Rightarrow> string res" where
  "TransformFilter U A column flt column_type =
     (case flt of
        ExpressionFilter e \<Rightarrow>
          if IsOptionalFilter A flt \<or> IsRootOptionalFilter A flt then Inr []
          else if GetRootOptionalDynamicFilterData A flt then Inr []
          else TransformExpressionFilter U A column e
      | LegacyOptionalFilter \<Rightarrow> Inr []
      | LegacyDynamicFilter \<Rightarrow> Inr []
      | LegacyBloomFilter \<Rightarrow> Inr []
      | LegacyPrefixRangeFilter \<Rightarrow> Inr []
      | LegacyFilter kind \<Rightarrow>
          bindE (FromTableFilter A flt (case column_type of None \<Rightarrow> Some VARCHAR | Some t \<Rightarrow> Some t))
            (TransformExpressionFilter U A column))"

text \<open>
  The filters of a scan are keyed by position in \<open>column_ids\<close>; \<open>None\<close> stands for a virtual column. The
  indices DuckDB passes are in range.
\<close>

fun FilterConditions ::
  "string_util \<Rightarrow> duck_api \<Rightarrow> nat option list \<Rightarrow> (nat \<times> table_filter) list \<Rightarrow> column_info list \<Rightarrow> string list res" where
  "FilterConditions U A column_ids [] columns = Inr []"
| "FilterConditions U A column_ids ((i, flt) # filters) columns =
     (case column_ids ! i of
        None \<Rightarrow> Inl (Exn InternalException ''ClickHouse filter pushdown: unexpected filter on a virtual column'' [])
      | Some c \<Rightarrow>
          bindE (TransformFilter U A (QuoteIdentifier (col_name (columns ! c))) flt (Some (col_type (columns ! c))))
            (\<lambda>condition. bindE (FilterConditions U A column_ids filters columns)
              (\<lambda>cs. Inr (if condition = [] then cs else condition # cs))))"

definition TransformFilters ::
  "string_util \<Rightarrow> duck_api \<Rightarrow> nat option list \<Rightarrow> (nat \<times> table_filter) list \<Rightarrow> column_info list \<Rightarrow> string res" where
  "TransformFilters U A column_ids filters columns =
     (if filters = [] then Inr []
      else bindE (FilterConditions U A column_ids filters columns) (\<lambda>cs. Inr (Join U cs '' AND '')))"

section \<open>What filters mean\<close>

text \<open>
  \<open>where_compare\<close> is DuckDB's comparison of two values of one type; \<open>storable\<close> says which values a
  ClickHouse column read as a type can hold (\<open>Date32\<close> ranges from 1900 to 2299, a \<open>DateTime\<close> is finite).
\<close>

fun value_less :: "duck_value \<Rightarrow> duck_value \<Rightarrow> bool" where
  "value_less (Boolean a) w = (case w of Boolean b \<Rightarrow> \<not> a \<and> b | _ \<Rightarrow> False)"
| "value_less (Integer t a) w = (case w of Integer u b \<Rightarrow> a < b | _ \<Rightarrow> False)"
| "value_less (Decimal p s a) w = (case w of Decimal q r b \<Rightarrow> a * 10 ^ r < b * 10 ^ s | _ \<Rightarrow> False)"
| "value_less (Varchar a) w = (case w of Varchar b \<Rightarrow> text_less a b | _ \<Rightarrow> False)"
| "value_less (JsonText a) w = (case w of JsonText b \<Rightarrow> text_less a b | _ \<Rightarrow> False)"
| "value_less (Uuid a) w = (case w of Uuid b \<Rightarrow> a < b | _ \<Rightarrow> False)"
| "value_less (Date a) w = (case w of Date b \<Rightarrow> a < b | _ \<Rightarrow> False)"
| "value_less (Timestamp t a) w = (case w of Timestamp u b \<Rightarrow> a < b | _ \<Rightarrow> False)"
| "value_less (TimestampTZ a) w = (case w of TimestampTZ b \<Rightarrow> a < b | _ \<Rightarrow> False)"
| "value_less _ w = False"

fun compare_by :: "('a \<Rightarrow> 'a \<Rightarrow> bool) \<Rightarrow> expr_type \<Rightarrow> 'a \<Rightarrow> 'a \<Rightarrow> bool" where
  "compare_by lt COMPARE_EQUAL x y \<longleftrightarrow> x = y"
| "compare_by lt COMPARE_NOTEQUAL x y \<longleftrightarrow> x \<noteq> y"
| "compare_by lt COMPARE_LESSTHAN x y \<longleftrightarrow> lt x y"
| "compare_by lt COMPARE_GREATERTHAN x y \<longleftrightarrow> lt y x"
| "compare_by lt COMPARE_LESSTHANOREQUALTO x y \<longleftrightarrow> \<not> lt y x"
| "compare_by lt COMPARE_GREATERTHANOREQUALTO x y \<longleftrightarrow> \<not> lt x y"
| "compare_by lt _ x y \<longleftrightarrow> False"

definition where_compare :: "expr_type \<Rightarrow> duck_value \<Rightarrow> duck_value \<Rightarrow> bool" where
  "where_compare = compare_by value_less"

fun representable :: "duck_value \<Rightarrow> bool" where
  "representable (Date d) \<longleftrightarrow> DateInPushdownRange d"
| "representable (TimestampTZ t) \<longleftrightarrow> - timestamp_infinity < t \<and> t < timestamp_infinity"
| "representable (Uuid n) \<longleftrightarrow> n < 2 ^ 128"
| "representable v \<longleftrightarrow> \<not> IsNull v"

text \<open>The contents of a value whose type has a kind of its own.\<close>

fun well_formed_value :: "duck_value \<Rightarrow> bool" where
  "well_formed_value (Integer t n) \<longleftrightarrow> t \<in> set integral_types"
| "well_formed_value (Floating t d) \<longleftrightarrow> t = FLOAT \<or> t = DOUBLE"
| "well_formed_value (Timestamp t n) \<longleftrightarrow> t \<in> {TIMESTAMP, TIMESTAMP_SEC, TIMESTAMP_MS, TIMESTAMP_NS}"
| "well_formed_value (OtherValue t s) \<longleftrightarrow> t \<in> {BLOB, TIME, TIME_NS, TIME_TZ, SQLNULL}"
| "well_formed_value (Uuid n) \<longleftrightarrow> n < 2 ^ 128"
| "well_formed_value (TimestampTZ t) \<longleftrightarrow> - timestamp_infinity \<le> t \<and> t \<le> timestamp_infinity"
| "well_formed_value (Date d) \<longleftrightarrow> - date_infinity \<le> d \<and> d \<le> date_infinity"
| "well_formed_value v \<longleftrightarrow> \<not> IsNull v"

definition storable :: "logical_type \<Rightarrow> duck_value option \<Rightarrow> bool" where
  "storable t cell \<longleftrightarrow> (\<forall>v. cell = Some v \<longrightarrow> value_type v = t \<and> well_formed_value v \<and> representable v)"

definition enum_label :: "duck_value \<Rightarrow> string" where
  "enum_label v = (case v of EnumValue ls s \<Rightarrow> s | _ \<Rightarrow> [])"

definition constant_values :: "duck_expr list \<Rightarrow> duck_value list" where
  "constant_values es = concat (map (\<lambda>e. case e of Constant v \<Rightarrow> [v] | _ \<Rightarrow> []) es)"

text \<open>The constant in \<open>CAST(column AS VARCHAR) = constant\<close>, in either order.\<close>

definition cast_comparison :: "duck_expr \<Rightarrow> duck_expr \<Rightarrow> duck_value option" where
  "cast_comparison l r =
     (case (if IsVarcharCastOfColumnReference l then r else if IsVarcharCastOfColumnReference r then l else l) of
        Constant v \<Rightarrow> if IsVarcharCastOfColumnReference l \<or> IsVarcharCastOfColumnReference r then Some v else None
      | _ \<Rightarrow> None)"

text \<open>
  Whether a filter is true of a cell (\<open>None\<close> is NULL). Filters hold no negation, so a part that is
  NULL counts as not true. An optional filter or a runtime hint is not required, hence true.
\<close>

definition filter_core :: "duck_api \<Rightarrow> duck_expr \<Rightarrow> duck_value option \<Rightarrow> bool" where
  "filter_core A e cell = (case e of
       Operator t rt es \<Rightarrow>
              (case t of
                 OPERATOR_IS_NULL \<Rightarrow> cell = None
               | OPERATOR_IS_NOT_NULL \<Rightarrow> cell \<noteq> None
               | COMPARE_IN \<Rightarrow> (case cell of None \<Rightarrow> False | Some v \<Rightarrow> v \<in> set (constant_values (tl es)))
               | COMPARE_NOT_IN \<Rightarrow> (case cell of None \<Rightarrow> False | Some v \<Rightarrow> v \<notin> set (constant_values (tl es)))
               | _ \<Rightarrow> False)
          | Comparison t l r \<Rightarrow>
              (case cell of
                 None \<Rightarrow> False
               | Some v \<Rightarrow>
                   (case TryGetColumnConstantComparison A t l r of
                      Some (t', c) \<Rightarrow> where_compare t' v c
                    | None \<Rightarrow> (case cast_comparison l r of
                          None \<Rightarrow> False
                        | Some w \<Rightarrow> (case StringValue_Get A w of
                            Inl ex \<Rightarrow> False
                          | Inr s \<Rightarrow> t = COMPARE_EQUAL \<and> enum_label v = s \<or> t = COMPARE_NOTEQUAL \<and> enum_label v \<noteq> s))))
          | _ \<Rightarrow> False)"

fun filter_holds :: "duck_api \<Rightarrow> duck_expr \<Rightarrow> duck_value option \<Rightarrow> bool" where
  "filter_holds A e cell =
     (if IsOptionalExpression A e \<or> IsRootOptionalExpression A e then True
      else case e of
        Conjunction t es \<Rightarrow>
          if t = CONJUNCTION_AND then list_all (\<lambda>x. x) (map (\<lambda>e. filter_holds A e cell) es)
          else list_ex (\<lambda>x. x) (map (\<lambda>e. filter_holds A e cell) es)
      | _ \<Rightarrow>
        if IsRuntimeHintExpression A e then True
        else filter_core A e cell)"

declare filter_holds.simps [simp del]

text \<open>The SQL predicates the translation writes, their text and their meaning in a \<open>WHERE\<close>.\<close>

datatype ch_predicate =
    ChNever | ChAlways | ChIsNull | ChIsNotNull
  | ChCompare expr_type duck_value | ChTextCompare expr_type duck_value | ChLabel bool string
  | ChIn bool "duck_value list" | ChAnd "ch_predicate list" | ChOr "ch_predicate list"

definition constant_text :: "duck_api \<Rightarrow> duck_value \<Rightarrow> string" where
  "constant_text A v = (case TransformConstant A v of Inr s \<Rightarrow> s | Inl e \<Rightarrow> [])"

definition comparison_text :: "expr_type \<Rightarrow> string" where
  "comparison_text t = (case TransformComparison t of Inr s \<Rightarrow> s | Inl e \<Rightarrow> [])"

fun predicate_text :: "duck_api \<Rightarrow> string \<Rightarrow> ch_predicate \<Rightarrow> string" where
  "predicate_text A column ChNever = ''1 = 0''"
| "predicate_text A column ChAlways = ''1 = 1''"
| "predicate_text A column ChIsNull = column @ '' IS NULL''"
| "predicate_text A column ChIsNotNull = column @ '' IS NOT NULL''"
| "predicate_text A column (ChCompare t c) = column @ '' '' @ comparison_text t @ '' '' @ constant_text A c"
| "predicate_text A column (ChTextCompare t c) =
     ''toString('' @ column @ '') '' @ comparison_text t @ '' '' @ QuoteLiteral (value_ToString A c)"
| "predicate_text A column (ChLabel eq s) = column @ (if eq then '' = '' else '' != '') @ QuoteLiteral s"
| "predicate_text A column (ChIn negated cs) =
     column @ (if negated then '' NOT IN '' else '' IN '') @ ''('' @ join_with (map (constant_text A) cs) '', '' @ '')''"
| "predicate_text A column (ChAnd ps) = ''('' @ join_with (map (predicate_text A column) ps) '' AND '' @ '')''"
| "predicate_text A column (ChOr ps) = ''('' @ join_with (map (predicate_text A column) ps) '' OR '' @ '')''"

fun predicate_holds :: "duck_api \<Rightarrow> ch_predicate \<Rightarrow> duck_value option \<Rightarrow> bool" where
  "predicate_holds A ChNever cell \<longleftrightarrow> False"
| "predicate_holds A ChAlways cell \<longleftrightarrow> True"
| "predicate_holds A ChIsNull cell \<longleftrightarrow> cell = None"
| "predicate_holds A ChIsNotNull cell \<longleftrightarrow> cell \<noteq> None"
| "predicate_holds A (ChCompare t c) cell \<longleftrightarrow> (case cell of None \<Rightarrow> False | Some v \<Rightarrow> where_compare t v c)"
| "predicate_holds A (ChTextCompare t c) cell \<longleftrightarrow>
     (case cell of None \<Rightarrow> False | Some v \<Rightarrow> compare_by text_less t (value_ToString A v) (value_ToString A c))"
| "predicate_holds A (ChLabel eq s) cell \<longleftrightarrow>
     (case cell of None \<Rightarrow> False | Some v \<Rightarrow> if eq then enum_label v = s else enum_label v \<noteq> s)"
| "predicate_holds A (ChIn negated cs) cell \<longleftrightarrow>
     (case cell of None \<Rightarrow> False | Some v \<Rightarrow> if negated then v \<notin> set cs else v \<in> set cs)"
| "predicate_holds A (ChAnd ps) cell \<longleftrightarrow> list_all (\<lambda>p. predicate_holds A p cell) ps"
| "predicate_holds A (ChOr ps) cell \<longleftrightarrow> list_ex (\<lambda>p. predicate_holds A p cell) ps"

section \<open>Lemmas\<close>

lemma filter_api_okD:
  assumes "duck_api_ok A"
  shows "DateValue_Get A (Date d) = Inr d" "TimestampTZValue_Get A (TimestampTZ x) = Inr x"
    "StringValue_Get A (Varchar s) = Inr s"
    "m < 2 ^ 128 \<Longrightarrow> n < 2 ^ 128 \<Longrightarrow> text_less (value_ToString A (Uuid m)) (value_ToString A (Uuid n)) \<longleftrightarrow> m < n"
  using assms by (auto simp: duck_api_ok_def uuid_text_ok_def)

lemma value_kind:
  assumes "well_formed_value v"
  shows "value_type v = DATE \<Longrightarrow> \<exists>d. v = Date d" "value_type v = TIMESTAMP_TZ \<Longrightarrow> \<exists>x. v = TimestampTZ x"
    "value_type v = UUID \<Longrightarrow> \<exists>n. v = Uuid n"
  using assms by (cases v; auto simp: integral_types_def IsNull_def)+

lemma predicate_text_nonempty [simp]: "predicate_text A column p \<noteq> []"
  by (cases p) auto

lemma TransformComparison_ok: "TransformComparison t = Inr op \<Longrightarrow> comparison_text t = op"
  by (simp add: comparison_text_def)

lemma constant_text_ok: "TransformConstant A c = Inr s \<Longrightarrow> constant_text A c = s"
  by (simp add: constant_text_def)

lemma range_dates: "DateInPushdownRange d \<Longrightarrow> - date_infinity < d \<and> d < date_infinity"
  by (simp add: DateInPushdownRange_def FromDate_examples date_infinity_def)

text \<open>A comparison with a value below (above) everything the column holds.\<close>

lemma FoldOutOfBounds_exact:
  assumes "FoldOutOfBoundsComparison column t below = Inr s"
    and "\<And>v. P v \<Longrightarrow> v \<noteq> c \<and> (if below then value_less c v \<and> \<not> value_less v c else value_less v c \<and> \<not> value_less c v)"
  shows "\<exists>p. s = predicate_text A column p \<and>
    (\<forall>cell. (\<forall>v. cell = Some v \<longrightarrow> P v) \<longrightarrow>
      predicate_holds A p cell = (case cell of None \<Rightarrow> False | Some v \<Rightarrow> where_compare t v c))"
proof -
  obtain b where b: "s = (if b then column @ '' IS NOT NULL'' else ''1 = 0'')"
    "b \<longleftrightarrow> t = COMPARE_NOTEQUAL \<or> t \<in> {COMPARE_LESSTHAN, COMPARE_LESSTHANOREQUALTO} \<and> \<not> below \<or>
       t \<in> {COMPARE_GREATERTHAN, COMPARE_GREATERTHANOREQUALTO} \<and> below"
    "IsOrderedComparison t \<or> t = COMPARE_EQUAL \<or> t = COMPARE_NOTEQUAL"
    using assms(1) by (cases t) (auto simp: FoldOutOfBoundsComparison_def IsOrderedComparison_def)
  have c: "where_compare t v c = b" if "P v" for v
    using assms(2) [OF that] b(2,3) by (auto simp: where_compare_def IsOrderedComparison_def split: if_splits)
  show ?thesis
    by (rule exI [of _ "if b then ChIsNotNull else ChNever"]) (use b(1) c in \<open>auto split: option.split\<close>)
qed

lemma TryFold_exact:
  assumes "duck_api_ok A" and "value_type c = T" and "well_formed_value c"
    and "TryFoldUnrepresentableComparison A column t c = Inr folded" and "folded \<noteq> []"
  shows "\<exists>p. folded = predicate_text A column p \<and>
    (\<forall>cell. storable T cell \<longrightarrow>
      predicate_holds A p cell = (case cell of None \<Rightarrow> False | Some v \<Rightarrow> where_compare t v c))"
proof -
  from assms(4,5) have "T = DATE \<or> T = TIMESTAMP_TZ"
    by (auto simp: TryFoldUnrepresentableComparison_def assms(2) split: logical_type.splits)
  then show ?thesis
  proof
    assume T: "T = DATE"
    then obtain d where c: "c = Date d" using value_kind(1) assms(2,3) by blast
    define below where "below = (if date_IsFinite d then d < FromDate 1900 1 1 else d = - date_infinity)"
    have out: "\<not> DateInPushdownRange d" and
      fold: "FoldOutOfBoundsComparison column t below = Inr folded"
      using assms(4,5) range_dates [of d]
      by (auto simp: TryFoldUnrepresentableComparison_def c below_def filter_api_okD [OF assms(1)] date_IsFinite_def split: if_splits)
    have wf: "- date_infinity \<le> d" "d \<le> date_infinity" using assms(3) by (simp_all add: c)
    have cmp: "if below then d < x else x < d" if "DateInPushdownRange x" for x
      using that out wf range_dates [OF that]
      by (auto simp: below_def date_IsFinite_def DateInPushdownRange_def split: if_splits)
    show ?thesis
      unfolding storable_def
    proof (rule FoldOutOfBounds_exact [OF fold])
      fix v assume v: "value_type v = T \<and> well_formed_value v \<and> representable v"
      then obtain x where "v = Date x" using value_kind(1) T by blast
      with cmp [of x] v show "v \<noteq> c \<and> (if below then value_less c v \<and> \<not> value_less v c else value_less v c \<and> \<not> value_less c v)"
        by (auto simp: c split: if_splits)
    qed
  next
    assume T: "T = TIMESTAMP_TZ"
    then obtain d where c: "c = TimestampTZ d" using value_kind(2) assms(2,3) by blast
    have out: "\<not> timestamp_IsFinite d" and
      fold: "FoldOutOfBoundsComparison column t (d = - timestamp_infinity) = Inr folded"
      using assms(4,5)
      by (auto simp: TryFoldUnrepresentableComparison_def c filter_api_okD [OF assms(1)] split: if_splits)
    show ?thesis
      unfolding storable_def
    proof (rule FoldOutOfBounds_exact [OF fold])
      fix v assume v: "value_type v = T \<and> well_formed_value v \<and> representable v"
      then obtain x where "v = TimestampTZ x" using value_kind(2) T by blast
      with v out show "v \<noteq> c \<and> (if d = - timestamp_infinity then value_less c v \<and> \<not> value_less v c
          else value_less v c \<and> \<not> value_less c v)"
        by (auto simp: c timestamp_IsFinite_def)
    qed
  qed
qed

lemma uuid_compare:
  assumes "duck_api_ok A" and "well_formed_value v" and "well_formed_value c" and "value_type v = UUID" and "value_type c = UUID"
    and "IsOrderedComparison t"
  shows "compare_by text_less t (value_ToString A v) (value_ToString A c) = where_compare t v c"
proof -
  obtain m n where "v = Uuid m" "c = Uuid n" using value_kind(3) assms(2-5) by blast
  with assms show ?thesis
    by (auto simp: where_compare_def IsOrderedComparison_def filter_api_okD [OF assms(1)])
qed

lemma TransformColumnConstant_exact:
  assumes A: "duck_api_ok A" and c: "value_type c = T" "well_formed_value c"
    and r: "TransformColumnConstant A column t c = Inr s"
  shows "\<exists>p. s = predicate_text A column p \<and>
    (\<forall>cell. storable T cell \<longrightarrow>
      predicate_holds A p cell = (case cell of None \<Rightarrow> False | Some v \<Rightarrow> where_compare t v c))"
proof -
  obtain folded where f: "TryFoldUnrepresentableComparison A column t c = Inr folded"
    using r by (auto simp: TransformColumnConstant_def)
  consider "folded \<noteq> []" | "folded = []" "value_type c = UUID \<and> IsOrderedComparison t"
    | "folded = []" "\<not> (value_type c = UUID \<and> IsOrderedComparison t)" by blast
  then show ?thesis
  proof cases
    case 1
    with r f have "s = folded" by (simp add: TransformColumnConstant_def)
    with TryFold_exact [OF A c f 1] show ?thesis by simp
  next
    case 2
    with r f have "s = predicate_text A column (ChTextCompare t c)"
      by (auto simp: TransformColumnConstant_def dest: TransformComparison_ok)
    moreover have "predicate_holds A (ChTextCompare t c) cell =
        (case cell of None \<Rightarrow> False | Some v \<Rightarrow> where_compare t v c)" if "storable T cell" for cell
      using that uuid_compare [OF A _ c(2)] 2(2) c(1) by (auto simp: storable_def split: option.split)
    ultimately show ?thesis by blast
  next
    case 3
    with r f have "s = predicate_text A column (ChCompare t c)"
      by (auto simp: TransformColumnConstant_def dest: TransformComparison_ok constant_text_ok)
    then show ?thesis by (intro exI [of _ "ChCompare t c"]) simp
  qed
qed

section \<open>IN lists\<close>

definition translatable :: "duck_api \<Rightarrow> duck_value \<Rightarrow> bool" where
  "translatable A c \<longleftrightarrow> is_ok (TransformConstant A c)"

lemma InValues_ok:
  assumes "InValues A e es = Inr ss"
  shows "ss = map (constant_text A) (filter (translatable A) (constant_values es)) \<and>
    (\<forall>c\<in>set (constant_values es). \<not> translatable A c \<longrightarrow> value_type c \<in> {DATE, TIMESTAMP_TZ})"
  using assms
proof (induction es arbitrary: ss)
  case (Cons child es)
  then obtain c where child: "child = Constant c" by (cases child) auto
  show ?case
  proof (cases "TransformConstant A c")
    case (Inr s)
    with Cons child show ?thesis
      by (auto simp: constant_values_def translatable_def constant_text_def)
  next
    case (Inl ex)
    with Cons child show ?thesis
      by (auto simp: constant_values_def translatable_def split: if_splits)
  qed
qed (simp add: constant_values_def)

lemma untranslatable:
  assumes "duck_api_ok A" and "well_formed_value c" and "value_type c \<in> {DATE, TIMESTAMP_TZ}"
  shows "translatable A c \<longleftrightarrow> representable c"
proof -
  from assms(3) have "value_type c = DATE \<or> value_type c = TIMESTAMP_TZ" by simp
  then show ?thesis
  proof
    assume "value_type c = DATE"
    then obtain d where "c = Date d" using value_kind(1) assms(2) by blast
    then show ?thesis
      using range_dates [of d]
      by (auto simp: translatable_def TransformConstant_def filter_api_okD [OF assms(1)] date_IsFinite_def Let_def)
  next
    assume "value_type c = TIMESTAMP_TZ"
    then obtain d where d: "c = TimestampTZ d" using value_kind(2) assms(2) by blast
    with assms(2) show ?thesis
      by (auto simp: translatable_def TransformConstant_def filter_api_okD [OF assms(1)] timestamp_IsFinite_def Let_def)
  qed
qed

lemma InValues_exact:
  assumes "duck_api_ok A" and "InValues A e es = Inr ss" and "\<forall>c\<in>set (constant_values es). well_formed_value c"
  shows "representable v \<Longrightarrow> v \<in> set (constant_values es) \<longleftrightarrow> v \<in> set (filter (translatable A) (constant_values es))"
    and "c \<in> set (constant_values es) \<Longrightarrow> representable c \<Longrightarrow> translatable A c"
proof -
  have "translatable A c" if "c \<in> set (constant_values es)" "representable c" for c
    using that untranslatable [OF assms(1)] InValues_ok [OF assms(2)] assms(3) by blast
  then show "representable v \<Longrightarrow> v \<in> set (constant_values es) \<longleftrightarrow> v \<in> set (filter (translatable A) (constant_values es))"
    and "c \<in> set (constant_values es) \<Longrightarrow> representable c \<Longrightarrow> translatable A c" by auto
qed

section \<open>Exactness\<close>

text \<open>
  The filters DuckDB builds on a column of a type: constants of that type that are not NULL, \<open>IN\<close> lists
  on the column itself, the text of the column compared only for an \<open>ENUM\<close> (the scan's
  \<open>pushdown_expression\<close> callback sees to that), no empty conjunction. A \<open>NOT IN\<close> list needs a value that
  the column could hold; \<open>not_in_keeps_null\<close> shows why.
\<close>

definition typed_constant :: "logical_type \<Rightarrow> duck_value \<Rightarrow> bool" where
  "typed_constant T c \<longleftrightarrow> value_type c = T \<and> well_formed_value c"

definition is_enum :: "logical_type \<Rightarrow> bool" where
  "is_enum T = (case T of ENUM labels \<Rightarrow> True | _ \<Rightarrow> False)"

fun filter_typed :: "duck_api \<Rightarrow> logical_type \<Rightarrow> duck_expr \<Rightarrow> bool" where
  "filter_typed A T (Conjunction t es) \<longleftrightarrow> es \<noteq> [] \<and> list_all (filter_typed A T) es"
| "filter_typed A T (Operator t rt es) \<longleftrightarrow>
     (t \<in> {COMPARE_IN, COMPARE_NOT_IN} \<longrightarrow> list_all (typed_constant T) (constant_values (tl es))) \<and>
     (t = COMPARE_NOT_IN \<longrightarrow> list_ex representable (constant_values (tl es)))"
| "filter_typed A T (Comparison t l r) \<longleftrightarrow>
     (case TryGetColumnConstantComparison A t l r of
        Some (t', c) \<Rightarrow> typed_constant T c
      | None \<Rightarrow> is_enum T)"
| "filter_typed A T e \<longleftrightarrow> True"

text \<open>A text that says of every cell of the column what the filter says, or nothing when that is always true.\<close>

definition exact :: "duck_api \<Rightarrow> string \<Rightarrow> logical_type \<Rightarrow> duck_expr \<Rightarrow> string \<Rightarrow> bool" where
  "exact A column T e s \<longleftrightarrow>
     (if s = [] then \<forall>cell. storable T cell \<longrightarrow> filter_holds A e cell
      else \<exists>p. s = predicate_text A column p \<and> (\<forall>cell. storable T cell \<longrightarrow> predicate_holds A p cell = filter_holds A e cell))"

lemma exactI: "s = predicate_text A column p \<Longrightarrow>
    (\<And>cell. storable T cell \<Longrightarrow> predicate_holds A p cell = filter_holds A e cell) \<Longrightarrow> exact A column T e s"
  by (auto simp: exact_def)

lemma TransformOperator_exact:
  assumes U: "string_util_ok U" and A: "duck_api_ok A" and typed: "filter_typed A T (Operator t rt es)"
    and r: "TransformOperator U A column e t es = Inr s"
    and plain: "\<not> IsOptionalExpression A (Operator t rt es)" "\<not> IsRootOptionalExpression A (Operator t rt es)"
      "\<not> IsRuntimeHintExpression A (Operator t rt es)"
  shows "exact A column T (Operator t rt es) s"
proof -
  have holds: "filter_holds A (Operator t rt es) cell = filter_core A (Operator t rt es) cell" for cell
    using plain by (subst filter_holds.simps) (simp add: filter_core_def)
  consider "t = OPERATOR_IS_NULL" | "t = OPERATOR_IS_NOT_NULL" | "t = COMPARE_IN \<or> t = COMPARE_NOT_IN"
    using r by (auto simp: TransformOperator_def Let_def split: if_splits)
  then show ?thesis
  proof cases
    case 1
    with r have "s = predicate_text A column ChIsNull" by (auto simp: TransformOperator_def Let_def split: if_splits)
    then show ?thesis by (rule exactI) (simp add: holds, simp add: filter_core_def 1)
  next
    case 2
    with r have "s = predicate_text A column ChIsNotNull" by (auto simp: TransformOperator_def Let_def split: if_splits)
    then show ?thesis by (rule exactI) (simp add: holds, simp add: filter_core_def 2)
  next
    case 3
    let ?cs = "constant_values (tl es)"
    let ?ok = "filter (translatable A) ?cs"
    from r 3 obtain vals where vals: "InValues A e (tl es) = Inr vals"
      and s: "s = (if vals = [] then (if t = COMPARE_IN then ''1 = 0'' else ''1 = 1'')
               else column @ (if t = COMPARE_IN then '' IN '' else '' NOT IN '') @ ''('' @ Join U vals '', '' @ '')'')"
      by (auto simp: TransformOperator_def Let_def)
    have wf: "\<forall>c\<in>set ?cs. well_formed_value c"
      using typed 3 by (auto simp: list_all_iff typed_constant_def)
    note ex = InValues_exact [OF A vals wf]
    have v: "vals = map (constant_text A) ?ok" using InValues_ok [OF vals] by simp
    have mem: "storable T (Some v) \<Longrightarrow> v \<in> set ?cs \<Longrightarrow> translatable A v" for v
      using ex(2) [of v] by (simp add: storable_def)
    show ?thesis
    proof (cases "vals = []")
      case False
      then have "s = predicate_text A column (ChIn (t = COMPARE_NOT_IN) ?ok)"
        using s 3 by (auto simp: v string_util_okD(10) [OF U])
      then show ?thesis
        by (rule exactI) (use 3 in \<open>auto simp: holds filter_core_def intro: mem split: option.split\<close>)
    next
      case True
      then have none: "?ok = []" by (simp add: v)
      have "t = COMPARE_IN"
      proof (rule ccontr)
        assume "t \<noteq> COMPARE_IN"
        then obtain c where "c \<in> set ?cs" "representable c" using typed 3 by (auto simp: list_ex_iff)
        with ex(2) [of c] none show False by (auto simp: filter_empty_conv)
      qed
      with s True have "s = predicate_text A column ChNever" by simp
      then show ?thesis
        by (rule exactI) (simp only: holds, use mem none \<open>t = COMPARE_IN\<close> in \<open>auto simp: filter_core_def filter_empty_conv split: option.split\<close>)
    qed
  qed
qed

lemma TransformCompare_exact:
  assumes A: "duck_api_ok A" and typed: "filter_typed A T (Comparison t l r)"
    and res: "TransformCompare A column e t l r = Inr s"
    and plain: "\<not> IsOptionalExpression A (Comparison t l r)" "\<not> IsRootOptionalExpression A (Comparison t l r)"
      "\<not> IsRuntimeHintExpression A (Comparison t l r)"
  shows "exact A column T (Comparison t l r) s"
proof -
  have holds: "filter_holds A (Comparison t l r) cell = filter_core A (Comparison t l r) cell" for cell
    using plain by (subst filter_holds.simps) (simp add: filter_core_def)
  show ?thesis
  proof (cases "TryGetColumnConstantComparison A t l r")
    case (Some tc)
    obtain t' c where tc: "tc = (t', c)" by fastforce
    have "value_type c = T" "well_formed_value c" using typed Some tc by (simp_all add: typed_constant_def)
    moreover have "TransformColumnConstant A column t' c = Inr s" using res Some tc by (simp add: TransformCompare_def)
    ultimately obtain p where p: "s = predicate_text A column p"
      "\<And>cell. storable T cell \<Longrightarrow> predicate_holds A p cell = (case cell of None \<Rightarrow> False | Some v \<Rightarrow> where_compare t' v c)"
      using TransformColumnConstant_exact [OF A] by blast
    from p(1) show ?thesis
      by (rule exactI) (use p(2) in \<open>auto simp: holds filter_core_def Some tc split: option.split\<close>)
  next
    case None
    then obtain v x where v: "cast_comparison l r = Some v" "t = COMPARE_EQUAL \<or> t = COMPARE_NOTEQUAL"
        "StringValue_Get A v = Inr x" "s = column @ (if t = COMPARE_EQUAL then '' = '' else '' != '') @ QuoteLiteral x"
      using res by (fastforce simp: TransformCompare_def cast_comparison_def Let_def split: if_splits duck_expr.splits)
    then have "s = predicate_text A column (ChLabel (t = COMPARE_EQUAL) x)" by simp
    then show ?thesis
      by (rule exactI) (use v in \<open>auto simp: holds filter_core_def None v(1) split: option.split\<close>)
  qed
qed

text \<open>The parts of a conjunction.\<close>

lemma ConjunctionParts_exact:
  assumes "\<And>e s. e \<in> set es \<Longrightarrow> TransformExpressionFilter U A column e = Inr s \<Longrightarrow> exact A column T e s"
    and "ConjunctionParts U A column is_and es = Inr r"
  shows "(case r of
      None \<Rightarrow> \<not> is_and \<and> (\<exists>e\<in>set es. \<forall>cell. storable T cell \<longrightarrow> filter_holds A e cell)
    | Some parts \<Rightarrow> \<exists>ps. parts = map (predicate_text A column) ps \<and> (\<not> is_and \<longrightarrow> length ps = length es) \<and>
        (\<forall>cell. storable T cell \<longrightarrow>
          (if is_and then list_all (\<lambda>p. predicate_holds A p cell) ps \<longleftrightarrow> list_all (\<lambda>e. filter_holds A e cell) es
           else list_ex (\<lambda>p. predicate_holds A p cell) ps \<longleftrightarrow> list_ex (\<lambda>e. filter_holds A e cell) es)))"
  using assms
proof (induction es arbitrary: r)
  case (Cons e es)
  obtain part where part: "TransformExpressionFilter U A column e = Inr part" using Cons.prems(2) by auto
  have ex: "exact A column T e part" by (rule Cons.prems(1) [OF _ part]) simp
  have prem: "\<And>e s. e \<in> set es \<Longrightarrow> TransformExpressionFilter U A column e = Inr s \<Longrightarrow> exact A column T e s"
    using Cons.prems(1) by simp
  show ?case
  proof (cases "part = []")
    case True
    show ?thesis
    proof (cases is_and)
      case conj: True
      with Cons.prems(2) part True have "ConjunctionParts U A column is_and es = Inr r" by simp
      from Cons.IH [OF prem this] True conj ex show ?thesis by (auto simp: exact_def split: option.splits)
    next
      case False
      with Cons.prems(2) part True ex show ?thesis by (auto simp: exact_def)
    qed
  next
    case False
    then obtain p where p: "part = predicate_text A column p"
        "\<And>cell. storable T cell \<Longrightarrow> predicate_holds A p cell = filter_holds A e cell"
      using ex by (auto simp: exact_def)
    from Cons.prems(2) part False obtain r' where r': "ConjunctionParts U A column is_and es = Inr r'"
      "r = map_option ((#) part) r'" by auto
    show ?thesis
    proof (cases r')
      case None
      with Cons.IH [OF prem r'(1)] r'(2) show ?thesis by auto
    next
      case (Some parts)
      with Cons.IH [OF prem r'(1)] obtain ps where ps: "parts = map (predicate_text A column) ps"
        "\<not> is_and \<longrightarrow> length ps = length es"
        "\<And>cell. storable T cell \<Longrightarrow>
          (if is_and then list_all (\<lambda>p. predicate_holds A p cell) ps \<longleftrightarrow> list_all (\<lambda>e. filter_holds A e cell) es
           else list_ex (\<lambda>p. predicate_holds A p cell) ps \<longleftrightarrow> list_ex (\<lambda>e. filter_holds A e cell) es)" by auto
      have "r = Some (map (predicate_text A column) (p # ps))" using r'(2) Some ps(1) p(1) by simp
      then show ?thesis using ps(2,3) p(2) by (auto intro!: exI [of _ "p # ps"])
    qed
  qed
qed auto

lemma Transform_conjunction:
  "\<not> (IsOptionalExpression A (Conjunction t es) \<or> IsRootOptionalExpression A (Conjunction t es)) \<Longrightarrow>
    TransformExpressionFilter U A column (Conjunction t es) =
      bindE (ConjunctionParts U A column (t = CONJUNCTION_AND) es) (\<lambda>r. case r of None \<Rightarrow> Inr []
        | Some parts \<Rightarrow> Inr (if parts = [] then [] else
            ''('' @ Join U parts (if t = CONJUNCTION_AND then '' AND '' else '' OR '') @ '')''))"
  by (subst TransformExpressionFilter.simps) (simp only: Let_def if_False duck_expr.case)

lemma TransformExpressionFilter_exact_aux:
  assumes "string_util_ok U" and "duck_api_ok A" and "filter_typed A T e"
    and "TransformExpressionFilter U A column e = Inr s"
  shows "exact A column T e s"
  using assms(3,4)
proof (induction e arbitrary: s rule: measure_induct_rule [of size])
  case (less e)
  show ?case
  proof (cases "IsOptionalExpression A e \<or> IsRootOptionalExpression A e")
    case True
    with less.prems(2) show ?thesis
      by (subst (asm) TransformExpressionFilter.simps) (auto simp: exact_def filter_holds.simps [of A e])
  next
    case plain: False
    show ?thesis
    proof (cases "\<exists>t es. e = Conjunction t es")
      case True
      then obtain t es where e: "e = Conjunction t es" by blast
      define is_and where "is_and \<longleftrightarrow> t = CONJUNCTION_AND"
      have "bindE (ConjunctionParts U A column is_and es) (\<lambda>r. case r of None \<Rightarrow> Inr []
          | Some parts \<Rightarrow> Inr (if parts = [] then [] else ''('' @ Join U parts (if is_and then '' AND '' else '' OR '') @ '')'')) = Inr s"
        using less.prems(2) plain unfolding is_and_def e by (simp only: Transform_conjunction not_False_eq_True)
      then obtain r where r: "ConjunctionParts U A column is_and es = Inr r"
        "(case r of None \<Rightarrow> Inr [] | Some parts \<Rightarrow> Inr (if parts = [] then []
           else ''('' @ Join U parts (if is_and then '' AND '' else '' OR '') @ '')'')) = (Inr s :: string res)" by auto
      have holds: "filter_holds A e cell =
          (if is_and then list_all (\<lambda>e. filter_holds A e cell) es else list_ex (\<lambda>e. filter_holds A e cell) es)" for cell
        using plain by (subst filter_holds.simps) (simp add: e is_and_def list_all_iff list_ex_iff)
      have nonempty: "es \<noteq> []" using less.prems(1) by (simp add: e)
      have IH: "\<And>e' s'. e' \<in> set es \<Longrightarrow> TransformExpressionFilter U A column e' = Inr s' \<Longrightarrow> exact A column T e' s'"
      proof (rule less.IH)
        fix e' assume "e' \<in> set es"
        then show "size e' < size e" "filter_typed A T e'"
          using less.prems(1) size_list_estimation' [of e' es "size e'" size] by (auto simp: e list_all_iff)
      qed
      note parts = ConjunctionParts_exact [OF IH r(1)]
      show ?thesis
      proof (cases r)
        case None
        with parts r(2) show ?thesis by (auto simp: exact_def holds list_ex_iff)
      next
        case (Some ss)
        with parts obtain ps where ps: "ss = map (predicate_text A column) ps" "\<not> is_and \<longrightarrow> length ps = length es"
          "\<And>cell. storable T cell \<Longrightarrow>
            (if is_and then list_all (\<lambda>p. predicate_holds A p cell) ps \<longleftrightarrow> list_all (\<lambda>e. filter_holds A e cell) es
             else list_ex (\<lambda>p. predicate_holds A p cell) ps \<longleftrightarrow> list_ex (\<lambda>e. filter_holds A e cell) es)" by auto
        show ?thesis
        proof (cases "ps = []")
          case True
          then have is_and using ps(2) nonempty by auto
          with True ps r(2) Some show ?thesis by (simp add: exact_def holds)
        next
          case False
          have "s = predicate_text A column (if is_and then ChAnd ps else ChOr ps)"
            using False r(2) Some ps(1) by (auto simp: string_util_okD(10) [OF assms(1)])
          then show ?thesis
            by (rule exactI) (use ps(3) in \<open>simp add: holds split: if_splits\<close>)
        qed
      qed
    next
      case leaf: False
      show ?thesis
      proof (cases "IsRuntimeHintExpression A e")
        case True
        with less.prems(2) plain leaf show ?thesis
          by (subst (asm) TransformExpressionFilter.simps)
            (auto simp: exact_def filter_holds.simps [of A e] split: duck_expr.splits)
      next
        case False
        with less.prems(2) plain leaf consider
          t rt es where "e = Operator t rt es" "TransformOperator U A column e t es = Inr s"
          | t l r where "e = Comparison t l r" "TransformCompare A column e t l r = Inr s"
          by (subst (asm) TransformExpressionFilter.simps) (auto split: duck_expr.splits)
        then show ?thesis
        proof cases
          case 1
          with less.prems(1) plain False show ?thesis
            using TransformOperator_exact [OF assms(1,2), of T t rt es column e s] by simp
        next
          case 2
          with less.prems(1) plain False show ?thesis
            using TransformCompare_exact [OF assms(2), of T t l r column e s] by simp
        qed
      qed
    qed
  qed
qed


definition sample_filter :: duck_expr where
  "sample_filter =
     (let day = BoundRef 0 DATE in
      Conjunction CONJUNCTION_AND
       [Comparison COMPARE_GREATERTHAN day (Constant (Date (-99999))),
        Comparison COMPARE_LESSTHANOREQUALTO (Constant (Date 19000)) day,
        Operator COMPARE_IN BOOLEAN [day, Constant (Date 19001), Constant (Date date_infinity)]])"

lemmas filter_eval = TransformExpressionFilter.simps TransformCompare_def TransformColumnConstant_def
  TryFoldUnrepresentableComparison_def FoldOutOfBoundsComparison_def TransformOperator_def TransformConstant_def
  TransformComparison_def DateInPushdownRange_def FromDate_examples date_infinity_def timestamp_infinity_def
  date_IsFinite_def timestamp_IsFinite_def IsRuntimeHintExpression_def
  unsupported_def



section \<open>All filters of a scan\<close>

text \<open>What a table filter says of a cell; a legacy filter says what DuckDB converts it to.\<close>

definition table_filter_expr :: "duck_api \<Rightarrow> table_filter \<Rightarrow> logical_type \<Rightarrow> duck_expr option" where
  "table_filter_expr A flt T = (case flt of
       ExpressionFilter e \<Rightarrow>
         if IsOptionalFilter A flt \<or> IsRootOptionalFilter A flt \<or> GetRootOptionalDynamicFilterData A flt then None else Some e
     | LegacyFilter kind \<Rightarrow> (case FromTableFilter A flt (Some T) of Inr e \<Rightarrow> Some e | Inl ex \<Rightarrow> None)
     | _ \<Rightarrow> None)"

definition table_filter_holds :: "duck_api \<Rightarrow> logical_type \<Rightarrow> table_filter \<Rightarrow> duck_value option \<Rightarrow> bool" where
  "table_filter_holds A T flt cell =
     (case table_filter_expr A flt T of None \<Rightarrow> True | Some e \<Rightarrow> filter_holds A e cell)"

definition table_filter_typed :: "duck_api \<Rightarrow> logical_type \<Rightarrow> table_filter \<Rightarrow> bool" where
  "table_filter_typed A T flt = (case table_filter_expr A flt T of None \<Rightarrow> True | Some e \<Rightarrow> filter_typed A T e)"

lemma TransformFilter_exact:
  assumes "string_util_ok U" and "duck_api_ok A" and "table_filter_typed A T flt"
    and "TransformFilter U A column flt (Some T) = Inr s"
  shows "if s = [] then \<forall>cell. storable T cell \<longrightarrow> table_filter_holds A T flt cell
    else \<exists>p. s = predicate_text A column p \<and>
      (\<forall>cell. storable T cell \<longrightarrow> predicate_holds A p cell = table_filter_holds A T flt cell)"
proof (cases "table_filter_expr A flt T")
  case None
  then have "s = []"
    using assms(4) by (cases flt) (auto simp: TransformFilter_def table_filter_expr_def split: if_splits sum.splits)
  with None show ?thesis by (simp add: table_filter_holds_def)
next
  case (Some e)
  then have "TransformExpressionFilter U A column e = Inr s"
    using assms(4) by (cases flt) (auto simp: TransformFilter_def table_filter_expr_def split: if_splits sum.splits)
  moreover have "filter_typed A T e" using assms(3) Some by (simp add: table_filter_typed_def)
  ultimately have "exact A column T e s"
    using assms(1,2) by (intro TransformExpressionFilter_exact_aux)
  then show ?thesis by (simp add: exact_def table_filter_holds_def Some)
qed

definition column_at :: "nat option list \<Rightarrow> column_info list \<Rightarrow> nat \<Rightarrow> column_info" where
  "column_at column_ids columns i = columns ! the (column_ids ! i)"

lemma FilterConditions_exact:
  assumes "string_util_ok U" and "duck_api_ok A"
    and "FilterConditions U A column_ids filters columns = Inr cs"
    and "\<forall>(i, flt)\<in>set filters. table_filter_typed A (col_type (column_at column_ids columns i)) flt"
  shows "\<exists>ps. cs = map (\<lambda>(i, p). predicate_text A (QuoteIdentifier (col_name (column_at column_ids columns i))) p) ps \<and>
    set (map fst ps) \<subseteq> set (map fst filters) \<and>
    (\<forall>row. (\<forall>i. storable (col_type (column_at column_ids columns i)) (row i)) \<longrightarrow>
      (\<forall>(i, p)\<in>set ps. predicate_holds A p (row i)) =
      (\<forall>(i, flt)\<in>set filters. table_filter_holds A (col_type (column_at column_ids columns i)) flt (row i)))"
  using assms(3,4)
proof (induction filters arbitrary: cs)
  case (Cons f filters)
  obtain i flt where f: "f = (i, flt)" by fastforce
  let ?c = "column_at column_ids columns i"
  from Cons.prems(1) f obtain s rest where s: "TransformFilter U A (QuoteIdentifier (col_name ?c)) flt (Some (col_type ?c)) = Inr s"
    and rest: "FilterConditions U A column_ids filters columns = Inr rest"
    and cs: "cs = (if s = [] then rest else s # rest)"
    by (auto simp: column_at_def split: option.splits)
  have "table_filter_typed A (col_type ?c) flt" using Cons.prems(2) f by simp
  note one = TransformFilter_exact [OF assms(1,2) this s]
  from Cons.IH [OF rest] Cons.prems(2) obtain ps where ps:
    "rest = map (\<lambda>(i, p). predicate_text A (QuoteIdentifier (col_name (column_at column_ids columns i))) p) ps"
    "set (map fst ps) \<subseteq> set (map fst filters)"
    "\<And>row. (\<forall>i. storable (col_type (column_at column_ids columns i)) (row i)) \<Longrightarrow>
      (\<forall>(i, p)\<in>set ps. predicate_holds A p (row i)) =
      (\<forall>(i, flt)\<in>set filters. table_filter_holds A (col_type (column_at column_ids columns i)) flt (row i))"
    by auto
  show ?case
  proof (cases "s = []")
    case True
    with one ps cs f show ?thesis by (intro exI [of _ ps]) auto
  next
    case False
    with one obtain p where "s = predicate_text A (QuoteIdentifier (col_name ?c)) p"
      "\<And>cell. storable (col_type ?c) cell \<Longrightarrow> predicate_holds A p cell = table_filter_holds A (col_type ?c) flt cell" by auto
    with False ps cs f show ?thesis by (intro exI [of _ "(i, p) # ps"]) auto
  qed
qed simp



end
