(* ===== verification/Scan.thy ===== *)
theory Scan
  imports FilterPushdown
begin

text \<open>
  \<open>src/src/clickhouse_scanner.cpp\<close>: the query a scan sends, the callbacks that decide which filters
  DuckDB may push into it. The workers that pull the blocks of the query are theory \<open>ScanWorkers\<close>.
\<close>

section \<open>The query\<close>

text \<open>The fields of the bind data that the query depends on; a virtual column id is \<open>None\<close>.\<close>

record bind_data =
  bd_database :: string
  bd_table :: string
  bd_query :: string
  bd_columns :: "column_info list"
  approx_rows :: "nat option"
  filter_pushdown :: bool
  order_by_clause :: string
  limit_clause :: string

definition SelectItem :: "string_util \<Rightarrow> column_info list \<Rightarrow> nat option \<Rightarrow> string res" where
  "SelectItem U columns column_id =
     (case column_id of
        None \<Rightarrow> Inr ''NULL''
      | Some i \<Rightarrow>
          (let column = columns ! i in
           if \<not> col_readable column then
             Inl (Exn NotImplementedException ''Column has a ClickHouse type which cannot be read by DuckDB''
               [col_name column, clickhouse_type column])
           else ReadExpression U (type_node column) (QuoteIdentifier (col_name column))))"

definition BuildQuery ::
  "string_util \<Rightarrow> duck_api \<Rightarrow> bind_data \<Rightarrow> nat option list \<Rightarrow> (nat \<times> table_filter) list \<Rightarrow> string res" where
  "BuildQuery U A bd column_ids filters =
     bindE (mapE (SelectItem U (bd_columns bd)) column_ids) (\<lambda>items.
       (let select_list = (if items = [] then [''NULL''] else items);
            source = (if bd_query bd = [] then QualifiedName (bd_database bd) (bd_table bd)
                      else ''('' @ [CHR 0x0A] @ bd_query bd @ [CHR 0x0A] @ '')'');
            sql = ''SELECT '' @ Join U select_list '', '' @ '' FROM '' @ source
        in bindE (TransformFilters U A column_ids filters (bd_columns bd)) (\<lambda>where_clause.
             Inr (sql @ (if where_clause = [] then [] else '' WHERE '' @ where_clause) @
                  order_by_clause bd @ limit_clause bd))))"

definition SetReturnTypes :: "bind_data \<Rightarrow> (string \<times> logical_type) list" where
  "SetReturnTypes bd = map (\<lambda>c. (col_name c, col_type c)) (bd_columns bd)"

definition IsClickhouseScan :: "string \<Rightarrow> bool" where
  "IsClickhouseScan f \<longleftrightarrow> f = ''clickhouse_scan'' \<or> f = ''clickhouse_query''"

text \<open>\<open>EXPLAIN\<close>: the key and the text for a scan whose last SQL, if any, is known.\<close>

definition ClickhouseScanToString :: "string_util \<Rightarrow> string \<Rightarrow> bind_data \<Rightarrow> (string \<times> string) list" where
  "ClickhouseScanToString U last_sql bd =
     (if last_sql \<noteq> [] then [(''ClickHouse Query'', last_sql)]
      else (let pushed = Trim U (order_by_clause bd @ limit_clause bd) in
        (if bd_query bd = [] then [(''Table'', bd_database bd @ ''.'' @ bd_table bd)] else [(''Query'', bd_query bd)]) @
        (if pushed \<noteq> [] then [(''Pushed Down'', pushed)] else [])))"

section \<open>Which filters are pushed\<close>

definition ClickhouseSupportsPushdownType :: "bind_data \<Rightarrow> nat \<Rightarrow> bool res" where
  "ClickhouseSupportsPushdownType bd column_index =
     (if \<not> filter_pushdown bd \<or> column_index \<ge> length (bd_columns bd) then Inr False
      else SupportsFilterPushdown (type_node (bd_columns bd ! column_index)))"

text \<open>The setting \<open>ch_filter_pushdown\<close>, if it is known and not NULL.\<close>

definition FilterPushdownEnabled :: "duck_api \<Rightarrow> duck_value option \<Rightarrow> bool res" where
  "FilterPushdownEnabled A setting =
     (case setting of
        None \<Rightarrow> Inr True
      | Some v \<Rightarrow> if IsNull v then Inr True else BooleanValue_Get A v)"

definition AsVarcharCastOfColumnRef :: "duck_expr \<Rightarrow> nat option" where
  "AsVarcharCastOfColumnRef e = (case e of
       CastExpr try child t \<Rightarrow>
         (case child of BoundColumnRef table col depth ty \<Rightarrow> if is_varchar t then Some col else None | _ \<Rightarrow> None)
     | _ \<Rightarrow> None)"

definition ResolvePushdownableColumn :: "nat option list \<Rightarrow> bind_data \<Rightarrow> nat \<Rightarrow> nat option res" where
  "ResolvePushdownableColumn get_column_ids bd column_index =
     (if \<not> filter_pushdown bd then Inr None
      else if column_index \<ge> length get_column_ids then Inr None
      else (case get_column_ids ! column_index of
              None \<Rightarrow> Inr None
            | Some column_id \<Rightarrow>
                if column_id \<ge> length (bd_columns bd) then Inr None
                else bindE (SupportsFilterPushdown (type_node (bd_columns bd ! column_id))) (\<lambda>supported.
                  Inr (if supported then Some column_id else None))))"

text \<open>\<open>EnumType::GetPos\<close> is not negative for the labels of the type.\<close>

definition enum_has_label :: "logical_type \<Rightarrow> string \<Rightarrow> bool" where
  "enum_has_label t label = (case t of ENUM labels \<Rightarrow> label \<in> set labels | _ \<Rightarrow> False)"

definition PushdownCast ::
  "duck_api \<Rightarrow> nat option list \<Rightarrow> bind_data \<Rightarrow> duck_expr \<Rightarrow> duck_expr \<Rightarrow> bool res" where
  "PushdownCast A get_column_ids bd left right =
     (let ref = (case AsVarcharCastOfColumnRef left of Some c \<Rightarrow> Some c | None \<Rightarrow> AsVarcharCastOfColumnRef right);
          other = (if AsVarcharCastOfColumnRef left = None then left else right)
      in case (ref, other) of
           (Some c, Constant v) \<Rightarrow>
             if IsNull v \<or> \<not> is_varchar (value_type v) then Inr False
             else bindE (ResolvePushdownableColumn get_column_ids bd c) (\<lambda>column_id.
               case column_id of
                 None \<Rightarrow> Inr False
               | Some i \<Rightarrow>
                   (case col_type (bd_columns bd ! i) of
                      ENUM labels \<Rightarrow> bindE (StringValue_Get A v) (\<lambda>s. Inr (enum_has_label (col_type (bd_columns bd ! i)) s))
                    | _ \<Rightarrow> Inr False))
         | _ \<Rightarrow> Inr False)"

definition ClickhousePushdownExpression ::
  "duck_api \<Rightarrow> nat option list \<Rightarrow> bind_data option \<Rightarrow> duck_expr \<Rightarrow> bool res" where
  "ClickhousePushdownExpression A get_column_ids bind e =
     (case bind of
        None \<Rightarrow> Inr False
      | Some bd \<Rightarrow>
          (case e of
             Operator t rt children \<Rightarrow>
               if t = OPERATOR_IS_NULL \<or> t = OPERATOR_IS_NOT_NULL then
                 (case children of
                    [BoundColumnRef table col depth ty] \<Rightarrow>
                      bindE (ResolvePushdownableColumn get_column_ids bd col) (\<lambda>i. Inr (i \<noteq> None))
                  | _ \<Rightarrow> Inr False)
               else Inr False
           | Comparison t left right \<Rightarrow>
               if t = COMPARE_EQUAL \<or> t = COMPARE_NOTEQUAL then PushdownCast A get_column_ids bd left right else Inr False
           | _ \<Rightarrow> Inr False))"

text \<open>
  DuckDB keeps an accepted expression as a filter of the column, with the column replaced by a
  reference to the only input.
\<close>

fun as_input :: "duck_expr \<Rightarrow> duck_expr" where
  "as_input (BoundColumnRef table col depth t) = BoundRef 0 t"
| "as_input (CastExpr try e t) = CastExpr try (as_input e) t"
| "as_input (Operator t rt es) = Operator t rt (map as_input es)"
| "as_input (Comparison t l r) = Comparison t (as_input l) (as_input r)"
| "as_input e = e"

text \<open>DuckDB recognises the input as a simple column, and a cast of it as no plain column comparison.\<close>

definition recognises_input :: "duck_api \<Rightarrow> duck_expr \<Rightarrow> bool" where
  "recognises_input A e \<longleftrightarrow> \<not> IsOptionalExpression A e \<and> \<not> IsRootOptionalExpression A e \<and> \<not> IsRuntimeHintExpression A e \<and>
     (case e of
        Operator t rt es \<Rightarrow> list_all (IsSimpleFilterColumnRef A) es
      | Comparison t l r \<Rightarrow> TryGetColumnConstantComparison A t l r = None
      | _ \<Rightarrow> True)"

lemma Resolve_Some:
  "ResolvePushdownableColumn ids bd c = Inr (Some i) \<Longrightarrow>
     filter_pushdown bd \<and> c < length ids \<and> ids ! c = Some i \<and> i < length (bd_columns bd) \<and>
     SupportsFilterPushdown (type_node (bd_columns bd ! i)) = Inr True"
  by (auto simp: ResolvePushdownableColumn_def split: if_splits option.splits)

lemma AsVarcharCast_Some:
  "AsVarcharCastOfColumnRef e = Some c \<Longrightarrow>
     \<exists>try table depth ty t. e = CastExpr try (BoundColumnRef table c depth ty) t \<and> is_varchar t"
  by (auto simp: AsVarcharCastOfColumnRef_def split: duck_expr.splits if_splits)

lemma PushdownCast_True:
  assumes "PushdownCast A ids bd l r = Inr True"
  shows "\<exists>i v s. i < length (bd_columns bd) \<and> SupportsFilterPushdown (type_node (bd_columns bd ! i)) = Inr True \<and>
    filter_pushdown bd \<and> is_enum (col_type (bd_columns bd ! i)) \<and> enum_has_label (col_type (bd_columns bd ! i)) s \<and>
    StringValue_Get A v = Inr s \<and> \<not> IsNull v \<and> is_varchar (value_type v) \<and>
    (IsVarcharCastOfColumnReference (as_input l) \<and> as_input r = Constant v \<or>
     \<not> IsVarcharCastOfColumnReference (as_input l) \<and> IsVarcharCastOfColumnReference (as_input r) \<and> as_input l = Constant v)"
proof -
  define other where "other = (if AsVarcharCastOfColumnRef l = None then l else r)"
  obtain c v i where c: "AsVarcharCastOfColumnRef l = Some c \<or> AsVarcharCastOfColumnRef l = None \<and> AsVarcharCastOfColumnRef r = Some c"
    and v: "other = Constant v" "\<not> IsNull v" "is_varchar (value_type v)"
    and i: "ResolvePushdownableColumn ids bd c = Inr (Some i)"
    and s: "(case col_type (bd_columns bd ! i) of
        ENUM labels \<Rightarrow> bindE (StringValue_Get A v) (\<lambda>s. Inr (enum_has_label (col_type (bd_columns bd ! i)) s))
      | _ \<Rightarrow> Inr False) = Inr True"
    using assms unfolding PushdownCast_def Let_def other_def [symmetric]
    by (auto split: option.splits duck_expr.splits if_splits)
  from s obtain labels x where "col_type (bd_columns bd ! i) = ENUM labels" "StringValue_Get A v = Inr x"
      "enum_has_label (col_type (bd_columns bd ! i)) x"
    by (auto split: logical_type.splits)
  moreover have "IsVarcharCastOfColumnReference (as_input l) \<and> as_input r = Constant v \<or>
     \<not> IsVarcharCastOfColumnReference (as_input l) \<and> IsVarcharCastOfColumnReference (as_input r) \<and> as_input l = Constant v"
    using c v(1) by (auto simp: other_def IsVarcharCastOfColumnReference_def is_column_def dest!: AsVarcharCast_Some split: if_splits)
  ultimately show ?thesis using Resolve_Some [OF i] v(2,3) by (auto simp: is_enum_def)
qed

text \<open>
  C27. What the scan lets DuckDB push as an expression it translates exactly: for an accepted expression
  there is a column of the scan that ClickHouse may filter on, and the translation succeeds on the
  expression, seen as a filter of that column, and is exact.
\<close>

theorem accepted_expressions_translate:
  assumes U: "string_util_ok U" and A: "duck_api_ok A"
    and acc: "ClickhousePushdownExpression A ids (Some bd) e = Inr True" and rec: "recognises_input A (as_input e)"
  shows "\<exists>i s. i < length (bd_columns bd) \<and> filter_pushdown bd \<and>
    SupportsFilterPushdown (type_node (bd_columns bd ! i)) = Inr True \<and>
    (let column = bd_columns bd ! i in
     TransformExpressionFilter U A (QuoteIdentifier (col_name column)) (as_input e) = Inr s \<and>
     exact A (QuoteIdentifier (col_name column)) (col_type column) (as_input e) s)"
proof -
  note plain = rec [unfolded recognises_input_def, THEN conjunct1] rec [unfolded recognises_input_def, THEN conjunct2, THEN conjunct1]
    rec [unfolded recognises_input_def, THEN conjunct2, THEN conjunct2, THEN conjunct1]
  have "\<exists>i s. i < length (bd_columns bd) \<and> filter_pushdown bd \<and>
      SupportsFilterPushdown (type_node (bd_columns bd ! i)) = Inr True \<and>
      TransformExpressionFilter U A (QuoteIdentifier (col_name (bd_columns bd ! i))) (as_input e) = Inr s \<and>
      filter_typed A (col_type (bd_columns bd ! i)) (as_input e)"
  proof (cases e)
    case (Operator t rt children)
    with acc obtain table col depth ty i where t: "t = OPERATOR_IS_NULL \<or> t = OPERATOR_IS_NOT_NULL"
      and ch: "children = [BoundColumnRef table col depth ty]" and i: "ResolvePushdownableColumn ids bd col = Inr (Some i)"
      by (auto simp: ClickhousePushdownExpression_def split: if_splits list.splits duck_expr.splits)
    have simple: "IsSimpleFilterColumnRef A (BoundRef 0 ty)" using rec by (simp add: recognises_input_def Operator ch)
    let ?column = "QuoteIdentifier (col_name (bd_columns bd ! i))"
    have "TransformExpressionFilter U A ?column (as_input e) =
        Inr (?column @ (if t = OPERATOR_IS_NULL then '' IS NULL'' else '' IS NOT NULL''))"
      using plain t simple
      by (subst TransformExpressionFilter.simps) (auto simp: Operator ch TransformOperator_def)
    moreover have "filter_typed A (col_type (bd_columns bd ! i)) (as_input e)" using t by (auto simp: Operator ch)
    ultimately show ?thesis using Resolve_Some [OF i] by blast
  next
    case (Comparison t l r)
    with acc have t: "t = COMPARE_EQUAL \<or> t = COMPARE_NOTEQUAL" and pc: "PushdownCast A ids bd l r = Inr True"
      by (auto simp: ClickhousePushdownExpression_def split: if_splits)
    from PushdownCast_True [OF pc] obtain i v s where i: "i < length (bd_columns bd)"
        "SupportsFilterPushdown (type_node (bd_columns bd ! i)) = Inr True" "filter_pushdown bd"
        "is_enum (col_type (bd_columns bd ! i))"
      and v: "StringValue_Get A v = Inr s" "\<not> IsNull v" "is_varchar (value_type v)"
        "IsVarcharCastOfColumnReference (as_input l) \<and> as_input r = Constant v \<or>
         \<not> IsVarcharCastOfColumnReference (as_input l) \<and> IsVarcharCastOfColumnReference (as_input r) \<and> as_input l = Constant v"
      by blast
    have none: "TryGetColumnConstantComparison A t (as_input l) (as_input r) = None"
      using rec by (simp add: recognises_input_def Comparison)
    let ?column = "QuoteIdentifier (col_name (bd_columns bd ! i))"
    have "TransformExpressionFilter U A ?column (as_input e) = TransformCompare A ?column (as_input e) t (as_input l) (as_input r)"
      using plain by (subst TransformExpressionFilter.simps) (simp add: Comparison)
    also have "\<exists>x. \<dots> = Inr x"
      using t v none by (auto simp: TransformCompare_def)
    finally obtain x where "TransformExpressionFilter U A ?column (as_input e) = Inr x" by blast
    moreover have "filter_typed A (col_type (bd_columns bd ! i)) (as_input e)" using none i(4) by (simp add: Comparison)
    ultimately show ?thesis using i by blast
  qed (use acc in \<open>auto simp: ClickhousePushdownExpression_def\<close>)
  then show ?thesis
    using TransformExpressionFilter_exact_aux [OF U A] unfolding Let_def by blast
qed

definition sample_bind :: bind_data where
  "sample_bind = \<lparr>bd_database = ''db'', bd_table = ''t'', bd_query = [],
     bd_columns = [\<lparr>col_name = ''state'', clickhouse_type = ''Enum8'', type_node = Node ''Enum8'' [] [] [] ''Enum8'',
       col_type = ENUM [''on'', ''off''], col_readable = True, default_kind = []\<rparr>],
     approx_rows = None, filter_pushdown = True, order_by_clause = [], limit_clause = []\<rparr>"

definition sample_label_filter :: duck_expr where
  "sample_label_filter = Comparison COMPARE_EQUAL (Constant (Varchar ''off''))
     (CastExpr False (BoundColumnRef 0 0 0 (ENUM [''on'', ''off''])) VARCHAR)"

theorem accepted_expressions_translate_witness:
  "ClickhousePushdownExpression duck_api_instance [Some 0] (Some sample_bind) sample_label_filter = Inr True \<and>
   (\<exists>i s. i < length (bd_columns sample_bind) \<and>
     TransformExpressionFilter duck_strings duck_api_instance (QuoteIdentifier (col_name (bd_columns sample_bind ! i)))
       (as_input sample_label_filter) = Inr s)"
proof -
  have acc: "ClickhousePushdownExpression duck_api_instance [Some 0] (Some sample_bind) sample_label_filter = Inr True"
    by code_simp
  moreover have "recognises_input duck_api_instance (as_input sample_label_filter)"
    by (simp add: recognises_input_def sample_label_filter_def IsRuntimeHintExpression_def duck_api_instance_def)
  ultimately show ?thesis
    using accepted_expressions_translate [OF duck_strings_ok duck_api_instance_ok, of "[Some 0]" sample_bind sample_label_filter]
    unfolding Let_def by blast
qed

end
