(* ===== verification/Connection.thy ===== *)
theory Connection
  imports ErrorCodes ConnConfig Pool DuckExpr
begin

text \<open>
  \<open>src/src/clickhouse_connection.cpp\<close> and \<open>src/src/storage/clickhouse_connection_pool.cpp\<close>: a connection
  to ClickHouse and what the pool of connections decides about it. The protocol client
  (\<open>clickhouse::Client\<close>) is not part of the repository: its calls are the parameter \<open>client_api\<close>, and
  what the code relies on of it is the hypothesis \<open>client_ok\<close>. Clock readings are arguments.
\<close>

section \<open>The protocol client\<close>

text \<open>What a call of the client can throw.\<close>

datatype client_failure = ServerFailure ch_exception | DuckFailure exn | StdFailure string

datatype setting_field = SettingsField (field_value: string) (important: bool)

text \<open>A query: its text and the calls of \<open>SetSetting\<close> on it, in order. The last one of a name counts.\<close>

record ch_query =
  query_text :: string
  set_settings :: "(string \<times> setting_field) list"

definition setting_of :: "ch_query \<Rightarrow> string \<Rightarrow> setting_field option" where
  "setting_of q name = map_of (rev (set_settings q)) name"

datatype compression_method = LZ4 | ZSTD | NoCompression

record ssl_options =
  ca_files :: "string list"
  use_default_ca :: "bool option"
  skip_verification :: bool

record client_options =
  opt_host :: string
  opt_port :: "16 word"
  opt_user :: string
  opt_password :: string
  opt_database :: string
  rethrow_exceptions :: bool
  send_retries :: nat
  tcp_keepalive :: bool
  connect_timeout :: nat
  recv_timeout :: nat
  compression_option :: compression_method
  ssl :: "ssl_options option"

record ('k, 'b) client_api =
  cl_connect :: "client_options \<Rightarrow> client_failure + 'k"
  IsSelecting :: "'k \<Rightarrow> bool"
  IsInserting :: "'k \<Rightarrow> bool"
  cl_BeginSelect :: "ch_query \<Rightarrow> 'k \<Rightarrow> (client_failure + unit) \<times> 'k"
  cl_NextBlock :: "'k \<Rightarrow> (client_failure + 'b option) \<times> 'k"
  cl_Cancel :: "'k \<Rightarrow> (client_failure + unit) \<times> 'k"
  cl_BeginInsert :: "ch_query \<Rightarrow> 'k \<Rightarrow> (client_failure + 'b) \<times> 'k"
  cl_SendInsertBlock :: "'b \<Rightarrow> 'k \<Rightarrow> (client_failure + unit) \<times> 'k"
  cl_EndInsert :: "'k \<Rightarrow> (client_failure + unit) \<times> 'k"
  cl_Ping :: "'k \<Rightarrow> (client_failure + unit) \<times> 'k"

text \<open>
  The states of the client: a query that has ended or was cancelled is not selecting, an insert that has
  ended is not inserting, a ping changes neither, and a select starts no insert.
\<close>

definition client_ok :: "('k, 'b) client_api \<Rightarrow> bool" where
  "client_ok K \<longleftrightarrow>
     (\<forall>k k'. cl_Ping K k = (Inr (), k') \<longrightarrow> IsSelecting K k' = IsSelecting K k \<and> IsInserting K k' = IsInserting K k) \<and>
     (\<forall>k k'. cl_Cancel K k = (Inr (), k') \<longrightarrow> \<not> IsSelecting K k' \<and> IsInserting K k' = IsInserting K k) \<and>
     (\<forall>q k r k'. cl_BeginSelect K q k = (r, k') \<longrightarrow> IsInserting K k' = IsInserting K k) \<and>
     (\<forall>k r k'. cl_NextBlock K k = (r, k') \<longrightarrow> IsInserting K k' = IsInserting K k) \<and>
     (\<forall>k k'. cl_NextBlock K k = (Inr None, k') \<longrightarrow> \<not> IsSelecting K k') \<and>
     (\<forall>k k'. cl_EndInsert K k = (Inr (), k') \<longrightarrow> \<not> IsInserting K k' \<and> IsSelecting K k' = IsSelecting K k)"

lemma client_okD:
  assumes "client_ok K"
  shows "cl_Ping K k = (Inr (), k') \<Longrightarrow> IsSelecting K k' = IsSelecting K k \<and> IsInserting K k' = IsInserting K k"
    and "cl_Cancel K k = (Inr (), k') \<Longrightarrow> \<not> IsSelecting K k' \<and> IsInserting K k' = IsInserting K k"
    and "cl_BeginSelect K q k = (r, k') \<Longrightarrow> IsInserting K k' = IsInserting K k"
    and "cl_NextBlock K k = (s, k') \<Longrightarrow> IsInserting K k' = IsInserting K k"
    and "cl_NextBlock K k = (Inr None, k') \<Longrightarrow> \<not> IsSelecting K k'"
    and "cl_EndInsert K k = (Inr (), k') \<Longrightarrow> \<not> IsInserting K k' \<and> IsSelecting K k' = IsSelecting K k"
  using assms unfolding client_ok_def by blast+

section \<open>Opening\<close>

record timeouts =
  connect_timeout_ms :: nat
  receive_timeout_ms :: nat

definition default_timeouts :: timeouts where
  "default_timeouts = \<lparr>connect_timeout_ms = 10000, receive_timeout_ms = 300000\<rparr>"

text \<open>A setting that is known and not NULL, read with \<open>UBigIntValue::Get\<close>, updates a field.\<close>

definition read_setting :: "(duck_value \<Rightarrow> nat res) \<Rightarrow> duck_value option \<Rightarrow> (nat \<Rightarrow> 'a) \<Rightarrow> 'a \<Rightarrow> 'a res" where
  "read_setting UBigIntValue_Get setting upd x =
     (case setting of
        Some v \<Rightarrow> if IsNull v then Inr x else bindE (UBigIntValue_Get v) (\<lambda>n. Inr (upd n))
      | None \<Rightarrow> Inr x)"

definition FromContext :: "(duck_value \<Rightarrow> nat res) \<Rightarrow> (string \<Rightarrow> duck_value option) \<Rightarrow> timeouts res" where
  "FromContext get current =
     bindE (read_setting get (current ''ch_connect_timeout_ms'')
              (\<lambda>n. default_timeouts\<lparr>connect_timeout_ms := n\<rparr>) default_timeouts)
       (\<lambda>t. read_setting get (current ''ch_receive_timeout_ms'') (\<lambda>n. t\<lparr>receive_timeout_ms := n\<rparr>) t)"

definition CA_CANDIDATES :: "string list" where
  "CA_CANDIDATES = [''/etc/ssl/certs/ca-certificates.crt'', ''/etc/pki/tls/certs/ca-bundle.crt'',
     ''/etc/ssl/ca-bundle.pem'', ''/etc/pki/tls/cacert.pem'',
     ''/etc/pki/ca-trust/extracted/pem/tls-ca-bundle.pem'', ''/etc/ssl/cert.pem'']"

text \<open>\<open>good\<close> says whether a file can be opened.\<close>

definition FindSystemCABundle :: "(string \<Rightarrow> bool) \<Rightarrow> string" where
  "FindSystemCABundle good = (case filter good CA_CANDIDATES of [] \<Rightarrow> [] | c # cs \<Rightarrow> c)"

text \<open>\<open>use_default_ca\<close> is \<open>None\<close> where the code leaves the client's default.\<close>

definition MakeClientOptions :: "(string \<Rightarrow> bool) \<Rightarrow> conn_config \<Rightarrow> timeouts \<Rightarrow> client_options" where
  "MakeClientOptions good config t =
     \<lparr>opt_host = host config, opt_port = GetPort config, opt_user = user config,
      opt_password = password config, opt_database = database config,
      rethrow_exceptions = True, send_retries = 1, tcp_keepalive = True,
      connect_timeout = connect_timeout_ms t, recv_timeout = receive_timeout_ms t,
      compression_option = (if compression config = ''lz4'' then LZ4
                            else if compression config = ''zstd'' then ZSTD else NoCompression),
      ssl = (if IsSecure config then
               Some (let files = (if ca_cert config \<noteq> [] then [ca_cert config]
                                  else let bundle = FindSystemCABundle good in if bundle \<noteq> [] then [bundle] else [])
                     in \<lparr>ca_files = files, use_default_ca = (if ca_cert config \<noteq> [] then Some False else None), skip_verification = skip_verify config\<rparr>)
             else None)\<rparr>"

record 'k conn =
  client :: 'k
  config :: conn_config
  broken :: bool
  last_used :: int

definition new_conn :: "int \<Rightarrow> 'k \<Rightarrow> conn_config \<Rightarrow> 'k conn" where
  "new_conn now k cfg = \<lparr>client = k, config = cfg, broken = False, last_used = now\<rparr>"

text \<open>\<open>ex.what()\<close> of a DuckDB exception is its message; here its arguments.\<close>

definition Open ::
  "string_util \<Rightarrow> ('k, 'b) client_api \<Rightarrow> (string \<Rightarrow> bool) \<Rightarrow> int \<Rightarrow> conn_config \<Rightarrow> timeouts \<Rightarrow> 'k conn res" where
  "Open U K good now cfg t =
     (let address = [host cfg, to_string (unat (GetPort cfg))]
      in case cl_connect K (MakeClientOptions good cfg t) of
           Inr k \<Rightarrow> Inr (new_conn now k cfg)
         | Inl (ServerFailure error) \<Rightarrow>
             Inl (Exn IOException ''Failed to connect to ClickHouse: ClickHouse error''
               (address @ [int_text (error_code error), ErrorCodeName U error, StripExceptionPrefix U (display_text error)]))
         | Inl (DuckFailure ex) \<Rightarrow> Inl (Exn IOException ''Failed to connect to ClickHouse'' (address @ exn_text ex # exn_args ex))
         | Inl (StdFailure what) \<Rightarrow> Inl (Exn IOException ''Failed to connect to ClickHouse'' (address @ [what])))"

section \<open>Queries\<close>

definition LOW_CARDINALITY_SETTING :: string where
  "LOW_CARDINALITY_SETTING = ''low_cardinality_allow_in_native_format''"

definition ExtensionQuerySettings :: "(string \<times> string) list" where
  "ExtensionQuerySettings =
    [(''transform_null_in'', ''0''),
     (''final'', ''0''),
     (''apply_deleted_mask'', ''1''),
     (''read_overflow_mode'', ''throw''),
     (''read_overflow_mode_leaf'', ''throw''),
     (''timeout_overflow_mode'', ''throw''),
     (''timeout_overflow_mode_leaf'', ''throw''),
     (''set_overflow_mode'', ''throw''),
     (''group_by_overflow_mode'', ''throw''),
     (''result_overflow_mode'', ''throw''),
     (''max_result_rows'', ''0''),
     (''max_result_bytes'', ''0''),
     (''additional_table_filters'', ''{}''),
     (''additional_result_filter'', []),
     (''limit'', ''0''),
     (''offset'', ''0''),
     (''use_query_cache'', ''0''),
     (''cast_ipv4_ipv6_default_on_conversion_error'', ''0''),
     (''type_json_skip_duplicated_paths'', ''0''),
     (''short_circuit_function_evaluation'', ''enable'')]"

definition MakeQuery :: "conn_config \<Rightarrow> string \<Rightarrow> (string \<times> string) list \<Rightarrow> ch_query" where
  "MakeQuery cfg sql query_settings =
     \<lparr>query_text = sql,
      set_settings = map (\<lambda>(name, value). (name, SettingsField value True)) (settings cfg) @
        map (\<lambda>(name, value). (name, SettingsField value False)) query_settings @
        [(LOW_CARDINALITY_SETTING, SettingsField ''0'' False)]\<rparr>"

text \<open>The exception that leaves a failed call, and whether the connection counts as broken after it.\<close>

definition RethrowAsDuckDBException ::
  "string_util \<Rightarrow> bool \<Rightarrow> string \<Rightarrow> client_failure \<Rightarrow> 'k conn \<Rightarrow> 'a res \<times> 'k conn" where
  "RethrowAsDuckDBException U debug_print_queries sql failure c =
     (let query_suffix = (if debug_print_queries \<and> sql \<noteq> [] then [CHR 0x0A] @ ''Query: '' @ sql else [])
      in case failure of
           ServerFailure error \<Rightarrow>
             (Inl (Exn IOException ''ClickHouse error''
                [int_text (error_code error), ErrorCodeName U error,
                 StripExceptionPrefix U (display_text error), query_suffix]), c)
         | DuckFailure ex \<Rightarrow> (Inl ex, c\<lparr>broken := True\<rparr>)
         | StdFailure what \<Rightarrow>
             (Inl (Exn IOException ''ClickHouse connection error''
                [host (config c), to_string (unat (GetPort (config c))), what, query_suffix]), c\<lparr>broken := True\<rparr>))"

definition BeginQuery ::
  "string_util \<Rightarrow> ('k, 'b) client_api \<Rightarrow> bool \<Rightarrow> int \<Rightarrow> string \<Rightarrow> (string \<times> string) list \<Rightarrow> 'k conn \<Rightarrow> unit res \<times> 'k conn" where
  "BeginQuery U K debug now sql query_settings c =
     (case cl_BeginSelect K (MakeQuery (config c) sql query_settings) (client c) of
        (Inr u, k) \<Rightarrow> (Inr (), c\<lparr>client := k, last_used := now\<rparr>)
      | (Inl failure, k) \<Rightarrow> RethrowAsDuckDBException U debug sql failure (c\<lparr>client := k, last_used := now\<rparr>))"

definition NextBlock ::
  "string_util \<Rightarrow> ('k, 'b) client_api \<Rightarrow> bool \<Rightarrow> int \<Rightarrow> 'k conn \<Rightarrow> 'b option res \<times> 'k conn" where
  "NextBlock U K debug now c =
     (case cl_NextBlock K (client c) of
        (Inr block, k) \<Rightarrow> (Inr block, c\<lparr>client := k, last_used := now\<rparr>)
      | (Inl failure, k) \<Rightarrow> RethrowAsDuckDBException U debug [] failure (c\<lparr>client := k\<rparr>))"

definition Cancel :: "('k, 'b) client_api \<Rightarrow> 'k conn \<Rightarrow> 'k conn" where
  "Cancel K c =
     (if \<not> IsSelecting K (client c) then c
      else (case cl_Cancel K (client c) of
              (Inr u, k) \<Rightarrow> c\<lparr>client := k\<rparr>
            | (Inl failure, k) \<Rightarrow> c\<lparr>client := k, broken := True\<rparr>))"

definition IsQueryRunning :: "('k, 'b) client_api \<Rightarrow> 'k conn \<Rightarrow> bool" where
  "IsQueryRunning K c = IsSelecting K (client c)"

text \<open>
  The loops read the clock once per block: \<open>clock n\<close> is the \<open>n\<close>-th reading. A server that never ends
  its query leaves them running, which is \<open>None\<close>.
\<close>

partial_function (option) QueryLoop ::
  "string_util \<Rightarrow> ('k, 'b) client_api \<Rightarrow> bool \<Rightarrow> (nat \<Rightarrow> int) \<Rightarrow> nat \<Rightarrow> 'b list \<Rightarrow> 'k conn \<Rightarrow>
     ('b list res \<times> 'k conn) option" where
  "QueryLoop U K debug clock n result c =
     (case NextBlock U K debug (clock n) c of
        (Inl ex, c') \<Rightarrow> Some (Inl ex, c')
      | (Inr None, c') \<Rightarrow> Some (Inr result, c')
      | (Inr (Some block), c') \<Rightarrow> QueryLoop U K debug clock (Suc n) (result @ [block]) c')"

definition Query ::
  "string_util \<Rightarrow> ('k, 'b) client_api \<Rightarrow> bool \<Rightarrow> (nat \<Rightarrow> int) \<Rightarrow> string \<Rightarrow> (string \<times> string) list \<Rightarrow> 'k conn \<Rightarrow>
     ('b list res \<times> 'k conn) option" where
  "Query U K debug clock sql query_settings c =
     (case BeginQuery U K debug (clock 0) sql query_settings c of
        (Inl ex, c') \<Rightarrow> Some (Inl ex, c')
      | (Inr u, c') \<Rightarrow> QueryLoop U K debug clock 1 [] c')"

partial_function (option) ExecuteLoop ::
  "string_util \<Rightarrow> ('k, 'b) client_api \<Rightarrow> ('b \<Rightarrow> nat) \<Rightarrow> bool \<Rightarrow> (nat \<Rightarrow> int) \<Rightarrow> nat \<Rightarrow> 'k conn \<Rightarrow>
     (bool res \<times> 'k conn) option" where
  "ExecuteLoop U K GetRowCount debug clock n c =
     (case NextBlock U K debug (clock n) c of
        (Inl ex, c') \<Rightarrow> Some (Inl ex, c')
      | (Inr None, c') \<Rightarrow> Some (Inr True, c')
      | (Inr (Some block), c') \<Rightarrow>
          if GetRowCount block > 0 then Some (Inr False, Cancel K c')
          else ExecuteLoop U K GetRowCount debug clock (Suc n) c')"

definition Execute ::
  "string_util \<Rightarrow> ('k, 'b) client_api \<Rightarrow> ('b \<Rightarrow> nat) \<Rightarrow> bool \<Rightarrow> (nat \<Rightarrow> int) \<Rightarrow> string \<Rightarrow> (string \<times> string) list \<Rightarrow>
     'k conn \<Rightarrow> (bool res \<times> 'k conn) option" where
  "Execute U K GetRowCount debug clock sql query_settings c =
     (case BeginQuery U K debug (clock 0) sql query_settings c of
        (Inl ex, c') \<Rightarrow> Some (Inl ex, c')
      | (Inr u, c') \<Rightarrow> ExecuteLoop U K GetRowCount debug clock 1 c')"

section \<open>Inserts\<close>

definition BeginInsert ::
  "string_util \<Rightarrow> ('k, 'b) client_api \<Rightarrow> bool \<Rightarrow> int \<Rightarrow> string \<Rightarrow> (string \<times> string) list \<Rightarrow> 'k conn \<Rightarrow> 'b res \<times> 'k conn" where
  "BeginInsert U K debug now sql query_settings c =
     (case cl_BeginInsert K (MakeQuery (config c) sql query_settings) (client c) of
        (Inr header, k) \<Rightarrow> (Inr header, c\<lparr>client := k, last_used := now\<rparr>)
      | (Inl failure, k) \<Rightarrow>
          RethrowAsDuckDBException U debug sql failure (c\<lparr>client := k, last_used := now, broken := True\<rparr>))"

definition SendInsertBlock ::
  "string_util \<Rightarrow> ('k, 'b) client_api \<Rightarrow> bool \<Rightarrow> int \<Rightarrow> 'b \<Rightarrow> 'k conn \<Rightarrow> unit res \<times> 'k conn" where
  "SendInsertBlock U K debug now block c =
     (case cl_SendInsertBlock K block (client c) of
        (Inr u, k) \<Rightarrow> (Inr (), c\<lparr>client := k, last_used := now\<rparr>)
      | (Inl failure, k) \<Rightarrow>
          RethrowAsDuckDBException U debug [] failure (c\<lparr>client := k, last_used := now, broken := True\<rparr>))"

definition EndInsert :: "string_util \<Rightarrow> ('k, 'b) client_api \<Rightarrow> bool \<Rightarrow> int \<Rightarrow> 'k conn \<Rightarrow> unit res \<times> 'k conn" where
  "EndInsert U K debug now c =
     (case cl_EndInsert K (client c) of
        (Inr u, k) \<Rightarrow> (Inr (), c\<lparr>client := k, last_used := now\<rparr>)
      | (Inl failure, k) \<Rightarrow>
          RethrowAsDuckDBException U debug [] failure (c\<lparr>client := k, last_used := now, broken := True\<rparr>))"

definition AbortInsert :: "('k, 'b) client_api \<Rightarrow> 'k conn \<Rightarrow> 'k conn" where
  "AbortInsert K c = (if IsInserting K (client c) then c\<lparr>broken := True\<rparr> else c)"

section \<open>Health\<close>

text \<open>Thirty seconds, in nanoseconds.\<close>

definition PING_AFTER_IDLE :: int where "PING_AFTER_IDLE = 30000000000"

definition IsHealthy :: "('k, 'b) client_api \<Rightarrow> int \<Rightarrow> 'k conn \<Rightarrow> bool \<times> 'k conn" where
  "IsHealthy K now c =
     (if broken c \<or> IsSelecting K (client c) \<or> IsInserting K (client c) then (False, c)
      else if now - last_used c < PING_AFTER_IDLE then (True, c)
      else (case cl_Ping K (client c) of
              (Inr u, k) \<Rightarrow> (True, c\<lparr>client := k, last_used := now\<rparr>)
            | (Inl failure, k) \<Rightarrow> (False, c\<lparr>client := k, broken := True\<rparr>)))"

section \<open>The pool's decisions\<close>

definition CheckConnectionHealthy :: "('k, 'b) client_api \<Rightarrow> int \<Rightarrow> 'k conn \<Rightarrow> bool \<times> 'k conn" where
  "CheckConnectionHealthy K now c = IsHealthy K now c"

definition ResetConnection :: "('k, 'b) client_api \<Rightarrow> 'k conn \<Rightarrow> 'k conn" where
  "ResetConnection K c = (if IsQueryRunning K c then Cancel K c else c)"

definition TryRecoverConnection :: "('k, 'b) client_api \<Rightarrow> 'k conn \<Rightarrow> bool \<times> 'k conn" where
  "TryRecoverConnection K c =
     (let c' = (if IsQueryRunning K c then Cancel K c else c)
      in (\<not> broken c' \<and> \<not> IsQueryRunning K c' \<and> \<not> IsInserting K (client c'), c'))"

definition PoolConfigFromContext ::
  "(duck_value \<Rightarrow> string) \<Rightarrow> (duck_value \<Rightarrow> nat res) \<Rightarrow> nat \<Rightarrow> (string \<Rightarrow> duck_value option) \<Rightarrow> pool_config res" where
  "PoolConfigFromContext ToString get detected current =
     bindE (case current ''ch_pool_acquire_mode'' of
              None \<Rightarrow> Inr (default_config detected)
            | Some v \<Rightarrow> if IsNull v then Inr (default_config detected)
                else (case mode_FromString (ToString v) of
                        Inr mode \<Rightarrow> Inr ((default_config detected)\<lparr>cfg_acquire_mode := mode\<rparr>)
                      | Inl ex \<Rightarrow> Inl (Exn InvalidInputException
                          ''Invalid ch_pool_acquire_mode: expected force, wait or try'' [ToString v])))
     (\<lambda>r. bindE (read_setting get (current ''ch_pool_max_connections'') (\<lambda>n. r\<lparr>cfg_max_connections := n\<rparr>) r)
     (\<lambda>r. bindE (read_setting get (current ''ch_pool_wait_timeout_millis'') (\<lambda>n. r\<lparr>cfg_wait_timeout_millis := n\<rparr>) r)
     (\<lambda>r. read_setting get (current ''ch_pool_idle_timeout_millis'') (\<lambda>n. r\<lparr>cfg_idle_timeout_millis := n\<rparr>) r)))"

section \<open>Which settings a query runs with\<close>

text \<open>
  The settings a query runs with, whatever the connection and the caller ask for: the
  low-cardinality encoding stays off; every other setting the caller names has the caller's last value,
  and a server that does not know it may ignore it; a setting only the connection names has its last
  value there and is important; nothing else is set.
\<close>

theorem MakeQuery_settings:
  "setting_of (MakeQuery cfg sql query_settings) name =
     (if name = LOW_CARDINALITY_SETTING then Some (SettingsField ''0'' False)
      else (case map_of (rev query_settings) name of
              Some v \<Rightarrow> Some (SettingsField v False)
            | None \<Rightarrow> map_option (\<lambda>v. SettingsField v True) (map_of (rev (settings cfg)) name)))"
proof -
  have pairs: "map_of (rev (map (\<lambda>(n, v). (n, SettingsField v b)) xs)) name =
      map_option (\<lambda>v. SettingsField v b) (map_of (rev xs) name)" for b xs
    by (induction xs) (auto simp: map_add_def split: option.splits)
  show ?thesis
    by (auto simp: setting_of_def MakeQuery_def pairs map_add_def split: option.splits)
qed

section \<open>What the pool keeps\<close>

text \<open>The decisions of a pool's subclass, and when a connection can be handed out again.\<close>

locale pooled_resource =
  fixes check :: "'c \<Rightarrow> bool \<times> 'c" and recover :: "'c \<Rightarrow> bool \<times> 'c"
    and reset :: "'c \<Rightarrow> 'c" and usable :: "'c \<Rightarrow> bool"
  assumes check_usable: "check c = (True, c') \<Longrightarrow> usable c'"
    and recover_usable: "recover c = (True, c') \<Longrightarrow> usable c'"
    and reset_usable: "usable c \<Longrightarrow> usable (reset c)"
begin

lemma kept_usable:
  assumes "check c = (healthy, c1)" and "(if healthy then (False, c1) else recover c1) = (recovered, c2)"
    and "Keepable now created healthy recovered reset_ok p"
  shows "usable (reset c2)"
  using assms check_usable recover_usable reset_usable
  by (auto simp: Keepable_def split: if_splits)

end

definition idle :: "('k, 'b) client_api \<Rightarrow> 'k conn \<Rightarrow> bool" where
  "idle K c \<longleftrightarrow> \<not> broken c \<and> \<not> IsSelecting K (client c) \<and> \<not> IsInserting K (client c)"

lemma Cancel_cases:
  assumes "client_ok K" and "\<not> broken (Cancel K c)"
  shows "\<not> broken c \<and> \<not> IsSelecting K (client (Cancel K c)) \<and>
    IsInserting K (client (Cancel K c)) = IsInserting K (client c)"
proof (cases "IsSelecting K (client c)")
  case True
  obtain r k where r: "cl_Cancel K (client c) = (r, k)" by fastforce
  with True assms(2) have "r = Inr ()" by (cases r) (auto simp: Cancel_def)
  with r have r': "cl_Cancel K (client c) = (Inr (), k)" by simp
  with True have c: "Cancel K c = c\<lparr>client := k\<rparr>" by (simp add: Cancel_def)
  from client_okD(2) [OF assms(1) r'] assms(2) show ?thesis unfolding c by simp
qed (use assms(2) in \<open>simp add: Cancel_def\<close>)

lemma IsHealthy_idle:
  assumes "client_ok K" and "IsHealthy K now c = (True, c')"
  shows "idle K c'"
proof (cases "now - last_used c < PING_AFTER_IDLE")
  case True
  with assms(2) show ?thesis by (auto simp: IsHealthy_def idle_def split: if_splits)
next
  case False
  obtain r k where r: "cl_Ping K (client c) = (r, k)" by fastforce
  with False assms(2) have "r = Inr ()" and c: "\<not> broken c" "\<not> IsSelecting K (client c)" "\<not> IsInserting K (client c)"
    by (auto simp: IsHealthy_def split: if_splits sum.splits)
  with False assms(2) r have "c' = c\<lparr>client := k, last_used := now\<rparr>" by (simp add: IsHealthy_def)
  with c client_okD(1) [OF assms(1) r [unfolded \<open>r = Inr ()\<close>]] show ?thesis by (simp add: idle_def)
qed

lemma TryRecover_idle: "TryRecoverConnection K c = (True, c') \<Longrightarrow> idle K c'"
  by (auto simp: TryRecoverConnection_def idle_def IsQueryRunning_def Let_def)

lemma Reset_idle: "idle K c \<Longrightarrow> ResetConnection K c = c"
  by (simp add: ResetConnection_def IsQueryRunning_def idle_def)

interpretation pooled: pooled_resource "CheckConnectionHealthy K now" "TryRecoverConnection K" "ResetConnection K"
    "\<lambda>c. client_ok K \<longrightarrow> idle K c" for K :: "('k, 'b) client_api" and now
  by unfold_locales (simp_all add: CheckConnectionHealthy_def IsHealthy_idle TryRecover_idle Reset_idle)

text \<open>
  \<open>Return\<close> of a pool of ClickHouse connections: the checks are made in this order, the recovery only when
  the health check fails. Nothing they do can throw.
\<close>

definition ReturnConnection ::
  "('k, 'b) client_api \<Rightarrow> int \<Rightarrow> 'k conn \<Rightarrow> int \<Rightarrow> 'k conn tl_cache \<Rightarrow> 'k conn pool \<Rightarrow> 'k conn tl_cache \<times> 'k conn pool" where
  "ReturnConnection K clock c created cache p =
     (let (healthy, c1) = CheckConnectionHealthy K clock c;
          (recovered, c2) = (if healthy then (False, c1) else TryRecoverConnection K c1)
      in Return clock (ResetConnection K c2) created healthy recovered True cache p)"

definition kept :: "'c tl_cache \<Rightarrow> 'c pool \<Rightarrow> 'c set" where
  "kept cache p = connection ` set (available p) \<union> (case cached_conn cache of None \<Rightarrow> {} | Some c \<Rightarrow> {connection c})"

lemma Return_kept:
  assumes "Return clock conn created healthy recovered reset_ok cache p = (cache', p')"
  shows "kept cache' p' \<subseteq> kept cache p \<union>
    (if Keepable (GetNowForTimeoutPurposes p clock) created healthy recovered reset_ok p then {conn} else {})"
  using assms
  by (auto simp: Return_def Let_def kept_def TryReturnToThreadLocal_def ReturnLocked_def Discard_def
      DecrementTotalConnections_def set_available_def split: if_splits option.splits)

text \<open>
  C28. A connection the pool gets back is kept, whether in the pool or in the cache of the thread, only
  when it can run a new query: it is not broken and its client is neither selecting nor inserting, also
  when the query that was still running had to be cancelled. Every other connection is closed.
\<close>

theorem kept_connections_idle:
  assumes "client_ok K" and "\<forall>c\<in>kept cache p. idle K c" and "ReturnConnection K clock c created cache p = (cache', p')"
  shows "\<forall>c\<in>kept cache' p'. idle K c"
proof -
  obtain healthy c1 where 1: "CheckConnectionHealthy K clock c = (healthy, c1)" by fastforce
  obtain recovered c2 where 2: "(if healthy then (False, c1) else TryRecoverConnection K c1) = (recovered, c2)"
    by fastforce
  from assms(3) 1 2 have "Return clock (ResetConnection K c2) created healthy recovered True cache p = (cache', p')"
    by (auto simp: ReturnConnection_def)
  from Return_kept [OF this] pooled.kept_usable [OF 1 2] assms(1,2) show ?thesis
    by (fastforce split: if_splits)
qed

section \<open>Failures\<close>

definition breaks :: "bool \<Rightarrow> client_failure \<Rightarrow> bool" where
  "breaks inserting failure = (case failure of ServerFailure error \<Rightarrow> inserting | _ \<Rightarrow> True)"

definition fails_as :: "client_failure \<Rightarrow> 'a res \<Rightarrow> bool" where
  "fails_as failure r = (\<exists>ex. r = Inl ex \<and> (case failure of DuckFailure e \<Rightarrow> ex = e | _ \<Rightarrow> exn_kind ex = IOException))"

text \<open>How the result of an operation on a connection relates to that of the client's call.\<close>

definition passes_on :: "bool \<Rightarrow> 'k conn \<Rightarrow> (client_failure + 'a) \<times> 'k \<Rightarrow> 'a res \<times> 'k conn \<Rightarrow> bool" where
  "passes_on inserting c call result =
     (client (snd result) = snd call \<and> config (snd result) = config c \<and>
      (case fst call of
         Inr x \<Rightarrow> fst result = Inr x \<and> broken (snd result) = broken c
       | Inl failure \<Rightarrow> fails_as failure (fst result) \<and> broken (snd result) = (broken c \<or> breaks inserting failure)))"

lemma Rethrow_passes_on:
  "passes_on False c (Inl failure, client c) (RethrowAsDuckDBException U debug sql failure c)"
  by (cases failure) (simp_all add: RethrowAsDuckDBException_def passes_on_def fails_as_def breaks_def)

lemma rethrown:
  assumes "client c' = k" "config c' = config c" and "broken c' = (broken c \<or> inserting)"
  shows "passes_on inserting c (Inl failure, k) (RethrowAsDuckDBException U debug sql failure c')"
  using Rethrow_passes_on [of c' failure U debug sql] assms by (cases failure) (auto simp: passes_on_def breaks_def)

lemma passes_on_success: "client c' = k \<Longrightarrow> config c' = config c \<Longrightarrow> broken c' = broken c \<Longrightarrow> passes_on b c (Inr x, k) (Inr x, c')"
  by (simp add: passes_on_def)

text \<open>
  When a connection counts as broken after a failure: an error the server reports leaves it usable,
  except during an insert, a state the client cannot leave; any other failure breaks it. No operation
  repairs a broken connection, and one that succeeds breaks none. Apart from DuckDB's own exceptions,
  which pass through, the error is an \<open>IOException\<close>; the result of a call that succeeds is passed on.
\<close>

theorem failures_break:
  "passes_on False c (cl_BeginSelect K (MakeQuery (config c) sql qs) (client c)) (BeginQuery U K debug now sql qs c) \<and>
   passes_on False c (cl_NextBlock K (client c)) (NextBlock U K debug now c) \<and>
   passes_on True c (cl_BeginInsert K (MakeQuery (config c) sql qs) (client c)) (BeginInsert U K debug now sql qs c) \<and>
   passes_on True c (cl_SendInsertBlock K b (client c)) (SendInsertBlock U K debug now b c) \<and>
   passes_on True c (cl_EndInsert K (client c)) (EndInsert U K debug now c)"
proof (intro conjI)
  show "passes_on False c (cl_BeginSelect K (MakeQuery (config c) sql qs) (client c)) (BeginQuery U K debug now sql qs c)"
    by (cases "cl_BeginSelect K (MakeQuery (config c) sql qs) (client c)"; cases "fst (cl_BeginSelect K (MakeQuery (config c) sql qs) (client c))") (simp_all add: BeginQuery_def passes_on_success rethrown)
  show "passes_on False c (cl_NextBlock K (client c)) (NextBlock U K debug now c)"
    by (cases "cl_NextBlock K (client c)"; cases "fst (cl_NextBlock K (client c))") (simp_all add: NextBlock_def passes_on_success rethrown)
  show "passes_on True c (cl_BeginInsert K (MakeQuery (config c) sql qs) (client c)) (BeginInsert U K debug now sql qs c)"
    by (cases "cl_BeginInsert K (MakeQuery (config c) sql qs) (client c)"; cases "fst (cl_BeginInsert K (MakeQuery (config c) sql qs) (client c))") (simp_all add: BeginInsert_def passes_on_success rethrown)
  show "passes_on True c (cl_SendInsertBlock K b (client c)) (SendInsertBlock U K debug now b c)"
    by (cases "cl_SendInsertBlock K b (client c)"; cases "fst (cl_SendInsertBlock K b (client c))") (simp_all add: SendInsertBlock_def passes_on_success rethrown)
  show "passes_on True c (cl_EndInsert K (client c)) (EndInsert U K debug now c)"
    by (cases "cl_EndInsert K (client c)"; cases "fst (cl_EndInsert K (client c))") (simp_all add: EndInsert_def passes_on_success rethrown)
qed

section \<open>Results\<close>

text \<open>
  \<open>streams K k bs r k'\<close>: from the state \<open>k\<close> on, the client returns the blocks \<open>bs\<close> and then ends, with a
  failure or at the end of the query.
\<close>

inductive streams :: "('k, 'b) client_api \<Rightarrow> 'k \<Rightarrow> 'b list \<Rightarrow> client_failure option \<Rightarrow> 'k \<Rightarrow> bool" for K where
  stream_end: "cl_NextBlock K k = (Inr None, k') \<Longrightarrow> streams K k [] None k'"
| stream_fail: "cl_NextBlock K k = (Inl failure, k') \<Longrightarrow> streams K k [] (Some failure) k'"
| stream_block: "cl_NextBlock K k = (Inr (Some b), k1) \<Longrightarrow> streams K k1 bs r k' \<Longrightarrow> streams K k (b # bs) r k'"

definition stream_result :: "client_failure option \<Rightarrow> 'a \<Rightarrow> client_failure + 'a" where
  "stream_result r x = (case r of None \<Rightarrow> Inr x | Some failure \<Rightarrow> Inl failure)"

lemma stream_result_simps [simp]: "stream_result None x = Inr x" "stream_result (Some f) x = Inl f"
  by (simp_all add: stream_result_def)

lemma NextBlock_success:
  "cl_NextBlock K (client c) = (Inr x, k) \<Longrightarrow> NextBlock U K debug now c = (Inr x, c\<lparr>client := k, last_used := now\<rparr>)"
  by (simp add: NextBlock_def)

lemma NextBlock_failure:
  "cl_NextBlock K (client c) = (Inl f, k) \<Longrightarrow>
     NextBlock U K debug now c = RethrowAsDuckDBException U debug [] f (c\<lparr>client := k\<rparr>)"
  by (simp add: NextBlock_def)

lemma Rethrow_Inl: "\<exists>ex c'. RethrowAsDuckDBException U debug sql f c = (Inl ex, c')"
  by (cases f) (simp_all add: RethrowAsDuckDBException_def)

lemma passes_on_conn [simp]: "passes_on b (c\<lparr>client := k, last_used := t\<rparr>) call result = passes_on b c call result"
  by (simp add: passes_on_def split: sum.split)

text \<open>A failure passes through a result of another type.\<close>

lemma rethrown_result:
  assumes "client c' = k" "config c' = config c" "broken c' = broken c"
    and "RethrowAsDuckDBException U debug sql failure c' = (Inl ex :: 'a res, c'')"
  shows "passes_on False c (Inl failure, k) (Inl ex :: 'b res, c'')"
  using rethrown [of c' k c False failure U debug sql, where 'b = 'a] assms by (auto simp: passes_on_def fails_as_def)

lemma QueryLoop_streams:
  assumes "streams K k bs r k'" and "client c = k"
  shows "\<exists>result. QueryLoop U K debug clock n acc c = Some result \<and> passes_on False c (stream_result r (acc @ bs), k') result"
  using assms
proof (induction arbitrary: c n acc rule: streams.induct)
  case (stream_end k k')
  then show ?case
    by (subst QueryLoop.simps) (simp add: NextBlock_success passes_on_def)
next
  case (stream_fail k failure k')
  obtain ex c' where r: "RethrowAsDuckDBException U debug [] failure (c\<lparr>client := k'\<rparr>) = (Inl ex :: 'b option res, c')"
    using Rethrow_Inl by blast
  from rethrown_result [OF _ _ _ r, of k' c] have "passes_on False c (Inl failure, k') (Inl ex :: 'b list res, c')" by simp
  with stream_fail r show ?case
    by (subst QueryLoop.simps) (simp add: NextBlock_failure)
next
  case (stream_block k b k1 bs r k')
  from stream_block.IH [of "c\<lparr>client := k1, last_used := clock n\<rparr>" "Suc n" "acc @ [b]"] stream_block.hyps(1) stream_block.prems
  show ?case
    by (subst QueryLoop.simps) (simp add: NextBlock_success)
qed

text \<open>
  C32. \<open>Query\<close> ends whenever the server ends its answer, and returns every block of it in order; a
  failure on the way replaces the result, with the connection broken as for \<open>NextBlock\<close>. A query that
  ended normally leaves a connection that was idle idle.
\<close>

theorem Query_returns_blocks:
  assumes "cl_BeginSelect K (MakeQuery (config c) sql qs) (client c) = (Inr (), k)" and "streams K k bs r k'"
  shows "\<exists>result. Query U K debug clock sql qs c = Some result \<and> passes_on False c (stream_result r bs, k') result \<and>
    (client_ok K \<and> idle K c \<and> r = None \<longrightarrow> fst result = Inr bs \<and> idle K (snd result))"
proof -
  let ?c = "c\<lparr>client := k, last_used := clock 0\<rparr>"
  from QueryLoop_streams [OF assms(2), of ?c U debug clock 1 "[]"]
  obtain result where result: "QueryLoop U K debug clock 1 [] ?c = Some result" "passes_on False ?c (stream_result r bs, k') result"
    by auto
  have ends: "IsInserting K k' = IsInserting K (client c) \<and> \<not> IsSelecting K k'" if "client_ok K" "r = None"
  proof -
    from assms(2) that have "IsInserting K k' = IsInserting K k \<and> \<not> IsSelecting K k'"
      by (induction rule: streams.induct) (auto dest: client_okD(4,5))
    moreover from client_okD(3) [OF that(1) assms(1)] have "IsInserting K k = IsInserting K (client c)" .
    ultimately show ?thesis by simp
  qed
  have "Query U K debug clock sql qs c = Some result"
    using result(1) assms(1) by (simp add: Query_def BeginQuery_def)
  moreover have "passes_on False c (stream_result r bs, k') result"
    using result(2) by simp
  moreover have "fst result = Inr bs \<and> idle K (snd result)" if "client_ok K \<and> idle K c \<and> r = None"
    using result(2) ends that by (simp add: passes_on_def idle_def)
  ultimately show ?thesis by blast
qed

lemma Cancel_idle: "client_ok K \<Longrightarrow> \<not> IsInserting K (client c) \<Longrightarrow> broken (Cancel K c) \<or> idle K (Cancel K c)"
  using Cancel_cases [of K c] by (auto simp: idle_def)

lemma ExecuteLoop_streams:
  assumes "streams K k bs r k'" and "r = None" and "client c = k"
  shows "\<exists>c'. ExecuteLoop U K rows debug clock n c = Some (Inr (\<forall>b\<in>set bs. rows b = 0), c') \<and>
    (client_ok K \<and> \<not> broken c \<and> \<not> IsInserting K k \<longrightarrow> broken c' \<or> idle K c')"
  using assms
proof (induction arbitrary: c n rule: streams.induct)
  case (stream_end k k')
  then show ?case
    by (subst ExecuteLoop.simps) (auto simp: NextBlock_success idle_def client_okD(4,5))
next
  case (stream_block k b k1 bs r k')
  let ?c = "c\<lparr>client := k1, last_used := clock n\<rparr>"
  show ?case
  proof (cases "rows b > 0")
    case True
    then have "ExecuteLoop U K rows debug clock n c = Some (Inr False, Cancel K ?c)"
      using stream_block.hyps(1) stream_block.prems(2) by (subst ExecuteLoop.simps) (simp add: NextBlock_success)
    moreover have "broken (Cancel K ?c) \<or> idle K (Cancel K ?c)" if "client_ok K" "\<not> IsInserting K k"
      using Cancel_idle [OF that(1), of ?c] client_okD(4) [OF that(1) stream_block.hyps(1)] that(2) by simp
    ultimately show ?thesis using True by auto
  next
    case False
    from stream_block.IH [OF stream_block.prems(1), of ?c "Suc n"] obtain c' where
      c': "ExecuteLoop U K rows debug clock (Suc n) ?c = Some (Inr (\<forall>b\<in>set bs. rows b = 0), c')"
      "client_ok K \<and> \<not> broken ?c \<and> \<not> IsInserting K k1 \<longrightarrow> broken c' \<or> idle K c'" by auto
    have "ExecuteLoop U K rows debug clock n c = Some (Inr (\<forall>b\<in>set (b # bs). rows b = 0), c')"
      using False c'(1) stream_block.hyps(1) stream_block.prems(2) by (subst ExecuteLoop.simps) (simp add: NextBlock_success)
    moreover have "broken c' \<or> idle K c'" if "client_ok K" "\<not> broken c" "\<not> IsInserting K k"
      using c'(2) that client_okD(4) [OF that(1) stream_block.hyps(1)] by simp
    ultimately show ?thesis by blast
  qed
qed simp

text \<open>
  \<open>Execute\<close> is true of a statement exactly when the server returns no row: it reads the answer to
  its end when all blocks are empty, and otherwise stops at the first block with rows, cancels the rest
  and returns false.
\<close>

theorem Execute_reports_rows:
  assumes "cl_BeginSelect K (MakeQuery (config c) sql qs) (client c) = (Inr (), k)" and "streams K k bs None k'"
  shows "\<exists>c'. Execute U K rows debug clock sql qs c = Some (Inr (\<forall>b\<in>set bs. rows b = 0), c') \<and>
    (client_ok K \<and> idle K c \<longrightarrow> broken c' \<or> idle K c')"
proof -
  let ?c = "c\<lparr>client := k, last_used := clock 0\<rparr>"
  from ExecuteLoop_streams [OF assms(2) refl, of ?c U rows debug clock 1]
  obtain c' where c': "ExecuteLoop U K rows debug clock 1 ?c = Some (Inr (\<forall>b\<in>set bs. rows b = 0), c')"
    "client_ok K \<Longrightarrow> \<not> broken ?c \<Longrightarrow> \<not> IsInserting K k \<Longrightarrow> broken c' \<or> idle K c'" by auto
  have "Execute U K rows debug clock sql qs c = Some (Inr (\<forall>b\<in>set bs. rows b = 0), c')"
    using c'(1) assms(1) by (simp add: Execute_def BeginQuery_def)
  moreover have "broken c' \<or> idle K c'" if "client_ok K" "idle K c"
    using c'(2) that client_okD(3) [OF that(1) assms(1)] by (simp add: idle_def)
  ultimately show ?thesis by blast
qed

section \<open>A scripted client\<close>

text \<open>A client with the documented states whose server answers from a script; a block is its row count.\<close>

record script_client =
  selecting :: bool
  inserting :: bool
  script :: "(client_failure + nat option) list"

definition scripted :: "(script_client, nat) client_api" where
  "scripted = \<lparr>cl_connect = (\<lambda>options. Inr \<lparr>selecting = False, inserting = False, script = []\<rparr>),
     IsSelecting = selecting, IsInserting = inserting,
     cl_BeginSelect = (\<lambda>q k. (Inr (), k\<lparr>selecting := True\<rparr>)),
     cl_NextBlock = (\<lambda>k. case script k of
         [] \<Rightarrow> (Inr None, k\<lparr>selecting := False\<rparr>)
       | Inr (Some b) # os \<Rightarrow> (Inr (Some b), k\<lparr>script := os\<rparr>)
       | r # os \<Rightarrow> (r, k\<lparr>selecting := False, script := os\<rparr>)),
     cl_Cancel = (\<lambda>k. (Inr (), k\<lparr>selecting := False, script := []\<rparr>)),
     cl_BeginInsert = (\<lambda>q k. (Inr 0, k\<lparr>inserting := True\<rparr>)),
     cl_SendInsertBlock = (\<lambda>b k. (Inr (), k)),
     cl_EndInsert = (\<lambda>k. (Inr (), k\<lparr>inserting := False\<rparr>)),
     cl_Ping = (\<lambda>k. (Inr (), k))\<rparr>"

lemma scripted_ok: "client_ok scripted"
  by (auto simp: client_ok_def scripted_def split: list.splits sum.splits option.splits)

definition sample_conn :: "(client_failure + nat option) list \<Rightarrow> script_client conn" where
  "sample_conn os = new_conn 0 \<lparr>selecting = False, inserting = False, script = os\<rparr> initial_config"

lemma sample_stream:
  "streams scripted (\<lparr>selecting = True, inserting = False, script = [Inr (Some 0), Inr (Some 2), Inr None]\<rparr>) [0, 2] None
     \<lparr>selecting = False, inserting = False, script = []\<rparr>"
  by (rule stream_block, simp add: scripted_def, rule stream_block, simp add: scripted_def,
      rule stream_end, simp add: scripted_def)

theorem kept_connections_idle_witness:
  "let c = (sample_conn [])\<lparr>client := \<lparr>selecting = True, inserting = False, script = []\<rparr>\<rparr>;
       (cache', p') = ReturnConnection scripted 1 c 0 empty_tl (new_pool (default_config 8))
   in kept cache' p' \<noteq> {} \<and> (\<forall>c\<in>kept cache' p'. idle scripted c)"
proof -
  let ?c = "(sample_conn [])\<lparr>client := \<lparr>selecting = True, inserting = False, script = []\<rparr>\<rparr>"
  let ?p = "new_pool (default_config 8) :: script_client conn pool"
  obtain cache' p' where r: "ReturnConnection scripted 1 ?c 0 empty_tl ?p = (cache', p')" by fastforce
  have "\<forall>c\<in>kept empty_tl ?p. idle scripted c"
    by (simp add: kept_def empty_tl_def new_pool_def default_config_def EnsureReaperRunning_def Let_def split: if_splits)
  from kept_connections_idle [OF scripted_ok this r] have "\<forall>c\<in>kept cache' p'. idle scripted c" .
  moreover have "kept cache' p' \<noteq> {}"
    using r by (auto simp: ReturnConnection_def CheckConnectionHealthy_def IsHealthy_def TryRecoverConnection_def
        IsQueryRunning_def ResetConnection_def Cancel_def scripted_def sample_conn_def new_conn_def Let_def kept_def
        empty_tl_def new_pool_def default_config_def EnsureReaperRunning_def DefaultPoolSize_def Return_def
        GetNowForTimeoutPurposes_def TimeoutEnabled_def Keepable_def IsExpiredSince_def TimePointExpired_def
        TryReturnToThreadLocal_def ReturnLocked_def set_available_def split: if_splits)
  ultimately show ?thesis using r by (simp add: Let_def)
qed

theorem Query_returns_blocks_witness:
  "\<exists>c'. Query duck_strings scripted False (\<lambda>n. int n) ''SELECT 1'' [] (sample_conn [Inr (Some 0), Inr (Some 2), Inr None]) =
     Some (Inr [0, 2], c') \<and> idle scripted c'"
proof -
  let ?c = "sample_conn [Inr (Some 0), Inr (Some 2), Inr None]"
  have "cl_BeginSelect scripted (MakeQuery (config ?c) ''SELECT 1'' []) (client ?c) =
     (Inr (), \<lparr>selecting = True, inserting = False, script = [Inr (Some 0), Inr (Some 2), Inr None]\<rparr>)"
    by (simp add: sample_conn_def new_conn_def scripted_def)
  from Query_returns_blocks [OF this sample_stream, of duck_strings False "\<lambda>n. int n"]
  show ?thesis using scripted_ok by (force simp: idle_def sample_conn_def new_conn_def scripted_def)
qed

theorem Execute_reports_rows_witness:
  "\<exists>c'. Execute duck_strings scripted (\<lambda>b. b) False (\<lambda>n. int n) ''DROP TABLE t'' []
     (sample_conn [Inr (Some 0), Inr (Some 2), Inr None]) = Some (Inr False, c')"
proof -
  let ?c = "sample_conn [Inr (Some 0), Inr (Some 2), Inr None]"
  have "cl_BeginSelect scripted (MakeQuery (config ?c) ''DROP TABLE t'' []) (client ?c) =
     (Inr (), \<lparr>selecting = True, inserting = False, script = [Inr (Some 0), Inr (Some 2), Inr None]\<rparr>)"
    by (simp add: sample_conn_def new_conn_def scripted_def)
  from Execute_reports_rows [OF this sample_stream, of duck_strings "\<lambda>b. b" False "\<lambda>n. int n"]
  show ?thesis by auto
qed

end
