(* ===== verification/Tables.thy ===== *)
theory Tables
  imports CatalogSet Scan Connection
begin

text \<open>
  The tables and databases of an attached catalog: \<open>src/src/storage/clickhouse_table_set.cpp\<close> and
  \<open>clickhouse_schema_set.cpp\<close> (what a cache is loaded with), \<open>clickhouse_table_entry.cpp\<close>, and the
  database choices of \<open>clickhouse_catalog.cpp\<close>. The answers of the server are lists of rows.
\<close>

section \<open>Table entries\<close>

record table_entry =
  te_schema :: string
  te_name :: string
  te_columns :: "(string \<times> logical_type) list"
  te_not_null :: "nat list"
  clickhouse_columns :: "column_info list"
  te_approx_rows :: "nat option"
  engine :: string
  column_collision :: string

definition ThrowIfColumnsCollide :: "table_entry \<Rightarrow> unit res" where
  "ThrowIfColumnsCollide t =
     (if column_collision t = [] then Inr ()
      else Inl (Exn InvalidInputException ''ClickHouse table has columns whose names differ only in case''
        [te_schema t, te_name t, column_collision t]))"

definition IsViewLike :: "table_entry \<Rightarrow> bool" where
  "IsViewLike t \<longleftrightarrow> engine t \<in> set [''View'', ''MaterializedView'', ''LiveView'', ''WindowView'', ''Dictionary'']"

definition ViewLikeKind :: "table_entry \<Rightarrow> string" where
  "ViewLikeKind t = (if engine t = ''Dictionary'' then ''dictionary'' else ''view'')"

text \<open>The scan of a table; \<open>enabled\<close> is \<open>FilterPushdownEnabled\<close> of the query's context.\<close>

definition GetScanFunction :: "bool res \<Rightarrow> table_entry \<Rightarrow> bind_data res" where
  "GetScanFunction enabled t =
     bindE (ThrowIfColumnsCollide t) (\<lambda>u. bindE enabled (\<lambda>pushdown.
       Inr \<lparr>bd_database = te_schema t, bd_table = te_name t, bd_query = [], bd_columns = clickhouse_columns t,
            approx_rows = te_approx_rows t, filter_pushdown = pushdown, order_by_clause = [], limit_clause = []\<rparr>))"

definition GetStorageInfo :: "table_entry \<Rightarrow> nat option" where
  "GetStorageInfo t = te_approx_rows t"

section \<open>Loading the tables of a database\<close>

definition tables_query :: "string \<Rightarrow> string" where
  "tables_query schema = ''SELECT name, total_rows, engine FROM system.tables WHERE database = '' @ QuoteLiteral schema"

definition columns_query :: "string \<Rightarrow> string" where
  "columns_query schema = ''SELECT table, name, type, default_kind FROM system.columns WHERE database = '' @ QuoteLiteral schema @
     '' AND default_kind != '' @ QuoteLiteral ''EPHEMERAL'' @ '' ORDER BY table, position''"

text \<open>
  The rows of \<open>system.columns\<close> (table, name, type, default kind) in order; a new definition starts when
  the table's name changes.
\<close>

fun GroupColumns ::
  "string_util \<Rightarrow> (string \<times> string \<times> string \<times> string) list \<Rightarrow> (string \<times> column_info list) list \<Rightarrow>
     (string \<times> column_info list) list res" where
  "GroupColumns U [] tables = Inr tables"
| "GroupColumns U ((table, name, type, kind) # rows) tables =
     (let tables' = (if tables = [] \<or> fst (last tables) \<noteq> table then tables @ [(table, [])] else tables)
      in bindE (ColumnInfo_Create U name type) (\<lambda>column.
           GroupColumns U rows
             (butlast tables' @ [(fst (last tables'), snd (last tables') @ [column\<lparr>default_kind := kind\<rparr>])])))"

text \<open>
  The loop over the columns of a table: the names seen so far, the first collision, the columns DuckDB
  knows and the positions of those that are not nullable.
\<close>

record column_listing =
  seen :: "string list"
  collision :: string
  listed :: "(string \<times> logical_type) list"
  not_null :: "nat list"

definition ListColumn :: "string_util \<Rightarrow> column_info \<Rightarrow> column_listing \<Rightarrow> column_listing" where
  "ListColumn U column l =
     (case List.find (\<lambda>name. CIEquals U name (col_name column)) (seen l) of
        Some previous \<Rightarrow>
          l\<lparr>collision := (if collision l = []
              then [CHR 0x22] @ previous @ [CHR 0x22] @ '' and '' @ [CHR 0x22] @ col_name column @ [CHR 0x22]
              else collision l)\<rparr>
      | None \<Rightarrow>
          l\<lparr>seen := seen l @ [col_name column], listed := listed l @ [(col_name column, col_type column)],
            not_null := (if IsNullable (type_node column) then not_null l else not_null l @ [length (listed l)])\<rparr>)"

definition ListColumns :: "string_util \<Rightarrow> column_info list \<Rightarrow> column_listing" where
  "ListColumns U columns = fold (ListColumn U) columns \<lparr>seen = [], collision = [], listed = [], not_null = []\<rparr>"

definition MakeTable ::
  "string_util \<Rightarrow> string \<Rightarrow> (string \<rightharpoonup> nat) \<Rightarrow> (string \<rightharpoonup> string) \<Rightarrow> string \<times> column_info list \<Rightarrow> table_entry" where
  "MakeTable U schema row_counts engines table =
     (let l = ListColumns U (snd table)
      in \<lparr>te_schema = schema, te_name = fst table, te_columns = listed l, te_not_null = not_null l,
          clickhouse_columns = snd table, te_approx_rows = row_counts (fst table),
          engine = (case engines (fst table) of None \<Rightarrow> [] | Some e \<Rightarrow> e), column_collision = collision l\<rparr>)"

text \<open>\<open>infos\<close> are the rows of \<open>system.tables\<close> (name, total rows, engine); the last row of a name counts.\<close>

definition LoadTables ::
  "string_util \<Rightarrow> string \<Rightarrow> (string \<times> nat option \<times> string) list \<Rightarrow> (string \<times> string \<times> string \<times> string) list \<Rightarrow>
     table_entry list res" where
  "LoadTables U schema infos rows =
     (let row_counts = map_of (rev (concat (map (\<lambda>(name, total, engine). case total of None \<Rightarrow> [] | Some n \<Rightarrow> [(name, n)]) infos)));
          engines = map_of (rev (map (\<lambda>(name, total, engine). (name, engine)) infos))
      in bindE (GroupColumns U rows []) (\<lambda>tables. Inr (map (MakeTable U schema row_counts engines) tables)))"

section \<open>Databases\<close>

definition IsSystemDatabase :: "string \<Rightarrow> bool" where
  "IsSystemDatabase name \<longleftrightarrow> name \<in> set [''system'', ''INFORMATION_SCHEMA'', ''information_schema'']"

definition VisibleDatabase :: "string \<Rightarrow> bool \<Rightarrow> string \<Rightarrow> string \<Rightarrow> bool" where
  "VisibleDatabase only_schema show_system default_database name \<longleftrightarrow>
     (if only_schema \<noteq> [] then name = only_schema
      else \<not> (IsSystemDatabase name \<and> \<not> show_system \<and> name \<noteq> default_database))"

definition LoadSchemas :: "string \<Rightarrow> bool \<Rightarrow> string \<Rightarrow> string list \<Rightarrow> string list" where
  "LoadSchemas only_schema show_system default_database names =
     filter (VisibleDatabase only_schema show_system default_database) names"

text \<open>\<open>match\<close> is the first name met so far; the exact name ends the loop.\<close>

fun ResolveLoop :: "string \<Rightarrow> string \<Rightarrow> string list \<Rightarrow> string" where
  "ResolveLoop name match [] = match"
| "ResolveLoop name match (candidate # names) =
     (if candidate = name then candidate else ResolveLoop name (if match = [] then candidate else match) names)"

definition ResolveSchemaOption :: "string \<Rightarrow> string list \<Rightarrow> string res" where
  "ResolveSchemaOption name names =
     (let match = ResolveLoop name [] names
      in if match = [] then Inl (Exn BinderException ''ClickHouse database (the SCHEMA option of ATTACH) does not exist'' [name])
         else Inr match)"

definition GetDefaultSchema :: "string \<Rightarrow> conn_config \<Rightarrow> string" where
  "GetDefaultSchema only_schema cfg = (if only_schema = [] then database cfg else only_schema)"

text \<open>\<open>main\<close> is the default database unless the catalog has a database of that name.\<close>

definition LookupSchema ::
  "string_util \<Rightarrow> 'a entry list \<times> exn option \<Rightarrow> string \<Rightarrow> string \<Rightarrow> bool \<Rightarrow> 'a catalog_set \<Rightarrow>
     'a entry option res \<times> 'a catalog_set" where
  "LookupSchema U load default_schema name return_null s =
     (let missing = (if return_null then Inr None else Inl (Exn BinderException ''ClickHouse database not found'' [name]))
      in case GetEntry U load name s of
           (Inl ex, s1) \<Rightarrow> (Inl ex, s1)
         | (Inr (Some e), s1) \<Rightarrow> (Inr (Some e), s1)
         | (Inr None, s1) \<Rightarrow>
             if CIEquals U name ''main'' then
               (case GetEntry U load default_schema s1 of
                  (Inl ex, s2) \<Rightarrow> (Inl ex, s2)
                | (Inr (Some e), s2) \<Rightarrow> (Inr (Some e), s2)
                | (Inr None, s2) \<Rightarrow> (missing, s2))
             else (missing, s1))"

section \<open>Writing\<close>

definition ThrowIfReadOnly :: "string \<Rightarrow> bool \<Rightarrow> unit res" where
  "ThrowIfReadOnly name read_only = (if read_only then ThrowReadOnly name else Inr ())"

text \<open>The transaction counts as written once the connection is in hand.\<close>

definition StartWrite :: "string \<Rightarrow> bool \<Rightarrow> 'c res \<Rightarrow> nat \<Rightarrow> 'e txn_manager \<Rightarrow> 'c res \<times> 'e txn_manager" where
  "StartWrite name read_only acquired tid m =
     (case ThrowIfReadOnly name read_only of
        Inl ex \<Rightarrow> (Inl ex, m)
      | Inr u \<Rightarrow> (case acquired of
                   Inl ex \<Rightarrow> (Inl ex, m)
                 | Inr conn \<Rightarrow> (Inr conn, MarkWritten tid m)))"

section \<open>What a loaded table looks like\<close>

definition loaded_column :: "string_util \<Rightarrow> string \<times> string \<times> string \<Rightarrow> column_info res" where
  "loaded_column U row = (case row of (name, type, kind) \<Rightarrow>
     bindE (ColumnInfo_Create U name type) (\<lambda>c. Inr (c\<lparr>default_kind := kind\<rparr>)))"

definition loaded_group :: "string_util \<Rightarrow> string \<times> (string \<times> string \<times> string) list \<Rightarrow> (string \<times> column_info list) res" where
  "loaded_group U g = bindE (mapE (loaded_column U) (snd g)) (\<lambda>columns. Inr (fst g, columns))"

definition group_rows :: "(string \<times> (string \<times> string \<times> string) list) list \<Rightarrow> (string \<times> string \<times> string \<times> string) list" where
  "group_rows groups = concat (map (\<lambda>g. map (Pair (fst g)) (snd g)) groups)"

lemma GroupColumns_same:
  "GroupColumns U (map (Pair t) cs @ rows) (ts @ [(t, acc)]) =
     bindE (mapE (loaded_column U) cs) (\<lambda>columns. GroupColumns U rows (ts @ [(t, acc @ columns)]))"
proof (induction cs arbitrary: acc)
  case (Cons c cs)
  obtain n ty k where c: "c = (n, ty, k)" by (cases c) auto
  show ?case
    by (simp add: c loaded_column_def Cons.IH bindE_assoc)
qed simp

lemma GroupColumns_groups:
  assumes "ts = [] \<or> fst (last ts) \<notin> fst ` set groups" and "distinct (map fst groups)" and "\<forall>g\<in>set groups. snd g \<noteq> []"
  shows "GroupColumns U (group_rows groups) ts = bindE (mapE (loaded_group U) groups) (\<lambda>gs. Inr (ts @ gs))"
  using assms
proof (induction groups arbitrary: ts)
  case Nil
  then show ?case by (simp add: group_rows_def)
next
  case (Cons g groups)
  obtain t c cs where g: "g = (t, c # cs)" using Cons.prems(3) by (cases g; cases "snd g") auto
  have new: "ts = [] \<or> fst (last ts) \<noteq> t" using Cons.prems(1) g by auto
  have "GroupColumns U (group_rows (g # groups)) ts = GroupColumns U (group_rows (g # groups)) (ts @ [(t, [])])"
    using new by (cases c) (auto simp: g group_rows_def Let_def)
  also have "\<dots> = bindE (mapE (loaded_column U) (snd g)) (\<lambda>columns. GroupColumns U (group_rows groups) (ts @ [(t, columns)]))"
    using GroupColumns_same [of U t "snd g" "group_rows groups" ts "[]"] by (simp add: g group_rows_def)
  also have "\<dots> = bindE (mapE (loaded_group U) (g # groups)) (\<lambda>gs. Inr (ts @ gs))"
  proof -
    have "GroupColumns U (group_rows groups) (ts @ [(t, columns)]) =
        bindE (mapE (loaded_group U) groups) (\<lambda>gs. Inr (ts @ (t, columns) # gs))" for columns
      using Cons.IH [of "ts @ [(t, columns)]"] Cons.prems g by auto
    then show ?thesis by (simp add: loaded_group_def g bindE_assoc)
  qed
  finally show ?case .
qed

definition lower_name :: "string \<Rightarrow> string" where
  "lower_name = map ascii_lower_char"

text \<open>DuckDB's columns line up with those of ClickHouse, unless the entry says that names collide.\<close>

definition lines_up :: "column_info list \<Rightarrow> column_listing \<Rightarrow> bool" where
  "lines_up cs l \<longleftrightarrow>
     seen l = map fst (listed l) \<and> distinct (map lower_name (seen l)) \<and>
     lower_name ` set (seen l) = (lower_name \<circ> col_name) ` set cs \<and>
     (collision l = [] \<longleftrightarrow> distinct (map (lower_name \<circ> col_name) cs)) \<and>
     (collision l = [] \<longrightarrow> listed l = map (\<lambda>c. (col_name c, col_type c)) cs \<and>
        not_null l = filter (\<lambda>i. \<not> IsNullable (type_node (cs ! i))) [0..<length cs])"

lemma ListColumns_lines_up:
  assumes U: "string_util_ok U"
  shows "lines_up cs (ListColumns U cs)"
proof (induction cs rule: rev_induct)
  case Nil
  show ?case by (simp add: ListColumns_def lines_up_def)
next
  case (snoc c cs)
  let ?l = "ListColumns U cs"
  have step: "ListColumns U (cs @ [c]) = ListColumn U c ?l" by (simp add: ListColumns_def)
  have ci: "CIEquals U a b \<longleftrightarrow> lower_name a = lower_name b" for a b
    by (simp add: string_util_okD(11) [OF U] lower_name_def)
  show ?case
  proof (cases "List.find (\<lambda>name. CIEquals U name (col_name c)) (seen ?l)")
    case None
    then have new: "lower_name (col_name c) \<notin> lower_name ` set (seen ?l)"
      by (auto simp: find_None_iff ci)
    moreover have names: "lower_name ` set (seen ?l) = (lower_name \<circ> col_name) ` set cs"
      using snoc unfolding lines_up_def by blast
    ultimately have "lower_name (col_name c) \<notin> (lower_name \<circ> col_name) ` set cs" by simp
    then have "distinct (map (lower_name \<circ> col_name) (cs @ [c])) \<longleftrightarrow> distinct (map (lower_name \<circ> col_name) cs)"
      by simp
    moreover have "filter (\<lambda>i. \<not> IsNullable (type_node ((cs @ [c]) ! i))) [0..<length (cs @ [c])] =
        filter (\<lambda>i. \<not> IsNullable (type_node (cs ! i))) [0..<length cs] @ (if IsNullable (type_node c) then [] else [length cs])"
      by (auto simp: nth_append intro!: filter_cong)
    ultimately have keep: "distinct (map (lower_name \<circ> col_name) (cs @ [c])) \<longleftrightarrow> distinct (map (lower_name \<circ> col_name) cs)"
      "filter (\<lambda>i. \<not> IsNullable (type_node ((cs @ [c]) ! i))) [0..<length (cs @ [c])] =
        filter (\<lambda>i. \<not> IsNullable (type_node (cs ! i))) [0..<length cs] @ (if IsNullable (type_node c) then [] else [length cs])"
      by blast+
    have l: "ListColumns U (cs @ [c]) = ?l\<lparr>seen := seen ?l @ [col_name c], listed := listed ?l @ [(col_name c, col_type c)],
        not_null := (if IsNullable (type_node c) then not_null ?l else not_null ?l @ [length (listed ?l)])\<rparr>"
      unfolding step ListColumn_def None by simp
    show ?thesis
      unfolding lines_up_def
    proof (intro conjI)
      show "distinct (map lower_name (seen (ListColumns U (cs @ [c]))))"
        using conjunct1 [OF conjunct2 [OF snoc [unfolded lines_up_def]]] new unfolding l by simp
      show "lower_name ` set (seen (ListColumns U (cs @ [c]))) = (lower_name \<circ> col_name) ` set (cs @ [c])"
        using names unfolding l by simp
    qed (use snoc keep in \<open>simp_all add: l lines_up_def\<close>)
  next
    case (Some previous)
    then have old: "lower_name (col_name c) \<in> lower_name ` set (seen ?l)"
      by (auto simp: find_Some_iff ci) (metis image_eqI nth_mem)
    have names: "lower_name ` set (seen ?l) = (lower_name \<circ> col_name) ` set cs"
      using snoc unfolding lines_up_def by blast
    have again: "\<not> distinct (map (lower_name \<circ> col_name) (cs @ [c]))" using old unfolding names by auto
    obtain x where l: "ListColumns U (cs @ [c]) = ?l\<lparr>collision := x\<rparr>" "x \<noteq> []"
    proof
      let ?x = "if collision ?l = [] then [CHR 0x22] @ previous @ [CHR 0x22] @ '' and '' @ [CHR 0x22] @ col_name c @ [CHR 0x22]
        else collision ?l"
      show "ListColumns U (cs @ [c]) = ?l\<lparr>collision := ?x\<rparr>" unfolding step ListColumn_def Some by simp
      show "?x \<noteq> []" by simp
    qed
    show ?thesis
      unfolding lines_up_def
    proof (intro conjI)
      show "lower_name ` set (seen (ListColumns U (cs @ [c]))) = (lower_name \<circ> col_name) ` set (cs @ [c])"
        using names old unfolding l by auto
    qed (use conjunct1 [OF snoc [unfolded lines_up_def]] conjunct1 [OF conjunct2 [OF snoc [unfolded lines_up_def]]]
        l again in simp_all)
  qed
qed

text \<open>
  C31. Loading the tables of a database: every table \<open>system.columns\<close> lists is there once, with its columns
  in order; a table's columns line up with the ones DuckDB numbers, types and nullability included, unless
  two names differ only in case, and exactly then the entry refuses scans (and inserts), so no column is
  ever mistaken for another.
\<close>

theorem loaded_tables:
  assumes "string_util_ok U" and "distinct (map fst groups)" and "\<forall>g\<in>set groups. snd g \<noteq> []"
    and "LoadTables U schema infos (group_rows groups) = Inr tables"
  shows "list_all2 (\<lambda>g e. te_name e = fst g \<and>
      map (\<lambda>c. (col_name c, clickhouse_type c, default_kind c)) (clickhouse_columns e) = snd g) groups tables \<and>
    (\<forall>e\<in>set tables.
      (ThrowIfColumnsCollide e = Inr () \<longleftrightarrow> distinct (map (lower_name \<circ> col_name) (clickhouse_columns e))) \<and>
      (ThrowIfColumnsCollide e = Inr () \<longrightarrow> te_columns e = map (\<lambda>c. (col_name c, col_type c)) (clickhouse_columns e) \<and>
         te_not_null e = filter (\<lambda>i. \<not> IsNullable (type_node (clickhouse_columns e ! i))) [0..<length (clickhouse_columns e)]))"
proof -
  from assms(4) GroupColumns_groups [of "[]" groups U] assms(2,3)
  obtain gs rc es where gs: "mapE (loaded_group U) groups = Inr gs" and tables: "tables = map (MakeTable U schema rc es) gs"
    by (auto simp: LoadTables_def Let_def)
  have column: "loaded_column U row = Inr c \<Longrightarrow> (col_name c, clickhouse_type c, default_kind c) = row" for row c
    by (auto simp: loaded_column_def ColumnInfo_Create_def split: prod.splits)
  have columns: "mapE (loaded_column U) rows = Inr cs \<Longrightarrow>
      map (\<lambda>c. (col_name c, clickhouse_type c, default_kind c)) cs = rows" for rows cs
    by (induction rows arbitrary: cs) (auto dest: column)
  have "list_all2 (\<lambda>g h. fst h = fst g \<and> map (\<lambda>c. (col_name c, clickhouse_type c, default_kind c)) (snd h) = snd g) groups gs"
    using gs unfolding mapE_eq_Inr by (rule list_all2_mono) (auto simp: loaded_group_def dest: columns)
  then have first: "list_all2 (\<lambda>g e. te_name e = fst g \<and>
      map (\<lambda>c. (col_name c, clickhouse_type c, default_kind c)) (clickhouse_columns e) = snd g) groups tables"
    unfolding tables list_all2_map2 by (rule list_all2_mono) (simp add: MakeTable_def Let_def)
  moreover have "(ThrowIfColumnsCollide e = Inr () \<longleftrightarrow> distinct (map (lower_name \<circ> col_name) (clickhouse_columns e))) \<and>
      (ThrowIfColumnsCollide e = Inr () \<longrightarrow> te_columns e = map (\<lambda>c. (col_name c, col_type c)) (clickhouse_columns e) \<and>
         te_not_null e = filter (\<lambda>i. \<not> IsNullable (type_node (clickhouse_columns e ! i))) [0..<length (clickhouse_columns e)])"
    if "e \<in> set tables" for e
  proof -
    from that obtain h where "e = MakeTable U schema rc es h" by (auto simp: tables)
    then show ?thesis
      using ListColumns_lines_up [OF assms(1), of "snd h"]
      by (simp add: MakeTable_def Let_def ThrowIfColumnsCollide_def lines_up_def)
  qed
  ultimately show ?thesis by blast
qed

theorem loaded_tables_witness:
  "\<exists>e f. LoadTables duck_strings ''db'' [(''t'', Some 3, ''MergeTree'')]
      (group_rows [(''t'', [(''id'', ''UInt64'', []), (''ID'', ''String'', [])]), (''u'', [(''x'', ''Nullable(Int8)'', ''DEFAULT'')])]) = Inr [e, f] \<and>
     ThrowIfColumnsCollide e \<noteq> Inr () \<and> te_columns f = [(''x'', TINYINT)]"
proof -
  let ?groups = "[(''t'', [(''id'', ''UInt64'', []), (''ID'', ''String'', [])]), (''u'', [(''x'', ''Nullable(Int8)'', ''DEFAULT'')])]"
  have "is_ok (LoadTables duck_strings ''db'' [(''t'', Some 3, ''MergeTree'')] (group_rows ?groups))" by code_simp
  then obtain tables where t: "LoadTables duck_strings ''db'' [(''t'', Some 3, ''MergeTree'')] (group_rows ?groups) = Inr tables"
    by (auto simp: is_ok_iff)
  from loaded_tables [OF duck_strings_ok _ _ t] obtain e f where ef: "tables = [e, f]"
    "map (\<lambda>c. (col_name c, clickhouse_type c, default_kind c)) (clickhouse_columns e) = [(''id'', ''UInt64'', []), (''ID'', ''String'', [])]"
    "ThrowIfColumnsCollide e = Inr () \<longleftrightarrow> distinct (map (lower_name \<circ> col_name) (clickhouse_columns e))"
    by (auto simp: list_all2_Cons1)
  have "te_columns (tables ! 1) = [(''x'', TINYINT)]"
  proof -
    have "map_sum id (\<lambda>ts. te_columns (ts ! 1)) (LoadTables duck_strings ''db'' [(''t'', Some 3, ''MergeTree'')] (group_rows ?groups)) =
      Inr [(''x'', TINYINT)]" by code_simp
    then show ?thesis by (simp add: t)
  qed
  moreover have "\<not> distinct (map (lower_name \<circ> col_name) (clickhouse_columns e))"
  proof -
    from ef(2) have "map col_name (clickhouse_columns e) = [''id'', ''ID'']" by auto
    then have "map (lower_name \<circ> col_name) (clickhouse_columns e) = map lower_name [''id'', ''ID'']"
      by (metis map_map)
    moreover have "lower_name ''id'' = lower_name ''ID''" by code_simp
    ultimately show ?thesis by simp
  qed
  ultimately show ?thesis using t ef by auto
qed

section \<open>The SCHEMA option names a database as a lookup does\<close>

lemma ResolveLoop_find:
  assumes "\<forall>d\<in>set names. d \<noteq> []"
  shows "ResolveLoop name match names =
    (if name \<in> set names then name else if match \<noteq> [] then match else case names of [] \<Rightarrow> [] | d # ds \<Rightarrow> d)"
  using assms by (induction names arbitrary: match) (auto split: list.split)

lemma loaded_entries:
  "entries (fold CreateEntry es s) name =
     (if \<exists>e\<in>set es. entry_name e = name then Some (last (filter (\<lambda>e. entry_name e = name) es)) else entries s name)"
  "ordered_entries (fold CreateEntry es s) = ordered_entries s @ es"
  by (induction es arbitrary: s) (auto simp: CreateEntry_def filter_empty_conv)

text \<open>
  The SCHEMA option of ATTACH refers to the very database a lookup of that name finds among all
  databases: the exact name, or else the first one in order that differs only in case; it is refused
  exactly when a lookup finds nothing.
\<close>

theorem ResolveSchemaOption_lookup:
  assumes "string_util_ok U" and "\<forall>e\<in>set es. entry_name e \<noteq> []"
  shows "(case FindEntry U name (snd (TryLoadEntries (es, None) empty_set)) of
      Some e \<Rightarrow> ResolveSchemaOption name (filter (\<lambda>d. CIEquals U d name) (map entry_name es)) = Inr (entry_name e)
    | None \<Rightarrow> \<not> is_ok (ResolveSchemaOption name (filter (\<lambda>d. CIEquals U d name) (map entry_name es))))"
proof -
  let ?s = "snd (TryLoadEntries (es, None) empty_set)"
  let ?names = "filter (\<lambda>d. CIEquals U d name) (map entry_name es)"
  have s: "entries ?s name = (if name \<in> entry_name ` set es then Some (last (filter (\<lambda>e. entry_name e = name) es)) else None)"
    "ordered_entries ?s = es"
    by (auto simp: TryLoadEntries_def empty_set_def loaded_entries image_iff)
  have ne: "\<forall>d\<in>set ?names. d \<noteq> []" using assms(2) by auto
  have refl: "CIEquals U name name" by (simp add: string_util_okD(11) [OF assms(1)])
  show ?thesis
  proof (cases "name \<in> entry_name ` set es")
    case True
    then have f: "filter (\<lambda>e. entry_name e = name) es \<noteq> []" by (auto simp: filter_empty_conv)
    from last_in_set [OF f] have "entry_name (last (filter (\<lambda>e. entry_name e = name) es)) = name" by simp
    moreover have "name \<in> set ?names" "name \<noteq> []" using True refl assms(2) by auto
    ultimately show ?thesis
      using True by (simp add: FindEntry_def s ResolveSchemaOption_def ResolveLoop_find [OF ne])
  next
    case False
    then have "name \<notin> set ?names" by auto
    then have r: "ResolveLoop name [] ?names = (case ?names of [] \<Rightarrow> [] | d # ds \<Rightarrow> d)"
      by (simp only: ResolveLoop_find [OF ne] if_False simp_thms)
    have f: "FindEntry U name ?s = List.find (\<lambda>e. CIEquals U (entry_name e) name) es"
      using False by (simp add: FindEntry_def s)
    have "?names = map entry_name (filter (\<lambda>e. CIEquals U (entry_name e) name) es)"
      by (simp add: filter_map o_def)
    moreover have "List.find P xs = (case filter P xs of [] \<Rightarrow> None | x # _ \<Rightarrow> Some x)" for P and xs :: "'a entry list"
      by (induction xs) auto
    ultimately show ?thesis
      using ne unfolding f ResolveSchemaOption_def r
      by (cases "filter (\<lambda>e. CIEquals U (entry_name e) name) es") (simp_all add: Let_def)
  qed
qed

theorem ResolveSchemaOption_lookup_witness:
  "let es = [\<lparr>entry_id = 1, entry_name = ''Sales'', contents = ()\<rparr>, \<lparr>entry_id = 2, entry_name = ''SALES'', contents = ()\<rparr>]
   in ResolveSchemaOption ''sales'' (filter (\<lambda>d. CIEquals duck_strings d ''sales'') (map entry_name es)) = Inr ''Sales''"
proof -
  let ?es = "[\<lparr>entry_id = 1, entry_name = ''Sales'', contents = ()\<rparr>, \<lparr>entry_id = 2, entry_name = ''SALES'', contents = ()\<rparr>]"
  have "FindEntry duck_strings ''sales'' (snd (TryLoadEntries (?es, None) empty_set)) =
      Some \<lparr>entry_id = 1, entry_name = ''Sales'', contents = ()\<rparr>" by code_simp
  with ResolveSchemaOption_lookup [OF duck_strings_ok, of ?es "''sales''"] show ?thesis by simp
qed

end
