(* ===== verification/WriteModes.thy ===== *)
theory WriteModes
  imports DdlTypes
begin

text \<open>
  The first part of \<open>src/src/clickhouse_writer.cpp\<close>: how the values of a ClickHouse column are written.
  Most types are encoded natively; the others are sent as text and converted by an expression of the
  \<open>INSERT\<close>. The last section shows that every table the extension creates can be written.
\<close>

section \<open>Write modes\<close>

datatype write_mode = NATIVE | SERVER_CONVERSION | UNSUPPORTED

definition WRITE_NATIVE_TYPES :: "string list" where
  "WRITE_NATIVE_TYPES =
    [''Bool'', ''Int8'', ''Int16'', ''Int32'', ''Int64'', ''UInt8'', ''UInt16'', ''UInt32'',
     ''UInt64'', ''Int128'', ''UInt128'', ''Float32'', ''Float64'', ''String'', ''FixedString'', ''Date'',
     ''Date32'', ''DateTime'', ''DateTime64'', ''Time'', ''Time64'', ''UUID'', ''Enum8'', ''Enum16'']"

definition CONVERTED_TYPES :: "string list" where
  "CONVERTED_TYPES =
    [''IPv4'', ''IPv6'', ''Int256'', ''UInt256'', ''BFloat16'', ''JSON'',
     ''Point'', ''Ring'', ''LineString'', ''MultiLineString'', ''Polygon'', ''MultiPolygon'']"

lemma Of_base_size: "size (tw_base (Of node)) \<le> size node"
proof -
  have hd: "size (hd (node_children n)) \<le> size n" if "length (node_children n) = 1" for n
  proof -
    from that have "hd (node_children n) \<in> set (node_children n)" by (cases "node_children n") auto
    then show ?thesis using size_child by (simp add: order_less_imp_le)
  qed
  define inner where "inner = (if node_name node = ''LowCardinality'' \<and> length (node_children node) = 1
    then hd (node_children node) else node)"
  have "size inner \<le> size node" using hd by (simp add: inner_def)
  moreover have "size (tw_base (Of node)) \<le> size inner" using hd by (simp add: Of_def inner_def Let_def)
  ultimately show ?thesis by simp
qed

text \<open>\<open>AllNative\<close> is the loop over the element types, which stops at the first that is not native.\<close>

function GetWriteMode :: "string_util \<Rightarrow> type_node \<Rightarrow> write_mode res"
  and AllNative :: "string_util \<Rightarrow> type_node list \<Rightarrow> bool res" where
  "GetWriteMode U node =
     (let type = tw_base (Of node); name = node_name type; children = node_children type in
      if StartsWith U name ''Decimal'' then
        bindE (ToDuckDB U type) (\<lambda>r. Inr (case fst r of DECIMAL w s \<Rightarrow> NATIVE | _ \<Rightarrow> SERVER_CONVERSION))
      else if name \<in> set WRITE_NATIVE_TYPES then Inr NATIVE
      else if name \<in> set CONVERTED_TYPES then Inr SERVER_CONVERSION
      else if name = ''Array'' \<and> length children = 1 \<or> name = ''Tuple'' \<and> children \<noteq> [] \<or>
              name = ''Map'' \<and> length children = 2 then
        bindE (AllNative U children) (\<lambda>native. Inr (if native then NATIVE else UNSUPPORTED))
      else Inr UNSUPPORTED)"
| "AllNative U [] = Inr True"
| "AllNative U (child # children) =
     bindE (GetWriteMode U child) (\<lambda>mode. if mode \<noteq> NATIVE then Inr False else AllNative U children)"
  by pat_completeness auto
termination
proof (relation "measure (\<lambda>x. case x of Inl (U, node) \<Rightarrow> size node | Inr (U, ns) \<Rightarrow> size_list size ns)", goal_cases)
  case (2 U node type name children)
  have "size_list size (node_children (tw_base (Of node))) < size (tw_base (Of node))"
    by (cases "tw_base (Of node)") auto
  with 2 Of_base_size [of node] show ?case by simp
qed auto

declare GetWriteMode.simps [simp del]

section \<open>Server-side conversion\<close>

definition ServerInputType :: "type_node \<Rightarrow> string" where
  "ServerInputType node =
     (let base = (if node_name (tw_base (Of node)) = ''BFloat16'' then ''Float32'' else ''String'') in
      if IsNullable node then ''Nullable('' @ base @ '')'' else base)"

definition WKT_READERS :: "(string \<times> string) list" where
  "WKT_READERS =
    [(''Point'', ''readWKTPoint''), (''Ring'', ''readWKTRing''),
     (''LineString'', ''readWKTLineString''), (''MultiLineString'', ''readWKTMultiLineString''),
     (''Polygon'', ''readWKTPolygon''), (''MultiPolygon'', ''readWKTMultiPolygon'')]"

text \<open>A text between single quotes in the generated SQL; backslashes are already doubled.\<close>

definition sql_text :: "string \<Rightarrow> string" where
  "sql_text s = [CHR 0x27] @ s @ [CHR 0x27]"

definition ParseText :: "type_node \<Rightarrow> string \<Rightarrow> string res" where
  "ParseText type expr =
     (case map_of WKT_READERS (node_name type) of
        Some reader \<Rightarrow> Inr (reader @ ''('' @ expr @ '')'')
      | None \<Rightarrow>
          (let cast = ''CAST('' @ expr @ '' AS '' @ node_text type @ '')'';
               checked = (\<lambda>valid expected.
                 (let message = ''Cannot convert text to '' @ node_text type @ '' exactly: expected '' @ expected
                  in ''tupleElement(tuple(throwIf(NOT ('' @ valid @ ''), '' @ QuoteLiteral message @ ''), '' @ cast @ ''), 2)''))
           in if node_name type = ''Int256'' \<or> node_name type = ''UInt256'' then
                (let canonical = ''if(match('' @ expr @ '', '' @ sql_text ''^[+-]?0+$'' @ '', '' @ sql_text ''0'' @
                       '', replaceRegexpOne('' @ expr @ '', '' @ sql_text (''^'' @ [CHR 0x5C, CHR 0x5C] @ ''+?(-?)0*'') @ '', '' @
                       sql_text ([CHR 0x5C, CHR 0x5C] @ ''1'') @ ''))'';
                     valid = ''match('' @ expr @ '', '' @ sql_text ''^[+-]?[0-9]+$'' @ '') AND toString('' @ cast @ '') = '' @ canonical
                 in Inr (checked valid ''an optionally signed integer within its range''))
              else bindE (DecimalScale type) (\<lambda>decimal. case decimal of
                Some s \<Rightarrow>
                  (let scale = to_string s; dot = [CHR 0x5C, CHR 0x5C] @ ''.'';
                       valid = ''match('' @ expr @ '', '' @
                         sql_text (''^[+-]?([0-9]+'' @ dot @ ''?|[0-9]*'' @ dot @ ''[0-9]+)$'') @
                         '') AND NOT match('' @ expr @ '', '' @ sql_text (dot @ ''[0-9]{'' @ scale @ ''}[0-9]*[1-9]'') @ '')''
                   in Inr (checked valid (''a number in plain decimal notation with at most '' @ scale @
                       '' digit(s) after the point'')))
              | None \<Rightarrow> Inr cast)))"

definition ServerConversion :: "type_node \<Rightarrow> string \<Rightarrow> string res" where
  "ServerConversion node expr =
     (let wrappers = Of node in
      if node_name (tw_base wrappers) = ''BFloat16'' then Inr (''CAST('' @ expr @ '' AS '' @ node_text node @ '')'')
      else if \<not> tw_nullable wrappers then ParseText (tw_base wrappers) expr
      else bindE (ParseText (tw_base wrappers) (''assumeNotNull('' @ expr @ '')''))
        (\<lambda>parsed. Inr (''if(isNull('' @ expr @ ''), NULL, '' @ parsed @ '')'')))"

section \<open>Created tables can be written\<close>

text \<open>\<open>JSON\<close> inside an array, tuple or map is the one type that is created but not written.\<close>

fun json_free :: "logical_type \<Rightarrow> bool" where
  "json_free JSON \<longleftrightarrow> False"
| "json_free (LIST child) \<longleftrightarrow> json_free child"
| "json_free (STRUCT children) \<longleftrightarrow> list_all (\<lambda>(n, c). json_free c) children"
| "json_free (TUPLE children) \<longleftrightarrow> list_all (\<lambda>(n, c). json_free c) children"
| "json_free (MAP key val) \<longleftrightarrow> json_free key \<and> json_free val"
| "json_free _ \<longleftrightarrow> True"

lemma Of_nullable: "node_name n \<noteq> ''Nullable'' \<Longrightarrow> tw_base (Of (Node ''Nullable'' [n] fs ls tx)) = n"
  by (simp add: Of_def)

lemma Of_plain: "node_name n \<notin> {''Nullable'', ''LowCardinality''} \<Longrightarrow> tw_base (Of n) = n"
  by (simp add: Of_def)

lemma GetWriteMode_base:
  "tw_base (Of m) = tw_base (Of n) \<Longrightarrow> GetWriteMode U m = GetWriteMode U n"
  by (simp add: GetWriteMode.simps [of U m] GetWriteMode.simps [of U n])

lemma AllNative_iff: "AllNative U ns = Inr True \<longleftrightarrow> (\<forall>n\<in>set ns. GetWriteMode U n = Inr NATIVE)"
  by (induction ns) auto

lemma container_native:
  assumes "string_util_ok U" and "\<forall>n\<in>set children. GetWriteMode U n = Inr NATIVE"
    and "name = ''Array'' \<and> length children = 1 \<or> name = ''Tuple'' \<and> children \<noteq> [] \<or> name = ''Map'' \<and> length children = 2"
  shows "GetWriteMode U (Node name children fs ls tx) = Inr NATIVE"
proof -
  have "AllNative U children = Inr True" using assms(2) by (simp add: AllNative_iff)
  moreover have "tw_base (Of (Node name children fs ls tx)) = Node name children fs ls tx"
    using assms(3) by (intro Of_plain) auto
  moreover have "\<not> prefix ''Decimal'' name \<and> name \<notin> set WRITE_NATIVE_TYPES \<and> name \<notin> set CONVERTED_TYPES"
    using assms(3) by (elim disjE conjE) (simp_all add: WRITE_NATIVE_TYPES_def CONVERTED_TYPES_def)
  ultimately show ?thesis
    using assms(3) by (subst GetWriteMode.simps) (simp add: Let_def string_util_okD(8) [OF assms(1)])
qed

lemma leaf_native:
  assumes "string_util_ok U" and "name \<in> set WRITE_NATIVE_TYPES"
  shows "GetWriteMode U (Node name [] fs ls tx) = Inr NATIVE"
proof -
  have "\<not> prefix ''Decimal'' name" using assms(2) by (auto simp: WRITE_NATIVE_TYPES_def)
  moreover have "tw_base (Of (Node name [] fs ls tx)) = Node name [] fs ls tx"
    using assms(2) by (intro Of_plain) (auto simp: WRITE_NATIVE_TYPES_def)
  ultimately show ?thesis using assms by (subst GetWriteMode.simps) (simp add: Let_def string_util_okD)
qed

lemma nullable_native:
  assumes "GetWriteMode U (type_tree a) = Inr NATIVE" and "node_name (type_tree a) \<notin> {''Nullable'', ''LowCardinality''}"
  shows "GetWriteMode U (type_tree (nullable_ast null a)) = Inr NATIVE"
proof (cases null)
  case True
  have "tw_base (Of (type_tree (nullable_ast True a))) = tw_base (Of (type_tree a))"
    using assms(2) Of_plain [of "type_tree a"] by (simp add: nullable_ast_def Of_nullable)
  from GetWriteMode_base [OF this, of U] assms(1) True show ?thesis by simp
qed (use assms in \<open>simp add: nullable_ast_def\<close>)

lemma TupleSql_fields:
  assumes "TupleSql U T t f children = Inr s" and "(n, c) \<in> set children"
  shows "\<exists>s'. f c = Inr s'"
proof -
  from assms(1) obtain parts where p: "mapE (\<lambda>(name, child).
      if IsUnnamed T t \<or> name = [] then Inl (Exn NotImplementedException ''STRUCT fields must be named'' [type_ToString T t])
      else bindE (f child) (\<lambda>s. Inr (QuoteIdentifier name @ '' '' @ s))) children = Inr parts"
    by (auto simp: TupleSql_def)
  from assms(2) obtain i where "i < length children" "children ! i = (n, c)" by (metis in_set_conv_nth)
  with list_all2_nthD [OF p [unfolded mapE_eq_Inr], of i] show ?thesis by (auto split: if_splits)
qed

lemma leaf_modes:
  assumes "string_util_ok U"
    and "t \<in> {BOOLEAN, TINYINT, SMALLINT, INTEGER, BIGINT, UTINYINT, USMALLINT, UINTEGER, UBIGINT, HUGEINT,
      UHUGEINT, FLOAT, DOUBLE} \<union> {VARCHAR, BLOB, DATE, TIMESTAMP_SEC, TIMESTAMP_MS, TIMESTAMP, TIMESTAMP_TZ,
      TIMESTAMP_NS, TIME, TIME_NS, UUID}"
  shows "GetWriteMode U (type_tree (ast_of t null)) = Inr NATIVE"
proof -
  have "ast_of t null = nullable_ast null (base_ast t)"
    using assms(2) by (elim UnE insertE emptyE) simp_all
  moreover have "node_name (type_tree (base_ast t)) \<notin> {''Nullable'', ''LowCardinality''} \<and>
      GetWriteMode U (type_tree (base_ast t)) = Inr NATIVE"
    using assms(2)
    by (elim UnE insertE emptyE) (simp_all add: leaf_def leaf_native [OF assms(1)] WRITE_NATIVE_TYPES_def)
  ultimately show ?thesis using nullable_native by simp
qed

lemma enum_mode:
  "string_util_ok U \<Longrightarrow> GetWriteMode U (type_tree (ast_of (ENUM labels) null)) = Inr NATIVE"
  using nullable_native [of U "base_ast (ENUM labels)" null]
  by (simp add: leaf_def leaf_native WRITE_NATIVE_TYPES_def)

lemma decimal_mode:
  assumes "string_util_ok U" and "duck_type_ok (DECIMAL w s)"
  shows "GetWriteMode U (type_tree (ast_of (DECIMAL w s) null)) = Inr NATIVE"
proof -
  let ?n = "type_tree (base_ast (DECIMAL w s))"
  have "ToDuckDB U ?n = Inr (DECIMAL w s, True)"
    using decimal_leaf_ok [OF assms(2), of U] by (simp add: leaf_ok_def)
  moreover have "tw_base (Of ?n) = ?n" by (simp add: leaf_def Of_plain)
  ultimately have "GetWriteMode U ?n = Inr NATIVE"
    by (subst GetWriteMode.simps) (simp add: Let_def leaf_def string_util_okD(8) [OF assms(1)])
  then show ?thesis using nullable_native [of U "base_ast (DECIMAL w s)" null] by (simp add: leaf_def)
qed

text \<open>A table that was created has no other types: \<open>ToClickhouse\<close> refuses them.\<close>

lemma ToClickhouse_mode:
  assumes U: "string_util_ok U"
  shows "ToClickhouse U T t null = Inr s \<Longrightarrow> duck_type_ok t \<Longrightarrow> json_free t \<Longrightarrow>
    GetWriteMode U (type_tree (ast_of t null)) = Inr NATIVE"
proof (induction t arbitrary: null s)
  case (LIST t)
  then obtain s' where "ToClickhouse U T t True = Inr s'"
    by (auto simp: ToClickhouse.simps [of U T "LIST t"] Let_def)
  with LIST show ?case by (simp add: container_native [OF U])
next
  case (MAP k v)
  then obtain sk sv where "ToClickhouse U T k False = Inr sk" "ToClickhouse U T v True = Inr sv"
    by (auto simp: ToClickhouse.simps [of U T "MAP k v"] Let_def)
  with MAP show ?case by (simp add: container_native [OF U])
next
  case (STRUCT children)
  have "TupleSql U T (STRUCT children) (\<lambda>c. ToClickhouse U T c True) children = Inr s"
    using STRUCT.prems(1) by (simp add: ToClickhouse.simps [of U T "STRUCT children"] Let_def)
  note fields = TupleSql_fields [OF this]
  have "GetWriteMode U (type_tree (ast_of c True)) = Inr NATIVE" if "(n, c) \<in> set children" for n c
  proof -
    have "duck_type_ok c" "json_free c" using STRUCT.prems(2,3) that by (auto simp: list_all_iff)
    with fields [OF that] STRUCT.IH [OF that, of c] show ?thesis by auto
  qed
  with STRUCT.prems(2) show ?case by (auto intro!: container_native [OF U])
next
  case (TUPLE children)
  have "TupleSql U T (TUPLE children) (\<lambda>c. ToClickhouse U T c True) children = Inr s"
    using TUPLE.prems(1) by (simp add: ToClickhouse.simps [of U T "TUPLE children"] Let_def)
  note fields = TupleSql_fields [OF this]
  have "GetWriteMode U (type_tree (ast_of c True)) = Inr NATIVE" if "(n, c) \<in> set children" for n c
  proof -
    have "duck_type_ok c" "json_free c" using TUPLE.prems(2,3) that by (auto simp: list_all_iff)
    with fields [OF that] TUPLE.IH [OF that, of c] show ?thesis by auto
  qed
  with TUPLE.prems(2) show ?case by (auto intro!: container_native [OF U])
next
  case (ENUM labels)
  show ?case by (rule enum_mode [OF U])
next
  case (DECIMAL w s)
  from DECIMAL.prems(2) show ?case by (rule decimal_mode [OF U])
qed ((rule leaf_modes [OF U], simp) | simp add: unsupported_error)+



end
