(* ===== verification/Columns.thy ===== *)
theory Columns
  imports DuckTypes ChUtils
begin

text \<open>
  The data that \<open>clickhouse_writer.cpp\<close> and \<open>clickhouse_conversion.cpp\<close> move: DuckDB's vectors and the
  columns of the protocol client, with the values each of them holds. Neither library is part of the
  repository: their data is modelled by its layout, and the functions the sources call on it are the
  parameter \<open>vector_api\<close>.
\<close>

section \<open>Vectors\<close>

datatype physical_type =
    PBOOL | PINT8 | PINT16 | PINT32 | PINT64 | PUINT8 | PUINT16 | PUINT32 | PUINT64 | PINT128 | PUINT128
  | PFLOAT | PDOUBLE | PVARCHAR | PLIST | PSTRUCT | POTHER

text \<open>A value of a vector: a bool, an integer of any width, the bits of a floating-point number, or bytes.\<close>

datatype scalar = SBool bool | SInt (num: int) | SReal (bits: int) | SText (chars: string)

text \<open>
  A vector through its unified format: the validity and the data of each row. The rows of a list or map
  are ranges (offset and length) of a child vector; a map's child is the struct of its keys and values.
\<close>

datatype vec =
    Flat (vec_type: logical_type) (validity: "bool list") (flat_data: "scalar list")
  | ListVec (vec_type: logical_type) (validity: "bool list") (list_entries: "(nat \<times> nat) list") (list_child: vec)
  | StructVec (vec_type: logical_type) (validity: "bool list") (struct_children: "vec list")

section \<open>Columns\<close>

text \<open>
  A numeric column carries the C++ type of its values. The entries of an enum column are ordered by
  value. The rows of an array are given by their end positions in its data column; a map wraps an array
  of key and value tuples; the flags of a nullable column are set for the NULL rows.
\<close>

datatype ch_column =
    CBool "bool list"
  | CNum physical_type "int list"
  | CInt128 "int list"
  | CUInt128 "int list"
  | CDecimal nat "int list"
  | CString "string list"
  | CFixedString nat "string list"
  | CDate "int list"
  | CDate32 "int list"
  | CDateTime "int list"
  | CDateTime64 nat "int list"
  | CTime "int list"
  | CTime64 nat "int list"
  | CUUID "(64 word \<times> 64 word) list"
  | CEnum "(int \<times> string) list" "int list"
  | CArray ch_column "nat list"
  | CTuple "ch_column list"
  | CMap ch_column
  | CNullable "bool list" ch_column
  | CLowCardinality ch_column
  | CNothing nat
  | COther string

fun col_size :: "ch_column \<Rightarrow> nat" where
  "col_size (CBool xs) = length xs"
| "col_size (CNum k xs) = length xs"
| "col_size (CInt128 xs) = length xs"
| "col_size (CUInt128 xs) = length xs"
| "col_size (CDecimal s xs) = length xs"
| "col_size (CString xs) = length xs"
| "col_size (CFixedString n xs) = length xs"
| "col_size (CDate xs) = length xs"
| "col_size (CDate32 xs) = length xs"
| "col_size (CDateTime xs) = length xs"
| "col_size (CDateTime64 p xs) = length xs"
| "col_size (CTime xs) = length xs"
| "col_size (CTime64 p xs) = length xs"
| "col_size (CUUID xs) = length xs"
| "col_size (CEnum es xs) = length xs"
| "col_size (CArray data ends) = length ends"
| "col_size (CTuple cs) = (case cs of [] \<Rightarrow> 0 | c # _ \<Rightarrow> col_size c)"
| "col_size (CMap c) = col_size c"
| "col_size (CNullable flags c) = length flags"
| "col_size (CLowCardinality c) = col_size c"
| "col_size (CNothing n) = n"
| "col_size (COther s) = 0"

text \<open>The empty column of a column's type.\<close>

fun EmptyLike :: "ch_column \<Rightarrow> ch_column" where
  "EmptyLike (CBool xs) = CBool []"
| "EmptyLike (CNum k xs) = CNum k []"
| "EmptyLike (CInt128 xs) = CInt128 []"
| "EmptyLike (CUInt128 xs) = CUInt128 []"
| "EmptyLike (CDecimal s xs) = CDecimal s []"
| "EmptyLike (CString xs) = CString []"
| "EmptyLike (CFixedString n xs) = CFixedString n []"
| "EmptyLike (CDate xs) = CDate []"
| "EmptyLike (CDate32 xs) = CDate32 []"
| "EmptyLike (CDateTime xs) = CDateTime []"
| "EmptyLike (CDateTime64 p xs) = CDateTime64 p []"
| "EmptyLike (CTime xs) = CTime []"
| "EmptyLike (CTime64 p xs) = CTime64 p []"
| "EmptyLike (CUUID xs) = CUUID []"
| "EmptyLike (CEnum es xs) = CEnum es []"
| "EmptyLike (CArray data ends) = CArray (EmptyLike data) []"
| "EmptyLike (CTuple cs) = CTuple (map EmptyLike cs)"
| "EmptyLike (CMap c) = CMap (EmptyLike c)"
| "EmptyLike (CNullable flags c) = CNullable [] (EmptyLike c)"
| "EmptyLike (CLowCardinality c) = CLowCardinality (EmptyLike c)"
| "EmptyLike (CNothing n) = CNothing 0"
| "EmptyLike (COther s) = COther s"

text \<open>The number of columns a column is built of, on which the recursive functions terminate.\<close>

fun weight :: "ch_column \<Rightarrow> nat" where
  "weight (CArray data ends) = Suc (weight data)"
| "weight (CTuple cs) = Suc (sum_list (map (\<lambda>c. Suc (weight c)) cs))"
| "weight (CMap c) = Suc (weight c)"
| "weight (CNullable flags c) = Suc (weight c)"
| "weight (CLowCardinality c) = Suc (weight c)"
| "weight _ = 1"

lemma weight_EmptyLike [simp]: "weight (EmptyLike c) = weight c"
  by (induction c) (auto intro!: arg_cong [where f = sum_list] map_cong)

section \<open>The libraries' functions\<close>

datatype map_validity = MapValid | DuplicateKey | OtherInvalid exn

record vector_api =
  InternalType :: "logical_type \<Rightarrow> physical_type"
  LogicalTypeText :: "logical_type \<Rightarrow> string"
  ColumnTypeName :: "ch_column \<Rightarrow> string"
  DateText :: "int \<Rightarrow> string"
  TimestampText_ToString :: "int \<Rightarrow> string"
  UUID_ToUHugeint :: "int \<Rightarrow> int"
  UUID_FromUHugeint :: "int \<Rightarrow> int"
  AppendColumn :: "ch_column \<Rightarrow> ch_column \<Rightarrow> ch_column"
  CheckMapValidity :: "vec \<Rightarrow> nat \<Rightarrow> map_validity"

section \<open>Values\<close>

text \<open>
  What a row means on either side. A time or timestamp carries the digits of its ticks; an enum is its
  label; the two halves of a UUID are one number.
\<close>

datatype cell = CellNull | CellBool bool | CellNum int | CellReal int | CellTicks nat int | CellText string
  | CellList "cell list" | CellStruct "cell list"

definition tick_precision :: "logical_type \<Rightarrow> nat option" where
  "tick_precision t = (case t of TIMESTAMP_SEC \<Rightarrow> Some 0 | TIMESTAMP_MS \<Rightarrow> Some 3 | TIMESTAMP \<Rightarrow> Some 6
     | TIMESTAMP_TZ \<Rightarrow> Some 6 | TIMESTAMP_NS \<Rightarrow> Some 9 | TIME \<Rightarrow> Some 6 | TIME_NS \<Rightarrow> Some 9 | _ \<Rightarrow> None)"

definition scalar_cell :: "vector_api \<Rightarrow> logical_type \<Rightarrow> scalar \<Rightarrow> cell" where
  "scalar_cell A t d =
     (case d of
        SBool b \<Rightarrow> CellBool b
      | SReal r \<Rightarrow> CellReal r
      | SText s \<Rightarrow> CellText s
      | SInt n \<Rightarrow> (case tick_precision t of
            Some p \<Rightarrow> CellTicks p n
          | None \<Rightarrow> (case t of ENUM labels \<Rightarrow> CellText (labels ! nat n)
                            | UUID \<Rightarrow> CellNum (UUID_ToUHugeint A n)
                            | _ \<Rightarrow> CellNum n)))"

fun vec_cell :: "vector_api \<Rightarrow> vec \<Rightarrow> nat \<Rightarrow> cell" where
  "vec_cell A (Flat t val data) i = (if val ! i then scalar_cell A t (data ! i) else CellNull)"
| "vec_cell A (ListVec t val entries child) i =
     (if val ! i then CellList (map (vec_cell A child) [fst (entries ! i)..<fst (entries ! i) + snd (entries ! i)]) else CellNull)"
| "vec_cell A (StructVec t val children) i =
     (if val ! i then CellStruct (map (\<lambda>c. vec_cell A c i) children) else CellNull)"

definition array_start :: "nat list \<Rightarrow> nat \<Rightarrow> nat" where
  "array_start ends i = (if i = 0 then 0 else ends ! (i - 1))"

fun col_cell :: "ch_column \<Rightarrow> nat \<Rightarrow> cell" where
  "col_cell (CBool xs) i = CellBool (xs ! i)"
| "col_cell (CNum k xs) i = (if k = PFLOAT \<or> k = PDOUBLE then CellReal (xs ! i) else CellNum (xs ! i))"
| "col_cell (CInt128 xs) i = CellNum (xs ! i)"
| "col_cell (CUInt128 xs) i = CellNum (xs ! i)"
| "col_cell (CDecimal s xs) i = CellNum (xs ! i)"
| "col_cell (CString xs) i = CellText (xs ! i)"
| "col_cell (CFixedString n xs) i = CellText (xs ! i)"
| "col_cell (CDate xs) i = CellNum (xs ! i)"
| "col_cell (CDate32 xs) i = CellNum (xs ! i)"
| "col_cell (CDateTime xs) i = CellTicks 0 (xs ! i)"
| "col_cell (CDateTime64 p xs) i = CellTicks p (xs ! i)"
| "col_cell (CTime xs) i = CellTicks 0 (xs ! i)"
| "col_cell (CTime64 p xs) i = CellTicks p (xs ! i)"
| "col_cell (CUUID xs) i = CellNum (uint (fst (xs ! i)) * 2 ^ 64 + uint (snd (xs ! i)))"
| "col_cell (CEnum es xs) i = CellText (the (map_of es (xs ! i)))"
| "col_cell (CArray data ends) i = CellList (map (col_cell data) [array_start ends i..<ends ! i])"
| "col_cell (CTuple cs) i = CellStruct (map (\<lambda>c. col_cell c i) cs)"
| "col_cell (CMap c) i = col_cell c i"
| "col_cell (CNullable flags c) i = (if flags ! i then CellNull else col_cell c i)"
| "col_cell (CLowCardinality c) i = col_cell c i"
| "col_cell (CNothing n) i = CellNull"
| "col_cell (COther s) i = CellNull"

text \<open>The lengths and offsets of a column agree; an enum has one label per value.\<close>

fun col_ok :: "ch_column \<Rightarrow> bool" where
  "col_ok (CArray data ends) \<longleftrightarrow> col_ok data \<and> sorted ends \<and> (if ends = [] then 0 else last ends) = col_size data"
| "col_ok (CTuple cs) \<longleftrightarrow> cs \<noteq> [] \<and> list_all col_ok cs \<and> (\<forall>c\<in>set cs. col_size c = col_size (hd cs))"
| "col_ok (CMap c) \<longleftrightarrow> col_ok c"
| "col_ok (CNullable flags c) \<longleftrightarrow> col_ok c \<and> length flags = col_size c"
| "col_ok (CLowCardinality c) \<longleftrightarrow> col_ok c"
| "col_ok (CEnum es xs) \<longleftrightarrow> distinct (map fst es)"
| "col_ok _ \<longleftrightarrow> True"

text \<open>The lengths of a vector of a number of rows agree, and so do the data and the types.\<close>

definition scalar_ok :: "vector_api \<Rightarrow> logical_type \<Rightarrow> scalar \<Rightarrow> bool" where
  "scalar_ok A t d =
     (case InternalType A t of
        PBOOL \<Rightarrow> (\<exists>b. d = SBool b)
      | PFLOAT \<Rightarrow> (\<exists>r. d = SReal r)
      | PDOUBLE \<Rightarrow> (\<exists>r. d = SReal r)
      | PVARCHAR \<Rightarrow> (\<exists>s. d = SText s)
      | PLIST \<Rightarrow> False
      | PSTRUCT \<Rightarrow> False
      | POTHER \<Rightarrow> False
      | _ \<Rightarrow> (\<exists>n. d = SInt n \<and> (case t of ENUM labels \<Rightarrow> 0 \<le> n \<and> nat n < length labels
            | UUID \<Rightarrow> 0 \<le> UUID_ToUHugeint A n \<and> UUID_ToUHugeint A n < 2 ^ 128
            | DECIMAL w s \<Rightarrow> w \<le> 38 \<and> \<bar>n\<bar> < 10 ^ w
            | _ \<Rightarrow> True)))"

fun vec_ok :: "vector_api \<Rightarrow> nat \<Rightarrow> vec \<Rightarrow> bool" where
  "vec_ok A n (Flat t val data) \<longleftrightarrow>
     length val = n \<and> length data = n \<and> InternalType A t \<notin> {PLIST, PSTRUCT} \<and>
     (\<forall>i<n. val ! i \<longrightarrow> scalar_ok A t (data ! i))"
| "vec_ok A n (ListVec t val entries child) \<longleftrightarrow>
     length val = n \<and> length entries = n \<and>
     vec_ok A (length (validity child)) child \<and>
     (\<forall>i<n. val ! i \<longrightarrow> fst (entries ! i) + snd (entries ! i) \<le> length (validity child)) \<and>
     (case t of LIST u \<Rightarrow> vec_type child = u | MAP k v \<Rightarrow> vec_type child = STRUCT [(''key'', k), (''value'', v)] | _ \<Rightarrow> False)"
| "vec_ok A n (StructVec t val children) \<longleftrightarrow>
     length val = n \<and> list_all (vec_ok A n) children \<and>
     (case t of STRUCT fs \<Rightarrow> map vec_type children = map snd fs | _ \<Rightarrow> False)"

section \<open>What the libraries' functions do\<close>

text \<open>The physical type of every logical type, as DuckDB documents it.\<close>

fun physical_of :: "logical_type \<Rightarrow> physical_type" where
  "physical_of BOOLEAN = PBOOL"
| "physical_of TINYINT = PINT8"
| "physical_of SMALLINT = PINT16"
| "physical_of INTEGER = PINT32"
| "physical_of BIGINT = PINT64"
| "physical_of UTINYINT = PUINT8"
| "physical_of USMALLINT = PUINT16"
| "physical_of UINTEGER = PUINT32"
| "physical_of UBIGINT = PUINT64"
| "physical_of HUGEINT = PINT128"
| "physical_of UHUGEINT = PUINT128"
| "physical_of FLOAT = PFLOAT"
| "physical_of DOUBLE = PDOUBLE"
| "physical_of (DECIMAL w s) = (if w \<le> 4 then PINT16 else if w \<le> 9 then PINT32 else if w \<le> 18 then PINT64 else PINT128)"
| "physical_of VARCHAR = PVARCHAR"
| "physical_of JSON = PVARCHAR"
| "physical_of BLOB = PVARCHAR"
| "physical_of DATE = PINT32"
| "physical_of TIME = PINT64"
| "physical_of TIME_NS = PINT64"
| "physical_of TIMESTAMP_SEC = PINT64"
| "physical_of TIMESTAMP_MS = PINT64"
| "physical_of TIMESTAMP = PINT64"
| "physical_of TIMESTAMP_NS = PINT64"
| "physical_of TIMESTAMP_TZ = PINT64"
| "physical_of UUID = PINT128"
| "physical_of (ENUM labels) =
     (if length labels \<le> 255 then PUINT8 else if length labels \<le> 65535 then PUINT16 else PUINT32)"
| "physical_of (LIST t) = PLIST"
| "physical_of (MAP k v) = PLIST"
| "physical_of (STRUCT fs) = PSTRUCT"
| "physical_of _ = POTHER"

text \<open>Appending a column of the same type appends its rows; the two forms of a UUID are inverse.\<close>

definition vector_api_ok :: "vector_api \<Rightarrow> bool" where
  "vector_api_ok A \<longleftrightarrow>
     InternalType A = physical_of \<and>
     (\<forall>c d. col_ok c \<and> col_ok d \<and> EmptyLike c = EmptyLike d \<longrightarrow>
        EmptyLike (AppendColumn A c d) = EmptyLike c \<and> col_ok (AppendColumn A c d) \<and>
        col_size (AppendColumn A c d) = col_size c + col_size d \<and>
        (\<forall>i<col_size c. col_cell (AppendColumn A c d) i = col_cell c i) \<and>
        (\<forall>i<col_size d. col_cell (AppendColumn A c d) (col_size c + i) = col_cell d i)) \<and>
     (\<forall>u. 0 \<le> u \<and> u < 2 ^ 128 \<longrightarrow> UUID_ToUHugeint A (UUID_FromUHugeint A u) = u)"

lemma vector_api_okD:
  assumes "vector_api_ok A"
  shows "InternalType A = physical_of"
    and "col_ok c \<Longrightarrow> col_ok d \<Longrightarrow> EmptyLike c = EmptyLike d \<Longrightarrow>
      EmptyLike (AppendColumn A c d) = EmptyLike c \<and> col_ok (AppendColumn A c d) \<and>
      col_size (AppendColumn A c d) = col_size c + col_size d \<and>
      (\<forall>i<col_size c. col_cell (AppendColumn A c d) i = col_cell c i) \<and>
      (\<forall>i<col_size d. col_cell (AppendColumn A c d) (col_size c + i) = col_cell d i)"
    and "0 \<le> u \<Longrightarrow> u < 2 ^ 128 \<Longrightarrow> UUID_ToUHugeint A (UUID_FromUHugeint A u) = u"
  using assms unfolding vector_api_ok_def by blast+

lemma EmptyLike_facts [simp]:
  "col_ok c \<Longrightarrow> col_ok (EmptyLike c)" "col_size (EmptyLike c) = 0" "EmptyLike (EmptyLike c) = EmptyLike c"
proof -
  show size: "col_size (EmptyLike c) = 0" for c
    by (induction c) (auto split: list.splits)
  show "col_ok c \<Longrightarrow> col_ok (EmptyLike c)"
    by (induction c) (auto simp: size list_all_iff hd_map)
  show "EmptyLike (EmptyLike c) = EmptyLike c"
    by (induction c) auto
qed

text \<open>Ticks at one precision as ticks at another, rounded down.\<close>

definition rescale :: "nat \<Rightarrow> nat \<Rightarrow> int \<Rightarrow> int" where
  "rescale p q t = (if q \<le> p then t div 10 ^ (p - q) else t * 10 ^ (q - p))"

lemma ScaleTicks_rescale: "ScaleTicks t p q = Some r \<Longrightarrow> r = rescale p q t"
proof -
  assume s: "ScaleTicks t p q = Some r"
  consider "p = q" | "p < q" | "q < p" by linarith
  then show ?thesis
  proof cases
    case 2
    with s show ?thesis by (auto simp: ScaleTicks_def rescale_def dest: PowerOfTen_Some split: option.splits)
  next
    case 3
    with s obtain d where d: "PowerOfTen (p - q) = Some d"
      and r: "r = (if t smod d \<noteq> 0 \<and> t < 0 then t sdiv d - 1 else t sdiv d)"
      by (auto simp: ScaleTicks_def Let_def split: option.splits)
    from PowerOfTen_Some [OF d] have "d = 10 ^ (p - q)" by simp
    with r sdiv_floor [of d t] 3 show ?thesis by (simp add: rescale_def)
  qed (use s in \<open>simp add: ScaleTicks_def rescale_def\<close>)
qed

section \<open>A client with these functions\<close>

text \<open>The rows of two columns of the same type one after the other.\<close>

fun append_rows :: "ch_column \<Rightarrow> ch_column \<Rightarrow> ch_column" where
  "append_rows (CBool xs) = (\<lambda>d. case d of CBool ys \<Rightarrow> CBool (xs @ ys) | _ \<Rightarrow> CBool xs)"
| "append_rows (CNum k xs) = (\<lambda>d. case d of CNum l ys \<Rightarrow> CNum k (xs @ ys) | _ \<Rightarrow> CNum k xs)"
| "append_rows (CInt128 xs) = (\<lambda>d. case d of CInt128 ys \<Rightarrow> CInt128 (xs @ ys) | _ \<Rightarrow> CInt128 xs)"
| "append_rows (CUInt128 xs) = (\<lambda>d. case d of CUInt128 ys \<Rightarrow> CUInt128 (xs @ ys) | _ \<Rightarrow> CUInt128 xs)"
| "append_rows (CDecimal s xs) = (\<lambda>d. case d of CDecimal r ys \<Rightarrow> CDecimal s (xs @ ys) | _ \<Rightarrow> CDecimal s xs)"
| "append_rows (CString xs) = (\<lambda>d. case d of CString ys \<Rightarrow> CString (xs @ ys) | _ \<Rightarrow> CString xs)"
| "append_rows (CFixedString n xs) = (\<lambda>d. case d of CFixedString m ys \<Rightarrow> CFixedString n (xs @ ys) | _ \<Rightarrow> CFixedString n xs)"
| "append_rows (CDate xs) = (\<lambda>d. case d of CDate ys \<Rightarrow> CDate (xs @ ys) | _ \<Rightarrow> CDate xs)"
| "append_rows (CDate32 xs) = (\<lambda>d. case d of CDate32 ys \<Rightarrow> CDate32 (xs @ ys) | _ \<Rightarrow> CDate32 xs)"
| "append_rows (CDateTime xs) = (\<lambda>d. case d of CDateTime ys \<Rightarrow> CDateTime (xs @ ys) | _ \<Rightarrow> CDateTime xs)"
| "append_rows (CDateTime64 p xs) = (\<lambda>d. case d of CDateTime64 q ys \<Rightarrow> CDateTime64 p (xs @ ys) | _ \<Rightarrow> CDateTime64 p xs)"
| "append_rows (CTime xs) = (\<lambda>d. case d of CTime ys \<Rightarrow> CTime (xs @ ys) | _ \<Rightarrow> CTime xs)"
| "append_rows (CTime64 p xs) = (\<lambda>d. case d of CTime64 q ys \<Rightarrow> CTime64 p (xs @ ys) | _ \<Rightarrow> CTime64 p xs)"
| "append_rows (CUUID xs) = (\<lambda>d. case d of CUUID ys \<Rightarrow> CUUID (xs @ ys) | _ \<Rightarrow> CUUID xs)"
| "append_rows (CEnum es xs) = (\<lambda>d. case d of CEnum fs ys \<Rightarrow> CEnum es (xs @ ys) | _ \<Rightarrow> CEnum es xs)"
| "append_rows (CArray data ends) = (\<lambda>d. case d of
     CArray data' ends' \<Rightarrow> CArray (append_rows data data') (ends @ map ((+) (col_size data)) ends') | _ \<Rightarrow> CArray data ends)"
| "append_rows (CTuple cs) = (\<lambda>d. case d of
     CTuple ds \<Rightarrow> CTuple (map2 (\<lambda>f x. f x) (map append_rows cs) ds) | _ \<Rightarrow> CTuple cs)"
| "append_rows (CMap c) = (\<lambda>d. case d of CMap e \<Rightarrow> CMap (append_rows c e) | _ \<Rightarrow> CMap c)"
| "append_rows (CNullable flags c) = (\<lambda>d. case d of
     CNullable flags' e \<Rightarrow> CNullable (flags @ flags') (append_rows c e) | _ \<Rightarrow> CNullable flags c)"
| "append_rows (CLowCardinality c) = (\<lambda>d. case d of CLowCardinality e \<Rightarrow> CLowCardinality (append_rows c e) | _ \<Rightarrow> CLowCardinality c)"
| "append_rows (CNothing n) = (\<lambda>d. case d of CNothing m \<Rightarrow> CNothing (n + m) | _ \<Rightarrow> CNothing n)"
| "append_rows (COther s) = (\<lambda>d. COther s)"

definition rows_appended :: "ch_column \<Rightarrow> ch_column \<Rightarrow> ch_column \<Rightarrow> bool" where
  "rows_appended c d e \<longleftrightarrow> EmptyLike e = EmptyLike c \<and> col_ok e \<and> col_size e = col_size c + col_size d \<and>
     (\<forall>i<col_size c. col_cell e i = col_cell c i) \<and> (\<forall>i<col_size d. col_cell e (col_size c + i) = col_cell d i)"

lemma ends_bound:
  assumes "sorted ends" and "(if ends = [] then 0 else last ends) = n" and "i < length ends"
  shows "ends ! i \<le> n"
  using assms sorted_nth_mono [OF assms(1), of i "length ends - 1"] by (auto simp: last_conv_nth)

lemma append_array_rows:
  assumes "col_ok (CArray data ends)" and "col_ok (CArray data' ends')" and app: "rows_appended data data' d"
  shows "rows_appended (CArray data ends) (CArray data' ends') (CArray d (ends @ map ((+) (col_size data)) ends'))"
proof -
  let ?n = "col_size data" and ?ends = "ends @ map ((+) (col_size data)) ends'"
  have ok: "sorted ends" "(if ends = [] then 0 else last ends) = ?n" "sorted ends'"
    "(if ends' = [] then 0 else last ends') = col_size data'" using assms(1,2) by auto
  note bound = ends_bound [OF ok(1,2)] and bound' = ends_bound [OF ok(3,4)]
  have "sorted ?ends"
    using ok(1,3) bound by (auto simp: sorted_append sorted_map in_set_conv_nth intro: sorted_wrt_mono_rel [rotated] bound [THEN trans_le_add1])
  moreover have "(if ?ends = [] then 0 else last ?ends) = col_size d"
    using ok(2,4) app by (auto simp: last_append last_map rows_appended_def split: if_splits)
  moreover have "col_cell (CArray d ?ends) i = col_cell (CArray data ends) i" if "i < length ends" for i
  proof -
    have "array_start ?ends i = array_start ends i" using that by (auto simp: array_start_def nth_append)
    moreover have "x < ?n" if "x \<in> set [array_start ends i..<ends ! i]" for x
      using bound [OF \<open>i < length ends\<close>] that by simp
    ultimately show ?thesis using that app by (auto simp: nth_append rows_appended_def)
  qed
  moreover have "col_cell (CArray d ?ends) (length ends + i) = col_cell (CArray data' ends') i" if i: "i < length ends'" for i
  proof -
    have start: "array_start ?ends (length ends + i) = ?n + array_start ends' i"
      using i ok(2) by (cases i) (auto simp: array_start_def nth_append last_conv_nth split: if_splits)
    have "map (col_cell d) [?n + array_start ends' i..<?n + ends' ! i] = map (col_cell data') [array_start ends' i..<ends' ! i]"
      using bound' [OF i] app by (auto intro!: nth_equalityI simp: rows_appended_def add.assoc)
    then show ?thesis using i start by (simp add: nth_append)
  qed
  ultimately show ?thesis using app by (simp add: rows_appended_def)
qed

lemma append_tuple_rows:
  assumes ok: "col_ok (CTuple cs)" "col_ok (CTuple ds)" and len: "length ds = length cs" "length es = length cs"
    and fields: "\<forall>k<length cs. rows_appended (cs ! k) (ds ! k) (es ! k)"
  shows "rows_appended (CTuple cs) (CTuple ds) (CTuple es)"
proof -
  from ok(1) have "cs \<noteq> [] \<and> list_all col_ok cs \<and> (\<forall>c\<in>set cs. col_size c = col_size (hd cs))"
    unfolding col_ok.simps .
  then have cs: "cs \<noteq> []" "\<forall>k<length cs. col_size (cs ! k) = col_size (hd cs)" by (metis nth_mem)+
  from ok(2) have "ds \<noteq> [] \<and> list_all col_ok ds \<and> (\<forall>c\<in>set ds. col_size c = col_size (hd ds))"
    unfolding col_ok.simps .
  then have ds: "ds \<noteq> []" "\<forall>k<length ds. col_size (ds ! k) = col_size (hd ds)" by (metis nth_mem)+
  have es: "es \<noteq> []" using cs(1) len(2) by auto
  have size: "col_size (CTuple cs) = col_size (hd cs)" "col_size (CTuple ds) = col_size (hd ds)" "col_size (CTuple es) = col_size (hd es)"
    using cs(1) ds(1) es by (simp_all split: list.splits)
  have sizes: "col_size (es ! k) = col_size (hd cs) + col_size (hd ds)" if "k < length cs" for k
    using fields cs(2) ds(2) len(1) that unfolding rows_appended_def by metis
  then have hd: "col_size (hd es) = col_size (hd cs) + col_size (hd ds)" using cs(1) es len(2) by (simp add: hd_conv_nth)
  have "map (\<lambda>c. col_cell c i) es = map (\<lambda>c. col_cell c i) cs" if "i < col_size (hd cs)" for i
    using fields cs(2) that len unfolding rows_appended_def by (intro nth_equalityI) simp_all
  moreover have "map (\<lambda>c. col_cell c (col_size (hd cs) + i)) es = map (\<lambda>c. col_cell c i) ds" if i: "i < col_size (hd ds)" for i
  proof (rule nth_equalityI)
    fix k assume "k < length (map (\<lambda>c. col_cell c (col_size (hd cs) + i)) es)"
    then have k: "k < length cs" using len by simp
    then have "col_size (cs ! k) = col_size (hd cs)" "col_size (ds ! k) = col_size (hd ds)" using cs(2) ds(2) len(1) by auto
    moreover have "\<forall>i<col_size (ds ! k). col_cell (es ! k) (col_size (cs ! k) + i) = col_cell (ds ! k) i"
      using fields k unfolding rows_appended_def by blast
    ultimately show "map (\<lambda>c. col_cell c (col_size (hd cs) + i)) es ! k = map (\<lambda>c. col_cell c i) ds ! k"
      using i k len by simp
  qed (use len in simp)
  moreover have "col_ok (CTuple es)"
  proof -
    have "\<forall>c\<in>set es. col_size c = col_size (hd es)" using sizes hd len(2) by (auto simp: in_set_conv_nth)
    moreover have "list_all col_ok es" using fields len(2) unfolding rows_appended_def list_all_length by simp
    ultimately show ?thesis using es unfolding col_ok.simps by blast
  qed
  moreover have "map EmptyLike es = map EmptyLike cs"
    using fields len(2) unfolding rows_appended_def by (intro nth_equalityI) simp_all
  ultimately show ?thesis unfolding rows_appended_def size hd col_cell.simps EmptyLike.simps by (simp del: col_ok.simps)
qed

lemma append_rows_appended:
  "col_ok c \<Longrightarrow> col_ok d \<Longrightarrow> EmptyLike c = EmptyLike d \<Longrightarrow> rows_appended c d (append_rows c d)"
proof (induction c arbitrary: d)
  case (CArray data ends)
  then obtain data' ends' where d: "d = CArray data' ends'" by (cases d) auto
  show ?case using append_array_rows [OF CArray.prems(1) CArray.prems(2) [unfolded d]] CArray d by simp
next
  case (CTuple cs)
  then obtain ds where d: "d = CTuple ds" and types: "map EmptyLike cs = map EmptyLike ds" by (cases d) auto
  then have len: "length ds = length cs" by (metis length_map)
  let ?es = "map2 (\<lambda>f x. f x) (map append_rows cs) ds"
  have "list_all col_ok cs" "list_all col_ok ds"
    using CTuple.prems unfolding d col_ok.simps by blast+
  then have "\<forall>k<length cs. rows_appended (cs ! k) (ds ! k) (?es ! k)"
    using CTuple.IH len types unfolding list_all_length list_eq_iff_nth_eq by simp
  then show ?case using append_tuple_rows [OF CTuple.prems(1) CTuple.prems(2) [unfolded d] len, of ?es] len d by simp
next
  case (CMap c)
  then obtain e where d: "d = CMap e" by (cases d) auto
  show ?case using CMap d by (simp add: rows_appended_def)
next
  case (CNullable flags c)
  then obtain flags' e where d: "d = CNullable flags' e" by (cases d) auto
  show ?case using CNullable.IH [of e] CNullable.prems d by (auto simp: rows_appended_def nth_append)
next
  case (CLowCardinality c)
  then obtain e where d: "d = CLowCardinality e" by (cases d) auto
  show ?case using CLowCardinality d by (simp add: rows_appended_def)
qed (case_tac d; simp add: rows_appended_def nth_append)+

definition duck_vectors :: vector_api where
  "duck_vectors = \<lparr>InternalType = physical_of, LogicalTypeText = (\<lambda>t. []), ColumnTypeName = (\<lambda>c. []),
     DateText = to_string \<circ> nat, TimestampText_ToString = to_string \<circ> nat,
     UUID_ToUHugeint = (\<lambda>n. n + 2 ^ 127), UUID_FromUHugeint = (\<lambda>u. u - 2 ^ 127),
     AppendColumn = append_rows, CheckMapValidity = (\<lambda>v n. MapValid)\<rparr>"

lemma duck_vectors_ok: "vector_api_ok duck_vectors"
  using append_rows_appended by (auto simp: vector_api_ok_def duck_vectors_def rows_appended_def)

end
