(* ===== verification/Conversion.thy ===== *)
theory Conversion
  imports Columns DuckExpr Utf8
begin

text \<open>
  Reading blocks: \<open>src/src/clickhouse_conversion.cpp\<close>. A function returns the flat vector that a range of rows
  of a column is converted into, or the exception. A fresh vector has only valid rows; the rows asked for
  are rows of the column (the scanner asks for no others).
\<close>

section \<open>Vectors before the conversion\<close>

definition map_entry :: "logical_type \<Rightarrow> logical_type \<Rightarrow> logical_type" where
  "map_entry k v = STRUCT [(''key'', k), (''value'', v)]"

text \<open>A vector of a type with the given validity and no data of interest.\<close>

fun blank :: "logical_type \<Rightarrow> bool list \<Rightarrow> vec" where
  "blank (LIST t) val = ListVec (LIST t) val (map (\<lambda>v. (0, 0)) val) (blank t [])"
| "blank (MAP k v) val =
     ListVec (MAP k v) val (map (\<lambda>v. (0, 0)) val) (StructVec (map_entry k v) [] [blank k [], blank v []])"
| "blank (STRUCT fs) val = StructVec (STRUCT fs) val (map (\<lambda>f. blank (snd f) (map (\<lambda>v. True) val)) fs)"
| "blank t val = Flat t val (map (\<lambda>v. SInt 0) val)"

definition ThrowUnexpectedColumn :: "vector_api \<Rightarrow> ch_column \<Rightarrow> logical_type \<Rightarrow> string \<Rightarrow> 'a res" where
  "ThrowUnexpectedColumn A column result_type column_name =
     Inl (Exn InvalidInputException ''Cannot read ClickHouse column: the table changed since its metadata was cached''
       [column_name, ColumnTypeName A column, LogicalTypeText A result_type])"

section \<open>Columns of numbers\<close>

text \<open>
  The loops over the rows: \<open>get\<close> reads the column at a position; a vector of the result's type gets the
  values. Below, a row that is not valid keeps whatever the vector holds.
\<close>

definition rows_of :: "'x list \<Rightarrow> nat \<Rightarrow> nat \<Rightarrow> 'x list" where
  "rows_of xs offset count = map (\<lambda>i. xs ! (offset + i)) [0..<count]"

definition ConvertNumeric :: "vector_api \<Rightarrow> string \<Rightarrow> physical_type \<Rightarrow> ch_column \<Rightarrow> logical_type \<Rightarrow> bool list \<Rightarrow> nat \<Rightarrow> nat \<Rightarrow> vec res" where
  "ConvertNumeric A column_name T column t val offset count =
     (case column of
        CNum k xs \<Rightarrow>
          if k \<noteq> T then ThrowUnexpectedColumn A column t column_name
          else Inr (Flat t val (map (if T = PFLOAT \<or> T = PDOUBLE then SReal else SInt) (rows_of xs offset count)))
      | _ \<Rightarrow> ThrowUnexpectedColumn A column t column_name)"

definition ConvertBool :: "vector_api \<Rightarrow> string \<Rightarrow> ch_column \<Rightarrow> logical_type \<Rightarrow> bool list \<Rightarrow> nat \<Rightarrow> nat \<Rightarrow> vec res" where
  "ConvertBool A column_name column t val offset count =
     (case column of
        CBool xs \<Rightarrow> Inr (Flat t val (map SBool (rows_of xs offset count)))
      | CNum k xs \<Rightarrow>
          if k \<noteq> PUINT8 then ThrowUnexpectedColumn A column t column_name
          else Inr (Flat t val (map (\<lambda>x. SBool (x \<noteq> 0)) (rows_of xs offset count)))
      | _ \<Rightarrow> ThrowUnexpectedColumn A column t column_name)"

definition ConvertInt128 :: "vector_api \<Rightarrow> string \<Rightarrow> ch_column \<Rightarrow> logical_type \<Rightarrow> bool list \<Rightarrow> nat \<Rightarrow> nat \<Rightarrow> vec res" where
  "ConvertInt128 A column_name column t val offset count =
     (case column of
        CInt128 xs \<Rightarrow> Inr (Flat t val (map SInt (rows_of xs offset count)))
      | _ \<Rightarrow> ThrowUnexpectedColumn A column t column_name)"

definition ConvertUInt128 :: "vector_api \<Rightarrow> string \<Rightarrow> ch_column \<Rightarrow> logical_type \<Rightarrow> bool list \<Rightarrow> nat \<Rightarrow> nat \<Rightarrow> vec res" where
  "ConvertUInt128 A column_name column t val offset count =
     (case column of
        CUInt128 xs \<Rightarrow> Inr (Flat t val (map SInt (rows_of xs offset count)))
      | _ \<Rightarrow> ThrowUnexpectedColumn A column t column_name)"

text \<open>The cast of a decimal's 128-bit value to the width of the vector's type.\<close>

definition narrow :: "physical_type \<Rightarrow> int \<Rightarrow> int" where
  "narrow T n = (case T of PINT16 \<Rightarrow> signed_take_bit 15 n | PINT32 \<Rightarrow> signed_take_bit 31 n
     | PINT64 \<Rightarrow> signed_take_bit 63 n | _ \<Rightarrow> n)"

definition ConvertDecimal :: "vector_api \<Rightarrow> string \<Rightarrow> ch_column \<Rightarrow> logical_type \<Rightarrow> bool list \<Rightarrow> nat \<Rightarrow> nat \<Rightarrow> vec res" where
  "ConvertDecimal A column_name column t val offset count =
     (case column of
        CDecimal scale xs \<Rightarrow>
          if InternalType A t \<notin> {PINT16, PINT32, PINT64, PINT128} then ThrowUnexpectedColumn A column t column_name
          else Inr (Flat t val (map (\<lambda>n. SInt (narrow (InternalType A t) n)) (rows_of xs offset count)))
      | _ \<Rightarrow> ThrowUnexpectedColumn A column t column_name)"

section \<open>Text\<close>

definition utf8_error :: "string \<Rightarrow> exn" where
  "utf8_error column_name = Exn InvalidInputException ''ClickHouse column contains a value that is not valid UTF-8'' [column_name]"

definition ConvertStringColumn :: "string \<Rightarrow> string list \<Rightarrow> logical_type \<Rightarrow> bool list \<Rightarrow> nat \<Rightarrow> nat \<Rightarrow> vec res" where
  "ConvertStringColumn column_name xs t val offset count =
     bindE (mapE (\<lambda>i.
         if \<not> val ! i then Inr (SText [])
         else if \<not> IsValidUtf8 (map of_char (xs ! (offset + i))) then Inl (utf8_error column_name)
         else Inr (SText (xs ! (offset + i)))) [0..<count])
       (\<lambda>data. Inr (Flat t val data))"

definition ConvertString :: "vector_api \<Rightarrow> string \<Rightarrow> ch_column \<Rightarrow> logical_type \<Rightarrow> bool list \<Rightarrow> nat \<Rightarrow> nat \<Rightarrow> vec res" where
  "ConvertString A column_name column t val offset count =
     (case column of
        CString xs \<Rightarrow> ConvertStringColumn column_name xs t val offset count
      | CFixedString n xs \<Rightarrow> ConvertStringColumn column_name xs t val offset count
      | _ \<Rightarrow> ThrowUnexpectedColumn A column t column_name)"

section \<open>Dates and times\<close>

definition ConvertDate :: "vector_api \<Rightarrow> string \<Rightarrow> ch_column \<Rightarrow> logical_type \<Rightarrow> bool list \<Rightarrow> nat \<Rightarrow> nat \<Rightarrow> vec res" where
  "ConvertDate A column_name column t val offset count =
     (case column of
        CDate xs \<Rightarrow> Inr (Flat t val (map SInt (rows_of xs offset count)))
      | CDate32 xs \<Rightarrow> Inr (Flat t val (map SInt (rows_of xs offset count)))
      | _ \<Rightarrow> ThrowUnexpectedColumn A column t column_name)"

text \<open>Signed overflow has no defined result; \<open>read_overflow\<close> stands for it.\<close>

definition read_overflow :: exn where "read_overflow = Exn OtherException ''undefined behaviour: signed overflow'' []"

definition read_tick :: "int option \<Rightarrow> scalar res" where
  "read_tick r = (case r of None \<Rightarrow> Inl read_overflow | Some x \<Rightarrow> Inr (SInt x))"

definition ConvertTimestamp :: "vector_api \<Rightarrow> string \<Rightarrow> ch_column \<Rightarrow> logical_type \<Rightarrow> bool list \<Rightarrow> nat \<Rightarrow> nat \<Rightarrow> vec res" where
  "ConvertTimestamp A column_name column t val offset count =
     (case column of
        CDateTime xs \<Rightarrow> bindE (mapE (\<lambda>seconds. read_tick (mul64 seconds 1000000)) (rows_of xs offset count))
          (\<lambda>data. Inr (Flat t val data))
      | CDateTime64 precision xs \<Rightarrow> bindE (mapE (\<lambda>ticks. read_tick (ScaleTicks ticks precision 6)) (rows_of xs offset count))
          (\<lambda>data. Inr (Flat t val data))
      | _ \<Rightarrow> ThrowUnexpectedColumn A column t column_name)"

definition time_error :: "string \<Rightarrow> exn" where
  "time_error column_name = Exn ConversionException ''ClickHouse column contains a time outside the DuckDB TIME range'' [column_name]"

definition ConvertTimes :: "string \<Rightarrow> nat \<Rightarrow> int list \<Rightarrow> logical_type \<Rightarrow> bool list \<Rightarrow> nat \<Rightarrow> nat \<Rightarrow> vec res" where
  "ConvertTimes column_name precision xs t val offset count =
     (case PowerOfTen precision of
        None \<Rightarrow> Inl read_overflow
      | Some p \<Rightarrow>
          (let max_ticks = 86400 * p
           in bindE (mapE (\<lambda>i.
                if \<not> val ! i then Inr (SInt 0)
                else if xs ! (offset + i) < 0 \<or> xs ! (offset + i) > max_ticks then Inl (time_error column_name)
                else read_tick (ScaleTicks (xs ! (offset + i)) precision (if t = TIME_NS then 9 else 6))) [0..<count])
              (\<lambda>data. Inr (Flat t val data))))"

definition ConvertTime :: "vector_api \<Rightarrow> string \<Rightarrow> ch_column \<Rightarrow> logical_type \<Rightarrow> bool list \<Rightarrow> nat \<Rightarrow> nat \<Rightarrow> vec res" where
  "ConvertTime A column_name column t val offset count =
     (case column of
        CTime xs \<Rightarrow> ConvertTimes column_name 0 xs t val offset count
      | CTime64 precision xs \<Rightarrow> ConvertTimes column_name precision xs t val offset count
      | _ \<Rightarrow> ThrowUnexpectedColumn A column t column_name)"

section \<open>UUIDs and enums\<close>

definition ConvertUUID :: "vector_api \<Rightarrow> string \<Rightarrow> ch_column \<Rightarrow> logical_type \<Rightarrow> bool list \<Rightarrow> nat \<Rightarrow> nat \<Rightarrow> vec res" where
  "ConvertUUID A column_name column t val offset count =
     (case column of
        CUUID xs \<Rightarrow> Inr (Flat t val (map (\<lambda>(hi, lo). SInt (UUID_FromUHugeint A (uint hi * 2 ^ 64 + uint lo))) (rows_of xs offset count)))
      | _ \<Rightarrow> ThrowUnexpectedColumn A column t column_name)"

text \<open>
  The position of a label among those of a DuckDB enum. The map from values to positions is built over
  the whole column type first: a label DuckDB does not have fails even when no row has it.
\<close>

definition label_position :: "string list \<Rightarrow> string \<Rightarrow> nat option" where
  "label_position labels label = (if label \<in> set labels then Some (length (takeWhile (\<lambda>l. l \<noteq> label) labels)) else None)"

definition EnumPositions :: "string list \<Rightarrow> (int \<times> string) list \<Rightarrow> (int \<times> nat) list option" where
  "EnumPositions labels entries =
     (if list_all (\<lambda>e. label_position labels (snd e) \<noteq> None) entries
      then Some (map (\<lambda>e. (fst e, the (label_position labels (snd e)))) entries) else None)"

definition enum_error :: "string \<Rightarrow> int \<Rightarrow> exn" where
  "enum_error column_name v = Exn ConversionException ''ClickHouse column contains unknown enum value'' [column_name, (if v < 0 then ''-'' else []) @ to_string (nat \<bar>v\<bar>)]"

definition WriteEnumPositions :: "string \<Rightarrow> (int \<times> nat) list \<Rightarrow> int list \<Rightarrow> logical_type \<Rightarrow> bool list \<Rightarrow> nat \<Rightarrow> nat \<Rightarrow> vec res" where
  "WriteEnumPositions column_name positions xs t val offset count =
     bindE (mapE (\<lambda>i.
         if \<not> val ! i then Inr (SInt 0)
         else (case map_of (rev positions) (xs ! (offset + i)) of
             None \<Rightarrow> Inl (enum_error column_name (xs ! (offset + i)))
           | Some p \<Rightarrow> Inr (SInt (int p)))) [0..<count])
       (\<lambda>data. Inr (Flat t val data))"

definition ConvertEnum :: "vector_api \<Rightarrow> string \<Rightarrow> ch_column \<Rightarrow> logical_type \<Rightarrow> bool list \<Rightarrow> nat \<Rightarrow> nat \<Rightarrow> vec res" where
  "ConvertEnum A column_name column t val offset count =
     (case (column, t) of
        (CEnum entries xs, ENUM labels) \<Rightarrow>
          (case EnumPositions labels entries of
             None \<Rightarrow> ThrowUnexpectedColumn A column t column_name
           | Some positions \<Rightarrow>
               if InternalType A t \<notin> {PUINT8, PUINT16, PUINT32} then ThrowUnexpectedColumn A column t column_name
               else WriteEnumPositions column_name positions xs t val offset count)
      | _ \<Rightarrow> ThrowUnexpectedColumn A column t column_name)"

section \<open>Nested values\<close>

text \<open>The loop over the rows of an array: their entries in the new list vector, and the number of elements.\<close>

definition array_size :: "nat list \<Rightarrow> nat \<Rightarrow> nat" where
  "array_size ends i = ends ! i - array_start ends i"

fun EntryLoop :: "nat list \<Rightarrow> nat \<Rightarrow> nat list \<Rightarrow> (nat \<times> nat) list \<times> nat" where
  "EntryLoop ends elements [] = ([], elements)"
| "EntryLoop ends elements (i # is) =
     (let (entries, elements') = EntryLoop ends (elements + array_size ends i) is in ((elements, array_size ends i) # entries, elements'))"

definition row_validity :: "ch_column \<Rightarrow> nat \<Rightarrow> nat \<Rightarrow> bool list" where
  "row_validity column offset count = (case column of
       CNullable flags c \<Rightarrow> map (\<lambda>i. \<not> flags ! (offset + i)) [0..<count]
     | _ \<Rightarrow> replicate count True)"

definition values_of :: "ch_column \<Rightarrow> ch_column" where
  "values_of column = (case column of CNullable flags c \<Rightarrow> c | _ \<Rightarrow> column)"

lemma weight_values_of: "weight (values_of c) \<le> weight c"
  by (cases c) (simp_all add: values_of_def)

definition map_check :: "vector_api \<Rightarrow> string \<Rightarrow> vec \<Rightarrow> nat \<Rightarrow> vec res" where
  "map_check A column_name v count =
     (case v of
        ListVec (MAP k u) val entries child \<Rightarrow>
          (case CheckMapValidity A v count of
             MapValid \<Rightarrow> Inr v
           | DuplicateKey \<Rightarrow> Inl (Exn InvalidInputException ''ClickHouse column contains a Map with duplicate keys'' [column_name])
           | OtherInvalid ex \<Rightarrow> Inl ex)
      | _ \<Rightarrow> Inr v)"

text \<open>The conversions that do not nest.\<close>

definition ConvertScalar :: "vector_api \<Rightarrow> string \<Rightarrow> ch_column \<Rightarrow> logical_type \<Rightarrow> bool list \<Rightarrow> nat \<Rightarrow> nat \<Rightarrow> vec res" where
  "ConvertScalar A column_name values t val offset count =
     (case t of
        BOOLEAN \<Rightarrow> ConvertBool A column_name values t val offset count
      | TINYINT \<Rightarrow> ConvertNumeric A column_name PINT8 values t val offset count
      | SMALLINT \<Rightarrow> ConvertNumeric A column_name PINT16 values t val offset count
      | INTEGER \<Rightarrow> ConvertNumeric A column_name PINT32 values t val offset count
      | BIGINT \<Rightarrow> ConvertNumeric A column_name PINT64 values t val offset count
      | UTINYINT \<Rightarrow> ConvertNumeric A column_name PUINT8 values t val offset count
      | USMALLINT \<Rightarrow> ConvertNumeric A column_name PUINT16 values t val offset count
      | UINTEGER \<Rightarrow> ConvertNumeric A column_name PUINT32 values t val offset count
      | UBIGINT \<Rightarrow> ConvertNumeric A column_name PUINT64 values t val offset count
      | FLOAT \<Rightarrow> ConvertNumeric A column_name PFLOAT values t val offset count
      | DOUBLE \<Rightarrow> ConvertNumeric A column_name PDOUBLE values t val offset count
      | HUGEINT \<Rightarrow> ConvertInt128 A column_name values t val offset count
      | UHUGEINT \<Rightarrow> ConvertUInt128 A column_name values t val offset count
      | DECIMAL w s \<Rightarrow> ConvertDecimal A column_name values t val offset count
      | VARCHAR \<Rightarrow> ConvertString A column_name values t val offset count
      | DATE \<Rightarrow> ConvertDate A column_name values t val offset count
      | TIMESTAMP_TZ \<Rightarrow> ConvertTimestamp A column_name values t val offset count
      | TIME \<Rightarrow> ConvertTime A column_name values t val offset count
      | TIME_NS \<Rightarrow> ConvertTime A column_name values t val offset count
      | UUID \<Rightarrow> ConvertUUID A column_name values t val offset count
      | ENUM labels \<Rightarrow> ConvertEnum A column_name values t val offset count
      | _ \<Rightarrow> ThrowUnexpectedColumn A values t column_name)"

lemma weight_convert: "(\<Sum>c\<leftarrow>cs. Suc (Suc (3 * weight c))) \<le> 3 * (\<Sum>c\<leftarrow>cs. Suc (weight c))"
  by (induction cs) auto

text \<open>
  \<open>ConvertList\<close> takes the type of the elements; \<open>ConvertFields\<close> is the loop of \<open>ConvertStruct\<close>.
\<close>

function ConvertColumn :: "vector_api \<Rightarrow> string \<Rightarrow> ch_column \<Rightarrow> logical_type \<Rightarrow> nat \<Rightarrow> nat \<Rightarrow> vec res"
  and ConvertList :: "vector_api \<Rightarrow> string \<Rightarrow> ch_column \<Rightarrow> logical_type \<Rightarrow> logical_type \<Rightarrow> bool list \<Rightarrow> nat \<Rightarrow> nat \<Rightarrow> vec res"
  and ConvertFields :: "vector_api \<Rightarrow> string \<Rightarrow> ch_column list \<Rightarrow> logical_type list \<Rightarrow> nat \<Rightarrow> nat \<Rightarrow> vec list res" where
  "ConvertColumn A column_name column t offset count =
     (let val = row_validity column offset count; values = values_of column in
      if (\<exists>n. values = CNothing n) then Inr (blank t (replicate count False))
      else (case t of
          LIST u \<Rightarrow> ConvertList A column_name (values_of column) t u val offset count
        | MAP k v \<Rightarrow> ConvertList A column_name (values_of column) t (map_entry k v) val offset count
        | STRUCT fs \<Rightarrow>
            (case values_of column of
               CTuple cs \<Rightarrow>
                 if length cs \<noteq> length fs then ThrowUnexpectedColumn A values t column_name
                 else bindE (ConvertFields A column_name cs (map snd fs) offset count) (\<lambda>vs. Inr (StructVec t val vs))
             | _ \<Rightarrow> ThrowUnexpectedColumn A values t column_name)
        | _ \<Rightarrow> ConvertScalar A column_name values t val offset count))"
| "ConvertList A column_name values t u val offset count =
     (case values of
        CArray data ends \<Rightarrow>
          (let child_start = (if count = 0 then 0 else array_start ends offset);
               (entries, elements) = EntryLoop ends 0 [offset..<offset + count]
           in bindE (if elements > 0 then ConvertColumn A column_name data u child_start elements else Inr (blank u [])) (\<lambda>child.
                map_check A column_name (ListVec t val entries child) count))
      | _ \<Rightarrow> ThrowUnexpectedColumn A values t column_name)"
| "ConvertFields A column_name [] ts offset count = Inr []"
| "ConvertFields A column_name (c # cs) [] offset count = Inr []"
| "ConvertFields A column_name (c # cs) (t # ts) offset count =
     bindE (ConvertColumn A column_name c t offset count) (\<lambda>v.
     bindE (ConvertFields A column_name cs ts offset count) (\<lambda>vs. Inr (v # vs)))"
  by pat_completeness auto
termination
  by (relation "measure (\<lambda>x. case x of
      Inl (A, name, c, t, offset, count) \<Rightarrow> 3 * weight c + 1
    | Inr (Inl (A, name, c, t, u, val, offset, count)) \<Rightarrow> 3 * weight c
    | Inr (Inr (A, name, cs, ts, offset, count)) \<Rightarrow> sum_list (map (\<lambda>c. 3 * weight c + 2) cs))")
    (auto simp: values_of_def split: ch_column.splits intro!: le_less_trans [OF weight_convert])

declare ConvertColumn.simps [simp del] ConvertList.simps [simp del]

section \<open>Blocks\<close>

text \<open>
  The vectors of the output chunk (of the given types) are filled from the block's columns, those of
  \<open>projection_ids\<close> when there are any; the chunk then holds \<open>count\<close> rows.
\<close>

definition ConvertBlock ::
  "vector_api \<Rightarrow> ch_column list \<Rightarrow> logical_type list \<Rightarrow> nat \<Rightarrow> nat \<Rightarrow> string list \<Rightarrow> nat list \<Rightarrow> (vec list \<times> nat) res" where
  "ConvertBlock A block types offset count column_names projection_ids =
     (if types = [] then Inr ([], count)
      else if length block \<noteq> length column_names then
        Inl (Exn InvalidInputException ''ClickHouse returned another number of columns: the table or query changed since it was bound''
          [to_string (length block), to_string (length column_names)])
      else let projected_count = (if projection_ids = [] then length types else length projection_ids) in
        if projected_count \<noteq> length types then
          Inl (Exn InternalException ''ClickHouse scan: projected columns'' [to_string projected_count, to_string (length types)])
        else bindE (mapE (\<lambda>c.
            let source = (if projection_ids = [] then c else projection_ids ! c) in
            if source \<ge> length block then Inl (Exn OtherException ''column index is out of range'' [])
            else ConvertColumn A (column_names ! source) (block ! source) (types ! c) offset count) [0..<length types])
          (\<lambda>data. Inr (data, count)))"

end
