(* ===== verification/Writer.thy ===== *)
theory Writer
  imports Columns DuckExpr
begin

text \<open>
  The second part of \<open>src/src/clickhouse_writer.cpp\<close>: the rows of a vector appended to a column cloned from
  the header of an INSERT. A function returns the column with the rows appended, or the exception; what
  an exception leaves in a column is not modelled, since the INSERT is abandoned then.
\<close>

section \<open>Errors\<close>

definition ThrowMismatch :: "vector_api \<Rightarrow> vec \<Rightarrow> ch_column \<Rightarrow> string \<Rightarrow> exn" where
  "ThrowMismatch A source target column_name =
     Exn InvalidInputException ''Cannot write DuckDB values into ClickHouse column: the table changed since its metadata was cached''
       [LogicalTypeText A (vec_type source), column_name, ColumnTypeName A target]"

definition ThrowNull :: "vector_api \<Rightarrow> ch_column \<Rightarrow> string \<Rightarrow> exn" where
  "ThrowNull A target column_name =
     Exn ConversionException ''Cannot insert NULL into ClickHouse column: its type is not Nullable''
       [column_name, ColumnTypeName A target]"

definition ThrowOutOfRange :: "vector_api \<Rightarrow> string \<Rightarrow> ch_column \<Rightarrow> string \<Rightarrow> exn" where
  "ThrowOutOfRange A value target column_name =
     Exn ConversionException ''Cannot insert into ClickHouse column: it is outside the range of its ClickHouse type''
       [value, column_name, ColumnTypeName A target]"

text \<open>Signed overflow has no defined result; \<open>overflow\<close> stands for it.\<close>

definition overflow :: exn where "overflow = Exn OtherException ''undefined behaviour: signed overflow'' []"

definition defined_tick :: "int option \<Rightarrow> int res" where
  "defined_tick r = (case r of None \<Rightarrow> Inl overflow | Some x \<Rightarrow> Inr x)"

section \<open>Scalars\<close>

text \<open>
  \<open>ForEachValue\<close> over the selected rows: the values appended in order. \<open>put\<close> turns a value into what the
  typed column gets, \<open>default_value\<close> is what it gets for a NULL whose flag lives in an enclosing \<open>Nullable\<close>.
\<close>

fun ForEachValue :: "exn \<Rightarrow> bool \<Rightarrow> vec \<Rightarrow> (scalar \<Rightarrow> 'x res) \<Rightarrow> 'x \<Rightarrow> nat list \<Rightarrow> 'x list res" where
  "ForEachValue null_error nulls_as_default source put default_value [] = Inr []"
| "ForEachValue null_error nulls_as_default source put default_value (i # sel) =
     (if \<not> validity source ! i then
        (if \<not> nulls_as_default then Inl null_error
         else bindE (ForEachValue null_error nulls_as_default source put default_value sel) (\<lambda>xs. Inr (default_value # xs)))
      else bindE (put (flat_data source ! i)) (\<lambda>x.
        bindE (ForEachValue null_error nulls_as_default source put default_value sel) (\<lambda>xs. Inr (x # xs))))"

definition AppendNumeric :: "vector_api \<Rightarrow> string \<Rightarrow> physical_type \<Rightarrow> vec \<Rightarrow> nat list \<Rightarrow> bool \<Rightarrow> ch_column \<Rightarrow> ch_column res" where
  "AppendNumeric A column_name T source sel nulls target =
     (case target of
        CNum k xs \<Rightarrow>
          if k \<noteq> T \<or> InternalType A (vec_type source) \<noteq> T then Inl (ThrowMismatch A source target column_name)
          else bindE (ForEachValue (ThrowNull A target column_name) nulls source
                 (\<lambda>d. Inr (case d of SInt n \<Rightarrow> n | SReal r \<Rightarrow> r | _ \<Rightarrow> 0)) 0 sel) (\<lambda>new. Inr (CNum k (xs @ new)))
      | _ \<Rightarrow> Inl (ThrowMismatch A source target column_name))"

definition AppendBool :: "vector_api \<Rightarrow> string \<Rightarrow> vec \<Rightarrow> nat list \<Rightarrow> bool \<Rightarrow> ch_column \<Rightarrow> ch_column res" where
  "AppendBool A column_name source sel nulls target =
     (if vec_type source \<noteq> BOOLEAN then Inl (ThrowMismatch A source target column_name)
      else (case target of
        CBool xs \<Rightarrow> bindE (ForEachValue (ThrowNull A target column_name) nulls source
            (\<lambda>d. Inr (d = SBool True)) False sel) (\<lambda>new. Inr (CBool (xs @ new)))
      | CNum k xs \<Rightarrow>
          if k \<noteq> PUINT8 then Inl (ThrowMismatch A source target column_name)
          else bindE (ForEachValue (ThrowNull A target column_name) nulls source
            (\<lambda>d. Inr (if d = SBool True then 1 else 0)) 0 sel) (\<lambda>new. Inr (CNum k (xs @ new)))
      | _ \<Rightarrow> Inl (ThrowMismatch A source target column_name)))"

definition AppendInt128 :: "vector_api \<Rightarrow> string \<Rightarrow> vec \<Rightarrow> nat list \<Rightarrow> bool \<Rightarrow> ch_column \<Rightarrow> ch_column res" where
  "AppendInt128 A column_name source sel nulls target =
     (case target of
        CInt128 xs \<Rightarrow>
          if vec_type source \<noteq> HUGEINT then Inl (ThrowMismatch A source target column_name)
          else bindE (ForEachValue (ThrowNull A target column_name) nulls source (\<lambda>d. Inr (num d)) 0 sel)
                 (\<lambda>new. Inr (CInt128 (xs @ new)))
      | _ \<Rightarrow> Inl (ThrowMismatch A source target column_name))"

definition AppendUInt128 :: "vector_api \<Rightarrow> string \<Rightarrow> vec \<Rightarrow> nat list \<Rightarrow> bool \<Rightarrow> ch_column \<Rightarrow> ch_column res" where
  "AppendUInt128 A column_name source sel nulls target =
     (case target of
        CUInt128 xs \<Rightarrow>
          if vec_type source \<noteq> UHUGEINT then Inl (ThrowMismatch A source target column_name)
          else bindE (ForEachValue (ThrowNull A target column_name) nulls source (\<lambda>d. Inr (num d)) 0 sel)
                 (\<lambda>new. Inr (CUInt128 (xs @ new)))
      | _ \<Rightarrow> Inl (ThrowMismatch A source target column_name))"

definition AppendDecimal :: "vector_api \<Rightarrow> string \<Rightarrow> vec \<Rightarrow> nat list \<Rightarrow> bool \<Rightarrow> ch_column \<Rightarrow> ch_column res" where
  "AppendDecimal A column_name source sel nulls target =
     (case (target, vec_type source) of
        (CDecimal scale xs, DECIMAL w s) \<Rightarrow>
          if s \<noteq> scale \<or> InternalType A (DECIMAL w s) \<notin> {PINT16, PINT32, PINT64, PINT128}
          then Inl (ThrowMismatch A source target column_name)
          else bindE (ForEachValue (ThrowNull A target column_name) nulls source (\<lambda>d. Inr (num d)) 0 sel)
                 (\<lambda>new. Inr (CDecimal scale (xs @ new)))
      | _ \<Rightarrow> Inl (ThrowMismatch A source target column_name))"

definition AppendString :: "vector_api \<Rightarrow> string \<Rightarrow> vec \<Rightarrow> nat list \<Rightarrow> bool \<Rightarrow> ch_column \<Rightarrow> ch_column res" where
  "AppendString A column_name source sel nulls target =
     (case target of
        CString xs \<Rightarrow>
          if InternalType A (vec_type source) \<noteq> PVARCHAR then Inl (ThrowMismatch A source target column_name)
          else bindE (ForEachValue (ThrowNull A target column_name) nulls source (\<lambda>d. Inr (chars d)) [] sel)
                 (\<lambda>new. Inr (CString (xs @ new)))
      | _ \<Rightarrow> Inl (ThrowMismatch A source target column_name))"

text \<open>The client pads shorter values with zero bytes.\<close>

definition zero_padded :: "nat \<Rightarrow> string \<Rightarrow> string" where
  "zero_padded n s = s @ replicate (n - length s) (CHR 0x00)"

definition AppendFixedString :: "vector_api \<Rightarrow> string \<Rightarrow> vec \<Rightarrow> nat list \<Rightarrow> bool \<Rightarrow> ch_column \<Rightarrow> ch_column res" where
  "AppendFixedString A column_name source sel nulls target =
     (case target of
        CFixedString fixed xs \<Rightarrow>
          if InternalType A (vec_type source) \<noteq> PVARCHAR then Inl (ThrowMismatch A source target column_name)
          else bindE (ForEachValue (ThrowNull A target column_name) nulls source
                 (\<lambda>d. if length (chars d) > fixed
                      then Inl (Exn ConversionException ''Cannot insert a string into ClickHouse column: it does not fit its ClickHouse type''
                             [to_string (length (chars d)), column_name, ColumnTypeName A target])
                      else Inr (zero_padded fixed (chars d))) (zero_padded fixed []) sel)
                 (\<lambda>new. Inr (CFixedString fixed (xs @ new)))
      | _ \<Rightarrow> Inl (ThrowMismatch A source target column_name))"

definition AppendDate :: "vector_api \<Rightarrow> string \<Rightarrow> vec \<Rightarrow> nat list \<Rightarrow> bool \<Rightarrow> ch_column \<Rightarrow> ch_column res" where
  "AppendDate A column_name source sel nulls target =
     (if vec_type source \<noteq> DATE then Inl (ThrowMismatch A source target column_name)
      else (let put = (\<lambda>lo hi d. if num d < lo \<or> num d > hi
                 then Inl (ThrowOutOfRange A (DateText A (num d)) target column_name) else Inr (num d))
            in case target of
                 CDate xs \<Rightarrow> bindE (ForEachValue (ThrowNull A target column_name) nulls source (put 0 65535) 0 sel)
                   (\<lambda>new. Inr (CDate (xs @ new)))
               | CDate32 xs \<Rightarrow> bindE (ForEachValue (ThrowNull A target column_name) nulls source
                     (put (FromDate 1900 1 1) (FromDate 2299 12 31)) 0 sel) (\<lambda>new. Inr (CDate32 (xs @ new)))
               | _ \<Rightarrow> Inl (ThrowMismatch A source target column_name)))"

section \<open>Times\<close>

definition TimestampPrecision :: "logical_type \<Rightarrow> nat option" where
  "TimestampPrecision t = (case t of
       TIMESTAMP_SEC \<Rightarrow> Some 0
     | TIMESTAMP_MS \<Rightarrow> Some 3
     | TIMESTAMP \<Rightarrow> Some 6
     | TIMESTAMP_TZ \<Rightarrow> Some 6
     | TIMESTAMP_NS \<Rightarrow> Some 9
     | _ \<Rightarrow> None)"

text \<open>\<open>None\<close> is the overflow that \<open>TryMultiplyOperator\<close> reports.\<close>

definition TryRescaleTicks :: "int \<Rightarrow> nat \<Rightarrow> nat \<Rightarrow> int option res" where
  "TryRescaleTicks ticks from to =
     (if to \<le> from then bindE (defined_tick (ScaleTicks ticks from to)) (\<lambda>r. Inr (Some r))
      else bindE (defined_tick (PowerOfTen (to - from))) (\<lambda>p. Inr (mul64 ticks p)))"

definition TimestampText :: "vector_api \<Rightarrow> int \<Rightarrow> nat \<Rightarrow> string res" where
  "TimestampText A ticks precision =
     bindE (TryRescaleTicks ticks precision 6) (\<lambda>micros. Inr (case micros of
         None \<Rightarrow> ''an infinite or out-of-range timestamp''
       | Some m \<Rightarrow> if \<not> timestamp_IsFinite m then ''an infinite or out-of-range timestamp''
                   else TimestampText_ToString A m @ '' (UTC)''))"

definition MIN_MICROS :: int where "MIN_MICROS = FromDate 1900 1 1 * 86400000000"

definition MAX_MICROS :: int where "MAX_MICROS = FromDate 2299 12 31 * 86400000000 + 86399999999"

definition out_of_range_ticks :: "vector_api \<Rightarrow> int \<Rightarrow> nat \<Rightarrow> ch_column \<Rightarrow> string \<Rightarrow> 'a res" where
  "out_of_range_ticks A ticks precision target column_name =
     bindE (TimestampText A ticks precision) (\<lambda>txt. Inl (ThrowOutOfRange A txt target column_name))"

definition AppendTimestamp :: "vector_api \<Rightarrow> string \<Rightarrow> vec \<Rightarrow> nat list \<Rightarrow> bool \<Rightarrow> ch_column \<Rightarrow> ch_column res" where
  "AppendTimestamp A column_name source sel nulls target =
     (case TimestampPrecision (vec_type source) of
        None \<Rightarrow> Inl (ThrowMismatch A source target column_name)
      | Some source_precision \<Rightarrow>
          (case target of
             CDateTime xs \<Rightarrow>
               bindE (ForEachValue (ThrowNull A target column_name) nulls source
                 (\<lambda>d. bindE (defined_tick (ScaleTicks (num d) source_precision 0)) (\<lambda>seconds.
                    if seconds < 0 \<or> seconds > 4294967295
                    then out_of_range_ticks A (num d) source_precision target column_name
                    else Inr seconds)) 0 sel) (\<lambda>new. Inr (CDateTime (xs @ new)))
           | CDateTime64 target_precision xs \<Rightarrow>
               bindE (ForEachValue (ThrowNull A target column_name) nulls source
                 (\<lambda>d. bindE (TryRescaleTicks (num d) source_precision 6) (\<lambda>micros. case micros of
                    None \<Rightarrow> out_of_range_ticks A (num d) source_precision target column_name
                  | Some m \<Rightarrow>
                      if m < MIN_MICROS \<or> m > MAX_MICROS
                      then out_of_range_ticks A (num d) source_precision target column_name
                      else bindE (TryRescaleTicks (num d) source_precision target_precision) (\<lambda>result. case result of
                          None \<Rightarrow> out_of_range_ticks A (num d) source_precision target column_name
                        | Some r \<Rightarrow> Inr r))) 0 sel) (\<lambda>new. Inr (CDateTime64 target_precision (xs @ new)))
           | _ \<Rightarrow> Inl (ThrowMismatch A source target column_name)))"

definition AppendTime :: "vector_api \<Rightarrow> string \<Rightarrow> vec \<Rightarrow> nat list \<Rightarrow> bool \<Rightarrow> ch_column \<Rightarrow> ch_column res" where
  "AppendTime A column_name source sel nulls target =
     (let t = vec_type source; source_precision = (if t = TIME then 6 else 9) in
      if t \<noteq> TIME \<and> t \<noteq> TIME_NS then Inl (ThrowMismatch A source target column_name)
      else (case target of
          CTime xs \<Rightarrow> bindE (ForEachValue (ThrowNull A target column_name) nulls source
              (\<lambda>d. defined_tick (ScaleTicks (num d) source_precision 0)) 0 sel) (\<lambda>new. Inr (CTime (xs @ new)))
        | CTime64 p xs \<Rightarrow> bindE (ForEachValue (ThrowNull A target column_name) nulls source
              (\<lambda>d. defined_tick (ScaleTicks (num d) source_precision p)) 0 sel) (\<lambda>new. Inr (CTime64 p (xs @ new)))
        | _ \<Rightarrow> Inl (ThrowMismatch A source target column_name)))"

definition AppendUUID :: "vector_api \<Rightarrow> string \<Rightarrow> vec \<Rightarrow> nat list \<Rightarrow> bool \<Rightarrow> ch_column \<Rightarrow> ch_column res" where
  "AppendUUID A column_name source sel nulls target =
     (case target of
        CUUID xs \<Rightarrow>
          if vec_type source \<noteq> UUID then Inl (ThrowMismatch A source target column_name)
          else bindE (ForEachValue (ThrowNull A target column_name) nulls source
                 (\<lambda>d. let u = UUID_ToUHugeint A (num d) in Inr (word_of_int (u div 2 ^ 64), word_of_int (u mod 2 ^ 64))) (0, 0) sel)
                 (\<lambda>new. Inr (CUUID (xs @ new)))
      | _ \<Rightarrow> Inl (ThrowMismatch A source target column_name))"

text \<open>
  The label of the DuckDB enum decides which value is written: the one the column's type gives that label.
\<close>

definition enum_value :: "(int \<times> string) list \<Rightarrow> string \<Rightarrow> int option" where
  "enum_value entries label = map_option fst (List.find (\<lambda>e. snd e = label) entries)"

definition AppendEnum :: "vector_api \<Rightarrow> string \<Rightarrow> vec \<Rightarrow> nat list \<Rightarrow> bool \<Rightarrow> ch_column \<Rightarrow> ch_column res" where
  "AppendEnum A column_name source sel nulls target =
     (case (vec_type source, target) of
        (ENUM labels, CEnum entries xs) \<Rightarrow>
          if InternalType A (ENUM labels) \<notin> {PUINT8, PUINT16, PUINT32} then Inl (ThrowMismatch A source target column_name)
          else bindE (ForEachValue (ThrowNull A target column_name) nulls source
                 (\<lambda>d. let label = labels ! nat (num d) in
                      case enum_value entries label of
                        None \<Rightarrow> Inl (Exn ConversionException ''Cannot insert into ClickHouse column: it is not a label of its ClickHouse type''
                                  [label, column_name, ColumnTypeName A target])
                      | Some v \<Rightarrow> Inr v) (fst (hd entries)) sel) (\<lambda>new. Inr (CEnum entries (xs @ new)))
      | _ \<Rightarrow> Inl (ThrowMismatch A source target column_name))"

section \<open>Nested values\<close>

text \<open>The first two loops of \<open>AppendListRows\<close>: the elements of the selected rows.\<close>

definition ListElements :: "exn \<Rightarrow> bool \<Rightarrow> vec \<Rightarrow> nat list \<Rightarrow> nat list res" where
  "ListElements null_error nulls source sel =
     (if \<not> nulls \<and> (\<exists>i\<in>set sel. \<not> validity source ! i) then Inl null_error
      else Inr (concat (map (\<lambda>i. if validity source ! i
             then [fst (list_entries source ! i)..<fst (list_entries source ! i) + snd (list_entries source ! i)] else []) sel)))"

text \<open>The last loop: the end position of each row, from the size of the data before.\<close>

fun ListEnds :: "vec \<Rightarrow> nat \<Rightarrow> nat list \<Rightarrow> nat list" where
  "ListEnds source end_pos [] = []"
| "ListEnds source end_pos (i # sel) =
     (let end' = (if validity source ! i then end_pos + snd (list_entries source ! i) else end_pos)
      in end' # ListEnds source end' sel)"

definition is_struct :: "logical_type \<Rightarrow> bool" where "is_struct t = (case t of STRUCT fs \<Rightarrow> True | _ \<Rightarrow> False)"
definition is_list :: "logical_type \<Rightarrow> bool" where "is_list t = (case t of LIST u \<Rightarrow> True | _ \<Rightarrow> False)"
definition is_map :: "logical_type \<Rightarrow> bool" where "is_map t = (case t of MAP k v \<Rightarrow> True | _ \<Rightarrow> False)"

text \<open>The cases of \<open>AppendRows\<close> that do not nest.\<close>

definition AppendScalar :: "vector_api \<Rightarrow> string \<Rightarrow> vec \<Rightarrow> nat list \<Rightarrow> bool \<Rightarrow> ch_column \<Rightarrow> ch_column res" where
  "AppendScalar A column_name source sel nulls target =
     (case target of
        CBool xs \<Rightarrow> AppendBool A column_name source sel nulls target
      | CNum k xs \<Rightarrow> if k = PUINT8 \<and> vec_type source = BOOLEAN then AppendBool A column_name source sel nulls target
                     else AppendNumeric A column_name k source sel nulls target
      | CInt128 xs \<Rightarrow> AppendInt128 A column_name source sel nulls target
      | CUInt128 xs \<Rightarrow> AppendUInt128 A column_name source sel nulls target
      | CDecimal s xs \<Rightarrow> AppendDecimal A column_name source sel nulls target
      | CString xs \<Rightarrow> AppendString A column_name source sel nulls target
      | CFixedString n xs \<Rightarrow> AppendFixedString A column_name source sel nulls target
      | CDate xs \<Rightarrow> AppendDate A column_name source sel nulls target
      | CDate32 xs \<Rightarrow> AppendDate A column_name source sel nulls target
      | CDateTime xs \<Rightarrow> AppendTimestamp A column_name source sel nulls target
      | CDateTime64 p xs \<Rightarrow> AppendTimestamp A column_name source sel nulls target
      | CTime xs \<Rightarrow> AppendTime A column_name source sel nulls target
      | CTime64 p xs \<Rightarrow> AppendTime A column_name source sel nulls target
      | CUUID xs \<Rightarrow> AppendUUID A column_name source sel nulls target
      | CEnum es xs \<Rightarrow> AppendEnum A column_name source sel nulls target
      | _ \<Rightarrow> Inl (Exn NotImplementedException ''Cannot insert into ClickHouse column'' [column_name, ColumnTypeName A target]))"

lemma weight_fields: "(\<Sum>c\<leftarrow>cs. Suc (2 * weight c)) \<le> Suc (2 * (\<Sum>c\<leftarrow>cs. Suc (weight c)))"
  by (induction cs) auto

text \<open>
  \<open>AppendListRows\<close> takes the data column and the end positions of the array it fills; \<open>AppendFields\<close> is the
  loop of \<open>AppendStruct\<close>. A map's rows are collected in an array of their own.
\<close>

function AppendRows :: "vector_api \<Rightarrow> string \<Rightarrow> vec \<Rightarrow> nat list \<Rightarrow> bool \<Rightarrow> ch_column \<Rightarrow> ch_column res"
  and AppendListRows :: "vector_api \<Rightarrow> string \<Rightarrow> exn \<Rightarrow> vec \<Rightarrow> nat list \<Rightarrow> bool \<Rightarrow> ch_column \<Rightarrow> nat list \<Rightarrow> ch_column res"
  and AppendFields :: "vector_api \<Rightarrow> string \<Rightarrow> vec list \<Rightarrow> nat list \<Rightarrow> bool \<Rightarrow> ch_column list \<Rightarrow> ch_column list res" where
  "AppendRows A column_name source sel nulls target =
     (case target of
        CNullable flags nested \<Rightarrow>
          bindE (AppendRows A column_name source sel True nested) (\<lambda>c.
            Inr (CNullable (flags @ map (\<lambda>i. \<not> validity source ! i) sel) c))
      | CLowCardinality nested \<Rightarrow>
          bindE (AppendRows A column_name source sel nulls (EmptyLike nested)) (\<lambda>c.
            Inr (AppendColumn A target (CLowCardinality c)))
      | CArray data ends \<Rightarrow>
          if \<not> is_list (vec_type source) then Inl (ThrowMismatch A source target column_name)
          else AppendListRows A column_name (ThrowNull A target column_name) source sel nulls data ends
      | CMap array \<Rightarrow>
          if \<not> is_map (vec_type source) then Inl (ThrowMismatch A source target column_name)
          else (case array of
              CArray data ends \<Rightarrow>
                bindE (AppendListRows A column_name (ThrowNull A target column_name) source sel nulls (EmptyLike data) [])
                  (\<lambda>c. Inr (AppendColumn A target (CMap c)))
            | _ \<Rightarrow> Inl (ThrowMismatch A source target column_name))
      | CTuple cs \<Rightarrow>
          if \<not> is_struct (vec_type source) \<or> length (struct_children source) \<noteq> length cs
          then Inl (ThrowMismatch A source target column_name)
          else if \<not> nulls \<and> (\<exists>i\<in>set sel. \<not> validity source ! i) then Inl (ThrowNull A target column_name)
          else bindE (AppendFields A column_name (struct_children source) sel nulls cs) (\<lambda>cs'. Inr (CTuple cs'))
      | _ \<Rightarrow> AppendScalar A column_name source sel nulls target)"
| "AppendListRows A column_name null_error source sel nulls data ends =
     bindE (ListElements null_error nulls source sel) (\<lambda>element_sel.
     bindE (if element_sel = [] then Inr data
            else AppendRows A column_name (list_child source) element_sel False data) (\<lambda>data'.
       Inr (CArray data' (ends @ ListEnds source (col_size data) sel))))"
| "AppendFields A column_name [] sel nulls cs = Inr []"
| "AppendFields A column_name (v # vs) sel nulls [] = Inr []"
| "AppendFields A column_name (v # vs) sel nulls (c # cs) =
     bindE (AppendRows A column_name v sel nulls c) (\<lambda>c'.
     bindE (AppendFields A column_name vs sel nulls cs) (\<lambda>cs'. Inr (c' # cs')))"
  by pat_completeness auto
termination
  by (relation "measure (\<lambda>x. case x of
      Inl (A, name, source, sel, nulls, c) \<Rightarrow> 2 * weight c
    | Inr (Inl (A, name, ex, source, sel, nulls, data, ends)) \<Rightarrow> 2 * weight data + 1
    | Inr (Inr (A, name, vs, sel, nulls, cs)) \<Rightarrow> sum_list (map (\<lambda>c. 2 * weight c + 1) cs))")
    (auto simp: less_Suc_eq_le weight_fields)

declare AppendRows.simps [simp del] AppendListRows.simps [simp del]

definition AppendVector :: "vector_api \<Rightarrow> vec \<Rightarrow> nat \<Rightarrow> ch_column \<Rightarrow> string \<Rightarrow> ch_column res" where
  "AppendVector A source count target column_name = AppendRows A column_name source [0..<count] False target"

end
