(* ===== verification/WriterScalars.thy ===== *)
theory WriterScalars
  imports Writer
begin

text \<open>
  What the functions of \<open>src/src/clickhouse_writer.cpp\<close> write into columns that are not nested: the value a
  column stores (\<open>store\<close>), the vectors a column is filled from (\<open>fits\<close>), and one lemma per kind of column.
\<close>

section \<open>The value a column stores\<close>

fun store :: "ch_column \<Rightarrow> cell \<Rightarrow> cell" where
  "store (CNullable flags c) x = (if x = CellNull then CellNull else store c x)"
| "store (CLowCardinality c) x = store c x"
| "store (CMap c) x = store c x"
| "store (CArray c ends) x = (case x of CellList xs \<Rightarrow> CellList (map (store c) xs) | _ \<Rightarrow> x)"
| "store (CTuple cs) x = (case x of CellStruct xs \<Rightarrow> CellStruct (map2 (\<lambda>f y. f y) (map store cs) xs) | _ \<Rightarrow> x)"
| "store (CNum k ys) x = (case x of CellBool b \<Rightarrow> CellNum (if b then 1 else 0) | _ \<Rightarrow> x)"
| "store (CFixedString n ys) x = (case x of CellText s \<Rightarrow> CellText (zero_padded n s) | _ \<Rightarrow> x)"
| "store (CDateTime ys) x = (case x of CellTicks p t \<Rightarrow> CellTicks 0 (rescale p 0 t) | _ \<Rightarrow> x)"
| "store (CDateTime64 q ys) x = (case x of CellTicks p t \<Rightarrow> CellTicks q (rescale p q t) | _ \<Rightarrow> x)"
| "store (CTime ys) x = (case x of CellTicks p t \<Rightarrow> CellTicks 0 (rescale p 0 t) | _ \<Rightarrow> x)"
| "store (CTime64 q ys) x = (case x of CellTicks p t \<Rightarrow> CellTicks q (rescale p q t) | _ \<Rightarrow> x)"
| "store _ x = x"

fun is_nullable :: "ch_column \<Rightarrow> bool" where
  "is_nullable (CNullable flags c) = True"
| "is_nullable (CLowCardinality c) = is_nullable c"
| "is_nullable _ = False"

text \<open>
  Which vectors a column can be filled from: those of the type DuckDB casts the values to. The fields of
  a nullable tuple must be nullable themselves (see \<open>nullable_tuple_loses_null\<close> below for why).
\<close>

fun null_safe :: "ch_column \<Rightarrow> bool" where
  "null_safe (CTuple cs) \<longleftrightarrow> list_all is_nullable cs"
| "null_safe (CLowCardinality c) \<longleftrightarrow> null_safe c"
| "null_safe _ \<longleftrightarrow> True"

definition enum_ok :: "(int \<times> string) list \<Rightarrow> bool" where
  "enum_ok entries \<longleftrightarrow> distinct (map fst entries) \<and> distinct (map snd entries)"

fun fits :: "ch_column \<Rightarrow> logical_type \<Rightarrow> bool" where
  "fits (CNullable flags c) t \<longleftrightarrow> fits c t \<and> null_safe c"
| "fits (CLowCardinality c) t \<longleftrightarrow> fits c t"
| "fits (CMap c) t \<longleftrightarrow> (case t of MAP k v \<Rightarrow> fits c (LIST (STRUCT [(''key'', k), (''value'', v)])) | _ \<Rightarrow> False)"
| "fits (CArray c ends) t \<longleftrightarrow> (case t of LIST u \<Rightarrow> fits c u | _ \<Rightarrow> False)"
| "fits (CTuple cs) t \<longleftrightarrow> (case t of STRUCT fs \<Rightarrow> list_all2 (\<lambda>f u. f u) (map fits cs) (map snd fs) | _ \<Rightarrow> False)"
| "fits (CBool ys) t \<longleftrightarrow> t = BOOLEAN"
| "fits (CNum k ys) t \<longleftrightarrow> (k, t) \<in> {(PINT8, TINYINT), (PINT16, SMALLINT), (PINT32, INTEGER), (PINT64, BIGINT),
     (PUINT8, UTINYINT), (PUINT8, BOOLEAN), (PUINT16, USMALLINT), (PUINT32, UINTEGER), (PUINT64, UBIGINT),
     (PFLOAT, FLOAT), (PDOUBLE, DOUBLE)}"
| "fits (CInt128 ys) t \<longleftrightarrow> t = HUGEINT"
| "fits (CUInt128 ys) t \<longleftrightarrow> t = UHUGEINT"
| "fits (CDecimal s ys) t \<longleftrightarrow> (\<exists>w. t = DECIMAL w s)"
| "fits (CString ys) t \<longleftrightarrow> t \<in> {VARCHAR, BLOB, JSON}"
| "fits (CFixedString n ys) t \<longleftrightarrow> t \<in> {VARCHAR, BLOB}"
| "fits (CDate ys) t \<longleftrightarrow> t = DATE"
| "fits (CDate32 ys) t \<longleftrightarrow> t = DATE"
| "fits (CDateTime ys) t \<longleftrightarrow> t \<in> {TIMESTAMP_SEC, TIMESTAMP_MS, TIMESTAMP, TIMESTAMP_TZ, TIMESTAMP_NS}"
| "fits (CDateTime64 p ys) t \<longleftrightarrow> t \<in> {TIMESTAMP_SEC, TIMESTAMP_MS, TIMESTAMP, TIMESTAMP_TZ, TIMESTAMP_NS}"
| "fits (CTime ys) t \<longleftrightarrow> t \<in> {TIME, TIME_NS}"
| "fits (CTime64 p ys) t \<longleftrightarrow> t \<in> {TIME, TIME_NS}"
| "fits (CUUID ys) t \<longleftrightarrow> t = UUID"
| "fits (CEnum es ys) t \<longleftrightarrow> enum_ok es \<and> (\<exists>labels. t = ENUM labels)"
| "fits (CNothing n) t \<longleftrightarrow> False"
| "fits (COther s) t \<longleftrightarrow> False"

lemma same_type:
  "store (EmptyLike c) = store c" "is_nullable (EmptyLike c) = is_nullable c"
  "null_safe (EmptyLike c) = null_safe c" "fits (EmptyLike c) t = fits c t"
proof -
  show "store (EmptyLike c) = store c"
  proof (induction c)
    case (CTuple cs)
    then have "map store (map EmptyLike cs) = map store cs" by simp
    then show ?case by (intro ext) (simp only: store.simps EmptyLike.simps)
  next
    case (CArray c ends)
    then show ?case by (intro ext) (simp only: store.simps EmptyLike.simps)
  qed (intro ext; simp)+
  show nullable: "is_nullable (EmptyLike c) = is_nullable c" for c
    by (induction c) auto
  show safe: "null_safe (EmptyLike c) = null_safe c" for c
    by (induction c) (auto simp: list_all_iff nullable)
  show "fits (EmptyLike c) t = fits c t"
    by (induction c arbitrary: t) (auto simp: safe o_def list_all2_conv_all_nth split: logical_type.splits)
qed

lemma EmptyLike_eq:
  assumes "EmptyLike c = EmptyLike d"
  shows "store c = store d" "is_nullable c = is_nullable d" "null_safe c = null_safe d" "fits c t = fits d t"
  using assms same_type by metis+

section \<open>Appended rows\<close>

definition appended :: "vector_api \<Rightarrow> vec \<Rightarrow> nat list \<Rightarrow> bool \<Rightarrow> ch_column \<Rightarrow> ch_column \<Rightarrow> bool" where
  "appended A source sel nulls c c' \<longleftrightarrow>
     EmptyLike c' = EmptyLike c \<and> col_ok c' \<and> col_size c' = col_size c + length sel \<and>
     (\<forall>i<col_size c. col_cell c' i = col_cell c i) \<and>
     (\<forall>j<length sel. validity source ! (sel ! j) \<or> is_nullable c \<longrightarrow>
        col_cell c' (col_size c + j) = store c (vec_cell A source (sel ! j))) \<and>
     (\<not> nulls \<and> \<not> is_nullable c \<longrightarrow> (\<forall>i\<in>set sel. validity source ! i))"

lemma ForEachValue_rows:
  assumes "ForEachValue ex nulls source put d sel = Inr new"
  shows "length new = length sel \<and> (\<forall>j<length sel. validity source ! (sel ! j) \<longrightarrow>
      put (flat_data source ! (sel ! j)) = Inr (new ! j)) \<and> (\<not> nulls \<longrightarrow> (\<forall>i\<in>set sel. validity source ! i))"
  using assms
proof (induction sel arbitrary: new)
  case (Cons i sel)
  then obtain x xs where x: "new = x # xs" "ForEachValue ex nulls source put d sel = Inr xs"
    "validity source ! i \<longrightarrow> put (flat_data source ! i) = Inr x" "validity source ! i \<or> nulls"
    by (auto split: if_splits)
  with Cons.IH [OF x(2)] show ?case by (auto simp: nth_Cons split: nat.split)
qed simp

text \<open>A typed column that stores one element per row.\<close>

definition plain :: "('x list \<Rightarrow> ch_column) \<Rightarrow> ('x \<Rightarrow> cell) \<Rightarrow> bool" where
  "plain K f \<longleftrightarrow> (\<forall>xs. col_size (K xs) = length xs \<and> (\<forall>i. col_cell (K xs) i = f (xs ! i)) \<and> col_ok (K xs) \<and>
     \<not> is_nullable (K xs) \<and> (\<forall>ys. EmptyLike (K xs) = EmptyLike (K ys)))"

lemma appended_plain:
  assumes "plain K f" and "ForEachValue ex nulls (Flat t val data) put d sel = Inr new"
    and "\<And>i x. i \<in> set sel \<Longrightarrow> val ! i \<Longrightarrow> put (data ! i) = Inr x \<Longrightarrow> f x = store (K xs) (scalar_cell A t (data ! i))"
  shows "appended A (Flat t val data) sel nulls (K xs) (K (xs @ new))"
  using ForEachValue_rows [OF assms(2)] assms(1,3)
  by (auto simp: appended_def plain_def nth_append)

lemma plain_columns:
  "plain CBool CellBool" "plain (CNum k) (\<lambda>x. if k = PFLOAT \<or> k = PDOUBLE then CellReal x else CellNum x)"
  "plain CInt128 CellNum" "plain CUInt128 CellNum" "plain (CDecimal s) CellNum" "plain CString CellText"
  "plain (CFixedString n) CellText" "plain CDate CellNum" "plain CDate32 CellNum" "plain CDateTime (CellTicks 0)"
  "plain (CDateTime64 p) (CellTicks p)" "plain CTime (CellTicks 0)" "plain (CTime64 p) (CellTicks p)"
  "plain CUUID (\<lambda>x. CellNum (uint (fst x) * 2 ^ 64 + uint (snd x)))"
  "distinct (map fst es) \<Longrightarrow> plain (CEnum es) (\<lambda>x. CellText (the (map_of es x)))"
  by (simp_all add: plain_def)

lemma TryRescale_Some: "TryRescaleTicks t p q = Inr (Some r) \<Longrightarrow> r = rescale p q t"
  by (auto simp: TryRescaleTicks_def defined_tick_def rescale_def dest: ScaleTicks_rescale PowerOfTen_Some
      split: if_splits option.splits)

lemma enum_value_label:
  assumes "enum_ok entries" and "enum_value entries label = Some v"
  shows "map_of entries v = Some label"
proof -
  from assms(2) obtain e where e: "List.find (\<lambda>e. snd e = label) entries = Some e" "v = fst e"
    by (auto simp: enum_value_def)
  then have "e \<in> set entries" "snd e = label" by (auto simp: find_Some_iff)
  with e(2) assms(1) show ?thesis by (cases e) (auto simp: enum_ok_def)
qed

subsection \<open>Scalars\<close>

lemmas append_defs = AppendBool_def AppendNumeric_def AppendInt128_def AppendUInt128_def AppendDecimal_def AppendString_def
  AppendFixedString_def AppendDate_def AppendTimestamp_def AppendTime_def AppendUUID_def AppendEnum_def

text \<open>The content of a vector's rows by the physical type DuckDB gives the logical one.\<close>

lemma scalar_ok_num:
  assumes "vector_api_ok A" and "scalar_ok A t d" and "physical_of t \<notin> {PBOOL, PFLOAT, PDOUBLE, PVARCHAR, PLIST, PSTRUCT, POTHER}"
  shows "d = SInt (num d)"
  using assms by (auto simp: scalar_ok_def vector_api_okD(1) split: physical_type.splits)

lemma scalar_ok_text: "vector_api_ok A \<Longrightarrow> scalar_ok A t d \<Longrightarrow> physical_of t = PVARCHAR \<Longrightarrow> d = SText (chars d)"
  by (auto simp: scalar_ok_def vector_api_okD(1))

lemma scalar_ok_bool: "vector_api_ok A \<Longrightarrow> scalar_ok A BOOLEAN d \<Longrightarrow> \<exists>b. d = SBool b"
  by (auto simp: scalar_ok_def vector_api_okD(1))

lemma scalar_ok_real: "vector_api_ok A \<Longrightarrow> scalar_ok A t d \<Longrightarrow> physical_of t \<in> {PFLOAT, PDOUBLE} \<Longrightarrow> d = SReal (bits d)"
  by (auto simp: scalar_ok_def vector_api_okD(1) split: physical_type.splits)

definition is_scalar_column :: "ch_column \<Rightarrow> bool" where
  "is_scalar_column c = (case c of CNullable f d \<Rightarrow> False | CLowCardinality d \<Rightarrow> False | CMap d \<Rightarrow> False
     | CArray d e \<Rightarrow> False | CTuple cs \<Rightarrow> False | _ \<Rightarrow> True)"

lemma bool_appended:
  assumes "vector_api_ok A" and "AppendBool A name (Flat t val data) sel nulls c = Inr c'"
    and "\<forall>i\<in>set sel. val ! i \<longrightarrow> scalar_ok A t (data ! i)"
  shows "appended A (Flat t val data) sel nulls c c'"
proof (cases c)
  case (CBool xs)
  with assms(2) obtain new where new: "t = BOOLEAN" "c' = CBool (xs @ new)"
    "ForEachValue (ThrowNull A c name) nulls (Flat t val data) (\<lambda>d. Inr (d = SBool True)) False sel = Inr new"
    by (auto simp: AppendBool_def split: if_splits)
  show ?thesis unfolding CBool new(2)
    by (rule appended_plain [OF plain_columns(1) new(3)])
      (use assms(1,3) new(1) scalar_ok_bool in \<open>fastforce simp: scalar_cell_def\<close>)
next
  case (CNum k xs)
  with assms(2) obtain new where new: "t = BOOLEAN" "k = PUINT8" "c' = CNum k (xs @ new)"
    "ForEachValue (ThrowNull A c name) nulls (Flat t val data) (\<lambda>d. Inr (if d = SBool True then 1 else 0)) 0 sel = Inr new"
    by (auto simp: AppendBool_def split: if_splits)
  show ?thesis unfolding CNum new(3)
    by (rule appended_plain [OF plain_columns(2) new(4)])
      (use assms(1,3) new(1,2) scalar_ok_bool in \<open>fastforce simp: scalar_cell_def\<close>)
qed (use assms(2) in \<open>simp_all add: AppendBool_def split: if_splits\<close>)

lemma numeric_appended:
  assumes "vector_api_ok A" and "AppendNumeric A name k (Flat t val data) sel nulls (CNum k xs) = Inr c'"
    and "\<forall>i\<in>set sel. val ! i \<longrightarrow> scalar_ok A t (data ! i)" and "fits (CNum k xs) t"
  shows "appended A (Flat t val data) sel nulls (CNum k xs) c'"
proof -
  from assms(2) obtain new where new: "c' = CNum k (xs @ new)" "physical_of t = k"
    "ForEachValue (ThrowNull A (CNum k xs) name) nulls (Flat t val data)
       (\<lambda>d. Inr (case d of SInt n \<Rightarrow> n | SReal r \<Rightarrow> r | _ \<Rightarrow> 0)) 0 sel = Inr new"
    by (auto simp: AppendNumeric_def vector_api_okD(1) [OF assms(1)] split: if_splits)
  have content: "(if k = PFLOAT \<or> k = PDOUBLE then CellReal x else CellNum x) = store (CNum k xs) (scalar_cell A t d)"
    if ok: "scalar_ok A t d" and x: "x = (case d of SInt n \<Rightarrow> n | SReal r \<Rightarrow> r | _ \<Rightarrow> 0)" for d x
  proof (cases "k = PFLOAT \<or> k = PDOUBLE")
    case True
    then have "d = SReal (bits d)" using scalar_ok_real [OF assms(1) ok] new(2) by auto
    then obtain r where "d = SReal r" by metis
    with x True show ?thesis by (simp add: scalar_cell_def)
  next
    case False
    have "d = SInt (num d)"
      using scalar_ok_num [OF assms(1) ok] assms(4) new(2) False by auto
    then obtain n where d: "d = SInt n" by metis
    have "scalar_cell A t d = CellNum n"
      using assms(4) new(2) unfolding d by (auto simp: scalar_cell_def tick_precision_def)
    with x d False show ?thesis by simp
  qed
  show ?thesis unfolding new(1)
    by (rule appended_plain [OF plain_columns(2) new(3)]) (use content assms(3) in auto)
qed

text \<open>
  The typed columns that take numbers: what they get for a value of the vector is the value they store.
\<close>

lemma num_cell:
  assumes "vector_api_ok A" and "scalar_ok A t d" and "physical_of t \<notin> {PBOOL, PFLOAT, PDOUBLE, PVARCHAR, PLIST, PSTRUCT, POTHER}"
  shows "scalar_cell A t d = (case tick_precision t of
      Some p \<Rightarrow> CellTicks p (num d)
    | None \<Rightarrow> (case t of ENUM labels \<Rightarrow> CellText (labels ! nat (num d))
                      | UUID \<Rightarrow> CellNum (UUID_ToUHugeint A (num d)) | _ \<Rightarrow> CellNum (num d)))"
proof -
  obtain n where "d = SInt n" using scalar_ok_num [OF assms] by metis
  then show ?thesis by (simp add: scalar_cell_def cong: logical_type.case_cong option.case_cong)
qed

lemma text_cell:
  assumes "vector_api_ok A" and "scalar_ok A t d" and "physical_of t = PVARCHAR"
  shows "scalar_cell A t d = CellText (chars d)"
proof -
  obtain s where "d = SText s" using scalar_ok_text [OF assms] by metis
  then show ?thesis by (simp add: scalar_cell_def)
qed

lemma integer_appended:
  assumes "vector_api_ok A" and "\<forall>i\<in>set sel. val ! i \<longrightarrow> scalar_ok A t (data ! i)"
    and "AppendScalar A name (Flat t val data) sel nulls c = Inr c'" and "fits c t"
    and "(\<exists>xs. c = CInt128 xs) \<or> (\<exists>xs. c = CUInt128 xs) \<or> (\<exists>s xs. c = CDecimal s xs)"
  shows "appended A (Flat t val data) sel nulls c c'"
proof -
  consider (signed) xs where "c = CInt128 xs" | (unsigned) xs where "c = CUInt128 xs" | (decimal) s xs where "c = CDecimal s xs"
    using assms(5) by blast
  then show ?thesis
  proof cases
    case signed
    with assms(3,4) obtain new where new: "c' = CInt128 (xs @ new)" "t = HUGEINT"
      "ForEachValue (ThrowNull A c name) nulls (Flat t val data) (\<lambda>d. Inr (num d)) 0 sel = Inr new"
      by (auto simp: AppendScalar_def AppendInt128_def)
    show ?thesis unfolding signed new(1)
      by (rule appended_plain [OF plain_columns(3) new(3)])
        (use assms(2) num_cell [OF assms(1)] new(2) in \<open>auto simp: tick_precision_def\<close>)
  next
    case unsigned
    with assms(3,4) obtain new where new: "c' = CUInt128 (xs @ new)" "t = UHUGEINT"
      "ForEachValue (ThrowNull A c name) nulls (Flat t val data) (\<lambda>d. Inr (num d)) 0 sel = Inr new"
      by (auto simp: AppendScalar_def AppendUInt128_def)
    show ?thesis unfolding unsigned new(1)
      by (rule appended_plain [OF plain_columns(4) new(3)])
        (use assms(2) num_cell [OF assms(1)] new(2) in \<open>auto simp: tick_precision_def\<close>)
  next
    case decimal
    with assms(3,4) obtain w new where new: "c' = CDecimal s (xs @ new)" "t = DECIMAL w s"
      "ForEachValue (ThrowNull A c name) nulls (Flat t val data) (\<lambda>d. Inr (num d)) 0 sel = Inr new"
      by (auto simp: AppendScalar_def AppendDecimal_def split: if_splits)
    show ?thesis unfolding decimal new(1)
      by (rule appended_plain [OF plain_columns(5) new(3)])
        (use assms(2) num_cell [OF assms(1)] new(2) in \<open>auto simp: tick_precision_def\<close>)
  qed
qed

lemma text_appended:
  assumes "vector_api_ok A" and "\<forall>i\<in>set sel. val ! i \<longrightarrow> scalar_ok A t (data ! i)"
    and "AppendScalar A name (Flat t val data) sel nulls c = Inr c'"
    and "(\<exists>xs. c = CString xs) \<or> (\<exists>n xs. c = CFixedString n xs)"
  shows "appended A (Flat t val data) sel nulls c c'"
proof -
  consider (string) xs where "c = CString xs" | (fixed) n xs where "c = CFixedString n xs"
    using assms(4) by blast
  then show ?thesis
  proof cases
    case string
    with assms(3) obtain new where new: "c' = CString (xs @ new)" "physical_of t = PVARCHAR"
      "ForEachValue (ThrowNull A c name) nulls (Flat t val data) (\<lambda>d. Inr (chars d)) [] sel = Inr new"
      by (auto simp: AppendScalar_def AppendString_def vector_api_okD(1) [OF assms(1)] split: if_splits)
    show ?thesis unfolding string new(1)
      by (rule appended_plain [OF plain_columns(6) new(3)]) (use assms(2) text_cell [OF assms(1) _ new(2)] in auto)
  next
    case fixed
    with assms(3) obtain new where new: "c' = CFixedString n (xs @ new)" "physical_of t = PVARCHAR"
      "ForEachValue (ThrowNull A c name) nulls (Flat t val data)
         (\<lambda>d. if length (chars d) > n
              then Inl (Exn ConversionException ''Cannot insert a string into ClickHouse column: it does not fit its ClickHouse type''
                     [to_string (length (chars d)), name, ColumnTypeName A c])
              else Inr (zero_padded n (chars d))) (zero_padded n []) sel = Inr new"
      by (auto simp: AppendScalar_def AppendFixedString_def vector_api_okD(1) [OF assms(1)] split: if_splits)
    show ?thesis unfolding fixed new(1)
      by (rule appended_plain [OF plain_columns(7) new(3)])
        (use assms(2) text_cell [OF assms(1) _ new(2)] in \<open>auto split: if_splits\<close>)
  qed
qed

lemma date_appended:
  assumes "vector_api_ok A" and "\<forall>i\<in>set sel. val ! i \<longrightarrow> scalar_ok A t (data ! i)"
    and "AppendScalar A name (Flat t val data) sel nulls c = Inr c'"
    and "(\<exists>xs. c = CDate xs) \<or> (\<exists>xs. c = CDate32 xs)"
  shows "appended A (Flat t val data) sel nulls c c'"
proof -
  let ?put = "\<lambda>lo hi d. if num d < lo \<or> num d > hi then Inl (ThrowOutOfRange A (DateText A (num d)) c name) else Inr (num d)"
  have t: "t = DATE" using assms(3,4) by (auto simp: AppendScalar_def AppendDate_def split: if_splits)
  consider (date) xs where "c = CDate xs" | (date32) xs where "c = CDate32 xs" using assms(4) by blast
  then show ?thesis
  proof cases
    case date
    with assms(3) t obtain new where new: "c' = CDate (xs @ new)"
      "ForEachValue (ThrowNull A c name) nulls (Flat t val data) (?put 0 65535) 0 sel = Inr new"
      by (auto simp: AppendScalar_def AppendDate_def Let_def)
    show ?thesis unfolding date new(1)
      by (rule appended_plain [OF plain_columns(8) new(2)])
        (use assms(2) num_cell [OF assms(1)] t in \<open>auto simp: tick_precision_def split: if_splits\<close>)
  next
    case date32
    with assms(3) t obtain new where new: "c' = CDate32 (xs @ new)"
      "ForEachValue (ThrowNull A c name) nulls (Flat t val data) (?put (FromDate 1900 1 1) (FromDate 2299 12 31)) 0 sel = Inr new"
      by (auto simp: AppendScalar_def AppendDate_def Let_def)
    show ?thesis unfolding date32 new(1)
      by (rule appended_plain [OF plain_columns(9) new(2)])
        (use assms(2) num_cell [OF assms(1)] t in \<open>auto simp: tick_precision_def split: if_splits\<close>)
  qed
qed

lemma ticks_cell:
  assumes "vector_api_ok A" and "scalar_ok A t d" and "tick_precision t = Some p"
  shows "scalar_cell A t d = CellTicks p (num d)"
  by (subst num_cell [OF assms(1,2)]) (use assms(3) in \<open>auto simp: tick_precision_def split: logical_type.splits\<close>)

lemma TimestampPrecision_ticks: "TimestampPrecision t = Some p \<Longrightarrow> tick_precision t = Some p"
  by (cases t) (auto simp: TimestampPrecision_def tick_precision_def)

lemma timestamp_appended:
  assumes "vector_api_ok A" and "\<forall>i\<in>set sel. val ! i \<longrightarrow> scalar_ok A t (data ! i)"
    and "AppendScalar A name (Flat t val data) sel nulls c = Inr c'"
    and "(\<exists>xs. c = CDateTime xs) \<or> (\<exists>p xs. c = CDateTime64 p xs)"
  shows "appended A (Flat t val data) sel nulls c c'"
proof -
  obtain p where p: "TimestampPrecision t = Some p"
    using assms(3,4) by (auto simp: AppendScalar_def AppendTimestamp_def split: option.splits)
  note cell = ticks_cell [OF assms(1) _ TimestampPrecision_ticks [OF p]]
  consider (seconds) xs where "c = CDateTime xs" | (ticks) q xs where "c = CDateTime64 q xs" using assms(4) by blast
  then show ?thesis
  proof cases
    case seconds
    with assms(3) p obtain put new where new: "c' = CDateTime (xs @ new)"
      "ForEachValue (ThrowNull A c name) nulls (Flat t val data) put 0 sel = Inr new"
      and put: "put = (\<lambda>d. bindE (defined_tick (ScaleTicks (num d) p 0)) (\<lambda>seconds.
                    if seconds < 0 \<or> seconds > 4294967295 then out_of_range_ticks A (num d) p c name else Inr seconds))"
      by (auto simp: AppendScalar_def AppendTimestamp_def)
    show ?thesis unfolding seconds new(1)
      by (rule appended_plain [OF plain_columns(10) new(2)])
        (use assms(2) cell in \<open>auto simp: put defined_tick_def out_of_range_ticks_def dest: ScaleTicks_rescale
          split: if_splits option.splits\<close>)
  next
    case ticks
    with assms(3) p obtain put new where new: "c' = CDateTime64 q (xs @ new)"
      "ForEachValue (ThrowNull A c name) nulls (Flat t val data) put 0 sel = Inr new"
      and put: "put = (\<lambda>d. bindE (TryRescaleTicks (num d) p 6) (\<lambda>micros. case micros of
                    None \<Rightarrow> out_of_range_ticks A (num d) p c name
                  | Some m \<Rightarrow>
                      if m < MIN_MICROS \<or> m > MAX_MICROS then out_of_range_ticks A (num d) p c name
                      else bindE (TryRescaleTicks (num d) p q) (\<lambda>result. case result of
                          None \<Rightarrow> out_of_range_ticks A (num d) p c name
                        | Some r \<Rightarrow> Inr r)))"
      by (auto simp: AppendScalar_def AppendTimestamp_def)
    show ?thesis unfolding ticks new(1)
      by (rule appended_plain [OF plain_columns(11) new(2)])
        (use assms(2) cell in \<open>auto simp: put out_of_range_ticks_def dest: TryRescale_Some split: if_splits option.splits\<close>)
  qed
qed

lemma time_appended:
  assumes "vector_api_ok A" and "\<forall>i\<in>set sel. val ! i \<longrightarrow> scalar_ok A t (data ! i)"
    and "AppendScalar A name (Flat t val data) sel nulls c = Inr c'"
    and "(\<exists>xs. c = CTime xs) \<or> (\<exists>p xs. c = CTime64 p xs)"
  shows "appended A (Flat t val data) sel nulls c c'"
proof -
  let ?p = "if t = TIME then 6 else 9 :: nat"
  have t: "tick_precision t = Some ?p"
    using assms(3,4) by (auto simp: AppendScalar_def AppendTime_def tick_precision_def Let_def split: if_splits)
  note cell = ticks_cell [OF assms(1) _ t]
  consider (time) xs where "c = CTime xs" | (time64) q xs where "c = CTime64 q xs" using assms(4) by blast
  then show ?thesis
  proof cases
    case time
    with assms(3) obtain new where new: "c' = CTime (xs @ new)"
      "ForEachValue (ThrowNull A c name) nulls (Flat t val data) (\<lambda>d. defined_tick (ScaleTicks (num d) ?p 0)) 0 sel = Inr new"
      by (auto simp: AppendScalar_def AppendTime_def Let_def split: if_splits)
    show ?thesis unfolding time new(1)
      by (rule appended_plain [OF plain_columns(12) new(2)])
        (use assms(2) cell in \<open>auto simp: defined_tick_def dest: ScaleTicks_rescale split: option.splits\<close>)
  next
    case time64
    with assms(3) obtain new where new: "c' = CTime64 q (xs @ new)"
      "ForEachValue (ThrowNull A c name) nulls (Flat t val data) (\<lambda>d. defined_tick (ScaleTicks (num d) ?p q)) 0 sel = Inr new"
      by (auto simp: AppendScalar_def AppendTime_def Let_def split: if_splits)
    show ?thesis unfolding time64 new(1)
      by (rule appended_plain [OF plain_columns(13) new(2)])
        (use assms(2) cell in \<open>auto simp: defined_tick_def dest: ScaleTicks_rescale split: option.splits\<close>)
  qed
qed

lemma uuid_halves:
  assumes "0 \<le> u" and "u < 2 ^ 128"
  shows "uint (word_of_int (u div 2 ^ 64) :: 64 word) * 2 ^ 64 + uint (word_of_int (u mod 2 ^ 64) :: 64 word) = u"
proof -
  have "u div 2 ^ 64 < 2 ^ 64" "0 \<le> u div 2 ^ 64" using assms by (simp_all add: pos_imp_zdiv_nonneg_iff)
  then show ?thesis by (simp add: uint_word_of_int)
qed

lemma scalar_ok_uuid: "vector_api_ok A \<Longrightarrow> scalar_ok A UUID d \<Longrightarrow> 0 \<le> UUID_ToUHugeint A (num d) \<and> UUID_ToUHugeint A (num d) < 2 ^ 128"
  by (auto simp: scalar_ok_def vector_api_okD(1))

lemma uuid_enum_appended:
  assumes "vector_api_ok A" and "\<forall>i\<in>set sel. val ! i \<longrightarrow> scalar_ok A t (data ! i)"
    and "AppendScalar A name (Flat t val data) sel nulls c = Inr c'" and "fits c t"
    and "(\<exists>xs. c = CUUID xs) \<or> (\<exists>es xs. c = CEnum es xs)"
  shows "appended A (Flat t val data) sel nulls c c'"
proof -
  consider (uuid) xs where "c = CUUID xs" | (enum) es xs where "c = CEnum es xs" using assms(5) by blast
  then show ?thesis
  proof cases
    case uuid
    with assms(3) obtain new where new: "c' = CUUID (xs @ new)" "t = UUID"
      "ForEachValue (ThrowNull A c name) nulls (Flat t val data)
         (\<lambda>d. let u = UUID_ToUHugeint A (num d) in Inr (word_of_int (u div 2 ^ 64), word_of_int (u mod 2 ^ 64))) (0, 0) sel = Inr new"
      by (auto simp: AppendScalar_def AppendUUID_def split: if_splits)
    show ?thesis unfolding uuid new(1)
      by (rule appended_plain [OF plain_columns(14) new(3)])
        (use assms(2) num_cell [OF assms(1)] new(2) uuid_halves scalar_ok_uuid [OF assms(1)] in
          \<open>auto simp: tick_precision_def Let_def\<close>)
  next
    case enum
    with assms(3,4) obtain labels new where new: "c' = CEnum es (xs @ new)" "t = ENUM labels" "enum_ok es"
      "ForEachValue (ThrowNull A c name) nulls (Flat t val data)
         (\<lambda>d. let label = labels ! nat (num d) in
              case enum_value es label of
                None \<Rightarrow> Inl (Exn ConversionException ''Cannot insert into ClickHouse column: it is not a label of its ClickHouse type''
                          [label, name, ColumnTypeName A c])
              | Some v \<Rightarrow> Inr v) (fst (hd es)) sel = Inr new"
      by (auto simp: AppendScalar_def AppendEnum_def split: if_splits)
    show ?thesis unfolding enum new(1)
      by (rule appended_plain [OF plain_columns(15) new(4)])
        (use new(3) in \<open>simp add: enum_ok_def\<close>,
         use assms(2) num_cell [OF assms(1)] new(2) in \<open>auto simp: tick_precision_def Let_def
          dest: enum_value_label [OF new(3)] split: option.splits\<close>)
  qed
qed

lemma scalar_appended:
  assumes "vector_api_ok A" and "\<forall>i\<in>set sel. val ! i \<longrightarrow> scalar_ok A t (data ! i)"
    and "AppendScalar A name (Flat t val data) sel nulls c = Inr c'" and "fits c t"
  shows "appended A (Flat t val data) sel nulls c c'"
proof (cases c)
  case (CBool xs)
  with assms bool_appended show ?thesis by (simp add: AppendScalar_def)
next
  case (CNum k xs)
  show ?thesis
  proof (cases "k = PUINT8 \<and> t = BOOLEAN")
    case True
    with assms(3) CNum have "AppendBool A name (Flat t val data) sel nulls c = Inr c'" by (simp add: AppendScalar_def)
    from bool_appended [OF assms(1) this assms(2)] show ?thesis .
  next
    case False
    with assms(3) CNum have "AppendNumeric A name k (Flat t val data) sel nulls (CNum k xs) = Inr c'"
      by (simp add: AppendScalar_def)
    from numeric_appended [OF assms(1) this assms(2) assms(4) [unfolded CNum]] show ?thesis unfolding CNum .
  qed
qed (use assms integer_appended text_appended date_appended timestamp_appended time_appended uuid_enum_appended in
    \<open>blast | simp add: AppendScalar_def\<close>)+

end
