(* ===== verification/WriterCorrect.thy ===== *)
theory WriterCorrect
  imports WriterScalars
begin

text \<open>
  What \<open>AppendVector\<close> of \<open>src/src/clickhouse_writer.cpp\<close> writes: every selected row of the vector is appended,
  in order, and the rows already in the column stay. The value of a written row is that of the vector's
  row, except that ticks are rounded down to the column's precision and fixed strings are padded.
\<close>

section \<open>Rows of vectors\<close>

lemma vec_cell_null: "\<not> validity source ! i \<Longrightarrow> vec_cell A source i = CellNull"
  by (cases source) auto

lemma scalar_cell_not_null: "scalar_cell A t d \<noteq> CellNull"
  by (auto simp: scalar_cell_def split: scalar.splits option.splits logical_type.splits)

lemma vec_cell_not_null: "validity source ! i \<Longrightarrow> vec_cell A source i \<noteq> CellNull"
  by (cases source) (auto simp: scalar_cell_not_null)

definition nested :: "ch_column \<Rightarrow> bool" where
  "nested c = (case c of CNullable f d \<Rightarrow> True | CLowCardinality d \<Rightarrow> True | CMap d \<Rightarrow> True
     | CArray d e \<Rightarrow> True | CTuple cs \<Rightarrow> True | _ \<Rightarrow> False)"

text \<open>A column that is not nested is filled from a flat vector, an array or map from a list, a tuple from a struct.\<close>

lemma flat_source: "vec_ok A n source \<Longrightarrow> fits c (vec_type source) \<Longrightarrow> \<not> nested c \<Longrightarrow> \<exists>t val data. source = Flat t val data"
  by (cases source; cases c) (auto simp: nested_def split: logical_type.splits)

lemma list_source:
  assumes "vector_api_ok A" and "vec_ok A n source" and "is_list (vec_type source) \<or> is_map (vec_type source)"
  shows "\<exists>t val entries child. source = ListVec t val entries child"
  using assms by (cases source) (auto simp: vector_api_okD(1) is_list_def is_map_def split: logical_type.splits)

lemma struct_source:
  assumes "vector_api_ok A" and "vec_ok A n source" and "is_struct (vec_type source)"
  shows "\<exists>fs val children. source = StructVec (STRUCT fs) val children \<and> map vec_type children = map snd fs \<and>
    list_all (vec_ok A n) children"
  using assms by (cases source) (auto simp: vector_api_okD(1) is_struct_def split: logical_type.splits)

lemma nullable_null_safe: "is_nullable c \<Longrightarrow> null_safe c"
  by (induction c) auto

section \<open>Lists\<close>

lemma nth_concat_segment:
  assumes "j < length xss" and "k < length (xss ! j)"
  shows "sum_list (map length (take j xss)) + k < length (concat xss)"
    and "concat xss ! (sum_list (map length (take j xss)) + k) = xss ! j ! k"
  using assms
proof (induction xss arbitrary: j)
  case (Cons xs xss)
  {
    case 1
    then show ?case using Cons.IH(1) [of "j - 1"] by (cases j) auto
  next
    case 2
    then show ?case using Cons.IH(2) [of "j - 1"] by (cases j) (auto simp: nth_append)
  }
qed simp_all

text \<open>The elements of a row, and the end positions as partial sums of their numbers.\<close>

definition row_elements :: "vec \<Rightarrow> nat \<Rightarrow> nat list" where
  "row_elements source i = (if validity source ! i
     then [fst (list_entries source ! i)..<fst (list_entries source ! i) + snd (list_entries source ! i)] else [])"

lemma ListElements_rows:
  "ListElements ex nulls source sel = Inr es \<Longrightarrow>
     es = concat (map (row_elements source) sel) \<and> (\<not> nulls \<longrightarrow> (\<forall>i\<in>set sel. validity source ! i))"
  by (auto simp: ListElements_def row_elements_def [abs_def] split: if_splits)

definition end_at :: "vec \<Rightarrow> nat \<Rightarrow> nat list \<Rightarrow> nat \<Rightarrow> nat" where
  "end_at source e sel j = e + sum_list (map length (take j (map (row_elements source) sel)))"

lemma ListEnds_length [simp]: "length (ListEnds source e sel) = length sel"
  by (induction source e sel rule: ListEnds.induct) (auto simp: Let_def)

lemma ListEnds_nth: "j < length sel \<Longrightarrow> ListEnds source e sel ! j = end_at source e sel (Suc j)"
proof (induction source e sel arbitrary: j rule: ListEnds.induct)
  case (2 source e i sel)
  then show ?case by (cases j) (auto simp: Let_def end_at_def row_elements_def)
qed simp

lemma end_at_mono: "j \<le> k \<Longrightarrow> end_at source e sel j \<le> end_at source e sel k"
proof -
  assume "j \<le> k"
  then obtain d where "k = j + d" by (metis le_Suc_ex)
  then show ?thesis by (simp add: end_at_def take_add)
qed

lemma end_at_0 [simp]: "end_at source e sel 0 = e"
  by (simp add: end_at_def)

lemma end_at_all: "end_at source e sel (length sel) = e + length (concat (map (row_elements source) sel))"
  by (simp add: end_at_def length_concat)

definition last_end :: "nat list \<Rightarrow> nat" where "last_end ends = (if ends = [] then 0 else last ends)"

lemma ListEnds_ok:
  assumes "sorted ends" and "last_end ends = e"
  shows "sorted (ends @ ListEnds source e sel)"
    and "last_end (ends @ ListEnds source e sel) = e + length (concat (map (row_elements source) sel))"
    and "j < length sel \<Longrightarrow> array_start (ends @ ListEnds source e sel) (length ends + j) = end_at source e sel j"
    and "i < length ends \<Longrightarrow> ends ! i \<le> e"
proof -
  have below: "x \<le> e" if "x \<in> set ends" for x
  proof -
    obtain i where "i < length ends" "x = ends ! i" using \<open>x \<in> set ends\<close> by (auto simp: in_set_conv_nth)
    then show ?thesis
      using assms sorted_nth_mono [OF assms(1), of i "length ends - 1"] by (auto simp: last_end_def last_conv_nth)
  qed
  then show "i < length ends \<Longrightarrow> ends ! i \<le> e" by simp
  have "sorted (ListEnds source e sel)"
    by (auto simp: sorted_iff_nth_mono ListEnds_nth intro: end_at_mono)
  moreover have "e \<le> y" if "y \<in> set (ListEnds source e sel)" for y
    using that end_at_mono [of 0 _ source e sel] by (auto simp: in_set_conv_nth ListEnds_nth)
  ultimately show "sorted (ends @ ListEnds source e sel)"
    using assms(1) below by (auto simp: sorted_append intro: order_trans)
  show "last_end (ends @ ListEnds source e sel) = e + length (concat (map (row_elements source) sel))"
  proof (cases sel rule: rev_cases)
    case Nil
    with assms(2) show ?thesis by (simp add: last_end_def)
  next
    case (snoc ys y)
    then have "sel \<noteq> []" by simp
    then have "last (ends @ ListEnds source e sel) = ListEnds source e sel ! (length sel - 1)"
      by (metis ListEnds_length last_appendR last_conv_nth length_0_conv)
    also have "\<dots> = end_at source e sel (length sel)"
      using \<open>sel \<noteq> []\<close> by (subst ListEnds_nth) auto
    finally show ?thesis using \<open>sel \<noteq> []\<close> ListEnds_length [of source e sel]
      by (auto simp: last_end_def end_at_all simp del: ListEnds_length)
  qed
  show "j < length sel \<Longrightarrow> array_start (ends @ ListEnds source e sel) (length ends + j) = end_at source e sel j"
    using assms(2) by (cases j) (auto simp: array_start_def nth_append ListEnds_nth last_end_def last_conv_nth)
qed

lemma list_appended:
  assumes "vec_ok A n source" and source: "source = ListVec t val entries child" and "\<forall>i\<in>set sel. i < n"
    and "col_ok (CArray data ends)"
    and run: "AppendListRows A name ex source sel nulls data ends = Inr c'"
    and elements: "\<And>es data'. ListElements ex nulls source sel = Inr es \<Longrightarrow> es \<noteq> [] \<Longrightarrow> \<forall>e\<in>set es. e < length (validity child) \<Longrightarrow> AppendRows A name child es False data = Inr data' \<Longrightarrow>
      appended A child es False data data'"
  shows "appended A source sel nulls (CArray data ends) c'"
proof -
  let ?rows = "map (row_elements source) sel" and ?e = "col_size data"
  let ?ends = "ends @ ListEnds source ?e sel"
  from run obtain es data' where c': "c' = CArray data' ?ends" and es: "ListElements ex nulls source sel = Inr es"
    and read: "(if es = [] then Inr data else AppendRows A name (list_child source) es False data) = Inr data'"
    unfolding AppendListRows.simps bindE_eq_Inr by blast
  note rows = ListElements_rows [OF es]
  then have valid: "\<not> nulls \<longrightarrow> (\<forall>i\<in>set sel. validity source ! i)" by blast
  have data': "if concat ?rows = [] then data' = data else AppendRows A name child (concat ?rows) False data = Inr data'"
    using read conjunct1 [OF rows] by (auto simp: source split: if_splits)
  have ok: "col_ok data" "sorted ends" "last_end ends = ?e" using assms(4) by (auto simp: last_end_def)
  note ends = ListEnds_ok(1-3) [OF ok(2,3), where source = source and sel = sel] ListEnds_ok(4) [OF ok(2,3)]
  have bound: "\<forall>x\<in>set (concat ?rows). x < length (validity child)"
    using assms(1,3) by (force simp: row_elements_def source split: if_splits)
  have app: "appended A child (concat ?rows) False data data'"
  proof (cases "concat ?rows = []")
    case True
    with data' have "data' = data" by (simp only: if_True)
    then show ?thesis unfolding True using ok(1) by (simp add: appended_def)
  next
    case False
    with data' have "AppendRows A name child (concat ?rows) False data = Inr data'" by (simp only: if_False)
    then show ?thesis using elements [OF es] bound False conjunct1 [OF rows] by simp
  qed
  have old: "col_cell data' i = col_cell data i" if "i < ?e" for i
    using app that by (simp add: appended_def)
  have new: "col_cell data' (?e + k) = store data (vec_cell A child (concat ?rows ! k))" if "k < length (concat ?rows)" for k
    using app that unfolding appended_def by (metis nth_mem)
  have rows: "map (col_cell data') [end_at source ?e sel j..<end_at source ?e sel (Suc j)] =
      map (store data) (map (vec_cell A child) (row_elements source (sel ! j)))" if j: "j < length sel" for j
  proof (rule nth_equalityI)
    have len: "end_at source ?e sel (Suc j) = end_at source ?e sel j + length (row_elements source (sel ! j))"
      using j by (simp add: end_at_def take_Suc_conv_app_nth)
    then show "length (map (col_cell data') [end_at source ?e sel j..<end_at source ?e sel (Suc j)]) =
      length (map (store data) (map (vec_cell A child) (row_elements source (sel ! j))))" by simp
    fix k assume "k < length (map (col_cell data') [end_at source ?e sel j..<end_at source ?e sel (Suc j)])"
    then have k: "k < length (?rows ! j)" "j < length ?rows" using len j by auto
    note seg = nth_concat_segment [OF k(2,1)]
    have "end_at source ?e sel j + k = ?e + (sum_list (map length (take j ?rows)) + k)"
      by (simp add: end_at_def)
    with new [OF seg(1)] seg(2) have "col_cell data' (end_at source ?e sel j + k) = store data (vec_cell A child (?rows ! j ! k))"
      by (simp only:)
    then show "map (col_cell data') [end_at source ?e sel j..<end_at source ?e sel (Suc j)] ! k =
      map (store data) (map (vec_cell A child) (row_elements source (sel ! j))) ! k"
      using k j len by simp
  qed
  show ?thesis
    unfolding appended_def
  proof (intro conjI allI impI)
    show "EmptyLike c' = EmptyLike (CArray data ends)" using app by (simp add: c' appended_def)
    show "col_ok c'" using app ends(1,2) by (simp add: c' appended_def last_end_def)
    show "col_size c' = col_size (CArray data ends) + length sel" by (simp add: c')
    show "col_cell c' i = col_cell (CArray data ends) i" if "i < col_size (CArray data ends)" for i
    proof -
      have "array_start ?ends i = array_start ends i" "?ends ! i = ends ! i"
        using that by (auto simp: array_start_def nth_append)
      moreover have "x < ?e" if "x \<in> set [array_start ends i..<ends ! i]" for x
        using that ends(4) \<open>i < col_size (CArray data ends)\<close> by fastforce
      ultimately show ?thesis using old by (simp add: c')
    qed
    show "col_cell c' (col_size (CArray data ends) + j) = store (CArray data ends) (vec_cell A source (sel ! j))"
      if j: "j < length sel" and "validity source ! (sel ! j) \<or> is_nullable (CArray data ends)" for j
    proof -
      have val: "val ! (sel ! j)" using that(2) by (simp add: source)
      have "col_cell c' (length ends + j) = CellList (map (col_cell data') [end_at source ?e sel j..<end_at source ?e sel (Suc j)])"
        using j ends(3) by (simp add: c' nth_append ListEnds_nth)
      also have "\<dots> = CellList (map (store data) (map (vec_cell A child) (row_elements source (sel ! j))))"
        using rows [OF j] by simp
      finally show ?thesis using val by (simp add: source row_elements_def)
    qed
    show "\<forall>i\<in>set sel. validity source ! i" if "\<not> nulls \<and> \<not> is_nullable (CArray data ends)"
      using that valid by simp
  qed
qed

section \<open>Structs, nullable and dictionary columns\<close>

lemma fields_appended:
  assumes source: "source = StructVec t val children" and "col_ok (CTuple cs)" and len: "length children = length cs" "length cs' = length cs"
    and fields: "\<forall>k<length cs. appended A (children ! k) sel nulls (cs ! k) (cs' ! k)"
    and valid: "\<not> nulls \<longrightarrow> (\<forall>i\<in>set sel. val ! i)" and safe: "nulls \<longrightarrow> null_safe (CTuple cs)"
  shows "appended A source sel nulls (CTuple cs) (CTuple cs')"
proof -
  from assms(2) have "cs \<noteq> [] \<and> list_all col_ok cs \<and> (\<forall>c\<in>set cs. col_size c = col_size (hd cs))"
    unfolding col_ok.simps .
  then have cs: "cs \<noteq> []" "list_all col_ok cs" "\<forall>k<length cs. col_size (cs ! k) = col_size (hd cs)"
    by (metis nth_mem)+
  have cs': "cs' \<noteq> []" using cs(1) len(2) by (metis length_0_conv)
  have size: "col_size (CTuple cs) = col_size (hd cs)" "col_size (CTuple cs') = col_size (hd cs')"
    using cs(1) cs' by (simp_all split: list.splits)
  have sizes: "col_size (cs' ! k) = col_size (hd cs) + length sel" if "k < length cs" for k
    using fields cs(3) that by (simp add: appended_def)
  then have hd: "col_size (hd cs') = col_size (hd cs) + length sel" using cs(1) cs' by (simp add: hd_conv_nth)
  show ?thesis
    unfolding appended_def
  proof (intro conjI allI impI)
    show "EmptyLike (CTuple cs') = EmptyLike (CTuple cs)"
      using fields len by (auto simp: appended_def intro: nth_equalityI)
    show "col_ok (CTuple cs')"
      using fields len sizes hd cs' by (auto simp: appended_def list_all_length in_set_conv_nth)
    show "col_size (CTuple cs') = col_size (CTuple cs) + length sel" using size hd by simp
    show "col_cell (CTuple cs') i = col_cell (CTuple cs) i" if "i < col_size (CTuple cs)" for i
    proof -
      have "col_cell (cs' ! k) i = col_cell (cs ! k) i" if "k < length cs" for k
        using fields cs(3) that \<open>i < col_size (CTuple cs)\<close> unfolding appended_def size by metis
      then have "map (\<lambda>c. col_cell c i) cs' = map (\<lambda>c. col_cell c i) cs"
        using len by (intro nth_equalityI) simp_all
      then show ?thesis by simp
    qed
    show "col_cell (CTuple cs') (col_size (CTuple cs) + j) = store (CTuple cs) (vec_cell A source (sel ! j))"
      if j: "j < length sel" and "validity source ! (sel ! j) \<or> is_nullable (CTuple cs)" for j
    proof -
      have val: "val ! (sel ! j)" using that(2) by (simp add: source)
      have "col_cell (cs' ! k) (col_size (hd cs) + j) = store (cs ! k) (vec_cell A (children ! k) (sel ! j))"
        if k: "k < length cs" for k
      proof -
        from fields k have app: "appended A (children ! k) sel nulls (cs ! k) (cs' ! k)" by blast
        have "validity (children ! k) ! (sel ! j) \<or> is_nullable (cs ! k)"
          using app j safe k by (cases nulls) (auto simp: appended_def list_all_length)
        then show ?thesis using app j k cs(3) unfolding appended_def by metis
      qed
      then have "map (\<lambda>c. col_cell c (col_size (hd cs) + j)) cs' =
          map2 (\<lambda>f y. f y) (map store cs) (map (\<lambda>c. vec_cell A c (sel ! j)) children)"
        using len by (auto intro!: nth_equalityI)
      then show ?thesis using val by (simp only: size) (simp add: source)
    qed
    show "\<forall>i\<in>set sel. validity source ! i" if "\<not> nulls \<and> \<not> is_nullable (CTuple cs)"
      using that valid by (simp add: source)
  qed
qed

lemma nullable_appended:
  assumes "appended A source sel True c c'" and "col_ok (CNullable flags c)"
  shows "appended A source sel nulls (CNullable flags c) (CNullable (flags @ map (\<lambda>i. \<not> validity source ! i) sel) c')"
  using assms vec_cell_null [of source _ A] vec_cell_not_null [of source _ A]
  by (auto simp: appended_def nth_append)

lemma wrapped_appended:
  assumes "appended A source sel nulls c c'"
  shows "appended A source sel nulls (CLowCardinality c) (CLowCardinality c')"
    and "\<not> is_nullable c \<Longrightarrow> appended A source sel nulls (CMap c) (CMap c')"
  using assms by (auto simp: appended_def)

lemma AppendColumn_appended:
  assumes A: "vector_api_ok A" and "col_ok c" and d: "appended A source sel nulls (EmptyLike c) d"
  shows "appended A source sel nulls c (AppendColumn A c d)"
proof -
  have facts: "EmptyLike c = EmptyLike d" "col_ok d" "col_size d = length sel" using d by (auto simp: appended_def)
  have rows: "col_cell d j = store c (vec_cell A source (sel ! j))"
    if "j < length sel" "validity source ! (sel ! j) \<or> is_nullable c" for j
    using d that unfolding appended_def same_type by fastforce
  have valid: "\<not> nulls \<and> \<not> is_nullable c \<longrightarrow> (\<forall>i\<in>set sel. validity source ! i)"
    using d unfolding appended_def same_type by blast
  show ?thesis
    using vector_api_okD(2) [OF A assms(2) facts(2,1)] rows valid facts(3) unfolding appended_def by simp
qed

section \<open>All columns\<close>

lemma AppendRows_appended:
  assumes A: "vector_api_ok A"
  shows "AppendRows A name source sel nulls c = Inr c' \<Longrightarrow> vec_ok A n source \<Longrightarrow> \<forall>i\<in>set sel. i < n \<Longrightarrow>
      fits c (vec_type source) \<Longrightarrow> col_ok c \<Longrightarrow> nulls \<longrightarrow> null_safe c \<Longrightarrow> appended A source sel nulls c c'"
    and "AppendListRows A name ex source sel nulls data ends = Inr c' \<Longrightarrow> vec_ok A n source \<Longrightarrow> \<forall>i\<in>set sel. i < n \<Longrightarrow>
      source = ListVec t val entries child \<Longrightarrow> fits data (vec_type child) \<Longrightarrow> col_ok (CArray data ends) \<Longrightarrow>
      appended A source sel nulls (CArray data ends) c'"
    and "AppendFields A name vs sel nulls cs = Inr cs' \<Longrightarrow> list_all (vec_ok A n) vs \<Longrightarrow> \<forall>i\<in>set sel. i < n \<Longrightarrow>
      list_all2 fits cs (map vec_type vs) \<Longrightarrow> list_all col_ok cs \<Longrightarrow> nulls \<longrightarrow> list_all null_safe cs \<Longrightarrow>
      length cs' = length cs \<and> (\<forall>k<length cs. appended A (vs ! k) sel nulls (cs ! k) (cs' ! k))"
  using A
proof (induction A name source sel nulls c and A name ex source sel nulls data ends and A name vs sel nulls cs
    arbitrary: c' n and c' n t val entries child and cs' n rule: AppendRows_AppendListRows_AppendFields.induct)
  case (1 A name source sel nulls target)
  note run = 1(6) [unfolded AppendRows.simps [of A name source sel nulls target]] and ok = 1(7) and sel = 1(8) and fits = 1(9) and col = 1(10) and safe = 1(11) and A = 1(12)
  show ?case
  proof (cases target)
    case (CNullable flags c)
    with run obtain d where d: "AppendRows A name source sel True c = Inr d"
      "c' = CNullable (flags @ map (\<lambda>i. \<not> validity source ! i) sel) d" by auto
    have "appended A source sel True c d"
      by (rule 1(4) [OF CNullable d(1) ok sel]) (use CNullable fits col A in auto)
    then show ?thesis unfolding CNullable d(2) using col [unfolded CNullable] by (rule nullable_appended)
  next
    case (CLowCardinality c)
    with run obtain d where d: "AppendRows A name source sel nulls (EmptyLike c) = Inr d"
      "c' = AppendColumn A target (CLowCardinality d)" by auto
    have "appended A source sel nulls (EmptyLike c) d"
      by (rule 1(5) [OF CLowCardinality d(1) ok sel]) (use CLowCardinality fits col safe A in \<open>auto simp: same_type\<close>)
    from wrapped_appended(1) [OF this] show ?thesis
      unfolding d(2) CLowCardinality by (intro AppendColumn_appended [OF A]) (use col CLowCardinality in auto)
  next
    case (CArray data ends)
    with fits obtain u where u: "vec_type source = LIST u" "fits data u" by (auto split: logical_type.splits)
    with list_source [OF A ok] obtain t val entries child where source: "source = ListVec t val entries child"
      by (auto simp: is_list_def)
    show ?thesis unfolding CArray
      by (rule 1(1) [OF CArray _ _ ok sel source _ _ A])
        (use CArray run u source ok col in \<open>auto simp: is_list_def\<close>)
  next
    case (CTuple cs)
    with fits obtain fs where fs: "vec_type source = STRUCT fs" "list_all2 (\<lambda>f u. f u) (map fits cs) (map snd fs)"
      by (auto split: logical_type.splits)
    then have "is_struct (vec_type source)" by (simp add: is_struct_def)
    with struct_source [OF A ok] fs(1) obtain val children where source: "source = StructVec (STRUCT fs) val children"
      "map vec_type children = map snd fs" "list_all (vec_ok A n) children" by auto
    obtain cs' where cs': "c' = CTuple cs'" "AppendFields A name children sel nulls cs = Inr cs'" "length children = length cs"
      "\<not> nulls \<longrightarrow> (\<forall>i\<in>set sel. val ! i)"
      using run by (auto simp: CTuple source(1) split: if_splits)
    have "list_all2 fits cs (map vec_type children)" using fs(2) source(2) by (simp add: list_all2_map1)
    moreover have "list_all col_ok cs" using col unfolding CTuple col_ok.simps by blast
    moreover have "nulls \<longrightarrow> list_all null_safe cs" using safe by (auto simp: CTuple list_all_iff nullable_null_safe)
    ultimately have "length cs' = length cs \<and> (\<forall>k<length cs. appended A (children ! k) sel nulls (cs ! k) (cs' ! k))"
      by (intro 1(2) [OF CTuple, of cs' n, unfolded source(1) vec.sel])
        (use cs' sel A source(3) in \<open>auto simp: is_struct_def source(1)\<close>)
    then show ?thesis unfolding CTuple cs'(1)
      by (intro fields_appended [OF source(1) col [unfolded CTuple]]) (use safe cs'(3,4) CTuple in simp_all)
  next
    case (CMap array)
    with fits obtain k v where u: "vec_type source = MAP k v" "fits array (LIST (STRUCT [(''key'', k), (''value'', v)]))"
      by (auto split: logical_type.splits)
    with list_source [OF A ok] obtain t val entries child where source: "source = ListVec t val entries child"
      by (auto simp: is_map_def)
    obtain data ends d where array: "array = CArray data ends"
      "AppendListRows A name (ThrowNull A target name) source sel nulls (EmptyLike data) [] = Inr d"
      "c' = AppendColumn A target (CMap d)"
      using run by (auto simp: CMap split: if_splits ch_column.splits)
    have "appended A source sel nulls (CArray (EmptyLike data) []) d"
      by (rule 1(3) [OF CMap _ array(1) array(2) ok sel source _ _ A])
        (use CMap u source ok col array in \<open>auto simp: is_map_def same_type\<close>)
    from wrapped_appended(2) [OF this] show ?thesis
      unfolding array(3) CMap array(1) by (intro AppendColumn_appended [OF A]) (use col CMap array(1) in auto)
  qed (use run ok fits A sel flat_source [OF ok fits] in \<open>fastforce simp: nested_def intro!: scalar_appended\<close>)+
next
  case (2 A name ex source sel nulls data ends)
  show ?case
  proof (rule list_appended [OF 2(3,5,4,7,2)])
    fix es data'
    assume es: "ListElements ex nulls source sel = Inr es" "es \<noteq> []" "\<forall>e\<in>set es. e < length (validity child)"
      and run: "AppendRows A name child es False data = Inr data'"
    have "vec_ok A (length (validity child)) child" using 2(3) unfolding 2(5) by simp
    then show "appended A child es False data data'"
      using 2(1) [OF es(1,2), of data' "length (validity child)"] 2(5-8) es run by simp
  qed
next
  case (3 A name sel nulls cs)
  then show ?case by simp
next
  case (4 A name v vs sel nulls)
  then show ?case by simp
next
  case (5 A name v vs sel nulls c cs)
  from 5(3) obtain d ds where d: "AppendRows A name v sel nulls c = Inr d" "AppendFields A name vs sel nulls cs = Inr ds"
    "cs' = d # ds" by auto
  have "appended A v sel nulls c d" by (rule 5(1) [OF d(1) _ 5(5)]) (use 5(4,6-9) in auto)
  moreover have "length ds = length cs \<and> (\<forall>k<length cs. appended A (vs ! k) sel nulls (cs ! k) (ds ! k))"
    by (rule 5(2) [OF d(1,2) _ 5(5)]) (use 5(4,6-9) in auto)
  ultimately show ?case unfolding d(3) by (auto simp: nth_Cons split: nat.split)
qed

text \<open>
  C30. What an INSERT sends: when \<open>AppendVector\<close> returns, the column has grown by exactly the rows of the
  vector, in order; the rows it already held are unchanged, whatever the nesting of its type, and row \<open>j\<close>
  of the vector is stored as the column's representation of its value, NULLs included.
\<close>

theorem AppendVector_appends:
  assumes "vector_api_ok A" and "vec_ok A n source" and "count \<le> n" and "fits target (vec_type source)" and "col_ok target"
    and "AppendVector A source count target name = Inr c"
  shows "col_size c = col_size target + count \<and> EmptyLike c = EmptyLike target \<and> col_ok c \<and>
    (\<forall>i<col_size target. col_cell c i = col_cell target i) \<and>
    (\<forall>j<count. col_cell c (col_size target + j) = store target (vec_cell A source j))"
proof -
  have "appended A source [0..<count] False target c"
    using AppendRows_appended(1) [OF assms(1) assms(6) [unfolded AppendVector_def] assms(2)] assms(3-5) by auto
  then show ?thesis by (auto simp: appended_def)
qed

theorem AppendVector_appends_witness:
  "let source = ListVec (LIST VARCHAR) [True, True] [(1, 1), (0, 1)] (Flat VARCHAR [True, False] [SText ''a'', SText []]);
       target = CArray (CNullable [False] (CString [''z''])) [1]
   in \<exists>c. AppendVector duck_vectors source 2 target ''tags'' = Inr c \<and>
       map (col_cell c) [0..<3] = [CellList [CellText ''z''], CellList [CellNull], CellList [CellText ''a'']]"
proof -
  let ?source = "ListVec (LIST VARCHAR) [True, True] [(1, 1), (0, 1)] (Flat VARCHAR [True, False] [SText ''a'', SText []])"
  let ?target = "CArray (CNullable [False] (CString [''z''])) [1]"
  let ?c = "CArray (CNullable [False, True, False] (CString [''z'', [], ''a''])) [1, 2, 3]"
  have run: "AppendVector duck_vectors ?source 2 ?target ''tags'' = Inr ?c"
    by (simp add: AppendVector_def AppendRows.simps AppendListRows.simps ListElements_def AppendScalar_def AppendString_def
        duck_vectors_def is_list_def upt_conv_Cons)
  have "vec_ok duck_vectors 2 ?source"
    by (simp add: duck_vectors_def scalar_ok_def All_less_Suc numeral_2_eq_2)
  from AppendVector_appends [OF duck_vectors_ok this _ _ _ run]
  have "(\<forall>i<1. col_cell ?c i = col_cell ?target i) \<and>
      (\<forall>j<2. col_cell ?c (1 + j) = store ?target (vec_cell duck_vectors ?source j))"
    by simp
  then have rows: "col_cell ?c 0 = col_cell ?target 0" "col_cell ?c (1 + 0) = store ?target (vec_cell duck_vectors ?source 0)"
    "col_cell ?c (1 + 1) = store ?target (vec_cell duck_vectors ?source 1)"
    by (metis zero_less_one, metis zero_less_numeral, metis one_less_numeral_iff semiring_norm(76))
  have "map (col_cell ?c) [0..<3] = [col_cell ?c 0, col_cell ?c (1 + 0), col_cell ?c (1 + 1)]"
    by (simp add: upt_conv_Cons numeral_3_eq_3 del: col_cell.simps)
  then have cells: "map (col_cell ?c) [0..<3] = [CellList [CellText ''z''], CellList [CellNull], CellList [CellText ''a'']]"
    unfolding rows by (simp add: array_start_def scalar_cell_def tick_precision_def upt_conv_Cons)
  show ?thesis unfolding Let_def by (intro exI [of _ ?c] conjI run cells)
qed


end
