(* ===== verification/ConversionCorrect.thy ===== *)
theory ConversionCorrect
  imports Conversion WriterCorrect
begin

text \<open>
  What \<open>ConvertColumn\<close> and \<open>ConvertBlock\<close> of \<open>src/src/clickhouse_conversion.cpp\<close> deliver: each row of the vector
  is the value of the corresponding row of the column, at any nesting, and the vector is well formed.
\<close>

section \<open>The value DuckDB gets\<close>

fun load :: "logical_type \<Rightarrow> cell \<Rightarrow> cell" where
  "load BOOLEAN x = (case x of CellNum n \<Rightarrow> CellBool (n \<noteq> 0) | _ \<Rightarrow> x)"
| "load TIMESTAMP_TZ x = (case x of CellTicks p n \<Rightarrow> CellTicks 6 (rescale p 6 n) | _ \<Rightarrow> x)"
| "load TIME x = (case x of CellTicks p n \<Rightarrow> CellTicks 6 (rescale p 6 n) | _ \<Rightarrow> x)"
| "load TIME_NS x = (case x of CellTicks p n \<Rightarrow> CellTicks 9 (rescale p 9 n) | _ \<Rightarrow> x)"
| "load (DECIMAL w s) x = (case x of CellNum n \<Rightarrow> CellNum (narrow (physical_of (DECIMAL w s)) n) | _ \<Rightarrow> x)"
| "load (LIST u) x = (case x of CellList xs \<Rightarrow> CellList (map (load u) xs) | _ \<Rightarrow> x)"
| "load (MAP k v) x = (case x of
     CellList xs \<Rightarrow> CellList (map (\<lambda>y. case y of CellStruct ys \<Rightarrow> CellStruct (map2 (\<lambda>f z. f z) [load k, load v] ys) | _ \<Rightarrow> y) xs)
   | _ \<Rightarrow> x)"
| "load (STRUCT fs) x = (case x of CellStruct xs \<Rightarrow> CellStruct (map2 (\<lambda>f z. f z) (map (\<lambda>f. load (snd f)) fs) xs) | _ \<Rightarrow> x)"
| "load t x = x"

lemma load_null [simp]: "load t CellNull = CellNull"
  by (cases t) auto

lemma load_elements:
  "t = LIST u \<or> (\<exists>k v. t = MAP k v \<and> u = map_entry k v) \<Longrightarrow> load t (CellList xs) = CellList (map (load u) xs)"
  by (auto simp: map_entry_def split: cell.splits)

text \<open>The lengths of a vector agree and its lists lie in their child vector.\<close>

fun vec_shape :: "nat \<Rightarrow> vec \<Rightarrow> bool" where
  "vec_shape n (Flat t val data) \<longleftrightarrow> length val = n \<and> length data = n"
| "vec_shape n (ListVec t val entries child) \<longleftrightarrow>
     length val = n \<and> length entries = n \<and> vec_shape (length (validity child)) child \<and>
     (\<forall>i<n. val ! i \<longrightarrow> fst (entries ! i) + snd (entries ! i) \<le> length (validity child))"
| "vec_shape n (StructVec t val children) \<longleftrightarrow> length val = n \<and> list_all (vec_shape n) children"

lemma vec_shape_validity: "vec_shape n v \<Longrightarrow> length (validity v) = n"
  by (cases v) auto

definition converted :: "vector_api \<Rightarrow> ch_column \<Rightarrow> logical_type \<Rightarrow> nat \<Rightarrow> nat \<Rightarrow> vec \<Rightarrow> bool" where
  "converted A column t offset count v \<longleftrightarrow>
     vec_type v = t \<and> vec_shape count v \<and> (\<forall>i<count. vec_cell A v i = load t (col_cell column (offset + i)))"

section \<open>Blank vectors and validity\<close>

lemma blank_facts [simp]: "vec_type (blank t val) = t" "validity (blank t val) = val"
  by (cases t; simp)+

lemma blank_shape: "length val = n \<Longrightarrow> vec_shape n (blank t val)"
proof (induction t val arbitrary: n rule: blank.induct)
  case (3 fs val)
  then show ?case by (fastforce simp: list_all_iff)
qed (auto simp: map_entry_def)

lemma blank_null: "i < count \<Longrightarrow> vec_cell A (blank t (replicate count False)) i = CellNull"
  by (cases t) auto

lemma row_validity_length [simp]: "length (row_validity column offset count) = count"
  by (cases column) (simp_all add: row_validity_def)

lemma col_cell_values:
  "i < count \<Longrightarrow> col_cell column (offset + i) =
     (if row_validity column offset count ! i then col_cell (values_of column) (offset + i) else CellNull)"
  by (cases column) (simp_all add: row_validity_def values_of_def)

lemma values_of_ok: "col_ok column \<Longrightarrow> col_ok (values_of column) \<and> col_size (values_of column) = col_size column"
  unfolding values_of_def by (cases column; simp del: col_ok.simps) (simp add: col_ok.simps)

section \<open>Scalars\<close>

lemma rows_of_nth [simp]: "i < count \<Longrightarrow> rows_of xs offset count ! i = xs ! (offset + i)" "length (rows_of xs offset count) = count"
  by (simp_all add: rows_of_def)

lemma mapE_nth: "mapE f xs = Inr ys \<Longrightarrow> length ys = length xs \<and> (\<forall>i<length xs. f (xs ! i) = Inr (ys ! i))"
  by (auto simp: mapE_eq_Inr list_all2_conv_all_nth)

text \<open>What a conversion of a column that is not nested leaves in the rows that are valid.\<close>

definition filled :: "vector_api \<Rightarrow> ch_column \<Rightarrow> logical_type \<Rightarrow> bool list \<Rightarrow> nat \<Rightarrow> nat \<Rightarrow> vec \<Rightarrow> bool" where
  "filled A values t val offset count v \<longleftrightarrow>
     (\<exists>data. v = Flat t val data \<and> length data = count \<and>
       (\<forall>i<count. val ! i \<longrightarrow> scalar_cell A t (data ! i) = load t (col_cell values (offset + i))))"

lemma numeric_filled:
  assumes "ConvertNumeric A name T values t val offset count = Inr v"
    and "(T, t) \<in> {(PINT8, TINYINT), (PINT16, SMALLINT), (PINT32, INTEGER), (PINT64, BIGINT), (PUINT8, UTINYINT),
      (PUINT16, USMALLINT), (PUINT32, UINTEGER), (PUINT64, UBIGINT), (PFLOAT, FLOAT), (PDOUBLE, DOUBLE)}"
  shows "filled A values t val offset count v"
  using assms by (cases "values") (auto simp: ConvertNumeric_def ThrowUnexpectedColumn_def filled_def scalar_cell_def
      tick_precision_def split: if_splits)

lemma wide_filled:
  "ConvertBool A name values BOOLEAN val offset count = Inr v \<Longrightarrow> filled A values BOOLEAN val offset count v"
  "ConvertInt128 A name values HUGEINT val offset count = Inr v \<Longrightarrow> filled A values HUGEINT val offset count v"
  "ConvertUInt128 A name values UHUGEINT val offset count = Inr v \<Longrightarrow> filled A values UHUGEINT val offset count v"
  "ConvertDate A name values DATE val offset count = Inr v \<Longrightarrow> filled A values DATE val offset count v"
  by (cases "values"; auto simp: ConvertBool_def ConvertInt128_def ConvertUInt128_def ConvertDate_def ThrowUnexpectedColumn_def
      filled_def scalar_cell_def tick_precision_def split: if_splits)+

lemma decimal_filled:
  "vector_api_ok A \<Longrightarrow> ConvertDecimal A name values (DECIMAL w s) val offset count = Inr v \<Longrightarrow>
    filled A values (DECIMAL w s) val offset count v"
  by (cases "values") (auto simp: ConvertDecimal_def ThrowUnexpectedColumn_def filled_def scalar_cell_def tick_precision_def
      vector_api_okD(1) split: if_splits)

lemma filledI:
  assumes "mapE f [0..<count] = Inr data" and "v = Flat t val data"
    and "\<And>i d. i < count \<Longrightarrow> val ! i \<Longrightarrow> f i = Inr d \<Longrightarrow> scalar_cell A t d = load t (col_cell values (offset + i))"
  shows "filled A values t val offset count v"
  using mapE_nth [OF assms(1)] assms(2,3) by (simp add: filled_def)

lemma filled_rowsI:
  assumes "mapE f (rows_of xs offset count) = Inr data" and "v = Flat t val data"
    and "\<And>x d. f x = Inr d \<Longrightarrow> scalar_cell A t d = load t (C x)" and "\<And>i. col_cell values i = C (xs ! i)"
  shows "filled A values t val offset count v"
  using mapE_nth [OF assms(1)] assms(2-) by (simp add: filled_def)

lemma string_filled:
  assumes "ConvertString A name values VARCHAR val offset count = Inr v"
  shows "filled A values VARCHAR val offset count v"
proof -
  have "filled A values VARCHAR val offset count v"
    if run: "ConvertStringColumn name xs VARCHAR val offset count = Inr v" and cells: "\<And>i. col_cell values i = CellText (xs ! i)" for xs
  proof -
    from run obtain data where v: "v = Flat VARCHAR val data" and data: "mapE (\<lambda>i.
         if \<not> val ! i then Inr (SText []) else if \<not> IsValidUtf8 (map of_char (xs ! (offset + i))) then Inl (utf8_error name)
         else Inr (SText (xs ! (offset + i)))) [0..<count] = Inr data"
      by (auto simp: ConvertStringColumn_def)
    show ?thesis by (rule filledI [OF data v]) (auto simp: cells scalar_cell_def split: if_splits)
  qed
  with assms show ?thesis by (cases "values") (auto simp: ConvertString_def ThrowUnexpectedColumn_def)
qed

lemma timestamp_filled:
  assumes "ConvertTimestamp A name values TIMESTAMP_TZ val offset count = Inr v"
  shows "filled A values TIMESTAMP_TZ val offset count v"
proof (cases "values")
  case (CDateTime xs)
  with assms obtain data where v: "v = Flat TIMESTAMP_TZ val data"
    and data: "mapE (\<lambda>seconds. read_tick (mul64 seconds 1000000)) (rows_of xs offset count) = Inr data"
    by (auto simp: ConvertTimestamp_def)
  show ?thesis
    by (rule filled_rowsI [OF data v, where C = "CellTicks 0"])
      (auto simp: CDateTime read_tick_def scalar_cell_def tick_precision_def rescale_def mul64_Some split: option.splits)
next
  case (CDateTime64 p xs)
  with assms obtain data where v: "v = Flat TIMESTAMP_TZ val data"
    and data: "mapE (\<lambda>ticks. read_tick (ScaleTicks ticks p 6)) (rows_of xs offset count) = Inr data"
    by (auto simp: ConvertTimestamp_def)
  show ?thesis
    by (rule filled_rowsI [OF data v, where C = "CellTicks p"])
      (auto simp: CDateTime64 read_tick_def scalar_cell_def tick_precision_def dest: ScaleTicks_rescale split: option.splits)
qed (use assms in \<open>simp_all add: ConvertTimestamp_def ThrowUnexpectedColumn_def\<close>)

lemma time_filled:
  assumes "ConvertTime A name values t val offset count = Inr v" and t: "t = TIME \<or> t = TIME_NS"
  shows "filled A values t val offset count v"
proof -
  have "filled A values t val offset count v"
    if run: "ConvertTimes name p xs t val offset count = Inr v" and cells: "\<And>i. col_cell values i = CellTicks p (xs ! i)" for p xs
  proof -
    let ?q = "if t = TIME_NS then 9 else 6 :: nat"
    from run obtain m data where v: "v = Flat t val data" and data: "mapE (\<lambda>i.
         if \<not> val ! i then Inr (SInt 0) else if xs ! (offset + i) < 0 \<or> xs ! (offset + i) > m then Inl (time_error name)
         else read_tick (ScaleTicks (xs ! (offset + i)) p ?q)) [0..<count] = Inr data"
      by (auto simp: ConvertTimes_def Let_def split: option.splits)
    show ?thesis
      by (rule filledI [OF data v])
        (use t in \<open>auto simp: cells read_tick_def scalar_cell_def tick_precision_def dest: ScaleTicks_rescale split: if_splits option.splits\<close>)
  qed
  with assms show ?thesis by (cases "values") (auto simp: ConvertTime_def ThrowUnexpectedColumn_def)
qed

lemma uuid_filled:
  assumes "vector_api_ok A" and "ConvertUUID A name values UUID val offset count = Inr v"
  shows "filled A values UUID val offset count v"
proof (cases "values")
  case (CUUID xs)
  have "uint (hi :: 64 word) * 2 ^ 64 + uint (lo :: 64 word) < 2 ^ 128" "0 \<le> uint hi * 2 ^ 64 + uint lo" for hi lo
    using uint_lt2p [of hi] uint_lt2p [of lo] by simp_all
  with vector_api_okD(3) [OF assms(1)]
  have "UUID_ToUHugeint A (UUID_FromUHugeint A (uint (hi :: 64 word) * 2 ^ 64 + uint (lo :: 64 word))) = uint hi * 2 ^ 64 + uint lo" for hi lo
    by blast
  with assms(2) CUUID show ?thesis
    by (auto simp: ConvertUUID_def filled_def scalar_cell_def tick_precision_def split: prod.splits)
qed (use assms in \<open>simp_all add: ConvertUUID_def ThrowUnexpectedColumn_def\<close>)

lemma label_position_nth: "label_position labels l = Some p \<Longrightarrow> labels ! p = l \<and> p < length labels"
proof -
  have "l \<in> set labels \<Longrightarrow> labels ! length (takeWhile (\<lambda>x. x \<noteq> l) labels) = l \<and> length (takeWhile (\<lambda>x. x \<noteq> l) labels) < length labels"
    by (induction labels) auto
  then show "label_position labels l = Some p \<Longrightarrow> labels ! p = l \<and> p < length labels"
    by (auto simp: label_position_def split: if_splits)
qed

lemma enum_filled:
  assumes "col_ok values" and "ConvertEnum A name values (ENUM labels) val offset count = Inr v"
  shows "filled A values (ENUM labels) val offset count v"
proof (cases "values")
  case (CEnum es xs)
  from assms(2) CEnum obtain ps where ps: "EnumPositions labels es = Some ps"
    and run: "WriteEnumPositions name ps xs (ENUM labels) val offset count = Inr v"
    by (auto simp: ConvertEnum_def ThrowUnexpectedColumn_def split: option.splits if_splits)
  from run obtain data where v: "v = Flat (ENUM labels) val data" and data: "mapE (\<lambda>i.
         if \<not> val ! i then Inr (SInt 0)
         else (case map_of (rev ps) (xs ! (offset + i)) of None \<Rightarrow> Inl (enum_error name (xs ! (offset + i)))
               | Some p \<Rightarrow> Inr (SInt (int p)))) [0..<count] = Inr data"
    by (auto simp: WriteEnumPositions_def)
  have distinct: "distinct (map fst es)" using assms(1) CEnum by simp
  from ps have ps: "ps = map (\<lambda>e. (fst e, the (label_position labels (snd e)))) es" "\<forall>e\<in>set es. label_position labels (snd e) \<noteq> None"
    by (auto simp: EnumPositions_def list_all_iff split: if_splits)
  have label: "\<exists>l. map_of es x = Some l \<and> labels ! p = l" if "map_of (rev ps) x = Some p" for x p
  proof -
    from that have "(x, p) \<in> set ps" using map_of_SomeD by fastforce
    then obtain l where l: "(x, l) \<in> set es" "p = the (label_position labels l)" by (auto simp: ps(1))
    with ps(2) label_position_nth show ?thesis using distinct by fastforce
  qed
  show ?thesis
    by (rule filledI [OF data v])
      (use label in \<open>fastforce simp: CEnum scalar_cell_def tick_precision_def split: option.splits if_splits\<close>)
qed (use assms in \<open>simp_all add: ConvertEnum_def ThrowUnexpectedColumn_def\<close>)

lemma ConvertScalar_filled:
  assumes "vector_api_ok A" and "col_ok values" and "ConvertScalar A name values t val offset count = Inr v"
  shows "filled A values t val offset count v"
  using assms numeric_filled wide_filled decimal_filled string_filled timestamp_filled time_filled uuid_filled enum_filled
  by (cases t) (simp_all add: ConvertScalar_def ThrowUnexpectedColumn_def)

section \<open>Lists\<close>

lemma array_start_mono:
  assumes "sorted ends" and "i \<le> j" and "j \<le> length ends"
  shows "array_start ends i \<le> array_start ends j"
  using assms by (auto simp: array_start_def intro: sorted_nth_mono)

lemma array_start_Suc: "array_start ends (Suc i) = ends ! i"
  by (simp add: array_start_def)

text \<open>The entries are the row's ranges shifted to the start of the child vector.\<close>

lemma EntryLoop_rows:
  assumes "sorted ends" and "k + n \<le> length ends" and "s \<le> array_start ends k"
  shows "EntryLoop ends (array_start ends k - s) [k..<k + n] =
    (map (\<lambda>i. (array_start ends i - s, array_size ends i)) [k..<k + n], array_start ends (k + n) - s)"
  using assms(2,3)
proof (induction n arbitrary: k)
  case (Suc n)
  have le: "array_start ends k \<le> ends ! k"
    using array_start_mono [OF assms(1), of k "Suc k"] Suc.prems(1) by (simp add: array_start_Suc)
  then have "array_start ends k - s + array_size ends k = array_start ends (Suc k) - s"
    using Suc.prems(2) by (simp add: array_size_def array_start_Suc)
  moreover have "EntryLoop ends (array_start ends (Suc k) - s) [Suc k..<Suc k + n] =
      (map (\<lambda>i. (array_start ends i - s, array_size ends i)) [Suc k..<Suc k + n], array_start ends (Suc k + n) - s)"
    by (rule Suc.IH) (use Suc.prems le in \<open>simp_all add: array_start_Suc\<close>)
  moreover have "[k..<k + Suc n] = k # [Suc k..<Suc k + n]" by (simp add: upt_conv_Cons)
  ultimately show ?case by simp
qed simp

lemma array_start_bound: "col_ok (CArray data ends) \<Longrightarrow> i \<le> length ends \<Longrightarrow> array_start ends i \<le> col_size data"
  using ends_bound [of ends "col_size data" "i - 1"] by (auto simp: array_start_def)

lemma map_check_same: "map_check A name v count = Inr w \<Longrightarrow> w = v"
  by (auto simp: map_check_def split: vec.splits logical_type.splits map_validity.splits)

lemma list_converted:
  assumes run: "ConvertList A name (CArray data ends) t u val offset count = Inr v"
    and ok: "col_ok (CArray data ends)" "offset + count \<le> length ends" "length val = count"
    and t: "t = LIST u \<or> (\<exists>k w. t = MAP k w \<and> u = map_entry k w)"
    and child: "\<And>s n c. s + n \<le> col_size data \<Longrightarrow> ConvertColumn A name data u s n = Inr c \<Longrightarrow> converted A data u s n c"
  shows "vec_type v = t \<and> vec_shape count v \<and>
    (\<forall>i<count. vec_cell A v i = load t (if val ! i then col_cell (CArray data ends) (offset + i) else CellNull))"
proof -
  let ?S = "array_start ends" and ?s = "array_start ends offset"
  let ?n = "?S (offset + count) - ?s"
  have sorted: "sorted ends" using ok(1) by simp
  have mono: "?S i \<le> ?S j" if "i \<le> j" "j \<le> offset + count" for i j
    using array_start_mono [OF sorted, of i j] that ok(2) by simp
  have loop: "EntryLoop ends 0 [offset..<offset + count] =
      (map (\<lambda>i. (?S i - ?s, array_size ends i)) [offset..<offset + count], ?n)"
    using EntryLoop_rows [OF sorted ok(2), of ?s] by simp
  have start: "(if count = 0 then 0 else ?s) = ?s \<or> ?n = 0" by simp
  from run loop obtain c where c: "(if ?n > 0 then ConvertColumn A name data u ?s ?n else Inr (blank u [])) = Inr c"
    and v: "v = ListVec t val (map (\<lambda>i. (?S i - ?s, array_size ends i)) [offset..<offset + count]) c"
    using start by (auto simp: ConvertList.simps Let_def dest!: map_check_same split: if_splits)
  have "?s + ?n \<le> col_size data"
    using array_start_bound [OF ok(1,2)] mono [of offset "offset + count"] by simp
  then have conv: "converted A data u ?s ?n c"
  proof (cases "?n > 0")
    case True
    with c have "ConvertColumn A name data u ?s ?n = Inr c" by (simp only: if_True)
    with \<open>?s + ?n \<le> col_size data\<close> show ?thesis by (rule child)
  next
    case False
    with c show ?thesis by (auto simp: converted_def blank_shape)
  qed
  then have shape: "length (validity c) = ?n" "vec_shape ?n c" by (auto simp: converted_def dest: vec_shape_validity)
  have rows: "map (vec_cell A c) [?S i - ?s..<?S i - ?s + array_size ends i] = map (load u) (map (col_cell data) [?S i..<ends ! i])"
    and inside: "?S i - ?s + array_size ends i \<le> ?n" if i: "offset \<le> i" "i < offset + count" for i
  proof -
    have le: "?s \<le> ?S i" "?S i \<le> ends ! i" "ends ! i \<le> ?S (offset + count)"
      using mono [of offset i] mono [of i "Suc i"] mono [of "Suc i" "offset + count"] i by (simp_all add: array_start_Suc)
    then show "?S i - ?s + array_size ends i \<le> ?n" by (simp add: array_size_def)
    show "map (vec_cell A c) [?S i - ?s..<?S i - ?s + array_size ends i] = map (load u) (map (col_cell data) [?S i..<ends ! i])"
    proof (rule nth_equalityI)
      fix j assume j: "j < length (map (vec_cell A c) [?S i - ?s..<?S i - ?s + array_size ends i])"
      then have "?S i - ?s + j < ?n" "?s + (?S i - ?s + j) = ?S i + j" using le by (simp_all add: array_size_def)
      with conv have "vec_cell A c (?S i - ?s + j) = load u (col_cell data (?S i + j))"
        unfolding converted_def by metis
      with j le show "map (vec_cell A c) [?S i - ?s..<?S i - ?s + array_size ends i] ! j =
          map (load u) (map (col_cell data) [?S i..<ends ! i]) ! j"
        by (simp add: array_size_def)
    qed (use le in \<open>simp add: array_size_def\<close>)
  qed
  have "vec_cell A v i = load t (if val ! i then col_cell (CArray data ends) (offset + i) else CellNull)" if i: "i < count" for i
    using rows [of "offset + i"] i by (simp add: v load_elements [OF t])
  then show ?thesis using inside shape ok(3) by (simp add: v)
qed

section \<open>All columns\<close>

lemma fields_converted:
  assumes "ConvertFields A name cs ts offset count = Inr vs" and "length cs = length ts"
    and "\<And>c t v. c \<in> set cs \<Longrightarrow> ConvertColumn A name c t offset count = Inr v \<Longrightarrow> converted A c t offset count v"
  shows "length vs = length cs \<and> (\<forall>k<length cs. converted A (cs ! k) (ts ! k) offset count (vs ! k))"
  using assms
proof (induction cs arbitrary: ts vs)
  case (Cons c cs)
  then obtain t ts' v vs' where parts: "ts = t # ts'" "vs = v # vs'" "ConvertColumn A name c t offset count = Inr v"
    "ConvertFields A name cs ts' offset count = Inr vs'" by (cases ts) auto
  have "converted A c t offset count v" using Cons.prems(3) parts(3) by simp
  moreover have "length vs' = length cs \<and> (\<forall>k<length cs. converted A (cs ! k) (ts' ! k) offset count (vs' ! k))"
    using Cons.IH [OF parts(4)] Cons.prems(2,3) parts(1) by simp
  ultimately show ?case by (auto simp: parts nth_Cons split: nat.split)
qed simp

lemma struct_cells:
  assumes "length vs = length cs" and "length cs = length fs"
    and "\<forall>k<length cs. converted A (cs ! k) (map snd fs ! k) offset count (vs ! k)" and "i < count"
  shows "CellStruct (map (\<lambda>c. vec_cell A c i) vs) = load (STRUCT fs) (CellStruct (map (\<lambda>c. col_cell c (offset + i)) cs))"
  using assms by (auto simp: converted_def intro!: nth_equalityI)

lemma tuple_fields:
  assumes "col_ok (CTuple cs)" and "c \<in> set cs"
  shows "col_ok c" and "col_size c = col_size (CTuple cs)" and "weight c < weight (CTuple cs)"
proof -
  from assms(1) have cs: "cs \<noteq> [] \<and> list_all col_ok cs \<and> (\<forall>c\<in>set cs. col_size c = col_size (hd cs))"
    unfolding col_ok.simps .
  then show "col_ok c" using assms(2) by (simp add: list_all_iff)
  have "col_size (CTuple cs) = col_size (hd cs)" using cs by (cases cs) simp_all
  then show "col_size c = col_size (CTuple cs)" using cs assms(2) by metis
  have "Suc (weight c) \<le> (\<Sum>c\<leftarrow>cs. Suc (weight c))" using assms(2) by (intro member_le_sum_list) auto
  then show "weight c < weight (CTuple cs)" by simp
qed

lemma ConvertColumn_converted:
  assumes A: "vector_api_ok A"
  shows "ConvertColumn A name column t offset count = Inr v \<Longrightarrow> col_ok column \<Longrightarrow> offset + count \<le> col_size column \<Longrightarrow>
    converted A column t offset count v"
proof (induction column arbitrary: t offset count v rule: measure_induct_rule [of weight])
  case (less column)
  let ?val = "row_validity column offset count" and ?inner = "values_of column"
  note run = less.prems(1) [unfolded ConvertColumn.simps Let_def]
  have ok: "col_ok ?inner" "col_size ?inner = col_size column" using values_of_ok less.prems(2) by auto
  have small: "weight c < weight column" if "weight c < weight ?inner" for c
    using that weight_values_of [of column] by simp
  have cells: "converted A column t offset count v"
    if "vec_type v = t \<and> vec_shape count v \<and>
      (\<forall>i<count. vec_cell A v i = load t (if ?val ! i then col_cell ?inner (offset + i) else CellNull))"
    using that by (simp add: converted_def col_cell_values [of _ count column offset])
  show ?case
  proof (cases "\<exists>n. ?inner = CNothing n")
    case True
    with run have v: "v = blank t (replicate count False)" by simp
    from True have "col_cell ?inner i = CellNull" for i by auto
    then show ?thesis by (intro cells) (simp add: v blank_shape blank_null)
  next
    case False
    have nested: ?thesis if list: "ConvertList A name ?inner t u ?val offset count = Inr v"
      and t: "t = LIST u \<or> (\<exists>k w. t = MAP k w \<and> u = map_entry k w)" for u
    proof -
      from list obtain data ends where array: "?inner = CArray data ends"
        by (cases ?inner) (auto simp: ConvertList.simps ThrowUnexpectedColumn_def)
      have size: "col_ok (CArray data ends)" "offset + count \<le> length ends"
        using ok less.prems(3) unfolding array by simp_all
      have "converted A data u s n c" if "s + n \<le> col_size data" "ConvertColumn A name data u s n = Inr c" for s n c
        by (rule less.IH [OF small that(2) _ that(1)]) (use size(1) in \<open>simp_all add: array\<close>)
      from list_converted [OF list [unfolded array] size row_validity_length t this, folded array]
      show ?thesis by (rule cells)
    qed
    have plain: ?thesis if "ConvertScalar A name ?inner t ?val offset count = Inr v"
    proof -
      from ConvertScalar_filled [OF A ok(1) that] show ?thesis
        by (intro cells) (auto simp: filled_def)
    qed
    show ?thesis
    proof (cases t)
      case (STRUCT fs)
      with run False obtain cs vs where cs: "?inner = CTuple cs" "length cs = length fs"
        "ConvertFields A name cs (map snd fs) offset count = Inr vs" "v = StructVec t ?val vs"
        by (auto simp: ThrowUnexpectedColumn_def split: ch_column.splits if_splits)
      have fields: "length vs = length cs \<and> (\<forall>k<length cs. converted A (cs ! k) (map snd fs ! k) offset count (vs ! k))"
      proof (rule fields_converted [OF cs(3)])
        fix c t' v' assume c: "c \<in> set cs" and run: "ConvertColumn A name c t' offset count = Inr v'"
        note field = tuple_fields [OF ok(1) [unfolded cs(1)] c]
        show "converted A c t' offset count v'"
          by (rule less.IH [OF small run field(1)]) (use field less.prems(3) ok(2) cs(1) in simp_all)
      qed (use cs(2) in simp)
      show ?thesis
      proof (rule cells, intro conjI allI impI)
        show "vec_shape count v" using fields by (auto simp: cs(4) list_all_length converted_def)
        fix i assume "i < count"
        then have "CellStruct (map (\<lambda>c. vec_cell A c i) vs) = load (STRUCT fs) (CellStruct (map (\<lambda>c. col_cell c (offset + i)) cs))"
          using struct_cells [OF conjunct1 [OF fields] cs(2) conjunct2 [OF fields]] by blast
        then show "vec_cell A v i = load t (if ?val ! i then col_cell ?inner (offset + i) else CellNull)"
          by (simp add: cs(1,4) STRUCT del: load.simps)
      qed (simp add: cs(4))
    qed (use run False nested plain in \<open>simp_all add: map_entry_def\<close>)
  qed
qed




end
