(* ===== verification/BlockRoundtrip.thy ===== *)
theory BlockRoundtrip
  imports ConversionCorrect
begin

text \<open>
  An INSERT followed by a scan: what \<open>AppendVector\<close> (\<open>clickhouse_writer.cpp\<close>) put into a block, read back
  with \<open>ConvertColumn\<close> (\<open>clickhouse_conversion.cpp\<close>) from any column that holds the same values.
\<close>

section \<open>Columns that keep every value\<close>

text \<open>
  The column loses nothing of a DuckDB type: its ticks are as fine as the type's, and its text is not
  padded. A timestamp is always read back as TIMESTAMP WITH TIME ZONE, text as VARCHAR.
\<close>

fun exact :: "ch_column \<Rightarrow> logical_type \<Rightarrow> bool" where
  "exact (CNullable flags c) t \<longleftrightarrow> exact c t"
| "exact (CLowCardinality c) t \<longleftrightarrow> exact c t"
| "exact (CMap c) t \<longleftrightarrow> (case t of MAP k v \<Rightarrow> exact c (LIST (map_entry k v)) | _ \<Rightarrow> False)"
| "exact (CArray c ends) t \<longleftrightarrow> (case t of LIST u \<Rightarrow> exact c u | _ \<Rightarrow> False)"
| "exact (CTuple cs) t \<longleftrightarrow> (case t of STRUCT fs \<Rightarrow> list_all2 (\<lambda>f u. f u) (map exact cs) (map snd fs) | _ \<Rightarrow> False)"
| "exact (CFixedString n xs) t \<longleftrightarrow> False"
| "exact (CDateTime xs) t \<longleftrightarrow> False"
| "exact (CDateTime64 p xs) t \<longleftrightarrow> t = TIMESTAMP_TZ \<and> 6 \<le> p"
| "exact (CTime xs) t \<longleftrightarrow> False"
| "exact (CTime64 p xs) t \<longleftrightarrow> t = TIME \<and> 6 \<le> p \<or> t = TIME_NS \<and> 9 \<le> p"
| "exact c t \<longleftrightarrow> True"

lemma rescale_back: "p \<le> q \<Longrightarrow> rescale q p (rescale p q n) = n"
  by (cases "p = q") (simp_all add: rescale_def)

lemma narrow_decimal:
  assumes "\<bar>n\<bar> < 10 ^ w" and "w \<le> 38"
  shows "narrow (physical_of (DECIMAL w s)) n = n"
proof -
  have bound: "\<bar>n\<bar> < 10 ^ k" if "w \<le> k" for k
    using assms(1) power_increasing [OF that, of "10 :: int"] by linarith
  from bound [of 4] bound [of 9] bound [of 18] show ?thesis
    by (auto simp: narrow_def signed_take_bit_int_eq_self_iff)
qed

lemma map_fits_list: "fits c (LIST (map_entry k v)) = fits c (LIST (STRUCT [(''key'', k), (''value'', v)]))"
  by (simp add: map_entry_def)

text \<open>The values of a scalar's type that a column stores and gives back.\<close>

lemma scalar_back:
  assumes A: "vector_api_ok A" and ok: "scalar_ok A t d" and "fits c t" and "exact c t" and "\<not> nested c"
  shows "load t (store c (scalar_cell A t d)) = scalar_cell A t d"
proof (cases c)
  case (CNum k xs)
  with assms show ?thesis
    by (auto simp: scalar_cell_def tick_precision_def scalar_ok_def vector_api_okD(1))
next
  case (CDecimal s xs)
  with assms obtain w where t: "t = DECIMAL w s" by auto
  then have d: "d = SInt (num d)" "\<bar>num d\<bar> < 10 ^ w" "w \<le> 38" using ok
    by (auto simp: scalar_ok_def vector_api_okD(1) [OF A] split: physical_type.splits if_splits)
  moreover from d(1) obtain n where "d = SInt n" by metis
  ultimately have "scalar_cell A t d = CellNum (num d)" unfolding t by (simp add: scalar_cell_def tick_precision_def)
  with narrow_decimal [OF d(2,3)] t CDecimal show ?thesis by simp
qed (use assms in \<open>auto simp: nested_def scalar_cell_def tick_precision_def scalar_ok_def vector_api_okD(1) rescale_back
    split: physical_type.splits scalar.splits\<close>)

lemma store_null [simp]: "store c CellNull = CellNull"
  by (induction c) auto

lemma load_map: "load (MAP k v) x = load (LIST (map_entry k v)) x"
  by (cases x) (auto simp: map_entry_def split: cell.split)

text \<open>A row of a vector keeps its value in a column that loses nothing of its type.\<close>

lemma row_back:
  assumes A: "vector_api_ok A"
  shows "vec_ok A n source \<Longrightarrow> i < n \<Longrightarrow> fits c (vec_type source) \<Longrightarrow> exact c (vec_type source) \<Longrightarrow>
    load (vec_type source) (store c (vec_cell A source i)) = vec_cell A source i"
proof (induction c arbitrary: n source i rule: measure_induct_rule [of weight])
  case (less c)
  show ?case
  proof (cases "validity source ! i")
    case False
    then show ?thesis by (simp add: vec_cell_null)
  next
    case True
    have scalar_row: ?thesis if "\<not> nested c"
    proof -
      obtain t val data where source: "source = Flat t val data"
        using flat_source [OF less.prems(1,3)] \<open>\<not> nested c\<close> by blast
      with True less.prems(1,2) have "scalar_ok A t (data ! i)" by simp
      with scalar_back [OF A this _ _ that] less.prems(3,4) True show ?thesis by (simp add: source)
    qed
    show ?thesis
    proof (cases c)
      case (CNullable flags d)
      show ?thesis using less.IH [of d n source i] less.prems CNullable by simp
    next
      case (CLowCardinality d)
      show ?thesis using less.IH [of d n source i] less.prems CLowCardinality by simp
    next
      case (CArray d ends)
      with less.prems(3,4) obtain u where u: "vec_type source = LIST u" "fits d u" "exact d u" by (auto split: logical_type.splits)
      with list_source [OF A less.prems(1)] obtain val entries child where source: "source = ListVec (LIST u) val entries child"
        by (auto simp: is_list_def)
      have child: "vec_type child = u" "vec_ok A (length (validity child)) child"
        "fst (entries ! i) + snd (entries ! i) \<le> length (validity child)"
        using less.prems(1,2) True unfolding source by auto
      have "load u (store d (vec_cell A child e)) = vec_cell A child e"
        if "e < fst (entries ! i) + snd (entries ! i)" for e
        using less.IH [of d "length (validity child)" child e] child u that CArray by simp
      then show ?thesis using True by (simp add: source CArray)
    next
      case (CTuple cs)
      with less.prems(3,4) obtain fs where fs: "vec_type source = STRUCT fs" "length cs = length fs"
        "\<forall>k<length cs. fits (cs ! k) (map snd fs ! k) \<and> exact (cs ! k) (map snd fs ! k)"
        by (auto simp: list_all2_conv_all_nth split: logical_type.splits)
      with struct_source [OF A less.prems(1)] obtain val children where source: "source = StructVec (STRUCT fs) val children"
        "map vec_type children = map snd fs" "list_all (vec_ok A n) children"
        by (auto simp: is_struct_def)
      then have len: "length children = length fs" by (metis length_map)
      have "load (snd (fs ! k)) (store (cs ! k) (vec_cell A (children ! k) i)) = vec_cell A (children ! k) i"
        if k: "k < length fs" for k
      proof -
        have "vec_type (children ! k) = snd (fs ! k)" using source(2) k len by (metis nth_map)
        moreover have "weight (cs ! k) < weight c"
          using member_le_sum_list [of "Suc (weight (cs ! k))" "map (\<lambda>c. Suc (weight c)) cs"] k fs(2) CTuple by simp
        ultimately show ?thesis
          using less.IH [of "cs ! k" n "children ! k" i] less.prems(2) source(3) fs(2,3) k len by (simp add: list_all_length)
      qed
      then show ?thesis using True len fs(2) by (auto simp: source(1) CTuple intro!: nth_equalityI)
    next
      case (CMap d)
      with less.prems(3,4) obtain k v where t: "vec_type source = MAP k v" "fits d (LIST (map_entry k v))" "exact d (LIST (map_entry k v))"
        by (auto simp: map_entry_def split: logical_type.splits)
      with list_source [OF A less.prems(1)] obtain val entries child where source: "source = ListVec (MAP k v) val entries child"
        by (auto simp: is_map_def)
      let ?source = "ListVec (LIST (map_entry k v)) val entries child"
      have "vec_ok A n ?source" using less.prems(1) unfolding source by (simp add: map_entry_def)
      then have "load (LIST (map_entry k v)) (store d (vec_cell A ?source i)) = vec_cell A ?source i"
        using less.IH [of d n ?source i] less.prems(2) t CMap by simp
      then show ?thesis by (simp add: source CMap load_map del: load.simps)
    qed (use scalar_row in \<open>simp_all add: nested_def\<close>)
  qed
qed



end
