(* ===== verification/Optimizer.thy ===== *)
theory Optimizer
  imports Scan
begin

text \<open>
  \<open>src/src/storage/clickhouse_optimizer.cpp\<close>: an optimizer pass that moves \<open>LIMIT\<close> and \<open>ORDER BY ... LIMIT\<close>
  into the query of a ClickHouse scan. The plan is a tree of the operators the pass looks at; bound
  column references carry the table index, the column and the depth.
\<close>

section \<open>Plans\<close>

record get_op =
  get_table :: nat
  get_columns :: "nat option list"
  get_filters :: "(nat \<times> table_filter) list"
  get_function :: string
  get_bind :: "bind_data option"

datatype order_type = ASCENDING | DESCENDING | OtherOrder
datatype null_order = NULLS_FIRST | NULLS_LAST | OtherNulls

record order_node =
  order_expr :: duck_expr
  order_dir :: order_type
  order_nulls :: null_order

datatype limit_node = ConstantLimit nat | UnsetLimit | is_other_limit: OtherLimit string

datatype plan =
    GetOp get_op
  | ProjectionOp nat "duck_expr list" plan
  | TopNOp "order_node list" nat nat plan
  | LimitOp limit_node limit_node plan
  | OtherOp string "plan list"

section \<open>The pass\<close>

fun FindClickhouseScan :: "plan \<Rightarrow> get_op option" where
  "FindClickhouseScan (ProjectionOp t es child) = FindClickhouseScan child"
| "FindClickhouseScan (GetOp get) =
     (if \<not> IsClickhouseScan (get_function get) \<or> get_bind get = None then None else Some get)"
| "FindClickhouseScan _ = None"

fun FiltersPushed ::
  "string_util \<Rightarrow> duck_api \<Rightarrow> nat option list \<Rightarrow> bind_data \<Rightarrow> (nat \<times> table_filter) list \<Rightarrow> bool res" where
  "FiltersPushed U A column_ids bd [] = Inr True"
| "FiltersPushed U A column_ids bd ((i, flt) # filters) =
     (if i \<ge> length column_ids then Inr False
      else (case column_ids ! i of
              None \<Rightarrow> Inr False
            | Some c \<Rightarrow>
                if c \<ge> length (bd_columns bd) \<or> \<not> filter_pushdown bd then Inr False
                else bindE (SupportsFilterPushdown (type_node (bd_columns bd ! c))) (\<lambda>supported.
                  if \<not> supported then Inr False
                  else (case TransformFilter U A (QuoteIdentifier (col_name (bd_columns bd ! c))) flt
                               (Some (col_type (bd_columns bd ! c))) of
                          Inr s \<Rightarrow> FiltersPushed U A column_ids bd filters
                        | Inl ex \<Rightarrow> if exn_kind ex = NotImplementedException then Inr False else Inl ex))))"

definition AllFiltersPushed :: "string_util \<Rightarrow> duck_api \<Rightarrow> get_op \<Rightarrow> bind_data \<Rightarrow> bool res" where
  "AllFiltersPushed U A get bd = FiltersPushed U A (get_columns get) bd (get_filters get)"

text \<open>The loop of \<open>TraceColumn\<close>: the binding below the projections that a binding above them stands for.\<close>

fun TraceBinding :: "plan \<Rightarrow> nat \<times> nat \<Rightarrow> (nat \<times> nat) option" where
  "TraceBinding (ProjectionOp t es child) (table, col) =
     (if table \<noteq> t \<or> col \<ge> length es then None
      else (case es ! col of
              BoundColumnRef table' col' depth ty \<Rightarrow> if depth > 0 then None else TraceBinding child (table', col')
            | _ \<Rightarrow> None))"
| "TraceBinding _ binding = Some binding"

definition TraceColumn :: "duck_expr \<Rightarrow> plan \<Rightarrow> get_op \<Rightarrow> bind_data \<Rightarrow> string res" where
  "TraceColumn e child get bd =
     (case e of
        BoundColumnRef table col depth ty \<Rightarrow>
          if depth > 0 then Inr []
          else (case TraceBinding child (table, col) of
                  None \<Rightarrow> Inr []
                | Some (table', i) \<Rightarrow>
                    if table' \<noteq> get_table get \<or> i \<ge> length (get_columns get) then Inr []
                    else (case get_columns get ! i of
                            None \<Rightarrow> Inr []
                          | Some c \<Rightarrow>
                              if c \<ge> length (bd_columns bd) then Inr []
                              else bindE (SupportsPushdown (type_node (bd_columns bd ! c))) (\<lambda>supported.
                                Inr (if supported then QuoteIdentifier (col_name (bd_columns bd ! c)) else []))))
      | _ \<Rightarrow> Inr [])"

text \<open>\<open>None\<close> when some key cannot be pushed; the code returns an empty string then.\<close>

fun OrderKeys :: "order_node list \<Rightarrow> plan \<Rightarrow> get_op \<Rightarrow> bind_data \<Rightarrow> string list option res" where
  "OrderKeys [] child get bd = Inr (Some [])"
| "OrderKeys (n # orders) child get bd =
     bindE (TraceColumn (order_expr n) child get bd) (\<lambda>column.
       if column = [] \<or> order_dir n = OtherOrder \<or> order_nulls n = OtherNulls then Inr None
       else bindE (OrderKeys orders child get bd) (\<lambda>keys.
         Inr (map_option ((#) (column @ (if order_dir n = DESCENDING then '' DESC'' else '' ASC'') @
                               (if order_nulls n = NULLS_FIRST then '' NULLS FIRST'' else '' NULLS LAST''))) keys)))"

definition BuildOrderByClause :: "string_util \<Rightarrow> order_node list \<Rightarrow> plan \<Rightarrow> get_op \<Rightarrow> bind_data \<Rightarrow> string res" where
  "BuildOrderByClause U orders child get bd =
     bindE (OrderKeys orders child get bd) (\<lambda>keys.
       Inr (case keys of None \<Rightarrow> [] | Some ks \<Rightarrow> '' ORDER BY '' @ Join U ks '', ''))"

definition limit_text :: "nat \<Rightarrow> nat \<Rightarrow> string" where
  "limit_text limit offset =
     '' LIMIT '' @ to_string limit @ (if offset > 0 then '' OFFSET '' @ to_string offset else [])"

text \<open>The pass changes the bind data of the scan in place, below the projections.\<close>

fun update_scan :: "(bind_data \<Rightarrow> bind_data) \<Rightarrow> plan \<Rightarrow> plan" where
  "update_scan f (ProjectionOp t es child) = ProjectionOp t es (update_scan f child)"
| "update_scan f (GetOp get) = GetOp (get\<lparr>get_bind := map_option f (get_bind get)\<rparr>)"
| "update_scan f p = p"

definition PushTopN :: "string_util \<Rightarrow> duck_api \<Rightarrow> order_node list \<Rightarrow> nat \<Rightarrow> nat \<Rightarrow> plan \<Rightarrow> plan option res" where
  "PushTopN U A orders limit offset child =
     (case FindClickhouseScan child of
        None \<Rightarrow> Inr None
      | Some get \<Rightarrow>
          (let bd = the (get_bind get) in
           if limit_clause bd \<noteq> [] then Inr None
           else bindE (AllFiltersPushed U A get bd) (\<lambda>pushed.
             if \<not> pushed then Inr None
             else bindE (BuildOrderByClause U orders child get bd) (\<lambda>order_by.
               Inr (if order_by = [] then None
                    else Some (update_scan (\<lambda>bd. bd\<lparr>order_by_clause := order_by, limit_clause := limit_text limit offset\<rparr>) child))))))"

definition PushLimit :: "string_util \<Rightarrow> duck_api \<Rightarrow> limit_node \<Rightarrow> limit_node \<Rightarrow> plan \<Rightarrow> plan option res" where
  "PushLimit U A limit_val offset_val child =
     (case (FindClickhouseScan child, limit_val) of
        (Some get, ConstantLimit limit) \<Rightarrow>
          (let bd = the (get_bind get) in
           if is_other_limit offset_val \<or> limit_clause bd \<noteq> [] then Inr None
           else bindE (AllFiltersPushed U A get bd) (\<lambda>pushed.
             Inr (if \<not> pushed then None
                  else Some (update_scan (\<lambda>bd. bd\<lparr>limit_clause :=
                    limit_text limit (case offset_val of ConstantLimit offset \<Rightarrow> offset | _ \<Rightarrow> 0)\<rparr>) child))))
      | _ \<Rightarrow> Inr None)"

function OptimizeRecursive :: "string_util \<Rightarrow> duck_api \<Rightarrow> plan \<Rightarrow> plan res" where
  "OptimizeRecursive U A op =
     bindE (case op of
         TopNOp orders limit offset child \<Rightarrow> PushTopN U A orders limit offset child
       | LimitOp limit_val offset_val child \<Rightarrow> PushLimit U A limit_val offset_val child
       | _ \<Rightarrow> Inr None)
     (\<lambda>pushed. case pushed of
         Some op' \<Rightarrow> Inr op'
       | None \<Rightarrow>
           (case op of
              GetOp get \<Rightarrow> Inr op
            | ProjectionOp t es child \<Rightarrow> bindE (OptimizeRecursive U A child) (\<lambda>c. Inr (ProjectionOp t es c))
            | TopNOp orders limit offset child \<Rightarrow>
                bindE (OptimizeRecursive U A child) (\<lambda>c. Inr (TopNOp orders limit offset c))
            | LimitOp limit_val offset_val child \<Rightarrow>
                bindE (OptimizeRecursive U A child) (\<lambda>c. Inr (LimitOp limit_val offset_val c))
            | OtherOp kind children \<Rightarrow> bindE (mapE (OptimizeRecursive U A) children) (\<lambda>cs. Inr (OtherOp kind cs))))"
  by pat_completeness auto
termination
  by (relation "measure (\<lambda>(U, A, op). size op)") (auto simp: size_list_estimation' less_Suc_eq_le)

declare OptimizeRecursive.simps [simp del]

text \<open>\<open>enabled\<close> is the setting \<open>ch_order_pushdown\<close>, if it is known.\<close>

definition Optimize :: "string_util \<Rightarrow> duck_api \<Rightarrow> duck_value option \<Rightarrow> plan \<Rightarrow> plan res" where
  "Optimize U A enabled plan =
     (case enabled of
        Some v \<Rightarrow> if IsNull v then OptimizeRecursive U A plan
                  else bindE (BooleanValue_Get A v) (\<lambda>b. if b then OptimizeRecursive U A plan else Inr plan)
      | None \<Rightarrow> OptimizeRecursive U A plan)"

section \<open>What plans compute\<close>

text \<open>
  A row is a list of cells. Sorting is stable, by the keys of the order nodes; other expressions and
  operators are arguments, as are the rows a scan returns.
\<close>

type_synonym cell = "duck_value option"

fun insert_by :: "('k \<Rightarrow> 'k \<Rightarrow> bool) \<Rightarrow> ('r \<Rightarrow> 'k) \<Rightarrow> 'r \<Rightarrow> 'r list \<Rightarrow> 'r list" where
  "insert_by le key r [] = [r]"
| "insert_by le key r (x # xs) = (if le (key r) (key x) then r # x # xs else x # insert_by le key r xs)"

definition sort_by :: "('k \<Rightarrow> 'k \<Rightarrow> bool) \<Rightarrow> ('r \<Rightarrow> 'k) \<Rightarrow> 'r list \<Rightarrow> 'r list" where
  "sort_by le key rows = foldr (insert_by le key) rows []"

fun cell_less :: "bool \<Rightarrow> bool \<Rightarrow> cell \<Rightarrow> cell \<Rightarrow> bool" where
  "cell_less desc nulls_first None None = False"
| "cell_less desc nulls_first None (Some y) = nulls_first"
| "cell_less desc nulls_first (Some x) None = (\<not> nulls_first)"
| "cell_less desc nulls_first (Some x) (Some y) = (if desc then value_less y x else value_less x y)"

fun keys_le :: "(bool \<times> bool) list \<Rightarrow> cell list \<Rightarrow> cell list \<Rightarrow> bool" where
  "keys_le ((desc, nf) # ds) (x # xs) (y # ys) =
     (cell_less desc nf x y \<or> \<not> cell_less desc nf y x \<and> keys_le ds xs ys)"
| "keys_le _ _ _ = True"

definition directions :: "order_node list \<Rightarrow> (bool \<times> bool) list" where
  "directions orders = map (\<lambda>n. (order_dir n = DESCENDING, order_nulls n = NULLS_FIRST)) orders"

definition eval_expr :: "(duck_expr \<Rightarrow> cell list \<Rightarrow> cell) \<Rightarrow> duck_expr \<Rightarrow> cell list \<Rightarrow> cell" where
  "eval_expr ev e row = (case e of
     BoundColumnRef table col depth ty \<Rightarrow> if depth = 0 then row ! col else ev e row | _ \<Rightarrow> ev e row)"

definition limit_rows :: "nat \<Rightarrow> nat \<Rightarrow> 'r list \<Rightarrow> 'r list" where
  "limit_rows limit offset rows = take limit (drop offset rows)"

fun eval_plan ::
  "(get_op \<Rightarrow> cell list list) \<Rightarrow> (duck_expr \<Rightarrow> cell list \<Rightarrow> cell) \<Rightarrow> (string \<Rightarrow> cell list list list \<Rightarrow> cell list list) \<Rightarrow>
     plan \<Rightarrow> cell list list" where
  "eval_plan scan ev other (GetOp get) = scan get"
| "eval_plan scan ev other (ProjectionOp t es child) =
     map (\<lambda>row. map (\<lambda>e. eval_expr ev e row) es) (eval_plan scan ev other child)"
| "eval_plan scan ev other (TopNOp orders limit offset child) =
     limit_rows limit offset (sort_by (keys_le (directions orders))
       (\<lambda>row. map (\<lambda>n. eval_expr ev (order_expr n) row) orders) (eval_plan scan ev other child))"
| "eval_plan scan ev other (LimitOp limit_val offset_val child) =
     (case (limit_val, offset_val) of
        (ConstantLimit n, ConstantLimit m) \<Rightarrow> limit_rows n m (eval_plan scan ev other child)
      | (ConstantLimit n, UnsetLimit) \<Rightarrow> limit_rows n 0 (eval_plan scan ev other child)
      | _ \<Rightarrow> other ''LIMIT'' [eval_plan scan ev other child])"
| "eval_plan scan ev other (OtherOp kind children) = other kind (map (eval_plan scan ev other) children)"

text \<open>The text of the order keys on the columns at some positions of the scan.\<close>

definition key_text :: "get_op \<Rightarrow> bind_data \<Rightarrow> nat \<Rightarrow> order_node \<Rightarrow> string" where
  "key_text get bd i n = QuoteIdentifier (col_name (bd_columns bd ! the (get_columns get ! i))) @
     (if order_dir n = DESCENDING then '' DESC'' else '' ASC'') @
     (if order_nulls n = NULLS_FIRST then '' NULLS FIRST'' else '' NULLS LAST'')"

text \<open>
  What the server makes of the clauses the pass writes, documented by ClickHouse: on a scan whose
  filters are all part of its query, \<open>LIMIT\<close> takes rows of the result and \<open>ORDER BY\<close> sorts by the columns named.
\<close>

definition server_ok :: "string_util \<Rightarrow> duck_api \<Rightarrow> (get_op \<Rightarrow> cell list list) \<Rightarrow> bool" where
  "server_ok U A scan \<longleftrightarrow> (\<forall>get bd. get_bind get = Some bd \<and> limit_clause bd = [] \<and> AllFiltersPushed U A get bd = Inr True \<longrightarrow>
     (\<forall>n m. scan (get\<lparr>get_bind := Some (bd\<lparr>limit_clause := limit_text n m\<rparr>)\<rparr>) = limit_rows n m (scan get)) \<and>
     (\<forall>n m orders positions. length positions = length orders \<and>
        (\<forall>i\<in>set positions. i < length (get_columns get) \<and> (\<exists>c<length (bd_columns bd). get_columns get ! i = Some c)) \<longrightarrow>
        scan (get\<lparr>get_bind := Some (bd\<lparr>order_by_clause := '' ORDER BY '' @ join_with (map2 (key_text get bd) positions orders) '', '',
                                       limit_clause := limit_text n m\<rparr>)\<rparr>) =
        limit_rows n m (sort_by (keys_le (directions orders)) (\<lambda>row. map ((!) row) positions) (scan get))))"

section \<open>The pass keeps the results\<close>

lemma insert_by_map: "map f (insert_by le (\<lambda>r. key (f r)) r rows) = insert_by le key (f r) (map f rows)"
  by (induction rows) auto

lemma sort_by_map: "map f (sort_by le (key \<circ> f) rows) = sort_by le key (map f rows)"
  by (induction rows) (simp_all add: sort_by_def insert_by_map o_def)

lemma limit_rows_map: "limit_rows n m (map f rows) = map f (limit_rows n m rows)"
  by (simp add: limit_rows_def take_map drop_map)

text \<open>The projections above a scan, as one function from its rows.\<close>

fun projected :: "(duck_expr \<Rightarrow> cell list \<Rightarrow> cell) \<Rightarrow> plan \<Rightarrow> cell list \<Rightarrow> cell list" where
  "projected ev (ProjectionOp t es child) row = map (\<lambda>e. eval_expr ev e (projected ev child row)) es"
| "projected ev p row = row"

lemma projected_get [simp]: "projected ev (GetOp get) = (\<lambda>row. row)"
  by (rule ext) simp

lemma eval_projected:
  "FindClickhouseScan p = Some get \<Longrightarrow> eval_plan scan ev other p = map (projected ev p) (scan get)"
  by (induction p rule: FindClickhouseScan.induct) (auto split: if_splits)

lemma FindClickhouseScan_bind: "FindClickhouseScan p = Some get \<Longrightarrow> \<exists>bd. get_bind get = Some bd"
  by (induction p rule: FindClickhouseScan.induct) (auto split: if_splits)

lemma eval_update:
  "FindClickhouseScan p = Some get \<Longrightarrow> get_bind get = Some bd \<Longrightarrow>
     eval_plan scan ev other (update_scan f p) = map (projected ev p) (scan (get\<lparr>get_bind := Some (f bd)\<rparr>))"
  by (induction p rule: FindClickhouseScan.induct) (auto split: if_splits)

text \<open>A traced column is the same cell above the projections and in the scan.\<close>

lemma TraceBinding_cell:
  "FindClickhouseScan p = Some get \<Longrightarrow> TraceBinding p (t, c) = Some (t', i) \<Longrightarrow> projected ev p row ! c = row ! i"
proof (induction p arbitrary: t c)
  case (ProjectionOp t0 es child)
  then obtain table' col' ty where e: "c < length es" "es ! c = BoundColumnRef table' col' 0 ty"
      "TraceBinding child (table', col') = Some (t', i)"
    by (auto split: if_splits duck_expr.splits)
  with ProjectionOp have "projected ev child row ! col' = row ! i" by simp
  with e show ?case by (simp add: eval_expr_def)
qed auto

lemma TraceColumn_traced:
  assumes "FindClickhouseScan child = Some get" and "TraceColumn e child get bd = Inr s" and "s \<noteq> []"
  shows "\<exists>i c. i < length (get_columns get) \<and> get_columns get ! i = Some c \<and> c < length (bd_columns bd) \<and>
    s = QuoteIdentifier (col_name (bd_columns bd ! c)) \<and> (\<forall>ev row. eval_expr ev e (projected ev child row) = row ! i)"
proof -
  from assms(2,3) obtain table col ty t' i c where e: "e = BoundColumnRef table col 0 ty"
      "TraceBinding child (table, col) = Some (t', i)" "i < length (get_columns get)" "get_columns get ! i = Some c"
      "c < length (bd_columns bd)" "s = QuoteIdentifier (col_name (bd_columns bd ! c))"
    by (auto simp: TraceColumn_def split: duck_expr.splits if_splits option.splits prod.splits)
  with TraceBinding_cell [OF assms(1) e(2)] show ?thesis by (auto simp: eval_expr_def)
qed

lemma OrderKeys_traced:
  assumes "FindClickhouseScan child = Some get"
  shows "OrderKeys orders child get bd = Inr (Some keys) \<Longrightarrow>
    \<exists>positions. length positions = length orders \<and> keys = map2 (key_text get bd) positions orders \<and>
      (\<forall>i\<in>set positions. i < length (get_columns get) \<and> (\<exists>c<length (bd_columns bd). get_columns get ! i = Some c)) \<and>
      (\<forall>ev row. map (\<lambda>n. eval_expr ev (order_expr n) (projected ev child row)) orders = map ((!) row) positions)"
proof (induction orders arbitrary: keys)
  case (Cons n orders)
  from Cons.prems obtain s ks where s: "TraceColumn (order_expr n) child get bd = Inr s" "s \<noteq> []"
    and ks: "OrderKeys orders child get bd = Inr (Some ks)"
    and keys: "keys = (s @ (if order_dir n = DESCENDING then '' DESC'' else '' ASC'') @
      (if order_nulls n = NULLS_FIRST then '' NULLS FIRST'' else '' NULLS LAST'')) # ks"
    by (auto split: if_splits)
  from TraceColumn_traced [OF assms s] obtain i c where i: "i < length (get_columns get)" "get_columns get ! i = Some c"
    "c < length (bd_columns bd)" "s = QuoteIdentifier (col_name (bd_columns bd ! c))"
    "\<And>ev row. eval_expr ev (order_expr n) (projected ev child row) = row ! i" by blast
  from Cons.IH [OF ks] obtain positions where p: "length positions = length orders"
    "ks = map2 (key_text get bd) positions orders"
    "\<forall>i\<in>set positions. i < length (get_columns get) \<and> (\<exists>c<length (bd_columns bd). get_columns get ! i = Some c)"
    "\<And>ev row. map (\<lambda>n. eval_expr ev (order_expr n) (projected ev child row)) orders = map ((!) row) positions" by blast
  show ?case by (rule exI [of _ "i # positions"]) (use i p keys in \<open>auto simp: key_text_def\<close>)
qed simp

lemma PushLimit_eval:
  assumes "server_ok U A scan" and "PushLimit U A limit_val offset_val child = Inr (Some op')"
  shows "eval_plan scan ev other op' = eval_plan scan ev other (LimitOp limit_val offset_val child)"
proof -
  from assms(2) obtain get limit where g: "FindClickhouseScan child = Some get" and l: "limit_val = ConstantLimit limit"
    by (auto simp: PushLimit_def split: option.splits limit_node.splits)
  obtain bd where bd: "get_bind get = Some bd" using FindClickhouseScan_bind [OF g] by blast
  define offset where "offset = (case offset_val of ConstantLimit offset \<Rightarrow> offset | _ \<Rightarrow> 0)"
  from assms(2) g l bd have pushed: "AllFiltersPushed U A get bd = Inr True" "limit_clause bd = []" "\<not> is_other_limit offset_val"
    and op': "op' = update_scan (\<lambda>bd. bd\<lparr>limit_clause := limit_text limit offset\<rparr>) child"
    by (auto simp: PushLimit_def Let_def offset_def split: if_splits)
  have "eval_plan scan ev other op' = map (projected ev child) (limit_rows limit offset (scan get))"
    using assms(1) bd pushed unfolding op' eval_update [OF g bd] by (simp add: server_ok_def)
  also have "\<dots> = limit_rows limit offset (eval_plan scan ev other child)"
    by (simp add: eval_projected [OF g] limit_rows_map)
  also have "\<dots> = eval_plan scan ev other (LimitOp limit_val offset_val child)"
    using l pushed(3) by (cases offset_val) (simp_all add: offset_def)
  finally show ?thesis .
qed

lemma PushTopN_eval:
  assumes "string_util_ok U" and "server_ok U A scan" and "PushTopN U A orders limit offset child = Inr (Some op')"
  shows "eval_plan scan ev other op' = eval_plan scan ev other (TopNOp orders limit offset child)"
proof -
  from assms(3) obtain get where g: "FindClickhouseScan child = Some get"
    by (auto simp: PushTopN_def split: option.splits)
  obtain bd where bd: "get_bind get = Some bd" using FindClickhouseScan_bind [OF g] by blast
  from assms(3) g bd obtain keys where pushed: "AllFiltersPushed U A get bd = Inr True" "limit_clause bd = []"
    and keys: "OrderKeys orders child get bd = Inr (Some keys)"
    and op': "op' = update_scan (\<lambda>bd. bd\<lparr>order_by_clause := '' ORDER BY '' @ Join U keys '', '', limit_clause := limit_text limit offset\<rparr>) child"
    by (auto simp: PushTopN_def Let_def BuildOrderByClause_def split: if_splits option.splits)
  from OrderKeys_traced [OF g keys] obtain positions where p: "length positions = length orders"
    "keys = map2 (key_text get bd) positions orders"
    "\<forall>i\<in>set positions. i < length (get_columns get) \<and> (\<exists>c<length (bd_columns bd). get_columns get ! i = Some c)"
    "\<And>ev row. map (\<lambda>n. eval_expr ev (order_expr n) (projected ev child row)) orders = map ((!) row) positions" by blast
  let ?sort = "sort_by (keys_le (directions orders))"
  have key: "(\<lambda>row. map ((!) row) positions) =
      (\<lambda>row. map (\<lambda>n. eval_expr ev (order_expr n) row) orders) \<circ> projected ev child"
    using p(4) [of ev] by (auto simp: fun_eq_iff)
  have "scan (get\<lparr>get_bind := Some (bd\<lparr>order_by_clause := '' ORDER BY '' @ Join U keys '', '', limit_clause := limit_text limit offset\<rparr>)\<rparr>) =
      limit_rows limit offset (?sort (\<lambda>row. map ((!) row) positions) (scan get))"
    using assms(2) bd pushed p(1,3) unfolding p(2) string_util_okD(10) [OF assms(1)] by (simp add: server_ok_def)
  then have "eval_plan scan ev other op' =
      map (projected ev child) (limit_rows limit offset (?sort (\<lambda>row. map ((!) row) positions) (scan get)))"
    unfolding op' eval_update [OF g bd] by simp
  also have "\<dots> = limit_rows limit offset (?sort (\<lambda>row. map (\<lambda>n. eval_expr ev (order_expr n) row) orders)
      (eval_plan scan ev other child))"
    unfolding key limit_rows_map [symmetric] sort_by_map eval_projected [OF g] ..
  finally show ?thesis by simp
qed

lemma OptimizeRecursive_eval:
  assumes "string_util_ok U" and "server_ok U A scan" and "OptimizeRecursive U A op = Inr op'"
  shows "eval_plan scan ev other op' = eval_plan scan ev other op"
  using assms(3)
proof (induction op arbitrary: op' rule: measure_induct_rule [of size])
  case (less op)
  from less.prems obtain pushed where pushed:
    "(case op of
         TopNOp orders limit offset child \<Rightarrow> PushTopN U A orders limit offset child
       | LimitOp limit_val offset_val child \<Rightarrow> PushLimit U A limit_val offset_val child
       | _ \<Rightarrow> Inr None) = Inr pushed"
    by (subst (asm) OptimizeRecursive.simps) auto
  show ?case
  proof (cases pushed)
    case (Some op1)
    with less.prems pushed have "op1 = op'" by (subst (asm) OptimizeRecursive.simps) simp
    with Some pushed show ?thesis
      using PushTopN_eval [OF assms(1,2)] PushLimit_eval [OF assms(2)] by (cases op) auto
  next
    case None
    show ?thesis
    proof (cases op)
      case (OtherOp kind children)
      with less.prems obtain cs where cs: "mapE (OptimizeRecursive U A) children = Inr cs" "op' = OtherOp kind cs"
        by (subst (asm) OptimizeRecursive.simps) auto
      have "map (eval_plan scan ev other) cs = map (eval_plan scan ev other) children"
      proof (rule nth_equalityI)
        fix i assume "i < length (map (eval_plan scan ev other) cs)"
        then have "i < length children" "OptimizeRecursive U A (children ! i) = Inr (cs ! i)"
          using cs(1) by (auto simp: mapE_eq_Inr list_all2_conv_all_nth)
        then show "map (eval_plan scan ev other) cs ! i = map (eval_plan scan ev other) children ! i"
          using less.IH [of "children ! i" "cs ! i"] mapE_length [OF cs(1)]
            size_list_estimation' [of "children ! i" children "size (children ! i)" size]
          by (simp add: OtherOp less_Suc_eq_le)
      qed (use mapE_length [OF cs(1)] in simp)
      then show ?thesis by (simp add: OtherOp cs(2))
    next
      case (GetOp get)
      with less.prems show ?thesis by (subst (asm) OptimizeRecursive.simps) simp
    next
      case (ProjectionOp t es child)
      with less.prems obtain c where "OptimizeRecursive U A child = Inr c" "op' = ProjectionOp t es c"
        by (subst (asm) OptimizeRecursive.simps) auto
      with less.IH [of child c] show ?thesis by (simp add: ProjectionOp)
    next
      case (TopNOp orders limit offset child)
      with less.prems pushed None obtain c where "OptimizeRecursive U A child = Inr c" "op' = TopNOp orders limit offset c"
        by (subst (asm) OptimizeRecursive.simps) auto
      with less.IH [of child c] show ?thesis by (simp add: TopNOp)
    next
      case (LimitOp limit_val offset_val child)
      with less.prems pushed None obtain c where "OptimizeRecursive U A child = Inr c" "op' = LimitOp limit_val offset_val c"
        by (subst (asm) OptimizeRecursive.simps) auto
      with less.IH [of child c] show ?thesis
        by (cases limit_val; cases offset_val) (simp_all add: LimitOp)
    qed
  qed
qed


text \<open>A server with one row per table that reads the limit clause.\<close>

definition parse_limit :: "string \<Rightarrow> (nat \<times> nat) option" where
  "parse_limit s =
     (if s = [] then None
      else (let rest = dropWhile ascii_digit (drop 7 s) in
            Some (digits_value (takeWhile ascii_digit (drop 7 s)),
                  if rest = [] then 0 else digits_value (drop 8 rest))))"

definition one_row_scan :: "get_op \<Rightarrow> cell list list" where
  "one_row_scan get =
     (case get_bind get of
        None \<Rightarrow> []
      | Some bd \<Rightarrow> (case parse_limit (limit_clause bd) of
            None \<Rightarrow> [[Some (Integer INTEGER 7)]]
          | Some (n, m) \<Rightarrow> limit_rows n m [[Some (Integer INTEGER 7)]]))"

lemma parse_limit_text: "parse_limit (limit_text n m) = Some (n, m)"
proof -
  have d: "takeWhile ascii_digit (to_string n @ rest) = to_string n" "dropWhile ascii_digit (to_string n @ rest) = rest"
    if "rest = [] \<or> \<not> ascii_digit (hd rest)" for rest
    using that to_string_digits [of n] by (cases rest; simp add: takeWhile_append2 dropWhile_append2)+
  show ?thesis
    using d [of "[]"] d [of "'' OFFSET '' @ to_string m"]
    by (auto simp: parse_limit_def limit_text_def Let_def to_string_value ascii_digit_def)
qed

lemma one_row_server_ok: "server_ok U A one_row_scan"
  by (simp add: server_ok_def one_row_scan_def parse_limit_text sort_by_def) (simp add: parse_limit_def)

definition sample_plan :: plan where
  "sample_plan = LimitOp (ConstantLimit 5) (ConstantLimit 1)
     (ProjectionOp 1 [BoundColumnRef 0 0 0 INTEGER]
       (GetOp \<lparr>get_table = 0, get_columns = [Some 0], get_filters = [], get_function = ''clickhouse_scan'',
         get_bind = Some sample_bind\<rparr>))"


end
