(* ===== verification/Insert.thy ===== *)
theory Insert
  imports Tables WriteModes WriterCorrect
begin

text \<open>
  The INSERT operator: \<open>src/src/storage/clickhouse_insert.cpp\<close>. DuckDB calls \<open>Sink\<close> for each chunk of rows, then
  \<open>Finalize\<close>, and destroys the state at the end, also after an exception. The protocol client, the
  vectors and the server's answers are the parameters of the theories below; creating the table of a
  CREATE TABLE AS (\<open>ClickhouseDdl\<close>) is an argument here.
\<close>

section \<open>The columns an INSERT writes\<close>

record insert_column =
  ic_column :: column_info
  source_index :: nat

text \<open>
  \<open>column_index_map\<close> gives each column of the table its place in the input, none for a column that is not
  listed; the empty map lists all. The loop is at column \<open>i\<close>.
\<close>

fun InsertColumnLoop :: "string_util \<Rightarrow> string \<Rightarrow> nat option list \<Rightarrow> nat \<Rightarrow> column_info list \<Rightarrow> insert_column list res" where
  "InsertColumnLoop U table_name index_map i [] = Inr []"
| "InsertColumnLoop U table_name index_map i (column # columns) =
     (if index_map \<noteq> [] \<and> i \<ge> length index_map then Inl (Exn InternalException ''index out of range'' [])
      else case (if index_map = [] then Some i else index_map ! i) of
        None \<Rightarrow> InsertColumnLoop U table_name index_map (Suc i) columns
      | Some source \<Rightarrow>
          if default_kind column = ''MATERIALIZED'' \<or> default_kind column = ''ALIAS'' then
            Inl (Exn BinderException ''Column of ClickHouse table is computed by ClickHouse itself''
              [col_name column, table_name, default_kind column, table_name])
          else bindE (GetWriteMode U (type_node column)) (\<lambda>mode.
            if mode = UNSUPPORTED then
              Inl (Exn NotImplementedException ''Cannot insert into ClickHouse column'' [col_name column, clickhouse_type column])
            else bindE (InsertColumnLoop U table_name index_map (Suc i) columns)
              (\<lambda>rest. Inr (\<lparr>ic_column = column, source_index = source\<rparr> # rest))))"

definition GetInsertColumns :: "string_util \<Rightarrow> table_entry \<Rightarrow> nat option list \<Rightarrow> insert_column list res" where
  "GetInsertColumns U table column_index_map =
     bindE (ThrowIfColumnsCollide table) (\<lambda>u.
     bindE (InsertColumnLoop U (te_name table) column_index_map 0 (clickhouse_columns table)) (\<lambda>result.
       if result = [] then
         Inl (Exn NotImplementedException ''INSERT into ClickHouse table must write at least one column'' [te_name table])
       else Inr result))"

text \<open>\<open>bound_defaults\<close> of the logical INSERT: whether the column still has its default expression.\<close>

definition DefaultsIndexMap :: "table_entry \<Rightarrow> bool list \<Rightarrow> nat option list" where
  "DefaultsIndexMap table bound_defaults =
     map (\<lambda>i. if i < length bound_defaults \<and> \<not> bound_defaults ! i then None else Some i) [0..<length (te_columns table)]"

definition GetInsertColumnsOp :: "string_util \<Rightarrow> table_entry \<Rightarrow> nat option list \<Rightarrow> bool list \<Rightarrow> insert_column list res" where
  "GetInsertColumnsOp U table column_index_map bound_defaults =
     (if column_index_map \<noteq> [] then GetInsertColumns U table column_index_map
      else GetInsertColumns U table (DefaultsIndexMap table bound_defaults))"

section \<open>The statement\<close>

text \<open>The column of \<open>input()\<close>, the expression of the SELECT, and whether the server converts it.\<close>

definition InputColumn :: "string_util \<Rightarrow> nat \<times> insert_column \<Rightarrow> (string \<times> string \<times> bool) res" where
  "InputColumn U ic =
     (let column = ic_column (snd ic); input_name = ''c'' @ to_string (fst ic + 1)
      in bindE (GetWriteMode U (type_node column)) (\<lambda>mode.
           if mode = SERVER_CONVERSION then
             bindE (ServerConversion (type_node column) input_name) (\<lambda>expr.
               Inr (input_name @ '' '' @ ServerInputType (type_node column), expr, True))
           else Inr (input_name @ '' '' @ clickhouse_type column, input_name, False)))"

definition BuildInsertQuery :: "string_util \<Rightarrow> table_entry \<Rightarrow> insert_column list \<Rightarrow> string res" where
  "BuildInsertQuery U table columns =
     bindE (mapE (InputColumn U) (enumerate 0 columns)) (\<lambda>inputs.
       let target = ''INSERT INTO '' @ QualifiedName (te_schema table) (te_name table) @ '' ('' @
             Join U (map (\<lambda>c. QuoteIdentifier (col_name (ic_column c))) columns) '', '' @ '')''
       in Inr (if \<not> (\<exists>x\<in>set inputs. snd (snd x)) then target @ '' VALUES''
               else target @ '' SELECT '' @ Join U (map (fst \<circ> snd) inputs) '', '' @ '' FROM input('' @
                 QuoteLiteral (Join U (map fst inputs) '', '') @ '') FORMAT Native''))"

section \<open>State\<close>

type_synonym insert_block = "(string \<times> ch_column) list"

text \<open>
  \<open>ClickhouseInsertGlobalState\<close>; \<open>txn\<close> is the transaction manager of the catalog, which a write marks. Of the
  operator: \<open>create_info\<close> is there for CREATE TABLE AS, as its IF NOT EXISTS flag and its column names.
\<close>

record 'k insert_state =
  gs_connection :: "'k conn option"
  gs_header :: insert_block
  pending :: "ch_column list"
  pending_rows :: nat
  block_size :: nat
  insert_count :: nat
  gs_columns :: "insert_column list"
  gs_insert_sql :: string
  target_ready :: bool
  skip :: bool
  txn :: "unit txn_manager"

record insert_op =
  op_catalog_name :: string
  op_database_name :: string
  op_table_name :: string
  op_columns :: "insert_column list"
  op_insert_sql :: string
  create_info :: "(bool \<times> string list) option"
  input_column_count :: nat

text \<open>What the operator reaches while it runs: the answers of the catalog, and a connection or why there is none.\<close>

record 'k insert_env =
  env_string :: string_util
  env_client :: "('k, insert_block) client_api"
  env_vectors :: vector_api
  env_debug :: bool
  env_now :: int
  table_exists :: "bool res"
  created_table :: "table_entry res"
  attached :: "bool res"
  acquired :: "'k conn res"
  env_tid :: nat

definition GetGlobalSinkState :: "(duck_value \<Rightarrow> nat res) \<Rightarrow> (string \<Rightarrow> duck_value option) \<Rightarrow> unit txn_manager \<Rightarrow> 'k insert_state res" where
  "GetGlobalSinkState get current m =
     (let start = \<lparr>gs_connection = None, gs_header = [], pending = [], pending_rows = 0, block_size = 65536, insert_count = 0,
            gs_columns = [], gs_insert_sql = [], target_ready = False, skip = False, txn = m\<rparr>
      in read_setting get (current ''ch_insert_block_size'') (\<lambda>n. start\<lparr>block_size := n\<rparr>) start)"

text \<open>The columns of a table that was there before, although it should have been created here.\<close>

definition ColumnsDiffer :: "string_util \<Rightarrow> column_info list \<Rightarrow> string list \<Rightarrow> bool" where
  "ColumnsDiffer U table_columns names \<longleftrightarrow>
     length table_columns \<noteq> length names \<or>
     \<not> list_all2 (\<lambda>c name. CIEquals U (col_name c) name) table_columns names"

definition PrepareTarget :: "'k insert_env \<Rightarrow> insert_op \<Rightarrow> 'k insert_state \<Rightarrow> unit res \<times> 'k insert_state" where
  "PrepareTarget E op s =
     (if target_ready s then (Inr (), s)
      else let s1 = s\<lparr>target_ready := True\<rparr> in
        case create_info op of
          None \<Rightarrow> (Inr (), s1\<lparr>gs_columns := op_columns op, gs_insert_sql := op_insert_sql op\<rparr>)
        | Some (if_not_exists, names) \<Rightarrow>
            (case attached E of Inl ex \<Rightarrow> (Inl ex, s1) | Inr read_only \<Rightarrow>
             case (if if_not_exists then table_exists E else Inr False) of
               Inl ex \<Rightarrow> (Inl ex, s1)
             | Inr True \<Rightarrow> (Inr (), s1\<lparr>skip := True\<rparr>)
             | Inr False \<Rightarrow>
                 (case created_table E of
                    Inl ex \<Rightarrow> (Inl ex, s1)
                  | Inr table \<Rightarrow>
                      if ColumnsDiffer (env_string E) (clickhouse_columns table) names then
                        (Inl (Exn InvalidInputException ''ClickHouse table already exists with different columns''
                           [op_database_name op, op_table_name op]), s1)
                      else (case GetInsertColumns (env_string E) table [] of
                          Inl ex \<Rightarrow> (Inl ex, s1)
                        | Inr columns \<Rightarrow>
                            (case BuildInsertQuery (env_string E) table columns of
                               Inl ex \<Rightarrow> (Inl ex, s1\<lparr>gs_columns := columns\<rparr>)
                             | Inr sql \<Rightarrow> (Inr (), s1\<lparr>gs_columns := columns, gs_insert_sql := sql\<rparr>))))))"

definition InsertSettings :: "(string \<times> string) list" where
  "InsertSettings = ExtensionQuerySettings @ [(''enable_time_time64_type'', ''1'')]"

text \<open>Taking the connection and sending the statement; \<open>c\<close> is the connection from here on.\<close>

definition OpenInsert :: "'k insert_env \<Rightarrow> insert_op \<Rightarrow> 'k conn \<Rightarrow> 'k insert_state \<Rightarrow> unit res \<times> 'k insert_state" where
  "OpenInsert E op c s =
     (case BeginInsert (env_string E) (env_client E) (env_debug E) (env_now E) (gs_insert_sql s) InsertSettings c of
        (Inl ex, c') \<Rightarrow> (Inl ex, s\<lparr>gs_connection := Some c'\<rparr>)
      | (Inr header, c') \<Rightarrow>
          (let s' = s\<lparr>gs_connection := Some c', gs_header := header\<rparr> in
           if length header \<noteq> length (gs_columns s) then
             (Inl (Exn InvalidInputException ''ClickHouse INSERT header: the table changed since its metadata was cached''
                [op_table_name op, to_string (length header), to_string (length (gs_columns s))]), s')
           else (Inr (), s'\<lparr>pending := map (EmptyLike \<circ> snd) header\<rparr>)))"

definition StartInsert :: "'k insert_env \<Rightarrow> insert_op \<Rightarrow> 'k insert_state \<Rightarrow> unit res \<times> 'k insert_state" where
  "StartInsert E op s0 =
     (case PrepareTarget E op s0 of (Inl ex, s) \<Rightarrow> (Inl ex, s) | (Inr u, s) \<Rightarrow>
      if length (gs_columns s) > input_column_count op then
        (Inl (Exn InvalidInputException ''ClickHouse INSERT target has more columns than the input''
           [op_table_name op, to_string (length (gs_columns s)), to_string (input_column_count op)]), s)
      else if \<exists>c\<in>set (gs_columns s). source_index c \<ge> input_column_count op then
        (Inl (Exn InvalidInputException ''ClickHouse INSERT target references a column the input does not have''
           [op_table_name op]), s)
      else (case attached E of Inl ex \<Rightarrow> (Inl ex, s) | Inr read_only \<Rightarrow>
        case StartWrite (op_catalog_name op) read_only (acquired E) (env_tid E) (txn s) of
          (Inl ex, m) \<Rightarrow> (Inl ex, s\<lparr>txn := m\<rparr>)
        | (Inr c, m) \<Rightarrow> OpenInsert E op c (s\<lparr>txn := m\<rparr>)))"

section \<open>Sink and Finalize\<close>

record duck_chunk =
  chunk_data :: "vec list"
  chunk_size :: nat

definition Flush :: "'k insert_env \<Rightarrow> 'k conn \<Rightarrow> 'k insert_state \<Rightarrow> unit res \<times> 'k insert_state" where
  "Flush E c s =
     (if pending_rows s = 0 then (Inr (), s)
      else let block = zip (map fst (gs_header s)) (pending s);
               s1 = s\<lparr>pending := map (EmptyLike \<circ> snd) (gs_header s), pending_rows := 0\<rparr>
           in case SendInsertBlock (env_string E) (env_client E) (env_debug E) (env_now E) block c of
                (r, c') \<Rightarrow> (r, s1\<lparr>gs_connection := Some c'\<rparr>))"

text \<open>The loop of \<open>Sink\<close> over the columns: each takes its vector of the chunk.\<close>

fun AppendColumns :: "('v \<Rightarrow> nat \<Rightarrow> 'c \<Rightarrow> string \<Rightarrow> 'c res) \<Rightarrow> 'v list \<Rightarrow> nat \<Rightarrow> insert_column list \<Rightarrow> 'c list \<Rightarrow> 'c list res" where
  "AppendColumns put data n [] cs = Inr []"
| "AppendColumns put data n (column # columns) [] = Inr []"
| "AppendColumns put data n (column # columns) (c # cs) =
     bindE (put (data ! source_index column) n c (col_name (ic_column column))) (\<lambda>c'.
     bindE (AppendColumns put data n columns cs) (\<lambda>cs'. Inr (c' # cs')))"

datatype sink_result = NeedMoreInput | SinkFinished

definition SinkRows :: "'k insert_env \<Rightarrow> duck_chunk \<Rightarrow> 'k insert_state \<Rightarrow> sink_result res \<times> 'k insert_state" where
  "SinkRows E chunk s =
     (case AppendColumns (AppendVector (env_vectors E)) (chunk_data chunk) (chunk_size chunk) (gs_columns s) (pending s) of
        Inl ex \<Rightarrow> (Inl ex, s)
      | Inr columns \<Rightarrow>
          (let s1 = s\<lparr>pending := columns, pending_rows := pending_rows s + chunk_size chunk,
                     insert_count := insert_count s + chunk_size chunk\<rparr>
           in if pending_rows s1 \<ge> block_size s1 then
                (case Flush E (the (gs_connection s1)) s1 of (Inl ex, s2) \<Rightarrow> (Inl ex, s2) | (Inr u, s2) \<Rightarrow> (Inr NeedMoreInput, s2))
              else (Inr NeedMoreInput, s1)))"

definition Sink :: "'k insert_env \<Rightarrow> insert_op \<Rightarrow> duck_chunk \<Rightarrow> 'k insert_state \<Rightarrow> sink_result res \<times> 'k insert_state" where
  "Sink E op chunk s0 =
     (if chunk_size chunk = 0 then (Inr NeedMoreInput, s0)
      else case PrepareTarget E op s0 of (Inl ex, s) \<Rightarrow> (Inl ex, s) | (Inr u, s) \<Rightarrow>
        if skip s then (Inr SinkFinished, s)
        else if gs_connection s \<noteq> None then SinkRows E chunk s
        else (case StartInsert E op s of (Inl ex, s1) \<Rightarrow> (Inl ex, s1) | (Inr v, s1) \<Rightarrow> SinkRows E chunk s1))"

text \<open>The connection it was working on goes back to the pool: the last component.\<close>

definition Finalize :: "'k insert_env \<Rightarrow> insert_op \<Rightarrow> 'k insert_state \<Rightarrow> unit res \<times> 'k insert_state \<times> 'k conn option" where
  "Finalize E op s0 =
     (case (if create_info op \<noteq> None then PrepareTarget E op s0 else (Inr (), s0)) of
        (Inl ex, s) \<Rightarrow> (Inl ex, s, None)
      | (Inr u, s) \<Rightarrow>
          (case gs_connection s of
             None \<Rightarrow> (Inr (), s, None)
           | Some c \<Rightarrow>
               (case Flush E c s of
                  (Inl ex, s1) \<Rightarrow> (Inl ex, s1, None)
                | (Inr v, s1) \<Rightarrow>
                    (case EndInsert (env_string E) (env_client E) (env_debug E) (env_now E) (the (gs_connection s1)) of
                       (Inl ex, c') \<Rightarrow> (Inl ex, s1\<lparr>gs_connection := Some c'\<rparr>, None)
                     | (Inr w, c') \<Rightarrow> (Inr (), s1\<lparr>gs_connection := None\<rparr>, Some c')))))"

text \<open>
  The destructor of the state: the connection it still has, and whether it was invalidated, so that the
  pool closes it; otherwise it returns to the pool.
\<close>

definition DestroyState :: "('k, insert_block) client_api \<Rightarrow> 'k insert_state \<Rightarrow> ('k conn \<times> bool) option" where
  "DestroyState K s = map_option (\<lambda>c. if IsInserting K (client c) then (AbortInsert K c, True) else (c, False)) (gs_connection s)"

definition GetDataInternal :: "'k insert_state \<Rightarrow> nat" where
  "GetDataInternal s = insert_count s"

text \<open>DuckDB's calls for a whole statement.\<close>

fun RunInsert :: "'k insert_env \<Rightarrow> insert_op \<Rightarrow> duck_chunk list \<Rightarrow> 'k insert_state \<Rightarrow> unit res \<times> 'k insert_state \<times> 'k conn option" where
  "RunInsert E op [] s = Finalize E op s"
| "RunInsert E op (chunk # chunks) s =
     (case Sink E op chunk s of
        (Inl ex, s') \<Rightarrow> (Inl ex, s', None)
      | (Inr SinkFinished, s') \<Rightarrow> Finalize E op s'
      | (Inr NeedMoreInput, s') \<Rightarrow> RunInsert E op chunks s')"

end
