(* ===== verification/InsertCorrect.thy ===== *)
theory InsertCorrect
  imports Insert
begin

text \<open>
  What a statement of \<open>src/src/storage/clickhouse_insert.cpp\<close> sends: every row of its input once, in order, in
  blocks of at least the configured size.
\<close>

section \<open>The columns of a block\<close>

text \<open>What the operator relies on of the writer: it appends a vector's rows and clones an empty column.\<close>

locale column_writer =
  fixes put :: "'v \<Rightarrow> nat \<Rightarrow> 'c \<Rightarrow> string \<Rightarrow> 'c res"
    and clone :: "'c \<Rightarrow> 'c"
    and valid :: "'c \<Rightarrow> bool"
    and contents :: "'c \<Rightarrow> 'r list"
    and accepts :: "'c \<Rightarrow> 'v \<Rightarrow> nat \<Rightarrow> bool"
    and encode :: "'c \<Rightarrow> 'v \<Rightarrow> nat \<Rightarrow> 'r list"
  assumes put_rows: "valid c \<Longrightarrow> accepts (clone c) v n \<Longrightarrow> put v n c name = Inr c' \<Longrightarrow>
      valid c' \<and> clone c' = clone c \<and> contents c' = contents c @ encode (clone c) v n"
    and clone_empty: "valid c \<Longrightarrow> valid (clone c) \<and> clone (clone c) = clone c \<and> contents (clone c) = []"
begin

lemma AppendColumns_rows:
  "AppendColumns put data n columns cs = Inr cs' \<Longrightarrow> length columns = length cs \<Longrightarrow> list_all valid cs \<Longrightarrow>
   \<forall>k<length cs. accepts (clone (cs ! k)) (data ! source_index (columns ! k)) n \<Longrightarrow>
     length cs' = length cs \<and> list_all valid cs' \<and>
     (\<forall>k<length cs. clone (cs' ! k) = clone (cs ! k) \<and>
        contents (cs' ! k) = contents (cs ! k) @ encode (clone (cs ! k)) (data ! source_index (columns ! k)) n)"
proof (induction columns arbitrary: cs cs')
  case (Cons column columns)
  then obtain c rest where cs: "cs = c # rest" by (cases cs) auto
  with Cons.prems(1) obtain d ds where d: "put (data ! source_index column) n c (col_name (ic_column column)) = Inr d"
    "AppendColumns put data n columns rest = Inr ds" "cs' = d # ds" by auto
  have "valid d \<and> clone d = clone c \<and> contents d = contents c @ encode (clone c) (data ! source_index column) n"
    by (rule put_rows [OF _ _ d(1)]) (use Cons.prems(3,4) cs in auto)
  moreover have "length ds = length rest \<and> list_all valid ds \<and> (\<forall>k<length rest. clone (ds ! k) = clone (rest ! k) \<and>
      contents (ds ! k) = contents (rest ! k) @ encode (clone (rest ! k)) (data ! source_index (columns ! k)) n)"
    by (rule Cons.IH [OF d(2)]) (use Cons.prems(2-4) cs in auto)
  ultimately show ?case unfolding cs d(3) by (auto simp: nth_Cons split: nat.split)
qed auto

end

text \<open>The values of a column's rows, and the writer of this repository as one.\<close>

definition cells :: "ch_column \<Rightarrow> cell list" where
  "cells c = map (col_cell c) [0..<col_size c]"

lemma cells_length [simp]: "length (cells c) = col_size c"
  by (simp add: cells_def)

definition encode_rows :: "vector_api \<Rightarrow> ch_column \<Rightarrow> vec \<Rightarrow> nat \<Rightarrow> cell list" where
  "encode_rows A c v n = map (\<lambda>j. store c (vec_cell A v j)) [0..<n]"

definition accepts_rows :: "vector_api \<Rightarrow> ch_column \<Rightarrow> vec \<Rightarrow> nat \<Rightarrow> bool" where
  "accepts_rows A c v n \<longleftrightarrow> vector_api_ok A \<and> fits c (vec_type v) \<and> (\<exists>m. vec_ok A m v \<and> n \<le> m)"

lemma AppendVector_cells:
  assumes "col_ok c" and "accepts_rows A (EmptyLike c) v n" and run: "AppendVector A v n c name = Inr c'"
  shows "col_ok c' \<and> EmptyLike c' = EmptyLike c \<and> cells c' = cells c @ encode_rows A (EmptyLike c) v n"
proof -
  obtain m where m: "vector_api_ok A" "fits c (vec_type v)" "vec_ok A m v" "n \<le> m"
    using assms(2) by (auto simp: accepts_rows_def same_type)
  from AppendRows_appended(1) [OF m(1) run [unfolded AppendVector_def] m(3)] m(2,4) assms(1)
  have a: "appended A v [0..<n] False c c'" by auto
  have "cells c' = cells c @ encode_rows A (EmptyLike c) v n"
  proof (rule nth_equalityI)
    show "length (cells c') = length (cells c @ encode_rows A (EmptyLike c) v n)"
      using a by (simp add: appended_def encode_rows_def)
    fix i assume "i < length (cells c')"
    with a have i: "i < col_size c + n" by (simp add: appended_def)
    show "cells c' ! i = (cells c @ encode_rows A (EmptyLike c) v n) ! i"
    proof (cases "i < col_size c")
      case True
      with a show ?thesis by (simp add: appended_def cells_def nth_append)
    next
      case False
      then obtain j where j: "i = col_size c + j" "j < n" using i by (metis add_less_cancel_left le_Suc_ex not_less)
      with a have "col_cell c' i = store c (vec_cell A v j)" by (auto simp: appended_def)
      with a j show ?thesis by (simp add: appended_def cells_def nth_append encode_rows_def same_type)
    qed
  qed
  with a show ?thesis by (simp add: appended_def)
qed

interpretation writer: column_writer "AppendVector A" EmptyLike col_ok cells "accepts_rows A" "encode_rows A" for A
  by unfold_locales (erule (2) AppendVector_cells, simp add: cells_def)

section \<open>What has been sent\<close>

text \<open>The client's calls since \<open>BeginInsert\<close>: these blocks, in this order, all accepted.\<close>

fun sent :: "('k, insert_block) client_api \<Rightarrow> 'k \<Rightarrow> insert_block list \<Rightarrow> 'k \<Rightarrow> bool" where
  "sent K k [] k' \<longleftrightarrow> k' = k"
| "sent K k (b # bs) k' \<longleftrightarrow> (\<exists>k1. cl_SendInsertBlock K b k = (Inr (), k1) \<and> sent K k1 bs k')"

lemma sent_snoc: "sent K k (bs @ [b]) k' \<longleftrightarrow> (\<exists>k1. sent K k bs k1 \<and> cl_SendInsertBlock K b k1 = (Inr (), k'))"
  by (induction bs arbitrary: k) auto

text \<open>A block with the columns of the header and a number of rows in each of them.\<close>

definition block_of :: "insert_block \<Rightarrow> nat \<Rightarrow> insert_block \<Rightarrow> bool" where
  "block_of header n b \<longleftrightarrow> map fst b = map fst header \<and>
     (\<forall>k<length header. EmptyLike (snd (b ! k)) = EmptyLike (snd (header ! k)) \<and> col_size (snd (b ! k)) = n)"

definition chunk_rows :: "vector_api \<Rightarrow> insert_block \<Rightarrow> insert_column list \<Rightarrow> nat \<Rightarrow> duck_chunk \<Rightarrow> cell list" where
  "chunk_rows A header columns k chunk =
     encode_rows A (EmptyLike (snd (header ! k))) (chunk_data chunk ! source_index (columns ! k)) (chunk_size chunk)"

definition chunk_fits :: "vector_api \<Rightarrow> insert_block \<Rightarrow> insert_column list \<Rightarrow> duck_chunk \<Rightarrow> bool" where
  "chunk_fits A header columns chunk \<longleftrightarrow>
     (\<forall>k<length header. accepts_rows A (EmptyLike (snd (header ! k))) (chunk_data chunk ! source_index (columns ! k)) (chunk_size chunk))"

definition sent_rows :: "nat \<Rightarrow> insert_block list \<Rightarrow> cell list" where
  "sent_rows k blocks = concat (map (\<lambda>b. cells (snd (b ! k))) blocks)"

definition total_rows :: "duck_chunk list \<Rightarrow> nat" where
  "total_rows chunks = sum_list (map chunk_size chunks)"

text \<open>
  The state after the chunks so far, \<open>k0\<close> being the client after \<open>BeginInsert\<close>: the sent and the pending
  rows together are the rows of the chunks, and every sent block is large enough.
\<close>

definition streaming :: "'k insert_env \<Rightarrow> 'k \<Rightarrow> insert_block list \<Rightarrow> duck_chunk list \<Rightarrow> 'k insert_state \<Rightarrow> bool" where
  "streaming E k0 blocks chunks s \<longleftrightarrow>
     (\<exists>c. gs_connection s = Some c \<and> sent (env_client E) k0 blocks (client c)) \<and>
     target_ready s \<and> \<not> skip s \<and> length (gs_columns s) = length (gs_header s) \<and>
     list_all col_ok (pending s) \<and> map EmptyLike (pending s) = map (EmptyLike \<circ> snd) (gs_header s) \<and>
     (\<forall>k<length (gs_header s). col_size (pending s ! k) = pending_rows s \<and>
        sent_rows k blocks @ cells (pending s ! k) =
          concat (map (chunk_rows (env_vectors E) (gs_header s) (gs_columns s) k) chunks)) \<and>
     (\<forall>b\<in>set blocks. \<exists>n\<ge>max 1 (block_size s). block_of (gs_header s) n b) \<and>
     insert_count s = total_rows chunks"

text \<open>The parts of the state that stay as they are once the INSERT runs.\<close>

definition same_insert :: "'k insert_state \<Rightarrow> 'k insert_state \<Rightarrow> bool" where
  "same_insert s s' \<longleftrightarrow> gs_header s' = gs_header s \<and> gs_columns s' = gs_columns s \<and> gs_insert_sql s' = gs_insert_sql s \<and>
     block_size s' = block_size s \<and> target_ready s' = target_ready s \<and> skip s' = skip s \<and> insert_count s' = insert_count s"

lemma SendInsertBlock_ok:
  "SendInsertBlock U K debug now b c = (Inr u, c') \<Longrightarrow> \<exists>k. cl_SendInsertBlock K b (client c) = (Inr (), k) \<and> client c' = k"
  by (auto simp: SendInsertBlock_def RethrowAsDuckDBException_def Let_def split: prod.splits sum.splits client_failure.splits)

lemma pending_block:
  assumes "streaming E k0 blocks chunks s"
  shows "block_of (gs_header s) (pending_rows s) (zip (map fst (gs_header s)) (pending s))"
proof -
  have types: "map EmptyLike (pending s) = map (EmptyLike \<circ> snd) (gs_header s)" using assms by (simp add: streaming_def)
  then have len: "length (pending s) = length (gs_header s)" by (metis length_map)
  moreover have "EmptyLike (pending s ! k) = EmptyLike (snd (gs_header s ! k))" if "k < length (gs_header s)" for k
    using arg_cong [OF types, of "\<lambda>xs. xs ! k"] that len by simp
  ultimately show ?thesis using assms by (simp add: block_of_def streaming_def)
qed

lemma Flush_streaming:
  assumes inv: "streaming E k0 blocks chunks s" and ok: "list_all (col_ok \<circ> snd) (gs_header s)"
    and run: "Flush E (the (gs_connection s)) s = (Inr u, s')"
  shows "\<exists>new. s' = s \<and> pending_rows s = 0 \<or>
    (new = zip (map fst (gs_header s)) (pending s) \<and> pending_rows s > 0 \<and> pending_rows s' = 0 \<and> same_insert s s' \<and>
     (\<exists>c. gs_connection s' = Some c \<and> sent (env_client E) k0 (blocks @ [new]) (client c)) \<and>
     pending s' = map (EmptyLike \<circ> snd) (gs_header s))"
proof (cases "pending_rows s = 0")
  case True
  with run show ?thesis by (auto simp: Flush_def)
next
  case False
  obtain c where c: "gs_connection s = Some c" "sent (env_client E) k0 blocks (client c)" using inv by (auto simp: streaming_def)
  let ?b = "zip (map fst (gs_header s)) (pending s)"
  obtain r c' where r: "SendInsertBlock (env_string E) (env_client E) (env_debug E) (env_now E) ?b c = (r, c')" by fastforce
  with run False c(1) have s': "r = Inr u"
    "s' = s\<lparr>pending := map (EmptyLike \<circ> snd) (gs_header s), pending_rows := 0, gs_connection := Some c'\<rparr>"
    by (simp_all add: Flush_def Let_def)
  from SendInsertBlock_ok [OF r [unfolded s'(1)]] c(2) have "sent (env_client E) k0 (blocks @ [?b]) (client c')"
    by (auto simp: sent_snoc)
  with False show ?thesis by (intro exI [of _ ?b]) (simp add: s'(2) same_insert_def)
qed


lemma sent_rows_snoc: "sent_rows k (blocks @ [b]) = sent_rows k blocks @ cells (snd (b ! k))"
  by (simp add: sent_rows_def)

lemma Flush_keeps:
  assumes inv: "streaming E k0 blocks chunks s" and ok: "list_all (col_ok \<circ> snd) (gs_header s)"
    and full: "max 1 (block_size s) \<le> pending_rows s" and run: "Flush E (the (gs_connection s)) s = (Inr u, s')"
  shows "\<exists>new. streaming E k0 (blocks @ [new]) chunks s' \<and> same_insert s s'"
proof -
  let ?new = "zip (map fst (gs_header s)) (pending s)"
  from Flush_streaming [OF inv ok run] full have f: "pending_rows s' = 0" "same_insert s s'"
    "\<exists>c. gs_connection s' = Some c \<and> sent (env_client E) k0 (blocks @ [?new]) (client c)"
    "pending s' = map (EmptyLike \<circ> snd) (gs_header s)" by auto
  have types: "map EmptyLike (pending s) = map (EmptyLike \<circ> snd) (gs_header s)" using inv by (simp add: streaming_def)
  then have len: "length (pending s) = length (gs_header s)" by (metis length_map)
  have empty: "col_ok (EmptyLike c) \<and> EmptyLike (EmptyLike c) = EmptyLike c \<and> cells (EmptyLike c) = []" if "col_ok c" for c
    by (rule writer.clone_empty [OF that])
  have hdr: "col_ok (EmptyLike (snd (gs_header s ! k)))" "cells (EmptyLike (snd (gs_header s ! k))) = []"
    "EmptyLike (EmptyLike (snd (gs_header s ! k))) = EmptyLike (snd (gs_header s ! k))" if "k < length (gs_header s)" for k
    using ok that empty by (auto simp: list_all_length)
  then have size: "col_size (EmptyLike (snd (gs_header s ! k))) = 0" if "k < length (gs_header s)" for k
    using that by (metis cells_length list.size(3))
  have "streaming E k0 (blocks @ [?new]) chunks s'" unfolding streaming_def
    using inv f pending_block [OF inv] full hdr size len
    by (auto simp: streaming_def same_insert_def sent_rows_snoc list_all_length intro: nth_equalityI)
  with f(2) show ?thesis by blast
qed

lemma SinkRows_streaming:
  assumes inv: "streaming E k0 blocks chunks s" and ok: "list_all (col_ok \<circ> snd) (gs_header s)"
    and fits: "chunk_fits (env_vectors E) (gs_header s) (gs_columns s) chunk" and some: "0 < chunk_size chunk"
    and run: "SinkRows E chunk s = (Inr r, s')"
  shows "r = NeedMoreInput \<and> (\<exists>blocks'. streaming E k0 blocks' (chunks @ [chunk]) s') \<and>
    gs_header s' = gs_header s \<and> gs_columns s' = gs_columns s \<and> gs_insert_sql s' = gs_insert_sql s \<and> block_size s' = block_size s"
proof -
  have types: "map EmptyLike (pending s) = map (EmptyLike \<circ> snd) (gs_header s)" using inv by (simp add: streaming_def)
  then have len: "length (pending s) = length (gs_header s)" by (metis length_map)
  have type: "EmptyLike (pending s ! k) = EmptyLike (snd (gs_header s ! k))" if "k < length (gs_header s)" for k
    using arg_cong [OF types, of "\<lambda>xs. xs ! k"] that len by simp
  obtain cs where cs: "AppendColumns (AppendVector (env_vectors E)) (chunk_data chunk) (chunk_size chunk) (gs_columns s) (pending s) = Inr cs"
    using run by (auto simp: SinkRows_def split: sum.splits)
  have rows: "length cs = length (pending s) \<and> list_all col_ok cs \<and>
     (\<forall>k<length (pending s). EmptyLike (cs ! k) = EmptyLike (pending s ! k) \<and> cells (cs ! k) = cells (pending s ! k) @
        encode_rows (env_vectors E) (EmptyLike (pending s ! k)) (chunk_data chunk ! source_index (gs_columns s ! k)) (chunk_size chunk))"
    by (rule writer.AppendColumns_rows [OF cs]) (use inv fits type len in \<open>auto simp: streaming_def chunk_fits_def\<close>)
  let ?s1 = "s\<lparr>pending := cs, pending_rows := pending_rows s + chunk_size chunk, insert_count := insert_count s + chunk_size chunk\<rparr>"
  have size: "col_size (cs ! k) = pending_rows s + chunk_size chunk" if "k < length (gs_header s)" for k
  proof -
    have "length (cells (cs ! k)) = length (cells (pending s ! k)) + chunk_size chunk"
      using rows that len by (simp add: encode_rows_def)
    with inv that show ?thesis by (simp add: streaming_def)
  qed
  have mapE: "map EmptyLike cs = map (EmptyLike \<circ> snd) (gs_header s)"
    by (rule nth_equalityI) (use rows len type in auto)
  have s1: "streaming E k0 blocks (chunks @ [chunk]) ?s1" unfolding streaming_def
    using inv rows mapE size type len
    by (auto simp: streaming_def chunk_rows_def total_rows_def append_assoc [symmetric] simp del: append_assoc)
  show ?thesis
  proof (cases "pending_rows ?s1 \<ge> block_size ?s1")
    case True
    then obtain u where flush: "Flush E (the (gs_connection ?s1)) ?s1 = (Inr u, s')" and r: "r = NeedMoreInput"
      using run cs by (auto simp: SinkRows_def Let_def split: prod.splits sum.splits)
    have "max 1 (block_size ?s1) \<le> pending_rows ?s1" using True some by simp
    from Flush_keeps [OF s1 _ this flush] ok r show ?thesis by (auto simp: same_insert_def)
  next
    case False
    with run cs have "s' = ?s1" "r = NeedMoreInput" by (auto simp: SinkRows_def)
    with s1 show ?thesis by auto
  qed
qed


section \<open>The whole statement\<close>

text \<open>A state of \<open>GetGlobalSinkState\<close>: nothing done yet.\<close>

definition fresh :: "'k insert_state \<Rightarrow> bool" where
  "fresh s \<longleftrightarrow> gs_connection s = None \<and> \<not> target_ready s \<and> \<not> skip s \<and> insert_count s = 0 \<and> pending_rows s = 0"

lemma PrepareTarget_fresh:
  assumes "PrepareTarget E op s = (Inr u, s')"
  shows "target_ready s' \<and> gs_connection s' = gs_connection s \<and> insert_count s' = insert_count s \<and>
    pending_rows s' = pending_rows s \<and> block_size s' = block_size s"
  using assms by (auto simp: PrepareTarget_def Let_def split: if_splits option.splits sum.splits prod.splits bool.splits)

lemma BeginInsert_ok:
  "BeginInsert U K debug now sql st c = (Inr h, c') \<Longrightarrow>
     cl_BeginInsert K (MakeQuery (config c) sql st) (client c) = (Inr h, client c')"
  by (auto simp: BeginInsert_def RethrowAsDuckDBException_def Let_def split: prod.splits sum.splits client_failure.splits)

lemma EndInsert_ok:
  "EndInsert U K debug now c = (Inr u, c') \<Longrightarrow> cl_EndInsert K (client c) = (Inr (), client c')"
  by (auto simp: EndInsert_def RethrowAsDuckDBException_def Let_def split: prod.splits sum.splits client_failure.splits)

lemma StartWrite_ok: "StartWrite name ro got tid m = (Inr c, m') \<Longrightarrow> got = Inr c"
  by (auto simp: StartWrite_def Let_def split: prod.splits sum.splits if_splits)

lemma OpenInsert_streaming:
  assumes "target_ready s" "\<not> skip s" "pending_rows s = 0" "insert_count s = 0"
    and run: "OpenInsert E op c s = (Inr u, s')" and ok: "list_all (col_ok \<circ> snd) (gs_header s')"
  shows "\<exists>k0. streaming E k0 [] [] s' \<and>
    cl_BeginInsert (env_client E) (MakeQuery (config c) (gs_insert_sql s') InsertSettings) (client c) = (Inr (gs_header s'), k0)"
proof -
  obtain header c' where h: "BeginInsert (env_string E) (env_client E) (env_debug E) (env_now E) (gs_insert_sql s) InsertSettings c = (Inr header, c')"
    "length header = length (gs_columns s)"
    "s' = s\<lparr>gs_connection := Some c', gs_header := header, pending := map (EmptyLike \<circ> snd) header\<rparr>"
    using run by (auto simp: OpenInsert_def Let_def split: prod.splits sum.splits if_splits)
  have "col_ok (EmptyLike (snd b)) \<and> EmptyLike (EmptyLike (snd b)) = EmptyLike (snd b) \<and> cells (EmptyLike (snd b)) = []"
    if "b \<in> set header" for b by (rule writer.clone_empty) (use ok that h(3) in \<open>simp add: list_all_iff\<close>)
  then have "col_ok (EmptyLike (snd b))" "EmptyLike (EmptyLike (snd b)) = EmptyLike (snd b)" "cells (EmptyLike (snd b)) = []"
    "col_size (EmptyLike (snd b)) = 0" if "b \<in> set header" for b
    using that by (blast, blast, blast, metis cells_length list.size(3))
  with assms h(2) have "streaming E (client c') [] [] s'"
    by (auto simp: streaming_def h(3) sent_rows_def total_rows_def list_all_iff)
  with BeginInsert_ok [OF h(1)] show ?thesis by (auto simp: h(3))
qed

lemma StartInsert_ready:
  assumes ready: "target_ready s" and run: "StartInsert E op s = (Inr u, s')"
  shows "\<exists>c m. acquired E = Inr c \<and> OpenInsert E op c (s\<lparr>txn := m\<rparr>) = (Inr u, s')"
  using run by (auto simp: StartInsert_def PrepareTarget_def ready dest!: StartWrite_ok
      split: prod.splits sum.splits if_splits)

lemma Sink_first:
  assumes f: "fresh s" and some: "0 < chunk_size chunk" and run: "Sink E op chunk s = (Inr r, s')" and more: "r \<noteq> SinkFinished"
  shows "\<exists>s1 s2 c u. target_ready s1 \<and> \<not> skip s1 \<and> pending_rows s1 = 0 \<and> insert_count s1 = 0 \<and>
    acquired E = Inr c \<and> OpenInsert E op c s1 = (Inr u, s2) \<and> SinkRows E chunk s2 = (Inr r, s')"
proof -
  obtain u s1 where p: "PrepareTarget E op s = (Inr u, s1)" using some run by (auto simp: Sink_def split: prod.splits sum.splits)
  from PrepareTarget_fresh [OF p] f have s1: "target_ready s1" "gs_connection s1 = None" "pending_rows s1 = 0" "insert_count s1 = 0"
    by (auto simp: fresh_def)
  with p some run more obtain v s2 where q: "\<not> skip s1" "StartInsert E op s1 = (Inr v, s2)" "SinkRows E chunk s2 = (Inr r, s')"
    by (auto simp: Sink_def split: prod.splits sum.splits if_splits)
  from StartInsert_ready [OF s1(1) q(2)] obtain c m where "acquired E = Inr c" "OpenInsert E op c (s1\<lparr>txn := m\<rparr>) = (Inr v, s2)"
    by blast
  with q s1 show ?thesis by (intro exI [of _ "s1\<lparr>txn := m\<rparr>"] exI [of _ s2] exI [of _ c] exI [of _ v]) simp
qed


text \<open>What a finished statement has sent, from the answer of \<open>BeginInsert\<close> on.\<close>

definition delivered ::
  "'k insert_env \<Rightarrow> 'k \<Rightarrow> duck_chunk list \<Rightarrow> 'k insert_state \<Rightarrow> 'k conn option \<Rightarrow> bool" where
  "delivered E k0 chunks s returned \<longleftrightarrow>
     (\<exists>blocks k1 c. sent (env_client E) k0 blocks k1 \<and> cl_EndInsert (env_client E) k1 = (Inr (), client c) \<and> returned = Some c \<and>
        (\<forall>k<length (gs_header s). sent_rows k blocks =
           concat (map (chunk_rows (env_vectors E) (gs_header s) (gs_columns s) k) chunks)) \<and>
        (\<forall>b\<in>set blocks. \<exists>n\<ge>1. block_of (gs_header s) n b) \<and>
        (\<forall>b\<in>set (butlast blocks). \<exists>n\<ge>block_size s. block_of (gs_header s) n b)) \<and>
     GetDataInternal s = total_rows chunks"

lemma PrepareTarget_ready [simp]: "target_ready s \<Longrightarrow> PrepareTarget E op s = (Inr (), s)"
  by (simp add: PrepareTarget_def)

lemma streamingD:
  assumes "streaming E k0 blocks chunks s"
  shows "\<exists>c. gs_connection s = Some c \<and> sent (env_client E) k0 blocks (client c)"
    and "target_ready s" and "\<not> skip s" and "insert_count s = total_rows chunks"
    and "k < length (gs_header s) \<Longrightarrow> col_size (pending s ! k) = pending_rows s"
    and "k < length (gs_header s) \<Longrightarrow> sent_rows k blocks @ cells (pending s ! k) =
      concat (map (chunk_rows (env_vectors E) (gs_header s) (gs_columns s) k) chunks)"
    and "b \<in> set blocks \<Longrightarrow> \<exists>n\<ge>max 1 (block_size s). block_of (gs_header s) n b"
  using assms by (auto simp: streaming_def)

lemma Finalize_streaming:
  assumes inv: "streaming E k0 blocks chunks s" and ok: "list_all (col_ok \<circ> snd) (gs_header s)"
    and run: "Finalize E op s = (Inr (), s', returned)"
  shows "delivered E k0 chunks s' returned \<and> same_insert s s'"
proof -
  note D = streamingD [OF inv]
  from D(1) obtain c where c: "gs_connection s = Some c" "sent (env_client E) k0 blocks (client c)" by blast
  with run D(2) obtain u s1 where f: "Flush E (the (gs_connection s)) s = (Inr u, s1)"
    by (auto simp: Finalize_def split: prod.splits sum.splits if_splits)
  with run D(2) c(1) obtain w c' where e:
    "EndInsert (env_string E) (env_client E) (env_debug E) (env_now E) (the (gs_connection s1)) = (Inr w, c')"
    "s' = s1\<lparr>gs_connection := None\<rparr>" "returned = Some c'"
    by (auto simp: Finalize_def split: prod.splits sum.splits if_splits)
  note ended = EndInsert_ok [OF e(1)]
  consider "s1 = s" "pending_rows s = 0" |
    "pending_rows s > 0" "same_insert s s1" "\<exists>d. gs_connection s1 = Some d \<and>
       sent (env_client E) k0 (blocks @ [zip (map fst (gs_header s)) (pending s)]) (client d)"
    using Flush_streaming [OF inv ok f] by auto
  then show ?thesis
  proof cases
    case 1
    have "cells (pending s ! k) = []" if "k < length (gs_header s)" for k
      using D(5) [OF that] 1(2) by (metis cells_length length_0_conv)
    then have rows: "sent_rows k blocks = concat (map (chunk_rows (env_vectors E) (gs_header s) (gs_columns s) k) chunks)"
      if "k < length (gs_header s)" for k using D(6) [OF that] that by simp
    have "delivered E k0 chunks s' returned" unfolding delivered_def
      by (intro conjI exI [of _ blocks] exI [of _ "client c"] exI [of _ c'])
        (use c e ended 1 rows D(4,7) in \<open>force dest: in_set_butlastD simp: GetDataInternal_def\<close>)+
    with 1 e show ?thesis by (simp add: same_insert_def)
  next
    case 2
    let ?new = "zip (map fst (gs_header s)) (pending s)"
    from 2(3) obtain d where d: "gs_connection s1 = Some d" "sent (env_client E) k0 (blocks @ [?new]) (client d)" by blast
    have len: "length (pending s) = length (gs_header s)"
      using inv unfolding streaming_def by (metis length_map)
    have rows: "sent_rows k (blocks @ [?new]) = concat (map (chunk_rows (env_vectors E) (gs_header s) (gs_columns s) k) chunks)"
      if "k < length (gs_header s)" for k using D(6) [OF that] that len by (simp add: sent_rows_snoc)
    have same: "gs_header s' = gs_header s" "gs_columns s' = gs_columns s" "block_size s' = block_size s" "insert_count s' = insert_count s"
      using 2(2) e(2) by (simp_all add: same_insert_def)
    have blocks: "\<exists>n\<ge>1. block_of (gs_header s) n b" if "b \<in> set (blocks @ [?new])" for b
    proof (cases "b = ?new")
      case True
      with pending_block [OF inv] 2(1) show ?thesis by (intro exI [of _ "pending_rows s"]) simp
    next
      case False
      with that have "b \<in> set blocks" by simp
      from D(7) [OF this] show ?thesis by (meson max.boundedE)
    qed
    have most: "\<exists>n\<ge>block_size s. block_of (gs_header s) n b" if "b \<in> set blocks" for b
      using D(7) [OF that] by (meson max.boundedE)
    have "delivered E k0 chunks s' returned" unfolding delivered_def same
      by (intro conjI exI [of _ "blocks @ [?new]"] exI [of _ "client d"] exI [of _ c'] allI ballI impI)
        (use d e ended rows blocks most D(4) same in \<open>simp_all add: GetDataInternal_def\<close>)
    with 2(2) e(2) show ?thesis by (simp add: same_insert_def)
  qed
qed

lemma total_rows_empty: "chunk_size chunk = 0 \<Longrightarrow> total_rows (xs @ [chunk]) = total_rows xs"
  by (simp add: total_rows_def)

lemma streaming_empty: "streaming E k0 blocks chunks s \<Longrightarrow> chunk_size chunk = 0 \<Longrightarrow> streaming E k0 blocks (chunks @ [chunk]) s"
  by (simp add: streaming_def total_rows_empty chunk_rows_def encode_rows_def)

lemma Sink_streaming:
  assumes inv: "streaming E k0 blocks chunks s" and ok: "list_all (col_ok \<circ> snd) (gs_header s)"
    and fits: "0 < chunk_size chunk \<Longrightarrow> chunk_fits (env_vectors E) (gs_header s) (gs_columns s) chunk"
    and run: "Sink E op chunk s = (Inr r, s')"
  shows "r = NeedMoreInput \<and> (\<exists>blocks'. streaming E k0 blocks' (chunks @ [chunk]) s') \<and>
    gs_header s' = gs_header s \<and> gs_columns s' = gs_columns s \<and> gs_insert_sql s' = gs_insert_sql s \<and> block_size s' = block_size s"
proof (cases "chunk_size chunk = 0")
  case True
  with run streaming_empty [OF inv True] show ?thesis by (auto simp: Sink_def)
next
  case False
  note D = streamingD [OF inv]
  from D(1,2,3) run False have "SinkRows E chunk s = (Inr r, s')" by (auto simp: Sink_def)
  from SinkRows_streaming [OF inv ok _ _ this] fits False show ?thesis by simp
qed


lemma RunInsert_streaming:
  "streaming E k0 blocks before s \<Longrightarrow> list_all (col_ok \<circ> snd) (gs_header s) \<Longrightarrow>
   \<forall>chunk\<in>set chunks. 0 < chunk_size chunk \<longrightarrow> chunk_fits (env_vectors E) (gs_header s) (gs_columns s) chunk \<Longrightarrow>
   RunInsert E op chunks s = (Inr (), s', returned) \<Longrightarrow>
     delivered E k0 (before @ chunks) s' returned \<and> gs_header s' = gs_header s \<and> gs_columns s' = gs_columns s \<and>
     gs_insert_sql s' = gs_insert_sql s"
proof (induction chunks arbitrary: blocks before s)
  case Nil
  from Finalize_streaming [OF Nil.prems(1,2)] Nil.prems(4) show ?case by (simp add: same_insert_def)
next
  case (Cons chunk chunks)
  obtain r s1 where k: "Sink E op chunk s = (Inr r, s1)" using Cons.prems(4) by (auto split: prod.splits sum.splits)
  have fits: "0 < chunk_size chunk \<Longrightarrow> chunk_fits (env_vectors E) (gs_header s) (gs_columns s) chunk"
    using Cons.prems(3) by simp
  from Sink_streaming [OF Cons.prems(1,2) fits k] obtain blocks' where s1: "r = NeedMoreInput"
    "streaming E k0 blocks' (before @ [chunk]) s1" "gs_header s1 = gs_header s" "gs_columns s1 = gs_columns s"
    "gs_insert_sql s1 = gs_insert_sql s" by blast
  have "RunInsert E op chunks s1 = (Inr (), s', returned)" using Cons.prems(4) k s1(1) by simp
  from Cons.IH [OF s1(2) _ _ this] Cons.prems(2,3) s1(3-5) show ?case by simp
qed

text \<open>Once the statement runs, its plan does not change.\<close>

definition same_plan :: "'k insert_state \<Rightarrow> 'k insert_state \<Rightarrow> bool" where
  "same_plan s s' \<longleftrightarrow> gs_header s' = gs_header s \<and> gs_columns s' = gs_columns s \<and> gs_insert_sql s' = gs_insert_sql s"

lemma Flush_same: "Flush E c s = (r, s') \<Longrightarrow> same_plan s s' \<and> target_ready s' = target_ready s \<and> skip s' = skip s \<and>
    (gs_connection s \<noteq> None \<longrightarrow> gs_connection s' \<noteq> None)"
  by (auto simp: Flush_def same_plan_def Let_def split: prod.splits if_splits)

lemma SinkRows_same:
  assumes "SinkRows E chunk s = (Inr r, s')"
  shows "r = NeedMoreInput \<and> same_plan s s' \<and> target_ready s' = target_ready s \<and> skip s' = skip s \<and>
    (gs_connection s \<noteq> None \<longrightarrow> gs_connection s' \<noteq> None)"
proof -
  obtain cs where cs: "AppendColumns (AppendVector (env_vectors E)) (chunk_data chunk) (chunk_size chunk) (gs_columns s) (pending s) = Inr cs"
    using assms by (auto simp: SinkRows_def split: sum.splits)
  let ?s1 = "s\<lparr>pending := cs, pending_rows := pending_rows s + chunk_size chunk, insert_count := insert_count s + chunk_size chunk\<rparr>"
  show ?thesis
  proof (cases "block_size s \<le> pending_rows ?s1")
    case True
    obtain q s2 where f: "Flush E (the (gs_connection s)) ?s1 = (q, s2)" by fastforce
    with assms cs True have "s' = s2 \<and> r = NeedMoreInput" by (auto simp: SinkRows_def Let_def split: sum.splits)
    with Flush_same [OF f] show ?thesis by (simp add: same_plan_def)
  qed (use assms cs in \<open>auto simp: SinkRows_def same_plan_def\<close>)
qed

lemma Finalize_same:
  assumes "Finalize E op s = (Inr (), s', returned)" "target_ready s"
  shows "same_plan s s' \<and> skip s' = skip s"
proof (cases "gs_connection s")
  case None
  with assms show ?thesis by (auto simp: Finalize_def same_plan_def split: if_splits)
next
  case (Some c)
  obtain q s1 where f: "Flush E c s = (q, s1)" by fastforce
  from Flush_same [OF f] assms Some f show ?thesis
    by (auto simp: Finalize_def same_plan_def split: if_splits sum.splits prod.splits)
qed

lemma RunInsert_same:
  "RunInsert E op chunks s = (Inr (), s', returned) \<Longrightarrow> target_ready s \<Longrightarrow> \<not> skip s \<Longrightarrow> gs_connection s \<noteq> None \<Longrightarrow>
     same_plan s s' \<and> \<not> skip s'"
proof (induction chunks arbitrary: s)
  case Nil
  from Finalize_same [of E op s s' returned] Nil show ?case by simp
next
  case (Cons chunk chunks)
  obtain r s1 where k: "Sink E op chunk s = (Inr r, s1)" using Cons.prems(1) by (auto split: prod.splits sum.splits)
  have s1: "r = NeedMoreInput \<and> same_plan s s1 \<and> target_ready s1 \<and> \<not> skip s1 \<and> gs_connection s1 \<noteq> None"
  proof (cases "chunk_size chunk = 0")
    case True
    with k Cons.prems show ?thesis by (auto simp: Sink_def same_plan_def)
  next
    case False
    with k Cons.prems(2-4) have "SinkRows E chunk s = (Inr r, s1)" by (simp add: Sink_def)
    from SinkRows_same [OF this] Cons.prems(2-4) show ?thesis by simp
  qed
  with Cons.prems(1) k have "RunInsert E op chunks s1 = (Inr (), s', returned)" by simp
  from Cons.IH [OF this] s1 show ?case by (simp add: same_plan_def)
qed

lemma Sink_empty: "chunk_size chunk = 0 \<Longrightarrow> Sink E op chunk s = (Inr NeedMoreInput, s)"
  by (simp add: Sink_def)

text \<open>The first chunk with rows opens the INSERT.\<close>

definition first_rows ::
  "'k insert_env \<Rightarrow> insert_op \<Rightarrow> duck_chunk list \<Rightarrow> 'k insert_state \<Rightarrow> 'k conn option \<Rightarrow> duck_chunk list \<Rightarrow> duck_chunk \<Rightarrow>
     duck_chunk list \<Rightarrow> 'k insert_state \<Rightarrow> 'k insert_state \<Rightarrow> 'k insert_state \<Rightarrow> 'k conn \<Rightarrow> bool" where
  "first_rows E op chunks s' returned before chunk rest s1 s2 s3 c \<longleftrightarrow>
     chunks = before @ chunk # rest \<and> (\<forall>b\<in>set before. chunk_size b = 0) \<and> 0 < chunk_size chunk \<and>
     target_ready s1 \<and> \<not> skip s1 \<and> pending_rows s1 = 0 \<and> insert_count s1 = 0 \<and> acquired E = Inr c \<and>
     OpenInsert E op c s1 = (Inr (), s2) \<and> SinkRows E chunk s2 = (Inr NeedMoreInput, s3) \<and>
     RunInsert E op rest s3 = (Inr (), s', returned)"

lemma RunInsert_fresh:
  "fresh s \<Longrightarrow> \<exists>chunk\<in>set chunks. chunk_size chunk \<noteq> 0 \<Longrightarrow> RunInsert E op chunks s = (Inr (), s', returned) \<Longrightarrow> \<not> skip s' \<Longrightarrow>
   \<exists>before chunk rest s1 s2 s3 c. first_rows E op chunks s' returned before chunk rest s1 s2 s3 c"
proof (induction chunks)
  case (Cons chunk chunks)
  obtain r s3 where k: "Sink E op chunk s = (Inr r, s3)" using Cons.prems(3) by (auto split: prod.splits sum.splits)
  show ?case
  proof (cases "chunk_size chunk = 0")
    case True
    with Cons.prems have "RunInsert E op chunks s = (Inr (), s', returned)" "\<exists>chunk\<in>set chunks. chunk_size chunk \<noteq> 0"
      by (auto simp: Sink_empty)
    from Cons.IH [OF Cons.prems(1) this(2,1) Cons.prems(4)] obtain before c rest s1 s2 s3 conn where
      "first_rows E op chunks s' returned before c rest s1 s2 s3 conn" by blast
    with True have "first_rows E op (chunk # chunks) s' returned (chunk # before) c rest s1 s2 s3 conn"
      by (simp add: first_rows_def)
    then show ?thesis by blast
  next
    case False
    have more: "r \<noteq> SinkFinished"
    proof
      assume fin: "r = SinkFinished"
      with Cons.prems(3) k have f: "Finalize E op s3 = (Inr (), s', returned)" by simp
      obtain u s0 where p: "PrepareTarget E op s = (Inr u, s0)" using k False by (auto simp: Sink_def split: prod.splits sum.splits)
      from PrepareTarget_fresh [OF p] have "target_ready s0" by simp
      moreover have "s3 = s0 \<and> skip s0" using k False p fin
        by (auto simp: Sink_def dest!: SinkRows_same split: prod.splits sum.splits if_splits)
      ultimately show False using Finalize_same [OF f] Cons.prems(4) by simp
    qed
    with Cons.prems(3) k have rest: "RunInsert E op chunks s3 = (Inr (), s', returned)" by (cases r) auto
    from Sink_first [OF Cons.prems(1) _ k more] False obtain s1 s2 c u where o: "target_ready s1" "\<not> skip s1" "pending_rows s1 = 0"
      "insert_count s1 = 0" "acquired E = Inr c" "OpenInsert E op c s1 = (Inr u, s2)" "SinkRows E chunk s2 = (Inr r, s3)" by auto
    with SinkRows_same [OF o(7)] rest False have "first_rows E op (chunk # chunks) s' returned [] chunk chunks s1 s2 s3 c"
      by (simp add: first_rows_def)
    then show ?thesis by blast
  qed
qed simp

lemma empty_prefix: "\<forall>b\<in>set before. chunk_size b = 0 \<Longrightarrow> streaming E k0 blocks [] s \<Longrightarrow> streaming E k0 blocks before s"
proof (induction before rule: rev_induct)
  case (snoc b bs)
  then show ?case using streaming_empty by auto
qed

text \<open>A client that keeps the blocks it is sent, and a table with one Int32 column.\<close>

definition keeping_client :: "(bool \<times> insert_block list, insert_block) client_api" where
  "keeping_client = \<lparr>cl_connect = (\<lambda>opts. Inr (False, [])), IsSelecting = (\<lambda>k. False), IsInserting = fst, cl_BeginSelect = (\<lambda>q k. (Inr (), k)),
     cl_NextBlock = (\<lambda>k. (Inr None, k)), cl_Cancel = (\<lambda>k. (Inr (), k)),
     cl_BeginInsert = (\<lambda>q k. (Inr [(''n'', CNum PINT32 [])], True, [])),
     cl_SendInsertBlock = (\<lambda>b k. (Inr (), fst k, snd k @ [b])),
     cl_EndInsert = (\<lambda>k. (Inr (), False, snd k)), cl_Ping = (\<lambda>k. (Inr (), k))\<rparr>"

definition sample_env :: "(bool \<times> insert_block list) insert_env" where
  "sample_env = \<lparr>env_string = duck_strings, env_client = keeping_client, env_vectors = duck_vectors, env_debug = False, env_now = 0,
     table_exists = Inr True, created_table = Inl (Exn BinderException [] []), attached = Inr False,
     acquired = Inr (new_conn 0 (False, []) initial_config), env_tid = 1\<rparr>"

definition sample_op :: insert_op where
  "sample_op = \<lparr>op_catalog_name = [], op_database_name = [], op_table_name = ''t'',
     op_columns = [\<lparr>ic_column = \<lparr>col_name = ''n'', clickhouse_type = ''Int32'', type_node = Node ''Int32'' [] [] [] ''Int32'',
        col_type = INTEGER, col_readable = True, default_kind = []\<rparr>, source_index = 0\<rparr>],
     op_insert_sql = ''INSERT'', create_info = None, input_column_count = 1\<rparr>"

definition sample_state :: "'k insert_state" where
  "sample_state = \<lparr>gs_connection = None, gs_header = [], pending = [], pending_rows = 0, block_size = 2, insert_count = 0,
     gs_columns = [], gs_insert_sql = [], target_ready = False, skip = False, txn = empty_manager\<rparr>"

definition sample_chunks :: "duck_chunk list" where
  "sample_chunks = [\<lparr>chunk_data = [Flat INTEGER [True, True] [SInt 7, SInt 8]], chunk_size = 2\<rparr>, \<lparr>chunk_data = [], chunk_size = 0\<rparr>,
     \<lparr>chunk_data = [Flat INTEGER [True] [SInt 9]], chunk_size = 1\<rparr>]"

lemmas sample_defs = sample_env_def sample_op_def sample_state_def sample_chunks_def keeping_client_def

lemma insert_run:
  "case RunInsert sample_env sample_op sample_chunks sample_state of (r, s, returned) \<Rightarrow>
     r = Inr () \<and> gs_header s = [(''n'', CNum PINT32 [])] \<and> map source_index (gs_columns s) = [0] \<and> \<not> skip s \<and> block_size s = 2 \<and>
     map_option (snd \<circ> client) returned = Some [[(''n'', CNum PINT32 [7, 8])], [(''n'', CNum PINT32 [9])]]"
  by code_simp


lemma sample_chunk_fits:
  assumes "chunk \<in> set sample_chunks" "chunk_size chunk \<noteq> 0" "map source_index columns = [0]"
  shows "chunk_fits duck_vectors [(''n'', CNum PINT32 [])] columns chunk"
proof -
  have "source_index (columns ! 0) = 0" using assms(3) by (cases columns) auto
  moreover have "vec_ok duck_vectors 2 (Flat INTEGER [True, True] [SInt 7, SInt 8])" "vec_ok duck_vectors 1 (Flat INTEGER [True] [SInt 9])"
    by (simp_all add: duck_vectors_def scalar_ok_def All_less_Suc numeral_2_eq_2)
  ultimately show ?thesis using assms(1,2) duck_vectors_ok
    by (auto simp: sample_chunks_def chunk_fits_def accepts_rows_def)
qed

text \<open>
  C13. An INSERT that succeeds sends every row of its input to the server exactly once and in order.
\<close>

theorem insert_sends_every_row_once:
  assumes start: "fresh s" and some: "\<exists>chunk\<in>set chunks. chunk_size chunk \<noteq> 0"
    and run: "RunInsert E op chunks s = (Inr (), s', returned)" and target: "\<not> skip s'"
    and ok: "list_all (col_ok \<circ> snd) (gs_header s')"
    and fits: "\<forall>chunk\<in>set chunks. chunk_size chunk \<noteq> 0 \<longrightarrow> chunk_fits (env_vectors E) (gs_header s') (gs_columns s') chunk"
  shows "\<exists>c0 k0 k1 blocks c. acquired E = Inr c0 \<and>
    cl_BeginInsert (env_client E) (MakeQuery (config c0) (gs_insert_sql s') InsertSettings) (client c0) = (Inr (gs_header s'), k0) \<and>
    sent (env_client E) k0 blocks k1 \<and> cl_EndInsert (env_client E) k1 = (Inr (), client c) \<and> returned = Some c \<and>
    (\<forall>k<length (gs_header s'). sent_rows k blocks =
       concat (map (chunk_rows (env_vectors E) (gs_header s') (gs_columns s') k) chunks)) \<and>
    (\<forall>b\<in>set blocks. \<exists>n\<ge>1. block_of (gs_header s') n b) \<and>
    (\<forall>b\<in>set (butlast blocks). \<exists>n\<ge>block_size s'. block_of (gs_header s') n b) \<and>
    GetDataInternal s' = total_rows chunks"
proof -
  from RunInsert_fresh [OF start some run target] obtain before chunk rest s1 s2 s3 c0 where
    first: "first_rows E op chunks s' returned before chunk rest s1 s2 s3 c0" by blast
  then have chunks: "chunks = before @ chunk # rest" and empty: "\<forall>b\<in>set before. chunk_size b = 0" and n: "0 < chunk_size chunk"
    and s1: "target_ready s1" "\<not> skip s1" "pending_rows s1 = 0" "insert_count s1 = 0" and c0: "acquired E = Inr c0"
    and opened: "OpenInsert E op c0 s1 = (Inr (), s2)" and sunk: "SinkRows E chunk s2 = (Inr NeedMoreInput, s3)"
    and rest: "RunInsert E op rest s3 = (Inr (), s', returned)" by (auto simp: first_rows_def)
  have open_s2: "target_ready s2 \<and> \<not> skip s2 \<and> gs_connection s2 \<noteq> None"
    using opened s1 by (auto simp: OpenInsert_def Let_def split: prod.splits sum.splits if_splits)
  with SinkRows_same [OF sunk] have s3: "same_plan s2 s3" "target_ready s3" "\<not> skip s3" "gs_connection s3 \<noteq> None" by auto
  from RunInsert_same [OF rest s3(2-4)] s3(1) have same: "gs_header s' = gs_header s3" "gs_columns s' = gs_columns s3"
    "gs_header s3 = gs_header s2" "gs_columns s3 = gs_columns s2" "gs_insert_sql s' = gs_insert_sql s2" by (simp_all add: same_plan_def)
  from OpenInsert_streaming [OF s1 opened] ok same obtain k0 where k0: "streaming E k0 [] [] s2"
    "cl_BeginInsert (env_client E) (MakeQuery (config c0) (gs_insert_sql s2) InsertSettings) (client c0) = (Inr (gs_header s2), k0)" by auto
  have "list_all (col_ok \<circ> snd) (gs_header s2)" "chunk_fits (env_vectors E) (gs_header s2) (gs_columns s2) chunk"
    using ok fits same n chunks by auto
  from SinkRows_streaming [OF empty_prefix [OF empty k0(1)] this n sunk] obtain blocks where
    "streaming E k0 blocks (before @ [chunk]) s3" by blast
  from RunInsert_streaming [OF this _ _ rest] ok fits same chunks have "delivered E k0 chunks s' returned" by auto
  with c0 k0(2) same show ?thesis unfolding delivered_def by auto
qed


theorem insert_sends_every_row_once_witness:
  "\<exists>k0 k1 blocks. sent keeping_client k0 blocks k1 \<and> sent_rows 0 blocks = [CellNum 7, CellNum 8, CellNum 9]"
proof -
  obtain r s returned where run: "RunInsert sample_env sample_op sample_chunks sample_state = (r, s, returned)" by (cases "RunInsert sample_env sample_op sample_chunks sample_state") auto
  with insert_run have s: "r = Inr ()" "gs_header s = [(''n'', CNum PINT32 [])]" "map source_index (gs_columns s) = [0]" "\<not> skip s"
    by auto
  have "fresh (sample_state :: (bool \<times> insert_block list) insert_state)" by (simp add: fresh_def sample_state_def)
  moreover have "\<exists>chunk\<in>set sample_chunks. chunk_size chunk \<noteq> 0" by (simp add: sample_chunks_def)
  moreover have "list_all (col_ok \<circ> snd) (gs_header s)" by (simp add: s(2))
  moreover have "\<forall>chunk\<in>set sample_chunks. chunk_size chunk \<noteq> 0 \<longrightarrow> chunk_fits (env_vectors sample_env) (gs_header s) (gs_columns s) chunk"
    using sample_chunk_fits s(2,3) by (simp add: sample_env_def)
  ultimately obtain k0 k1 blocks where b: "sent (env_client sample_env) k0 blocks k1"
    "\<forall>k<length (gs_header s). sent_rows k blocks =
       concat (map (chunk_rows (env_vectors sample_env) (gs_header s) (gs_columns s) k) sample_chunks)"
    using insert_sends_every_row_once [OF _ _ run [unfolded s(1)] s(4)] by blast
  have "source_index (gs_columns s ! 0) = 0" using s(3) by (cases "gs_columns s") auto
  with b(2) s(2) have "sent_rows 0 blocks = [CellNum 7, CellNum 8, CellNum 9]"
    by (simp add: sample_chunks_def chunk_rows_def encode_rows_def sample_env_def upt_conv_Cons scalar_cell_def tick_precision_def
        duck_vectors_def)
  with b(1) have "sent keeping_client k0 blocks k1 \<and> sent_rows 0 blocks = [CellNum 7, CellNum 8, CellNum 9]" by (simp add: sample_env_def)
  then show ?thesis by blast
qed


section \<open>The columns written\<close>

text \<open>The columns of the table that the map lists, in the table's order, each with its place in the input.\<close>

definition listed_columns :: "nat option list \<Rightarrow> nat \<Rightarrow> column_info list \<Rightarrow> insert_column list" where
  "listed_columns index_map i columns =
     List.map_filter (\<lambda>(k, c). map_option (\<lambda>source. \<lparr>ic_column = c, source_index = source\<rparr>)
       (if index_map = [] then Some k else index_map ! k)) (enumerate i columns)"

text \<open>A column that can be written: not computed by the server, and of a type with a write mode.\<close>

definition insertable :: "string_util \<Rightarrow> column_info \<Rightarrow> bool" where
  "insertable U c \<longleftrightarrow> default_kind c \<noteq> ''MATERIALIZED'' \<and> default_kind c \<noteq> ''ALIAS'' \<and>
     (\<exists>mode. GetWriteMode U (type_node c) = Inr mode \<and> mode \<noteq> UNSUPPORTED)"

lemma listed_columns_simps [simp]:
  "listed_columns m i [] = []"
  "listed_columns m i (c # cs) = (case (if m = [] then Some i else m ! i) of
     None \<Rightarrow> listed_columns m (Suc i) cs
   | Some source \<Rightarrow> \<lparr>ic_column = c, source_index = source\<rparr> # listed_columns m (Suc i) cs)"
  by (auto simp: listed_columns_def List.map_filter_simps split: option.split)

lemma InsertColumnLoop_listed:
  "InsertColumnLoop U name m i columns = Inr r \<longleftrightarrow>
     (m \<noteq> [] \<longrightarrow> columns \<noteq> [] \<longrightarrow> i + length columns \<le> length m) \<and> r = listed_columns m i columns \<and>
     (\<forall>x\<in>set r. insertable U (ic_column x))"
proof (induction columns arbitrary: i r)
  case (Cons c cs)
  show ?case
  proof (cases "m \<noteq> [] \<and> i \<ge> length m")
    case False
    then have long: "(m \<noteq> [] \<longrightarrow> c # cs \<noteq> [] \<longrightarrow> i + length (c # cs) \<le> length m) \<longleftrightarrow>
        (m \<noteq> [] \<longrightarrow> cs \<noteq> [] \<longrightarrow> Suc i + length cs \<le> length m)" by (cases cs) auto
    show ?thesis
    proof (cases "if m = [] then Some i else m ! i")
      case None
      with False have "InsertColumnLoop U name m i (c # cs) = InsertColumnLoop U name m (Suc i) cs" by auto
      with None show ?thesis unfolding long by (simp add: Cons.IH)
    next
      case (Some source)
      with False have loop: "InsertColumnLoop U name m i (c # cs) = Inr r \<longleftrightarrow> insertable U c \<and>
          (\<exists>rest. InsertColumnLoop U name m (Suc i) cs = Inr rest \<and> r = \<lparr>ic_column = c, source_index = source\<rparr> # rest)"
        by (cases "GetWriteMode U (type_node c)"; cases "InsertColumnLoop U name m (Suc i) cs") (auto simp: insertable_def)
      show ?thesis unfolding loop long using Some by (auto simp: Cons.IH)
    qed
  qed auto
qed auto

text \<open>
  C14. The columns an INSERT sends are exactly those of the statement's column list, in the order of the table
  and each from its own column of the input; it is refused exactly when two names collide, the list is too
  short or empty, or one of the listed columns cannot be written.
\<close>

theorem GetInsertColumns_exact:
  "GetInsertColumns U table m = Inr r \<longleftrightarrow>
     ThrowIfColumnsCollide table = Inr () \<and> (m = [] \<or> length (clickhouse_columns table) \<le> length m) \<and>
     r = listed_columns m 0 (clickhouse_columns table) \<and> r \<noteq> [] \<and> list_all (insertable U \<circ> ic_column) r"
proof -
  have loop: "InsertColumnLoop U (te_name table) m 0 (clickhouse_columns table) = Inr r \<longleftrightarrow>
      (m \<noteq> [] \<longrightarrow> length (clickhouse_columns table) \<le> length m) \<and> r = listed_columns m 0 (clickhouse_columns table) \<and>
      list_all (insertable U \<circ> ic_column) r" for r
    unfolding InsertColumnLoop_listed list_all_iff by (cases "clickhouse_columns table") (simp_all del: listed_columns_simps)
  have "GetInsertColumns U table m = Inr r \<longleftrightarrow> ThrowIfColumnsCollide table = Inr () \<and>
      InsertColumnLoop U (te_name table) m 0 (clickhouse_columns table) = Inr r \<and> r \<noteq> []"
    by (auto simp: GetInsertColumns_def split: if_splits)
  with loop show ?thesis by auto
qed

end
