(* ===== verification/Expression.thy ===== *)
theory Expression
  imports FilterPushdown DdlTypes
begin

text \<open>
  \<open>src/src/clickhouse_expression.cpp\<close>: DuckDB's bound expressions as ClickHouse SQL, for the predicates and
  values of UPDATE and DELETE. Only what is listed translates; everything else throws
  \<open>NotImplementedException\<close>. The SQL of a reference is an argument, as in the code.
\<close>

section \<open>Literals\<close>

definition ThrowUntranslatable :: "duck_api \<Rightarrow> duck_expr \<Rightarrow> exn" where
  "ThrowUntranslatable A e = unsupported ''untranslatable expression'' [expr_ToString A e]"

definition FloatingPointLiteral :: "duck_api \<Rightarrow> duck_value \<Rightarrow> string" where
  "FloatingPointLiteral A v = (case v of
     Floating t NaN \<Rightarrow> ''nan''
   | Floating t (Infinite positive) \<Rightarrow> (if positive then ''inf'' else ''-inf'')
   | _ \<Rightarrow> value_ToString A v)"

definition Literal :: "duck_api \<Rightarrow> duck_value \<Rightarrow> string res" where
  "Literal A v =
     (if IsNull v then Inr ''NULL''
      else case value_type v of
        FLOAT \<Rightarrow> Inr (''toFloat32('' @ FloatingPointLiteral A v @ '')'')
      | DOUBLE \<Rightarrow> Inr (FloatingPointLiteral A v)
      | UUID \<Rightarrow> Inr (''toUUID('' @ QuoteLiteral (value_ToString A v) @ '')'')
      | TIMESTAMP \<Rightarrow> bindE (CastAsTimestamp A v) (\<lambda>ts. TransformConstant A (TimestampTZ ts))
      | TIMESTAMP_SEC \<Rightarrow> bindE (CastAsTimestamp A v) (\<lambda>ts. TransformConstant A (TimestampTZ ts))
      | TIMESTAMP_MS \<Rightarrow> bindE (CastAsTimestamp A v) (\<lambda>ts. TransformConstant A (TimestampTZ ts))
      | TIMESTAMP_NS \<Rightarrow> bindE (TimestampNSValue_Get A v) (\<lambda>ts.
          if \<not> timestamp_IsFinite ts then Inl (unsupported ''infinite timestamps have no ClickHouse literal'' [])
          else Inr (''fromUnixTimestamp64Nano('' @ int_text ts @ '', '' @ [CHR 0x27] @ ''UTC'' @ [CHR 0x27] @ '')''))
      | _ \<Rightarrow> TransformConstant A v)"

definition InList :: "string_util \<Rightarrow> string \<Rightarrow> string list \<Rightarrow> bool \<Rightarrow> string" where
  "InList U left vals negated =
     ''if(isNull('' @ left @ ''), NULL, ('' @ left @ (if negated then '' NOT IN ('' else '' IN ('') @ Join U vals '', '' @ '')))''"

definition IsTimeZoneDependent :: "logical_type \<Rightarrow> bool" where
  "IsTimeZoneDependent t \<longleftrightarrow> t = TIMESTAMP_TZ \<or> t = TIME_TZ"

definition IsNullConstant :: "duck_expr \<Rightarrow> bool" where
  "IsNullConstant e = (case e of Constant v \<Rightarrow> IsNull v | _ \<Rightarrow> False)"

definition ComparisonOperator :: "duck_api \<Rightarrow> duck_expr \<Rightarrow> expr_type \<Rightarrow> string res" where
  "ComparisonOperator A e t = (case t of
       COMPARE_EQUAL \<Rightarrow> Inr ''=''
     | COMPARE_NOTEQUAL \<Rightarrow> Inr ''!=''
     | COMPARE_LESSTHAN \<Rightarrow> Inr ''<''
     | COMPARE_GREATERTHAN \<Rightarrow> Inr ''>''
     | COMPARE_LESSTHANOREQUALTO \<Rightarrow> Inr ''<=''
     | COMPARE_GREATERTHANOREQUALTO \<Rightarrow> Inr ''>=''
     | _ \<Rightarrow> Inl (ThrowUntranslatable A e))"

definition LikePattern :: "string_util \<Rightarrow> duck_api \<Rightarrow> duck_expr \<Rightarrow> string res" where
  "LikePattern U A pattern = (case pattern of
     Constant v \<Rightarrow>
       if IsNull v \<or> \<not> is_varchar (value_type v) then Inl (ThrowUntranslatable A pattern)
       else bindE (StringValue_Get A v) (\<lambda>s. Inr (QuoteLiteral (Replace U s [CHR 0x5C] [CHR 0x5C, CHR 0x5C])))
   | _ \<Rightarrow> Inl (ThrowUntranslatable A pattern))"

section \<open>Casts\<close>

definition HasSameTextForm :: "logical_type \<Rightarrow> bool" where
  "HasSameTextForm t = (case t of VARCHAR \<Rightarrow> True | JSON \<Rightarrow> True | ENUM labels \<Rightarrow> True | TINYINT \<Rightarrow> True | SMALLINT \<Rightarrow> True
     | INTEGER \<Rightarrow> True | BIGINT \<Rightarrow> True | HUGEINT \<Rightarrow> True | UTINYINT \<Rightarrow> True | USMALLINT \<Rightarrow> True | UINTEGER \<Rightarrow> True
     | UBIGINT \<Rightarrow> True | UHUGEINT \<Rightarrow> True | DATE \<Rightarrow> True | _ \<Rightarrow> False)"

datatype CastRounding = NONE | HALF_TO_EVEN | HALF_AWAY_FROM_ZERO

definition IsTimestamp :: "logical_type \<Rightarrow> bool" where
  "IsTimestamp t \<longleftrightarrow> t \<in> {TIMESTAMP_SEC, TIMESTAMP_MS, TIMESTAMP, TIMESTAMP_NS}"

definition TimestampDigits :: "logical_type \<Rightarrow> nat" where
  "TimestampDigits t = (case t of TIMESTAMP_SEC \<Rightarrow> 0 | TIMESTAMP_MS \<Rightarrow> 3 | TIMESTAMP_NS \<Rightarrow> 9 | _ \<Rightarrow> 6)"

definition ThrowInexactCast :: "type_api \<Rightarrow> logical_type \<Rightarrow> logical_type \<Rightarrow> string \<Rightarrow> exn" where
  "ThrowInexactCast T source target why = unsupported ''cast'' [type_ToString T source, type_ToString T target, why]"

definition no_exact :: string where "no_exact = ''has no exact ClickHouse translation''"

text \<open>The cases of the switch that do not recurse; a case that breaks throws.\<close>

definition ScalarCast :: "type_api \<Rightarrow> logical_type \<Rightarrow> logical_type \<Rightarrow> CastRounding option" where
  "ScalarCast T source target =
     (if target \<in> set integral_types then
        (if IsIntegral T source \<or> source = BOOLEAN then Some NONE
         else if IsFloating T source then Some HALF_TO_EVEN
         else if is_decimal source then Some HALF_AWAY_FROM_ZERO else None)
      else case target of
        FLOAT \<Rightarrow>
          (if IsFloating T source then Some NONE
           else if IsIntegral T source \<and> source \<noteq> HUGEINT \<and> source \<noteq> UHUGEINT then Some NONE
           else case source of DECIMAL w s \<Rightarrow> if w \<le> 7 then Some NONE else None | _ \<Rightarrow> None)
      | DOUBLE \<Rightarrow>
          (if IsFloating T source then Some NONE
           else if IsIntegral T source \<and> source \<noteq> HUGEINT \<and> source \<noteq> UHUGEINT then Some NONE
           else case source of DECIMAL w s \<Rightarrow> if w \<le> 15 then Some NONE else None | _ \<Rightarrow> None)
      | DECIMAL w s \<Rightarrow>
          (if IsIntegral T source then Some NONE
           else case source of DECIMAL w' s' \<Rightarrow> Some (if s' > s then HALF_AWAY_FROM_ZERO else NONE) | _ \<Rightarrow> None)
      | BOOLEAN \<Rightarrow> if IsIntegral T source then Some NONE else None
      | DATE \<Rightarrow> if IsTimestamp source then Some NONE else None
      | TIME_NS \<Rightarrow> if source = TIME then Some NONE else None
      | ENUM labels \<Rightarrow> (case source of ENUM ls \<Rightarrow> Some NONE | _ \<Rightarrow> None)
      | _ \<Rightarrow>
          if IsTimestamp target \<and> (source = DATE \<or> IsTimestamp source \<and> TimestampDigits source \<le> TimestampDigits target)
          then Some NONE else None)"

function ClassifyCast :: "type_api \<Rightarrow> logical_type \<Rightarrow> logical_type \<Rightarrow> CastRounding res"
  and ClassifyFields :: "type_api \<Rightarrow> (string \<times> logical_type) list \<Rightarrow> (string \<times> logical_type) list \<Rightarrow> bool res" where
  "ClassifyCast T source target =
     (let inexact = Inl (ThrowInexactCast T source target no_exact);
          exact_if = (\<lambda>b. if b then Inr NONE else inexact)
      in if source = target \<or> source = SQLNULL then Inr NONE
      else if IsTimeZoneDependent source \<or> IsTimeZoneDependent target then
        Inl (ThrowInexactCast T source target ''depends on the time zone'')
      else if target = JSON then inexact
      else if target = VARCHAR then
        (if \<not> HasSameTextForm source then
           Inl (unsupported ''cast to VARCHAR, which ClickHouse formats differently'' [type_ToString T source])
         else Inr NONE)
      else if is_varchar source then inexact
      else case ScalarCast T source target of Some r \<Rightarrow> Inr r
      | None \<Rightarrow> (case (source, target) of
          (LIST s, LIST t) \<Rightarrow> bindE (ClassifyCast T s t) (\<lambda>r. exact_if (r = NONE))
        | (MAP sk sv, MAP tk tv) \<Rightarrow>
            bindE (ClassifyCast T sk tk) (\<lambda>r. if r \<noteq> NONE then inexact
              else bindE (ClassifyCast T sv tv) (\<lambda>r. exact_if (r = NONE)))
        | (STRUCT ss, STRUCT ts) \<Rightarrow>
            if length ss \<noteq> length ts then inexact else bindE (ClassifyFields T ss ts) exact_if
        | _ \<Rightarrow> inexact))"
| "ClassifyFields T (s # ss) (t # ts) =
     (if \<not> SameFieldName T (fst s) (fst t) then Inr False
      else bindE (ClassifyCast T (snd s) (snd t)) (\<lambda>r. if r \<noteq> NONE then Inr False else ClassifyFields T ss ts))"
| "ClassifyFields T [] ts = Inr True"
| "ClassifyFields T (s # ss) [] = Inr True"
  by pat_completeness auto
termination
  by (relation "measure (\<lambda>x. case x of Inl (T, s, t) \<Rightarrow> size s | Inr (T, ss, ts) \<Rightarrow> size_list (\<lambda>s. Suc (size (snd s))) ss)")
    (auto simp: size_list_conv_sum_list size_prod_simp)

declare ClassifyCast.simps [simp del]

definition CastSql :: "CastRounding \<Rightarrow> string \<Rightarrow> logical_type \<Rightarrow> string \<Rightarrow> string" where
  "CastSql rounding sql target ch_type = (case rounding of
     HALF_TO_EVEN \<Rightarrow> ''CAST(roundBankers('' @ sql @ '') AS '' @ ch_type @ '')''
   | HALF_AWAY_FROM_ZERO \<Rightarrow>
       (let scale = (case target of DECIMAL w s \<Rightarrow> s | _ \<Rightarrow> 0)
        in ''CAST(round('' @ sql @ '', '' @ to_string scale @ '') AS '' @ ch_type @ '')'')
   | NONE \<Rightarrow> ''CAST('' @ sql @ '' AS '' @ ch_type @ '')'')"

definition Cast :: "type_api \<Rightarrow> string \<Rightarrow> logical_type \<Rightarrow> logical_type \<Rightarrow> string \<Rightarrow> string res" where
  "Cast T sql source target ch_type =
     bindE (ClassifyCast T source target) (\<lambda>r. Inr (CastSql r sql target ch_type))"

section \<open>Functions and operators\<close>

text \<open>
  The functions below take the translation of child \<open>i\<close> as the argument \<open>arg\<close>, the lambda of the
  source, and use it only for the children there are. \<open>e\<close> is the expression itself, for the errors.
\<close>

definition ArithmeticResult :: "logical_type \<Rightarrow> string \<Rightarrow> string" where
  "ArithmeticResult rt sql = (if rt = FLOAT then ''toFloat32('' @ sql @ '')'' else sql)"

definition IsTranslatableArithmetic :: "type_api \<Rightarrow> string \<Rightarrow> logical_type \<Rightarrow> logical_type list \<Rightarrow> bool" where
  "IsTranslatableArithmetic T name rt ts \<longleftrightarrow>
     IsNumeric T rt \<and> list_all (IsNumeric T) ts \<or>
     rt = DATE \<and> length ts = 2 \<and>
       (if name = ''+'' then ts ! 0 = DATE \<and> IsIntegral T (ts ! 1) \<or> IsIntegral T (ts ! 0) \<and> ts ! 1 = DATE
        else name = ''-'' \<and> ts ! 0 = DATE \<and> IsIntegral T (ts ! 1))"

definition arithmetic_names :: "string list" where
  "arithmetic_names = [''+'', ''-'', ''*'', ''/'', ''//'', ''%'']"

definition ThrowInexactArithmetic :: "type_api \<Rightarrow> duck_api \<Rightarrow> duck_expr \<Rightarrow> string \<Rightarrow> logical_type \<Rightarrow> exn" where
  "ThrowInexactArithmetic T A e name rt =
     unsupported ''no exact ClickHouse translation'' [name, type_ToString T rt, expr_ToString A e]"

definition call1 :: "string \<Rightarrow> (nat \<Rightarrow> string res) \<Rightarrow> string res" where
  "call1 f arg = bindE (arg 0) (\<lambda>a. Inr (f @ ''('' @ a @ '')''))"

definition call2 :: "string \<Rightarrow> (nat \<Rightarrow> string res) \<Rightarrow> string res" where
  "call2 f arg = bindE (arg 0) (\<lambda>a. bindE (arg 1) (\<lambda>b. Inr (f @ ''('' @ a @ '', '' @ b @ '')'')))"

definition infix_op :: "string \<Rightarrow> (nat \<Rightarrow> string res) \<Rightarrow> string res" where
  "infix_op op arg = bindE (arg 0) (\<lambda>a. bindE (arg 1) (\<lambda>b. Inr (''('' @ a @ '' '' @ op @ '' '' @ b @ '')'')))"

definition TranslateArithmetic ::
  "type_api \<Rightarrow> duck_api \<Rightarrow> duck_expr \<Rightarrow> string \<Rightarrow> logical_type \<Rightarrow> nat \<Rightarrow> (nat \<Rightarrow> string res) \<Rightarrow> string res" where
  "TranslateArithmetic T A e name rt n arg =
     (let integral_result = IsIntegral T rt; result = (\<lambda>m. bindE m (\<lambda>sql. Inr (ArithmeticResult rt sql))) in
      if n = 2 \<and> name \<in> {''+'', ''-'', ''*''} then result (infix_op name arg)
      else if n = 1 \<and> name = ''-'' then result (call1 ''negate'' arg)
      else if n = 2 \<and> name \<in> {''//'', ''/''} \<and> integral_result then call2 ''intDiv'' arg
      else if n = 2 \<and> name = ''/'' \<and> IsFloating T rt then result (infix_op name arg)
      else if n = 2 \<and> name = ''%'' \<and> integral_result then infix_op name arg
      else Inl (ThrowInexactArithmetic T A e name rt))"

definition TranslateFunction ::
  "string_util \<Rightarrow> type_api \<Rightarrow> duck_api \<Rightarrow> duck_expr \<Rightarrow> string \<Rightarrow> logical_type \<Rightarrow> duck_expr list \<Rightarrow> (nat \<Rightarrow> string res) \<Rightarrow> string res" where
  "TranslateFunction U T A e name rt children arg =
     (let n = length children; is_string = (\<lambda>i. is_varchar (return_type (children ! i)))
      in if name \<in> set arithmetic_names then
           (if \<not> IsTranslatableArithmetic T name rt (map return_type children)
            then Inl (ThrowInexactArithmetic T A e name rt)
            else TranslateArithmetic T A e name rt n arg)
      else if n = 2 \<and> name \<in> {''~~'', ''!~~'', ''~~*'', ''!~~*''} then
        (let negated = (hd name = CHR ''!''); keyword = (if EndsWith U name ''*'' then ''ILIKE'' else ''LIKE'')
         in bindE (arg 0) (\<lambda>a. bindE (LikePattern U A (children ! 1)) (\<lambda>p.
              Inr (''('' @ a @ (if negated then '' NOT '' else '' '') @ keyword @ '' '' @ p @ '')''))))
      else if n = 2 \<and> name = ''||'' \<and> is_string 0 \<and> is_string 1 then call2 ''concat'' arg
      else if n = 2 \<and> name \<in> {''starts_with'', ''prefix''} then call2 ''startsWith'' arg
      else if n = 2 \<and> name \<in> {''ends_with'', ''suffix''} then call2 ''endsWith'' arg
      else if n = 2 \<and> name = ''contains'' \<and> is_string 0 \<and> is_string 1 then
        bindE (call2 ''position'' arg) (\<lambda>s. Inr (''('' @ s @ '' > 0)''))
      else if n = 1 \<and> name \<in> {''lower'', ''lcase''} then call1 ''lowerUTF8'' arg
      else if n = 1 \<and> name \<in> {''upper'', ''ucase''} then call1 ''upperUTF8'' arg
      else if n = 1 \<and> name \<in> {''length'', ''len''} \<and> is_string 0 then call1 ''lengthUTF8'' arg
      else if n = 1 \<and> name = ''isnan'' then call1 ''isNaN'' arg
      else Inl (ThrowUntranslatable A e))"

text \<open>\<open>GetExpressionClass() == BOUND_CONSTANT\<close> and not NULL.\<close>

definition is_plain_constant :: "duck_expr \<Rightarrow> bool" where
  "is_plain_constant e = (case e of Constant v \<Rightarrow> \<not> IsNull v | _ \<Rightarrow> False)"

definition TranslateOperator ::
  "string_util \<Rightarrow> duck_api \<Rightarrow> duck_expr \<Rightarrow> expr_type \<Rightarrow> duck_expr list \<Rightarrow> (nat \<Rightarrow> string res) \<Rightarrow> string res" where
  "TranslateOperator U A e t children arg =
     (let n = length children; untranslatable = Inl (ThrowUntranslatable A e)
      in case t of
        OPERATOR_NOT \<Rightarrow> if n \<noteq> 1 then untranslatable else bindE (arg 0) (\<lambda>a. Inr (''(NOT '' @ a @ '')''))
      | OPERATOR_IS_NULL \<Rightarrow> if n \<noteq> 1 then untranslatable else bindE (arg 0) (\<lambda>a. Inr (''('' @ a @ '' IS NULL)''))
      | OPERATOR_IS_NOT_NULL \<Rightarrow> if n \<noteq> 1 then untranslatable else bindE (arg 0) (\<lambda>a. Inr (''('' @ a @ '' IS NOT NULL)''))
      | OPERATOR_COALESCE \<Rightarrow> bindE (mapE arg [0..<n]) (\<lambda>vals. Inr (''coalesce('' @ Join U vals '', '' @ '')''))
      | _ \<Rightarrow>
          if t = COMPARE_IN \<or> t = COMPARE_NOT_IN then
            (if n < 2 then untranslatable
             else bindE (mapE (\<lambda>i. if \<not> is_plain_constant (children ! i) then untranslatable else arg i) [1..<n]) (\<lambda>vals.
               bindE (arg 0) (\<lambda>left. Inr (InList U left vals (t = COMPARE_NOT_IN)))))
          else untranslatable)"

text \<open>The rest takes the translations of the parts by name.\<close>

definition TranslateComparison ::
  "duck_api \<Rightarrow> duck_expr \<Rightarrow> expr_type \<Rightarrow> duck_expr \<Rightarrow> duck_expr \<Rightarrow> (duck_expr \<Rightarrow> string res) \<Rightarrow> string res" where
  "TranslateComparison A e t left right translate =
     (if IsNullConstant left \<or> IsNullConstant right then Inl (ThrowUntranslatable A e)
      else bindE (translate left) (\<lambda>l. bindE (ComparisonOperator A e t) (\<lambda>op. bindE (translate right) (\<lambda>r.
        Inr (''('' @ l @ '' '' @ op @ '' '' @ r @ '')'')))))"

definition TranslateBetween ::
  "bool \<Rightarrow> bool \<Rightarrow> duck_expr \<Rightarrow> duck_expr \<Rightarrow> duck_expr \<Rightarrow> (duck_expr \<Rightarrow> string res) \<Rightarrow> string res" where
  "TranslateBetween lower_inclusive upper_inclusive input lower upper translate =
     bindE (translate input) (\<lambda>i. bindE (translate lower) (\<lambda>l. bindE (translate upper) (\<lambda>u.
       Inr (''('' @ i @ (if lower_inclusive then '' >= '' else '' > '') @ l @ '' AND '' @ i @
         (if upper_inclusive then '' <= '' else '' < '') @ u @ '')''))))"

definition TranslateCast ::
  "string_util \<Rightarrow> type_api \<Rightarrow> duck_api \<Rightarrow> duck_expr \<Rightarrow> bool \<Rightarrow> duck_expr \<Rightarrow> logical_type \<Rightarrow> (duck_expr \<Rightarrow> string res) \<Rightarrow> string res" where
  "TranslateCast U T A e try_cast child target translate =
     (if try_cast then Inl (ThrowUntranslatable A e)
      else case ClassifyCast T (return_type child) target of
        Inl ex \<Rightarrow> Inl (if exn_kind ex = NotImplementedException
                       then unsupported ''cast'' (exn_text ex # exn_args ex @ [expr_ToString A e]) else ex)
      | Inr rounding \<Rightarrow>
          (case ToClickhouse U T target True of
             Inl ex \<Rightarrow> Inl (if exn_kind ex = NotImplementedException then ThrowUntranslatable A e else ex)
           | Inr ch_type \<Rightarrow> bindE (translate child) (\<lambda>s. Inr (CastSql rounding s target ch_type))))"

text \<open>The \<open>BOUND_CONSTANT\<close> case of \<open>Translate\<close>.\<close>

definition TranslateConstant :: "duck_api \<Rightarrow> duck_expr \<Rightarrow> duck_value \<Rightarrow> string res" where
  "TranslateConstant A e v =
     (case Literal A v of
        Inl ex \<Rightarrow> Inl (if exn_kind ex = NotImplementedException then ThrowUntranslatable A e else ex)
      | Inr s \<Rightarrow> Inr s)"

definition ConjunctionSeparator :: "duck_api \<Rightarrow> duck_expr \<Rightarrow> expr_type \<Rightarrow> string res" where
  "ConjunctionSeparator A e t =
     (if t = CONJUNCTION_AND then Inr '' AND '' else if t = CONJUNCTION_OR then Inr '' OR '' else Inl (ThrowUntranslatable A e))"

section \<open>The translation\<close>

text \<open>What each helper uses of its argument, for the termination of \<open>Translate\<close>.\<close>

lemma calls_cong:
  "f 0 = g 0 \<Longrightarrow> call1 name f = call1 name g"
  "f 0 = g 0 \<Longrightarrow> f 1 = g 1 \<Longrightarrow> call2 name f = call2 name g"
  "f 0 = g 0 \<Longrightarrow> f 1 = g 1 \<Longrightarrow> infix_op name f = infix_op name g"
  by (simp_all add: call1_def call2_def infix_op_def)

lemma TranslateFunction_cong [fundef_cong]:
  assumes "e = e'" "name = name'" "rt = rt'" "children = children'" "\<And>i. i < length children' \<Longrightarrow> f i = g i"
  shows "TranslateFunction U T A e name rt children f = TranslateFunction U T A e' name' rt' children' g"
proof -
  have c: "length children' = 1 \<Longrightarrow> call1 n f = call1 n g" "length children' = 2 \<Longrightarrow> call2 n f = call2 n g"
    "length children' = 2 \<Longrightarrow> infix_op n f = infix_op n g" "length children' = 2 \<Longrightarrow> f 0 = g 0" for n
    using assms(5) by (auto intro!: calls_cong)
  have "TranslateArithmetic T A e' name' rt' (length children') f = TranslateArithmetic T A e' name' rt' (length children') g"
    unfolding TranslateArithmetic_def Let_def by (intro if_cong refl) (use c in auto)
  then show ?thesis unfolding assms(1-4) TranslateFunction_def Let_def by (intro if_cong refl) (use c in auto)
qed

lemma TranslateOperator_cong [fundef_cong]:
  assumes "e = e'" "t = t'" "children = children'" "\<And>i. i < length children' \<Longrightarrow> f i = g i"
  shows "TranslateOperator U A e t children f = TranslateOperator U A e' t' children' g"
proof -
  have all: "mapE f [0..<length children'] = mapE g [0..<length children']" by (rule mapE_cong) (use assms(4) in auto)
  have list: "mapE (\<lambda>i. if \<not> is_plain_constant (children' ! i) then Inl x else f i) [1..<length children'] =
      mapE (\<lambda>i. if \<not> is_plain_constant (children' ! i) then Inl x else g i) [1..<length children']" for x
    by (rule mapE_cong) (use assms(4) in auto)
  have "children' \<noteq> [] \<Longrightarrow> f 0 = g 0" using assms(4) by simp
  then have "length children' = 1 \<Longrightarrow> f 0 = g 0" "\<not> length children' < 2 \<Longrightarrow> f 0 = g 0" by force+
  then show ?thesis unfolding assms(1-3) TranslateOperator_def Let_def all list
    by (auto split: expr_type.split intro!: bindE_cong)
qed

lemma TranslateComparison_cong [fundef_cong]:
  "e = e' \<Longrightarrow> t = t' \<Longrightarrow> left = left' \<Longrightarrow> right = right' \<Longrightarrow> f left' = g left' \<Longrightarrow> f right' = g right' \<Longrightarrow>
     TranslateComparison A e t left right f = TranslateComparison A e' t' left' right' g"
  by (simp add: TranslateComparison_def)

lemma TranslateBetween_cong [fundef_cong]:
  "li = li' \<Longrightarrow> ui = ui' \<Longrightarrow> input = input' \<Longrightarrow> lower = lower' \<Longrightarrow> upper = upper' \<Longrightarrow>
     f input' = g input' \<Longrightarrow> f lower' = g lower' \<Longrightarrow> f upper' = g upper' \<Longrightarrow>
     TranslateBetween li ui input lower upper f = TranslateBetween li' ui' input' lower' upper' g"
  by (simp add: TranslateBetween_def)

lemma TranslateCast_cong [fundef_cong]:
  "e = e' \<Longrightarrow> try = try' \<Longrightarrow> child = child' \<Longrightarrow> t = t' \<Longrightarrow> f child' = g child' \<Longrightarrow>
     TranslateCast U T A e try child t f = TranslateCast U T A e' try' child' t' g"
  by (simp add: TranslateCast_def split: sum.split)

lemma size_mem: "e \<in> set es \<Longrightarrow> size e < Suc (size_list size es)"
  by (simp add: le_imp_less_Suc size_list_estimation')

lemma size_nth: "i < length es \<Longrightarrow> size (es ! i) < Suc (size_list size es)"
  by (simp add: size_mem)

lemma size_pair: "(w, t) \<in> set cs \<Longrightarrow> size w + size t \<le> size_list (size_prod size size) cs"
  by (rule size_list_estimation' [where x = "(w, t)"]) auto

function Translate :: "string_util \<Rightarrow> type_api \<Rightarrow> duck_api \<Rightarrow> (nat \<Rightarrow> string res) \<Rightarrow> duck_expr \<Rightarrow> string res" where
  "Translate U T A resolve e =
     (case e of
        BoundRef i t \<Rightarrow> resolve i
      | BoundParameter p t \<Rightarrow>
          Inl (unsupported ''prepared-statement parameter has no value yet'' [expr_ToString A e])
      | Constant v \<Rightarrow> TranslateConstant A e v
      | Conjunction t children \<Rightarrow>
          if children = [] then Inl (ThrowUntranslatable A e)
          else bindE (mapE (Translate U T A resolve) children) (\<lambda>parts.
               bindE (ConjunctionSeparator A e t) (\<lambda>separator. Inr (''('' @ Join U parts separator @ '')'')))
      | Operator t rt children \<Rightarrow> TranslateOperator U A e t children (\<lambda>i. Translate U T A resolve (children ! i))
      | Comparison t left right \<Rightarrow> TranslateComparison A e t left right (Translate U T A resolve)
      | CastExpr try child t \<Rightarrow> TranslateCast U T A e try child t (Translate U T A resolve)
      | Between li ui input lower upper \<Rightarrow> TranslateBetween li ui input lower upper (Translate U T A resolve)
      | FunctionCall name rt children \<Rightarrow>
          TranslateFunction U T A e name rt children (\<lambda>i. Translate U T A resolve (children ! i))
      | CaseExpr checks els t \<Rightarrow>
          bindE (mapE (\<lambda>(w, th). bindE (Translate U T A resolve w) (\<lambda>a. bindE (Translate U T A resolve th) (\<lambda>b.
                    Inr ('' WHEN '' @ a @ '' THEN '' @ b)))) checks) (\<lambda>parts.
          bindE (Translate U T A resolve els) (\<lambda>c. Inr (''(CASE'' @ concat parts @ '' ELSE '' @ c @ '' END)'')))
      | _ \<Rightarrow> Inl (ThrowUntranslatable A e))"
  by pat_completeness auto

termination
  by (relation "measure (\<lambda>(U, T, A, resolve, e). size e)") (auto simp: size_nth size_mem dest: size_pair)

declare Translate.simps [simp del]

section \<open>Table filters\<close>

text \<open>
  As in the scan's filter pushdown (whose \<open>IsRuntimeHintExpression\<close> this file repeats), but nothing
  is dropped that restricts the rows: an empty text stands for an optional filter only.
\<close>

function TranslateTableFilterExpression ::
  "string_util \<Rightarrow> type_api \<Rightarrow> duck_api \<Rightarrow> string \<Rightarrow> duck_expr \<Rightarrow> string res"
  and TableFilterParts :: "string_util \<Rightarrow> type_api \<Rightarrow> duck_api \<Rightarrow> string \<Rightarrow> bool \<Rightarrow> duck_expr list \<Rightarrow> string list res" where
  "TranslateTableFilterExpression U T A column e =
     (if IsOptionalExpression A e \<or> IsRootOptionalExpression A e then Inr []
      else case e of
        Conjunction t children \<Rightarrow>
          (let is_and = (t = CONJUNCTION_AND) in
           bindE (TableFilterParts U T A column is_and children) (\<lambda>parts.
             if parts = [] then (if is_and then Inr [] else Inl (unsupported ''empty OR filter'' []))
             else Inr (''('' @ Join U parts (if is_and then '' AND '' else '' OR '') @ '')'')))
      | _ \<Rightarrow>
        if IsRuntimeHintExpression A e then Inl (unsupported ''runtime filter'' [])
        else Translate U T A (\<lambda>i. if i \<noteq> 0 then Inl (unsupported ''filter referencing another column'' []) else Inr column) e)"
| "TableFilterParts U T A column is_and [] = Inr []"
| "TableFilterParts U T A column is_and (child # children) =
     bindE (TranslateTableFilterExpression U T A column child) (\<lambda>part.
       if is_and \<and> part = [] then TableFilterParts U T A column is_and children
       else if part = [] then Inl (unsupported ''OR filter with a non-exact branch'' [])
       else bindE (TableFilterParts U T A column is_and children) (\<lambda>parts. Inr (part # parts)))"
  by pat_completeness auto
termination
  by (relation "measure (\<lambda>x. case x of Inl (U, T, A, column, e) \<Rightarrow> size e | Inr (U, T, A, column, b, es) \<Rightarrow> size_list size es)")
    auto

declare TranslateTableFilterExpression.simps [simp del]

definition TranslateTableFilter ::
  "string_util \<Rightarrow> type_api \<Rightarrow> duck_api \<Rightarrow> table_filter \<Rightarrow> logical_type \<Rightarrow> string \<Rightarrow> string res" where
  "TranslateTableFilter U T A flt column_type column =
     (case flt of
        ExpressionFilter e \<Rightarrow>
          if IsOptionalFilter A flt \<or> IsRootOptionalFilter A flt then Inr []
          else if GetRootOptionalDynamicFilterData A flt then Inl (unsupported ''runtime filter'' [])
          else TranslateTableFilterExpression U T A column e
      | LegacyOptionalFilter \<Rightarrow> Inr []
      | LegacyDynamicFilter \<Rightarrow> Inl (unsupported ''runtime filter'' [])
      | LegacyBloomFilter \<Rightarrow> Inl (unsupported ''runtime filter'' [])
      | LegacyPrefixRangeFilter \<Rightarrow> Inl (unsupported ''runtime filter'' [])
      | LegacyFilter kind \<Rightarrow>
          bindE (FromTableFilter A flt (Some column_type)) (TranslateTableFilterExpression U T A column))"

end
