(* ===== verification/Dml.thy ===== *)
theory Dml
  imports Expression Tables WriteModes
begin

text \<open>
  UPDATE and DELETE: \<open>src/src/storage/clickhouse_dml.cpp\<close>. The logical plan below the statement is a tree of
  DuckDB's operators, of which a ClickHouse statement is made or an exception that says why not; then one operator
  runs the statement. DuckDB's own functions on plans and values are the parameter \<open>dml_api\<close>.
\<close>

section \<open>Plans\<close>

text \<open>
  A scan: its bind data with the identity of the table entry it was made for, the columns it reads (\<open>None\<close> is a
  virtual column) with whether a nested field was pushed into it, and its filters by position in the columns.
\<close>

record scan_op =
  scan_function :: string
  scan_bind :: "(bind_data \<times> nat option) option"
  scan_columns :: "(nat option \<times> bool) list"
  scan_projection :: "nat list"
  scan_filters :: "(nat \<times> table_filter) list"
  scan_inputs :: nat

record join_condition =
  is_comparison :: bool
  comparison_type :: expr_type
  cond_lhs :: duck_expr
  cond_rhs :: duck_expr

record join_op =
  is_mark :: bool
  join_conditions :: "join_condition list"
  arbitrary_conditions :: bool
  eliminated_columns :: nat
  mark_types :: nat
  delim_flipped :: bool
  left_projection_map :: "nat list"
  left_types :: nat

text \<open>
  The constants of a \<open>LogicalColumnDataGet\<close> are the chunks of its first column. An expression of a projection
  comes with its alias. Filters and projections have one input and, should DuckDB ever build such, more.
\<close>

datatype dml_plan =
    ScanPlan scan_op
  | FilterPlan "duck_expr list" "nat list" dml_plan "dml_plan list"
  | ProjectionPlan "(duck_expr \<times> string option) list" dml_plan "dml_plan list"
  | JoinPlan join_op dml_plan dml_plan
  | ChunkGet nat "duck_value list list option"
  | EmptyResult
  | OtherPlan string "dml_plan list"

record dml_api =
  HasParameter :: "duck_expr \<Rightarrow> bool"
  EnumerateExpressions :: "dml_plan \<Rightarrow> duck_expr list"
  expr_Equals :: "duck_expr \<Rightarrow> duck_expr \<Rightarrow> bool"
  WriteQuoted :: "string \<Rightarrow> char \<Rightarrow> string"
  ListValue_GetChildren :: "duck_value \<Rightarrow> duck_value list"
  ArrayValue_GetChildren :: "duck_value \<Rightarrow> duck_value list"
  StructValue_GetChildren :: "duck_value \<Rightarrow> duck_value list"
  MapValue_GetChildren :: "duck_value \<Rightarrow> duck_value list"

fun LogicalOperatorToString :: "dml_plan \<Rightarrow> string" where
  "LogicalOperatorToString (ScanPlan g) = ''GET''"
| "LogicalOperatorToString (FilterPlan es m c rest) = ''FILTER''"
| "LogicalOperatorToString (ProjectionPlan es c rest) = ''PROJECTION''"
| "LogicalOperatorToString (JoinPlan j l r) = ''COMPARISON_JOIN''"
| "LogicalOperatorToString (ChunkGet n c) = ''CHUNK_GET''"
| "LogicalOperatorToString EmptyResult = ''EMPTY_RESULT''"
| "LogicalOperatorToString (OtherPlan name cs) = name"

section \<open>Errors and names\<close>

definition DisplayName :: "dml_api \<Rightarrow> table_entry \<Rightarrow> string" where
  "DisplayName D table = WriteQuoted D (te_schema table) (CHR 0x22) @ ''.'' @ WriteQuoted D (te_name table) (CHR 0x22)"

definition ThrowUnsupportedShape :: "dml_api \<Rightarrow> string \<Rightarrow> table_entry \<Rightarrow> string list \<Rightarrow> exn" where
  "ThrowUnsupportedShape D statement table reason =
     unsupported ''ClickHouse table must filter only the modified table with translatable expressions; use clickhouse_execute() for anything else''
       (statement # DisplayName D table # reason)"

text \<open>What is not implemented inside is rethrown with the statement and the table.\<close>

definition rethrow_shape :: "dml_api \<Rightarrow> string \<Rightarrow> table_entry \<Rightarrow> 'a res \<Rightarrow> 'a res" where
  "rethrow_shape D statement table r = (case r of
     Inl ex \<Rightarrow> Inl (if exn_kind ex = NotImplementedException then ThrowUnsupportedShape D statement table (exn_text ex # exn_args ex) else ex)
   | Inr x \<Rightarrow> Inr x)"

definition TruncateRemovesRows :: "string_util \<Rightarrow> string \<Rightarrow> bool" where
  "TruncateRemovesRows U name \<longleftrightarrow>
     EndsWith U name ''MergeTree'' \<or> name \<in> set [''Memory'', ''Log'', ''TinyLog'', ''StripeLog'', ''Set'', ''Join'']"

definition ColumnSql :: "string_util \<Rightarrow> bind_data \<Rightarrow> nat option \<Rightarrow> string res" where
  "ColumnSql U bd column_id =
     (case column_id of
        None \<Rightarrow> Inl (unsupported ''reference to a virtual column'' [])
      | Some i \<Rightarrow>
          if i \<ge> length (bd_columns bd) then Inl (unsupported ''reference to a virtual column'' [])
          else let column = bd_columns bd ! i in
            if \<not> col_readable column then Inl (unsupported ''column cannot be read'' [col_name column, clickhouse_type column])
            else bindE (IsComparedExactly (type_node column)) (\<lambda>comparable.
              if \<not> comparable then Inl (unsupported ''column is not compared exactly'' [col_name column, clickhouse_type column])
              else ReadExpression U (type_node column) (QuoteIdentifier (col_name column))))"

section \<open>IN lists\<close>

definition IN_LIST_JOIN :: string where "IN_LIST_JOIN = ''IN list rewritten into a join''"

definition IsInListJoinCandidate :: "dml_plan \<Rightarrow> bool" where
  "IsInListJoinCandidate op = (case op of JoinPlan join left (ChunkGet n c) \<Rightarrow> is_mark join | _ \<Rightarrow> False)"

text \<open>The join, its input and its constants, when it has exactly the shape of an IN list.\<close>

definition ValidateInListJoin :: "dml_plan \<Rightarrow> (join_op \<times> dml_plan \<times> duck_value list list) res" where
  "ValidateInListJoin op =
     (case op of
        JoinPlan join left (ChunkGet n (Some constants)) \<Rightarrow>
          if \<not> is_mark join \<or> length (join_conditions join) \<noteq> 1 \<or> arbitrary_conditions join \<or> eliminated_columns join \<noteq> 0 \<or>
             mark_types join \<noteq> 0 \<or> delim_flipped join \<or> n \<noteq> 1 \<or>
             \<not> (case cond_rhs (hd (join_conditions join)) of BoundRef i t \<Rightarrow> i = 0 | _ \<Rightarrow> False) \<or>
             \<not> is_comparison (hd (join_conditions join)) \<or> comparison_type (hd (join_conditions join)) \<noteq> COMPARE_EQUAL
          then Inl (unsupported IN_LIST_JOIN []) else Inr (join, left, constants)
      | _ \<Rightarrow> Inl (unsupported IN_LIST_JOIN []))"

definition MarkJoinLeftCount :: "join_op \<Rightarrow> nat" where
  "MarkJoinLeftCount join = (if left_projection_map join = [] then left_types join else length (left_projection_map join))"

section \<open>References\<close>

datatype reference_step =
    PassThrough dml_plan nat
  | ScanColumn scan_op "nat option"
  | ProjectionExpression "(duck_expr \<times> string option) list" dml_plan nat
  | MarkColumn join_op dml_plan "duck_value list list"
  | Unresolved string

fun StepReference :: "dml_plan \<Rightarrow> nat \<Rightarrow> reference_step res" where
  "StepReference (ScanPlan get) index =
     (if scan_projection get \<noteq> [] \<and> index \<ge> length (scan_projection get) then Inr (Unresolved ''reference outside the scan's output'')
      else let position = (if scan_projection get \<noteq> [] then scan_projection get ! index else index) in
        if position \<ge> length (scan_columns get) then Inr (Unresolved ''reference outside the scan's output'')
        else if snd (scan_columns get ! position) then Inr (Unresolved ''reference to a nested field pushed into the scan'')
        else Inr (ScanColumn get (fst (scan_columns get ! position))))"
| "StepReference (FilterPlan es projection_map child rest) index =
     (if projection_map \<noteq> [] \<and> index \<ge> length projection_map then Inr (Unresolved ''reference outside the filter's output'')
      else Inr (PassThrough child (if projection_map \<noteq> [] then projection_map ! index else index)))"
| "StepReference (ProjectionPlan es child rest) index =
     (if index \<ge> length es then Inr (Unresolved ''reference outside the projection's output'')
      else (case fst (es ! index) of
              BoundRef i t \<Rightarrow> Inr (PassThrough child i)
            | _ \<Rightarrow> Inr (ProjectionExpression es child index)))"
| "StepReference (JoinPlan join left right) index =
     (if \<not> IsInListJoinCandidate (JoinPlan join left right) then Inr (Unresolved ''operator COMPARISON_JOIN'')
      else bindE (ValidateInListJoin (JoinPlan join left right)) (\<lambda>(join, left, constants).
        if index = MarkJoinLeftCount join then Inr (MarkColumn join left constants)
        else if index > MarkJoinLeftCount join then Inr (Unresolved IN_LIST_JOIN)
        else Inr (PassThrough left (if left_projection_map join = [] then index else left_projection_map join ! index))))"
| "StepReference op index = Inr (Unresolved (''operator '' @ LogicalOperatorToString op))"

lemma ValidateInListJoin_ok:
  "ValidateInListJoin op = Inr (join, left, constants) \<Longrightarrow>
     op = JoinPlan join left (ChunkGet 1 (Some constants)) \<and> is_mark join \<and>
     (\<exists>lhs t. join_conditions join = [\<lparr>is_comparison = True, comparison_type = COMPARE_EQUAL, cond_lhs = lhs, cond_rhs = BoundRef 0 t\<rparr>])"
  by (cases "hd (join_conditions join)")
    (auto simp: ValidateInListJoin_def length_Suc_conv split: dml_plan.splits option.splits if_splits duck_expr.splits)

lemma PassThrough_size: "StepReference op index = Inr (PassThrough next i) \<Longrightarrow> size next < size op"
  by (cases op) (auto simp: Let_def split: if_splits duck_expr.splits dest!: ValidateInListJoin_ok)

text \<open>The loop repeats the step, so its result is none that passes through.\<close>

function TraceReference :: "dml_plan \<Rightarrow> nat \<Rightarrow> reference_step res" where
  "TraceReference op index =
     bindE (StepReference op index) (\<lambda>step. case step of PassThrough next i \<Rightarrow> TraceReference next i | _ \<Rightarrow> Inr step)"
  by pat_completeness auto
termination
  by (relation "measure (\<lambda>(op, i). size op)") (auto simp: PassThrough_size)

declare TraceReference.simps [simp del]

definition FindMarkJoin :: "dml_plan \<Rightarrow> nat \<Rightarrow> (join_op \<times> dml_plan \<times> duck_value list list) option res" where
  "FindMarkJoin op index =
     bindE (TraceReference op index) (\<lambda>step. Inr (case step of MarkColumn join left constants \<Rightarrow> Some (join, left, constants) | _ \<Rightarrow> None))"

section \<open>SQL of a reference\<close>

lemma Translate_resolve_cong [fundef_cong]:
  assumes "e = e'" "\<And>i. f i = g i"
  shows "Translate U T A f e = Translate U T A g e'"
  using assms by (metis ext)

text \<open>A projection's output is translated as an expression, in parentheses, a plain reference too.\<close>

function ResolveOutput :: "string_util \<Rightarrow> type_api \<Rightarrow> duck_api \<Rightarrow> dml_plan \<Rightarrow> nat \<Rightarrow> string res" where
  "ResolveOutput U T A op index =
     bindE (StepReference op index) (\<lambda>step.
       let expression = (case op of
           ProjectionPlan es child rest \<Rightarrow>
             (case step of PassThrough next i \<Rightarrow> Some (es, child) | ProjectionExpression es' child' i \<Rightarrow> Some (es, child) | _ \<Rightarrow> None)
         | _ \<Rightarrow> None)
       in case expression of
         Some (es, child) \<Rightarrow>
           bindE (Translate U T A (\<lambda>i. ResolveOutput U T A child i) (fst (es ! index))) (\<lambda>s. Inr (''('' @ s @ '')''))
       | None \<Rightarrow>
           (case step of
              PassThrough next i \<Rightarrow> ResolveOutput U T A next i
            | ScanColumn get column_id \<Rightarrow>
                (case scan_bind get of
                   None \<Rightarrow> Inl (Exn InternalException ''scan without bind data'' [])
                 | Some (bd, table) \<Rightarrow> ColumnSql U bd column_id)
            | MarkColumn join left constants \<Rightarrow> Inl (unsupported IN_LIST_JOIN [])
            | Unresolved reason \<Rightarrow> Inl (unsupported reason [])
            | ProjectionExpression es child i \<Rightarrow> Inl (unsupported [] [])))"
  by pat_completeness auto
termination
  by (relation "measure (\<lambda>(U, T, A, op, i). size op)") (auto simp: PassThrough_size split: dml_plan.splits reference_step.splits)

declare ResolveOutput.simps [simp del]


section \<open>The target of the statement\<close>

fun InListValues :: "duck_api \<Rightarrow> duck_value list \<Rightarrow> string list res" where
  "InListValues A [] = Inr []"
| "InListValues A (v # vs) =
     (if IsNull v then Inl (unsupported ''IN list holding NULL'' [])
      else bindE (Literal A v) (\<lambda>s. bindE (InListValues A vs) (\<lambda>ss. Inr (s # ss))))"

text \<open>An empty text for an expression that is not an IN list.\<close>

definition TranslateInListFilter :: "string_util \<Rightarrow> type_api \<Rightarrow> duck_api \<Rightarrow> duck_expr \<Rightarrow> dml_plan \<Rightarrow> string res" where
  "TranslateInListFilter U T A e input =
     (let (negated, inner) = (case e of
            Operator OPERATOR_NOT rt children \<Rightarrow> (True, if length children \<noteq> 1 then None else Some (hd children))
          | _ \<Rightarrow> (False, Some e))
      in case inner of
        Some (BoundRef i t) \<Rightarrow>
          bindE (FindMarkJoin input i) (\<lambda>found. case found of
            None \<Rightarrow> Inr []
          | Some (join, left_input, constants) \<Rightarrow>
              bindE (Translate U T A (ResolveOutput U T A left_input) (cond_lhs (hd (join_conditions join)))) (\<lambda>left.
              bindE (InListValues A (concat constants)) (\<lambda>vals.
                if vals = [] then Inl (unsupported IN_LIST_JOIN []) else Inr (InList U left vals negated))))
      | _ \<Rightarrow> Inr [])"

fun HasParameters :: "dml_api \<Rightarrow> dml_plan \<Rightarrow> bool" where
  "HasParameters D op \<longleftrightarrow>
     list_ex (HasParameter D) (EnumerateExpressions D op) \<or>
     (case op of
        FilterPlan es m child rest \<Rightarrow> HasParameters D child \<or> list_ex (HasParameters D) rest
      | ProjectionPlan es child rest \<Rightarrow> HasParameters D child \<or> list_ex (HasParameters D) rest
      | JoinPlan join left right \<Rightarrow> HasParameters D left \<or> HasParameters D right
      | OtherPlan name children \<Rightarrow> list_ex (HasParameters D) children
      | _ \<Rightarrow> False)"

declare HasParameters.simps [simp del]

record dml_table =
  table_id :: nat
  table_info :: table_entry

record dml_target =
  target_table :: table_entry
  qualified_name :: string
  predicate :: string
  matches_nothing :: bool
  target_unbound :: bool

text \<open>
  The walk down the projections, filters and IN lists: the filters, each with its input, and the operator at the
  bottom.
\<close>

fun CollectFilters :: "dml_plan \<Rightarrow> ((duck_expr list \<times> dml_plan) list \<times> dml_plan) res" where
  "CollectFilters (ProjectionPlan es child rest) =
     (if rest \<noteq> [] then Inl (unsupported ''operator with several inputs'' []) else CollectFilters child)"
| "CollectFilters (FilterPlan es m child rest) =
     (if rest \<noteq> [] then Inl (unsupported ''operator with several inputs'' [])
      else bindE (CollectFilters child) (\<lambda>(filters, bottom). Inr ((es, child) # filters, bottom)))"
| "CollectFilters (JoinPlan join left right) =
     (if IsInListJoinCandidate (JoinPlan join left right)
      then bindE (ValidateInListJoin (JoinPlan join left right)) (\<lambda>u. CollectFilters left)
      else Inr ([], JoinPlan join left right))"
| "CollectFilters op = Inr ([], op)"

text \<open>The filters DuckDB moved into the scan.\<close>

fun ScanConditions ::
  "string_util \<Rightarrow> type_api \<Rightarrow> duck_api \<Rightarrow> bind_data \<Rightarrow> (nat option \<times> bool) list \<Rightarrow> (nat \<times> table_filter) list \<Rightarrow> string list res" where
  "ScanConditions U T A bd column_ids [] = Inr []"
| "ScanConditions U T A bd column_ids ((proj_idx, flt) # filters) =
     (if proj_idx \<ge> length column_ids then Inl (unsupported ''filter on an unknown projection'' [])
      else (case fst (column_ids ! proj_idx) of
              None \<Rightarrow> Inl (unsupported ''filter on a virtual column'' [])
            | Some column_id \<Rightarrow>
                if column_id \<ge> length (bd_columns bd) then Inl (unsupported ''filter on a virtual column'' [])
                else bindE (ColumnSql U bd (Some column_id)) (\<lambda>column.
                  bindE (TranslateTableFilter U T A flt (col_type (bd_columns bd ! column_id)) column) (\<lambda>sql.
                  bindE (ScanConditions U T A bd column_ids filters) (\<lambda>conditions.
                    Inr (if sql \<noteq> [] then sql # conditions else conditions))))))"

definition FilterCondition :: "string_util \<Rightarrow> type_api \<Rightarrow> duck_api \<Rightarrow> dml_plan \<Rightarrow> duck_expr \<Rightarrow> string res" where
  "FilterCondition U T A input e =
     bindE (TranslateInListFilter U T A e input) (\<lambda>in_list.
       if in_list \<noteq> [] then Inr in_list else Translate U T A (ResolveOutput U T A input) e)"

definition PlanConditions ::
  "string_util \<Rightarrow> type_api \<Rightarrow> duck_api \<Rightarrow> (duck_expr list \<times> dml_plan) list \<Rightarrow> string list res" where
  "PlanConditions U T A filters =
     bindE (mapE (\<lambda>(es, input). mapE (FilterCondition U T A input) es) filters) (\<lambda>css. Inr (concat css))"

text \<open>The \<open>try\<close> block of \<open>AnalyzeTarget\<close>; \<open>None\<close> when no row can match.\<close>

definition TargetConditions ::
  "string_util \<Rightarrow> type_api \<Rightarrow> duck_api \<Rightarrow> dml_table \<Rightarrow> dml_plan \<Rightarrow> string list option res" where
  "TargetConditions U T A table child =
     bindE (CollectFilters child) (\<lambda>(filters, bottom).
       case bottom of
         EmptyResult \<Rightarrow> Inr None
       | ScanPlan get \<Rightarrow>
           (case scan_bind get of
              None \<Rightarrow> Inl (unsupported ''reads another table'' [])
            | Some (bd, entry) \<Rightarrow>
                if \<not> IsClickhouseScan (scan_function get) \<or> entry \<noteq> Some (table_id table)
                then Inl (unsupported ''reads another table'' [])
                else if scan_inputs get \<noteq> 0 then Inl (unsupported ''scan with an input'' [])
                else if order_by_clause bd \<noteq> [] \<or> limit_clause bd \<noteq> []
                then Inl (unsupported ''scan with a pushed-down ORDER BY or LIMIT'' [])
                else bindE (ScanConditions U T A bd (scan_columns get) (scan_filters get)) (\<lambda>scan_conditions.
                     bindE (PlanConditions U T A filters) (\<lambda>plan_conditions.
                       Inr (Some (scan_conditions @ plan_conditions)))))
       | _ \<Rightarrow> Inl (unsupported ''operator'' [LogicalOperatorToString bottom]))"

definition AnalyzeTarget ::
  "string_util \<Rightarrow> type_api \<Rightarrow> duck_api \<Rightarrow> dml_api \<Rightarrow> string \<Rightarrow> dml_table \<Rightarrow> dml_plan \<Rightarrow> dml_target res" where
  "AnalyzeTarget U T A D statement table child =
     (let entry = table_info table;
          target = \<lparr>target_table = entry, qualified_name = QualifiedName (te_schema entry) (te_name entry), predicate = [],
                    matches_nothing = False, target_unbound = False\<rparr>
      in if IsViewLike entry then
           Inl (unsupported ''view or dictionary is not modified; run the statement with clickhouse_execute() instead''
             [te_name entry, ViewLikeKind entry, engine entry, statement])
      else if HasParameters D child then Inr (target\<lparr>target_unbound := True\<rparr>)
      else bindE (rethrow_shape D statement entry (TargetConditions U T A table child)) (\<lambda>conditions.
        Inr (case conditions of
               None \<Rightarrow> target\<lparr>matches_nothing := True\<rparr>
             | Some cs \<Rightarrow> target\<lparr>predicate := Join U cs '' AND ''\<rparr>)))"

section \<open>DELETE\<close>

record dml_statement =
  st_catalog_name :: string
  description :: string
  count_sql :: string
  st_sql :: string
  check_sql :: string
  null_check_sql :: string
  null_check_columns :: "string list"
  st_table_name :: string
  st_settings :: "(string \<times> string) list"
  unbound_parameters :: bool

definition empty_statement :: dml_statement where
  "empty_statement = \<lparr>st_catalog_name = [], description = [], count_sql = [], st_sql = [], check_sql = [], null_check_sql = [],
     null_check_columns = [], st_table_name = [], st_settings = [], unbound_parameters = False\<rparr>"

record delete_op =
  del_return_chunk :: bool
  del_catalog :: string
  del_table :: dml_table
  del_child :: dml_plan

definition PlanDelete :: "string_util \<Rightarrow> type_api \<Rightarrow> duck_api \<Rightarrow> dml_api \<Rightarrow> delete_op \<Rightarrow> dml_statement res" where
  "PlanDelete U T A D op =
     (if del_return_chunk op then Inl (unsupported ''RETURNING is not supported for ClickHouse tables'' [])
      else bindE (AnalyzeTarget U T A D ''DELETE'' (del_table op) (del_child op)) (\<lambda>target.
        let result = empty_statement\<lparr>st_catalog_name := del_catalog op\<rparr>;
            from = ''DELETE FROM '' @ qualified_name target;
            counted = result\<lparr>count_sql := ''SELECT count() FROM '' @ qualified_name target, st_settings := ExtensionQuerySettings\<rparr>
        in if target_unbound target then Inr (result\<lparr>description := from, unbound_parameters := True\<rparr>)
           else if matches_nothing target then Inr (result\<lparr>description := from\<rparr>)
           else if predicate target = [] then
             (if \<not> TruncateRemovesRows U (engine (target_table target)) then
                Inl (unsupported ''DELETE without WHERE would run TRUNCATE TABLE, which does not remove the rows of a table with this engine''
                  [DisplayName D (table_info (del_table op)), if engine (target_table target) = [] then ''(unknown)'' else engine (target_table target)])
              else let truncate = ''TRUNCATE TABLE '' @ qualified_name target
                in Inr (counted\<lparr>description := truncate, st_sql := truncate\<rparr>))
           else Inr (counted\<lparr>count_sql := count_sql counted @ '' WHERE '' @ predicate target, description := from,
                      st_sql := from @ '' WHERE '' @ predicate target,
                      st_settings := st_settings counted @ [(''lightweight_deletes_sync'', ''2'')]\<rparr>)))"

section \<open>The values of an UPDATE\<close>

text \<open>ASCII digits of a power of ten: \<open>"1" + string(6 - precision, '0')\<close>.\<close>

definition FloorTimestamp :: "string_util \<Rightarrow> type_api \<Rightarrow> string \<Rightarrow> nat \<Rightarrow> string res" where
  "FloorTimestamp U T sql precision =
     bindE (ToClickhouse U T TIMESTAMP_TZ True) (\<lambda>ch_type.
       let micros = ''toUnixTimestamp64Micro(CAST('' @ sql @ '' AS '' @ ch_type @ ''))'';
           micros_per_tick = ''1'' @ replicate (6 - precision) (CHR ''0'')
       in Inr (''fromUnixTimestamp64Micro('' @ micros @ '' - positiveModulo('' @ micros @ '', '' @ micros_per_tick @ ''), '' @
                [CHR 0x27] @ ''UTC'' @ [CHR 0x27] @ '')''))"

lemma Of_child_size: "c \<in> set (node_children (tw_base (Of node))) \<Longrightarrow> size c < size node"
  using size_child [of c "tw_base (Of node)"] Of_base_size [of node] by simp

function ConvertedOnServer :: "string_util \<Rightarrow> type_node \<Rightarrow> bool res"
  and AnyConvertedOnServer :: "string_util \<Rightarrow> type_node list \<Rightarrow> bool res" where
  "ConvertedOnServer U node =
     (let base = tw_base (Of node) in
      if node_name base = ''String'' then Inr False
      else if node_name base = ''BFloat16'' then Inr True
      else bindE (ToDuckDB U base) (\<lambda>r. if is_varchar (fst r) then Inr True else AnyConvertedOnServer U (node_children base)))"
| "AnyConvertedOnServer U [] = Inr False"
| "AnyConvertedOnServer U (child # children) =
     bindE (ConvertedOnServer U child) (\<lambda>b. if b then Inr True else AnyConvertedOnServer U children)"
  by pat_completeness auto
termination
proof (relation "measure (\<lambda>x. case x of Inl (U, node) \<Rightarrow> size node | Inr (U, ns) \<Rightarrow> size_list size ns)", goal_cases)
  case (2 U node base x)
  have "size_list size (node_children (tw_base (Of node))) < size (tw_base (Of node))"
    by (cases "tw_base (Of node)") auto
  with 2 Of_base_size [of node] show ?case by simp
qed auto

declare ConvertedOnServer.simps [simp del]

definition ParsedFromTextExactly :: "type_node \<Rightarrow> bool" where
  "ParsedFromTextExactly base \<longleftrightarrow> node_name base \<in> {''IPv4'', ''IPv6'', ''FixedString''}"

definition ResolveConstant :: "duck_expr \<Rightarrow> dml_plan \<Rightarrow> duck_value option res" where
  "ResolveConstant e child =
     bindE (case e of
              BoundRef i t \<Rightarrow> bindE (TraceReference child i) (\<lambda>traced. Inr (case traced of
                ProjectionExpression es c index \<Rightarrow> Some (fst (es ! index)) | _ \<Rightarrow> None))
            | _ \<Rightarrow> Inr (Some e))
       (\<lambda>resolved. Inr (case resolved of Some (Constant v) \<Rightarrow> Some v | _ \<Rightarrow> None))"

definition CanHoldNull :: "type_node \<Rightarrow> bool" where
  "CanHoldNull node \<longleftrightarrow> IsNullable node \<or> node_name (tw_base (Of node)) \<in> {''Variant'', ''Dynamic''}"

definition ElementTypes :: "type_node \<Rightarrow> type_node list" where
  "ElementTypes base = (if node_name base \<in> {''Array'', ''Tuple'', ''Map''} then node_children base else [])"

lemma ElementTypes_size: "c \<in> set (ElementTypes (tw_base (Of node))) \<Longrightarrow> size c < size node"
  using Of_child_size by (auto simp: ElementTypes_def split: if_splits)

lemma ElementTypes_list_size: "size_list size (ElementTypes (tw_base (Of node))) < size node"
proof -
  have "size_list size (node_children (tw_base (Of node))) < size (tw_base (Of node))"
    by (cases "tw_base (Of node)") auto
  moreover have "0 < size node" by (cases node) simp
  ultimately show ?thesis using Of_base_size [of node] by (auto simp: ElementTypes_def)
qed

text \<open>The elements of the source, when it has the shape of the target.\<close>

definition source_elements :: "type_node \<Rightarrow> type_node option \<Rightarrow> type_node list option" where
  "source_elements target source =
     (case source of
        None \<Rightarrow> None
      | Some s \<Rightarrow>
          if node_name (tw_base (Of s)) = node_name (tw_base (Of target)) \<and>
             length (ElementTypes (tw_base (Of s))) = length (ElementTypes (tw_base (Of target)))
          then Some (ElementTypes (tw_base (Of s))) else None)"

function MayGetNullElement :: "type_node \<Rightarrow> type_node option \<Rightarrow> bool"
  and AnyNullElement :: "type_node list \<Rightarrow> type_node list option \<Rightarrow> bool" where
  "MayGetNullElement target source = AnyNullElement (ElementTypes (tw_base (Of target))) (source_elements target source)"
| "AnyNullElement [] sources \<longleftrightarrow> False"
| "AnyNullElement (element # elements) sources \<longleftrightarrow>
     (let source = (case sources of Some (s # ss) \<Rightarrow> Some s | _ \<Rightarrow> None) in
      \<not> CanHoldNull element \<and> (case source of None \<Rightarrow> True | Some s \<Rightarrow> CanHoldNull s) \<or>
      MayGetNullElement element source \<or> AnyNullElement elements (map_option tl sources))"
  by pat_completeness auto
termination
  by (relation "measure (\<lambda>x. case x of Inl (t, s) \<Rightarrow> size t | Inr (ts, ss) \<Rightarrow> size_list size ts)")
    (auto simp: ElementTypes_list_size)

declare MayGetNullElement.simps [simp del]

text \<open>The elements of a constant with the types they are stored as.\<close>

definition value_elements :: "dml_api \<Rightarrow> duck_value \<Rightarrow> type_node list \<Rightarrow> (duck_value \<times> type_node) list" where
  "value_elements D v targets =
     (case value_type v of
        LIST t \<Rightarrow> if length targets = 1 then map (\<lambda>c. (c, targets ! 0)) (ListValue_GetChildren D v) else []
      | ARRAY t n \<Rightarrow> if length targets = 1 then map (\<lambda>c. (c, targets ! 0)) (ArrayValue_GetChildren D v) else []
      | STRUCT fs \<Rightarrow>
          if length (StructValue_GetChildren D v) = length targets then zip (StructValue_GetChildren D v) targets else []
      | MAP k t \<Rightarrow>
          if length targets = 2 then concat (map (\<lambda>entry. zip (StructValue_GetChildren D entry) targets) (MapValue_GetChildren D v))
          else []
      | _ \<Rightarrow> [])"

lemma value_elements_type: "(c, t) \<in> set (value_elements D v targets) \<Longrightarrow> t \<in> set targets"
  by (auto simp: value_elements_def split: logical_type.splits if_splits dest: set_zip_rightD)

function HoldsNullElement :: "dml_api \<Rightarrow> duck_value \<Rightarrow> type_node \<Rightarrow> bool" where
  "HoldsNullElement D v target \<longleftrightarrow>
     (if IsNull v then False
      else \<exists>(element, t)\<in>set (value_elements D v (ElementTypes (tw_base (Of target)))).
             IsNull element \<and> \<not> CanHoldNull t \<or> HoldsNullElement D element t)"
  by pat_completeness auto
termination
  by (relation "measure (\<lambda>(D, v, t). size t)") (auto dest: value_elements_type ElementTypes_size)

declare HoldsNullElement.simps [simp del]

fun HoldsCoarseDateTime :: "type_node \<Rightarrow> bool res" and AnyCoarseDateTime :: "type_node list \<Rightarrow> bool res" where
  "HoldsCoarseDateTime (Node name children names lits txt) = AnyCoarseDateTime children"
| "AnyCoarseDateTime [] = Inr False"
| "AnyCoarseDateTime (child # children) =
     bindE (DateTimePrecision child) (\<lambda>precision.
       if (case precision of Some p \<Rightarrow> p < 6 | None \<Rightarrow> False) then Inr True
       else bindE (HoldsCoarseDateTime child) (\<lambda>b. if b then Inr True else AnyCoarseDateTime children))"

definition UnchangedScanColumn :: "dml_plan \<Rightarrow> nat \<Rightarrow> nat option res" where
  "UnchangedScanColumn op index =
     bindE (TraceReference op index) (\<lambda>traced. Inr (case traced of ScanColumn get column_id \<Rightarrow> column_id | _ \<Rightarrow> None))"

section \<open>UPDATE\<close>

text \<open>A SET value is its expression, whether that is \<open>BOUND_DEFAULT\<close>, and its alias.\<close>

record set_value =
  set_expr :: duck_expr
  bound_default :: bool
  set_alias :: "string option"

record update_op =
  up_return_chunk :: bool
  up_catalog :: string
  up_table :: dml_table
  up_columns :: "nat list"
  up_values :: "set_value list"
  bound_defaults :: "duck_expr option list"
  up_child :: dml_plan

definition user_assignment :: "string option \<Rightarrow> bool" where
  "user_assignment alias \<longleftrightarrow> alias = Some ''clickhouse_user_assignment''"

definition IsRewrittenDefault :: "dml_api \<Rightarrow> update_op \<Rightarrow> nat \<Rightarrow> set_value \<Rightarrow> bool" where
  "IsRewrittenDefault D op assignment_idx v =
     (if bound_default v then True
      else if user_assignment (set_alias v) then False
      else (case up_child op of
          ProjectionPlan es child rest \<Rightarrow>
            (case (case set_expr v of BoundRef i t \<Rightarrow> Some i | BoundColumnRef table col depth t \<Rightarrow> Some col | _ \<Rightarrow> None) of
               None \<Rightarrow> False
             | Some source \<Rightarrow>
                 if source \<ge> length es then False
                 else if user_assignment (snd (es ! source)) then False
                 else let storage_idx = up_columns op ! assignment_idx in
                   if storage_idx \<ge> length (bound_defaults op) then False
                   else (case bound_defaults op ! storage_idx of
                           None \<Rightarrow> False
                         | Some d \<Rightarrow> expr_Equals D (fst (es ! source)) d))
        | _ \<Rightarrow> False))"

text \<open>The loop that refuses columns it does not know and defaults.\<close>

definition CheckSetList :: "dml_api \<Rightarrow> update_op \<Rightarrow> column_info list \<Rightarrow> unit res" where
  "CheckSetList D op columns =
     (let table = table_info (up_table op);
          refuse = (\<lambda>reason. Inl (ThrowUnsupportedShape D ''UPDATE'' table reason))
      in if length (up_columns op) \<noteq> length (up_values op) then refuse [''SET list does not match its columns'']
      else bindE (mapE (\<lambda>(i, column, v).
             if column \<ge> length columns then refuse [''SET of an unknown column'']
             else if IsRewrittenDefault D op i v then refuse [''SET to DEFAULT'', col_name (columns ! column)]
             else Inr ())
           (enumerate 0 (zip (up_columns op) (up_values op)))) (\<lambda>u. Inr ()))"

text \<open>What one column of the SET list adds: nothing, or an assignment with a value to check or a NULL count.\<close>

datatype set_result =
    Skipped
  | Assigned (assignment: string) (checked: "string option") (null_count: "(string \<times> string) option")

definition not_null_failed :: "table_entry \<Rightarrow> column_info \<Rightarrow> exn" where
  "not_null_failed table column = Exn ConstraintException ''NOT NULL constraint failed'' [te_name table, col_name column]"

text \<open>
  Whether the value must be checked for NULLs by the server: decided for constants, columns and computed values in
  turn, and the statement refused when an element could be NULL where it cannot be stored.
\<close>

definition NullCheck ::
  "dml_api \<Rightarrow> table_entry \<Rightarrow> column_info list \<Rightarrow> column_info \<Rightarrow> nat option \<Rightarrow> duck_value option \<Rightarrow> bool res" where
  "NullCheck D table columns column source const =
     (let no_source_null = (case source of None \<Rightarrow> False | Some s \<Rightarrow> \<not> CanHoldNull (type_node (columns ! s)));
          check_nulls = (\<not> CanHoldNull (type_node column) \<and> \<not> no_source_null)
      in case const of
        Some v \<Rightarrow>
          if check_nulls \<and> IsNull v then Inl (not_null_failed table column)
          else if HoldsNullElement D v (type_node column) then Inl (not_null_failed table column)
          else Inr False
      | None \<Rightarrow>
          if MayGetNullElement (type_node column) (map_option (\<lambda>s. type_node (columns ! s)) source)
          then Inl (unsupported ''SET of column to a value whose elements can be NULL where the column's cannot''
                 [col_name column, clickhouse_type column])
          else Inr check_nulls)"

text \<open>A column that the server converts from text takes constants only, which it checks first.\<close>

definition ServerValue ::
  "string_util \<Rightarrow> type_api \<Rightarrow> duck_api \<Rightarrow> column_info \<Rightarrow> duck_expr \<Rightarrow> duck_value option \<Rightarrow> dml_plan \<Rightarrow> set_result res" where
  "ServerValue U T A column e const child =
     (let base = tw_base (Of (type_node column)); name = QuoteIdentifier (col_name column) in
      if (case const of Some v \<Rightarrow> IsNull v | None \<Rightarrow> False) then
        Inr (Assigned (name @ '' = CAST(NULL AS '' @ clickhouse_type column @ '')'') None None)
      else if \<not> ParsedFromTextExactly base then
        Inl (unsupported ''SET of column: ClickHouse converts the new value on the server, not always exactly''
          [col_name column, clickhouse_type column])
      else if const = None then
        Inl (unsupported ''SET of column to a value that is not a constant: ClickHouse parses it from text''
          [col_name column, clickhouse_type column])
      else bindE (Translate U T A (ResolveOutput U T A child) e) (\<lambda>literal.
           bindE (ParseText base literal) (\<lambda>parsed.
             let assigned = ''CAST('' @ parsed @ '' AS '' @ clickhouse_type column @ '')''
             in Inr (Assigned (name @ '' = '' @ assigned) (Some assigned) None))))"

definition NativeValue ::
  "string_util \<Rightarrow> type_api \<Rightarrow> duck_api \<Rightarrow> column_info \<Rightarrow> duck_expr \<Rightarrow> bool \<Rightarrow> dml_plan \<Rightarrow> set_result res" where
  "NativeValue U T A column e check_nulls child =
     bindE (Translate U T A (ResolveOutput U T A child) e) (\<lambda>translated.
     bindE (if return_type e \<noteq> col_type column
            then bindE (ToClickhouse U T (col_type column) True) (\<lambda>t. Cast T translated (return_type e) (col_type column) t)
            else Inr translated) (\<lambda>cast.
     bindE (DateTimePrecision (type_node column)) (\<lambda>precision.
     bindE (case precision of
              Some p \<Rightarrow> if p < 6 then FloorTimestamp U T cast p else Inr cast
            | None \<Rightarrow> Inr cast) (\<lambda>floored.
     bindE (if (case precision of Some p \<Rightarrow> p < 6 | None \<Rightarrow> False) then Inr False else HoldsCoarseDateTime (type_node column)) (\<lambda>coarse.
       if coarse then Inl (unsupported ''SET of column, whose DateTime elements the CAST would truncate toward zero''
         [col_name column, clickhouse_type column])
       else Inr (Assigned (QuoteIdentifier (col_name column) @ '' = CAST('' @ floored @ '' AS '' @ clickhouse_type column @ '')'') None
                   (if check_nulls then Some (''countIf(isNull('' @ floored @ ''))'', col_name column) else None)))))))"

definition SetColumn ::
  "string_util \<Rightarrow> type_api \<Rightarrow> duck_api \<Rightarrow> dml_api \<Rightarrow> table_entry \<Rightarrow> column_info list \<Rightarrow> dml_plan \<Rightarrow> nat \<times> set_value \<Rightarrow> set_result res" where
  "SetColumn U T A D table columns child sv =
     (let column_id = fst sv; column = columns ! column_id; e = set_expr (snd sv) in
      bindE (case e of BoundRef i t \<Rightarrow> UnchangedScanColumn child i | _ \<Rightarrow> Inr None) (\<lambda>source.
        if source = Some column_id then Inr Skipped
        else bindE (ResolveConstant e child) (\<lambda>const.
             bindE (NullCheck D table columns column source const) (\<lambda>check_nulls.
             bindE (ConvertedOnServer U (type_node column)) (\<lambda>on_server.
               if on_server then ServerValue U T A column e const child
               else NativeValue U T A column e check_nulls child)))))"

definition MutationsSyncSetting :: "(duck_value \<Rightarrow> string) \<Rightarrow> (string \<Rightarrow> duck_value option) \<Rightarrow> string \<times> string" where
  "MutationsSyncSetting ToString current =
     (''mutations_sync'', case current ''ch_mutations_sync'' of
        None \<Rightarrow> ''2'' | Some v \<Rightarrow> if IsNull v then ''2'' else ToString v)"

definition PlanUpdate ::
  "string_util \<Rightarrow> type_api \<Rightarrow> duck_api \<Rightarrow> dml_api \<Rightarrow> (string \<Rightarrow> duck_value option) \<Rightarrow> update_op \<Rightarrow> dml_statement res" where
  "PlanUpdate U T A D current op =
     (if up_return_chunk op then Inl (unsupported ''RETURNING is not supported for ClickHouse tables'' [])
      else let entry = table_info (up_table op); columns = clickhouse_columns entry; child = up_child op in
        bindE (AnalyzeTarget U T A D ''UPDATE'' (up_table op) child) (\<lambda>target.
        bindE (ThrowIfColumnsCollide entry) (\<lambda>u.
        bindE (CheckSetList D op columns) (\<lambda>v.
          let alter = ''ALTER TABLE '' @ qualified_name target @ '' UPDATE'';
              result = empty_statement\<lparr>st_catalog_name := up_catalog op, description := alter\<rparr>
          in if target_unbound target then Inr (result\<lparr>unbound_parameters := True\<rparr>)
             else if matches_nothing target then Inr result
             else bindE (rethrow_shape D ''UPDATE'' entry
                   (mapE (SetColumn U T A D entry columns child) (zip (up_columns op) (up_values op)))) (\<lambda>rs.
               let filter_sql = (if predicate target = [] then ''1'' else predicate target);
                   source = '' FROM '' @ qualified_name target @ '' WHERE '' @ filter_sql;
                   assigned = filter (\<lambda>r. r \<noteq> Skipped) rs;
                   checks = List.map_filter checked assigned;
                   null_counts = List.map_filter null_count assigned;
                   counted = result\<lparr>count_sql := ''SELECT count()'' @ source\<rparr>
               in Inr (if assigned = [] then counted
                    else counted\<lparr>
                      st_sql := alter @ '' '' @ Join U (map assignment assigned) '', '' @ '' WHERE '' @ filter_sql,
                      check_sql := (if checks = [] then [] else ''SELECT ignore('' @ Join U checks '', '' @ '')''),
                      null_check_sql := (if null_counts = [] then [] else ''SELECT '' @ Join U (map fst null_counts) '', '' @ source),
                      null_check_columns := map snd null_counts,
                      st_table_name := (if null_counts = [] then [] else te_name entry),
                      st_settings := ExtensionQuerySettings @ [MutationsSyncSetting (value_ToString A) current]\<rparr>))))))"

section \<open>Running the statement\<close>

text \<open>What the operator reads of a block: its numbers of rows and columns, and the first value of a \<open>UInt64\<close> column.\<close>

record 'b block_api =
  GetRowCount :: "'b \<Rightarrow> nat"
  GetColumnCount :: "'b \<Rightarrow> nat"
  AsUInt64 :: "'b \<Rightarrow> nat \<Rightarrow> nat option"

record ('k, 'b) dml_env =
  dml_strings :: string_util
  dml_client :: "('k, 'b) client_api"
  dml_blocks :: "'b block_api"
  dml_debug :: bool
  dml_clock :: "nat \<Rightarrow> nat \<Rightarrow> int"
  dml_attached :: "bool res"
  dml_acquired :: "'k conn res"
  dml_tid :: nat

definition unexpected_null_check :: "dml_statement \<Rightarrow> exn" where
  "unexpected_null_check st =
     Exn InvalidInputException ''unexpected result for the NULL check'' [description st, null_check_sql st]"

fun NullCounts :: "'b block_api \<Rightarrow> dml_statement \<Rightarrow> 'b \<Rightarrow> (nat \<times> string) list \<Rightarrow> unit res" where
  "NullCounts B st block [] = Inr ()"
| "NullCounts B st block ((i, column) # columns) =
     (case AsUInt64 B block i of
        None \<Rightarrow> Inl (unexpected_null_check st)
      | Some nulls \<Rightarrow>
          if nulls > 0 then
            Inl (Exn ConstraintException ''NOT NULL constraint failed; nothing was changed'' [st_table_name st, column, to_string nulls])
          else NullCounts B st block columns)"

fun NullCheckBlocks :: "'b block_api \<Rightarrow> dml_statement \<Rightarrow> 'b list \<Rightarrow> unit res" where
  "NullCheckBlocks B st [] = Inr ()"
| "NullCheckBlocks B st (block # blocks) =
     (if GetRowCount B block = 0 then NullCheckBlocks B st blocks
      else if GetColumnCount B block \<noteq> length (null_check_columns st) then Inl (unexpected_null_check st)
      else bindE (NullCounts B st block (enumerate 0 (null_check_columns st))) (\<lambda>u. NullCheckBlocks B st blocks))"

fun CountBlocks :: "'b block_api \<Rightarrow> dml_statement \<Rightarrow> nat \<Rightarrow> 'b list \<Rightarrow> nat res" where
  "CountBlocks B st count [] = Inr count"
| "CountBlocks B st count (block # blocks) =
     (if GetRowCount B block = 0 then CountBlocks B st count blocks
      else (case (if GetColumnCount B block = 1 then AsUInt64 B block 0 else None) of
              None \<Rightarrow> Inl (Exn InvalidInputException ''unexpected result for the affected-row count'' [description st, count_sql st])
            | Some n \<Rightarrow> CountBlocks B st n blocks))"

text \<open>The statements of the operator in order, the connection last; a query that never ends is \<open>None\<close>.\<close>

definition run_query ::
  "('k, 'b) dml_env \<Rightarrow> nat \<Rightarrow> string \<Rightarrow> (string \<times> string) list \<Rightarrow> ('b list \<Rightarrow> 'k conn \<Rightarrow> ('a res \<times> 'k conn) option) \<Rightarrow>
     'k conn \<Rightarrow> ('a res \<times> 'k conn) option" where
  "run_query E n sql st then_do c =
     (case Query (dml_strings E) (dml_client E) (dml_debug E) (dml_clock E n) sql st c of
        None \<Rightarrow> None
      | Some (Inl ex, c') \<Rightarrow> Some (Inl ex, c')
      | Some (Inr blocks, c') \<Rightarrow> then_do blocks c')"

definition RunCheck :: "('k, 'b) dml_env \<Rightarrow> dml_statement \<Rightarrow> 'k conn \<Rightarrow> (unit res \<times> 'k conn) option" where
  "RunCheck E st c =
     (if check_sql st = [] then Some (Inr (), c)
      else run_query E 0 (check_sql st) ExtensionQuerySettings (\<lambda>blocks c'. Some (Inr (), c')) c)"

definition RunNullCheck :: "('k, 'b) dml_env \<Rightarrow> dml_statement \<Rightarrow> 'k conn \<Rightarrow> (unit res \<times> 'k conn) option" where
  "RunNullCheck E st c =
     (if null_check_sql st = [] then Some (Inr (), c)
      else run_query E 1 (null_check_sql st) (ExtensionQuerySettings @ [(''apply_deleted_mask'', ''0'')])
             (\<lambda>blocks c'. Some (NullCheckBlocks (dml_blocks E) st blocks, c')) c)"

definition RunCount :: "('k, 'b) dml_env \<Rightarrow> dml_statement \<Rightarrow> 'k conn \<Rightarrow> (nat res \<times> 'k conn) option" where
  "RunCount E st c =
     run_query E 2 (count_sql st) ExtensionQuerySettings (\<lambda>blocks c'. Some (CountBlocks (dml_blocks E) st 0 blocks, c')) c"

definition RunSql :: "('k, 'b) dml_env \<Rightarrow> dml_statement \<Rightarrow> 'k conn \<Rightarrow> (unit res \<times> 'k conn) option" where
  "RunSql E st c =
     (if st_sql st = [] then Some (Inr (), c)
      else map_option (\<lambda>(r, c'). (bindE r (\<lambda>b. Inr ()), c'))
             (Execute (dml_strings E) (dml_client E) (GetRowCount (dml_blocks E)) (dml_debug E) (dml_clock E 3) (st_sql st) (st_settings st) c))"

definition RunStatement :: "('k, 'b) dml_env \<Rightarrow> dml_statement \<Rightarrow> 'k conn \<Rightarrow> (nat res \<times> 'k conn) option" where
  "RunStatement E st c0 =
     (case RunCheck E st c0 of None \<Rightarrow> None | Some (Inl ex, c) \<Rightarrow> Some (Inl ex, c) | Some (Inr u, c) \<Rightarrow>
      case RunNullCheck E st c of None \<Rightarrow> None | Some (Inl ex, c) \<Rightarrow> Some (Inl ex, c) | Some (Inr v, c) \<Rightarrow>
      case RunCount E st c of None \<Rightarrow> None | Some (Inl ex, c) \<Rightarrow> Some (Inl ex, c) | Some (Inr count, c) \<Rightarrow>
      case RunSql E st c of None \<Rightarrow> None | Some (Inl ex, c) \<Rightarrow> Some (Inl ex, c) | Some (Inr w, c) \<Rightarrow> Some (Inr count, c))"

text \<open>
  \<open>GetDataInternal\<close>: the count it emits, the connection it used if any, and the transaction manager, in which
  \<open>StartWrite\<close> marks the transaction.
\<close>

definition DmlGetDataInternal ::
  "('k, 'b) dml_env \<Rightarrow> dml_statement \<Rightarrow> 'e txn_manager \<Rightarrow> (int res \<times> 'k conn option \<times> 'e txn_manager) option" where
  "DmlGetDataInternal E st m =
     (let emit = (\<lambda>count. if int count < 2 ^ 63 then Inr (int count) else Inl (Exn InternalException ''Information loss on integer cast'' []))
      in if unbound_parameters st then
           Some (Inl (Exn InvalidInputException ''planned without its prepared-statement parameter values'' [description st]), None, m)
      else if count_sql st = [] then Some (emit 0, None, m)
      else (case dml_attached E of Inl ex \<Rightarrow> Some (Inl ex, None, m) | Inr read_only \<Rightarrow>
        case StartWrite (st_catalog_name st) read_only (dml_acquired E) (dml_tid E) m of
          (Inl ex, m') \<Rightarrow> Some (Inl ex, None, m')
        | (Inr c, m') \<Rightarrow>
            map_option (\<lambda>(r, c'). (bindE r emit, Some c', m')) (RunStatement E st c)))"

definition ParamsToString :: "dml_statement \<Rightarrow> string" where
  "ParamsToString st =
     (if unbound_parameters st then description st @ '' (planned again with the parameter values on EXECUTE)''
      else if count_sql st = [] then description st @ '' (nothing to run: no row matches)''
      else if st_sql st = [] then count_sql st @ '' (count only: nothing changes)''
      else st_sql st)"

end
