(* ===== verification/ExpressionSafety.thy ===== *)
theory ExpressionSafety
  imports Expression
begin

text \<open>
  The SQL that \<open>clickhouse_expression.cpp\<close> produces cannot change the statement around it: whatever the
  values, names and labels in an expression, its text leaves no quote, bracket or comment open or closed.
\<close>

section \<open>Lexing\<close>

text \<open>
  ClickHouse's lexer as far as nesting goes: outside quotes a state has the depth of brackets and the
  previous character. A closing bracket without an opening one, a semicolon, the start of a comment
  (\<open>--\<close>, \<open>/*\<close>, \<open>#\<close>) or of a heredoc, and the lead byte of the typographic quotes end the run.
\<close>

datatype lex_state = Sql nat char | Quoted nat char | Escaped nat char

fun lex_step :: "lex_state \<Rightarrow> char \<Rightarrow> lex_state option" where
  "lex_step (Sql d p) c =
     (if c = CHR 0x27 \<or> c = CHR 0x60 \<or> c = CHR 0x22 then Some (Quoted d c)
      else if c = CHR ''('' then Some (Sql (Suc d) c)
      else if c = CHR '')'' then (case d of 0 \<Rightarrow> None | Suc n \<Rightarrow> Some (Sql n c))
      else if c = CHR '';'' \<or> c = CHR ''#'' \<or> c = CHR ''$'' \<or> c = CHR 0xE2 \<or> c = CHR ''-'' \<and> p = CHR ''-'' \<or> c = CHR ''*'' \<and> p = CHR ''/'' then None
      else Some (Sql d c))"
| "lex_step (Quoted d q) c =
     (if c = CHR 0x5C then Some (Escaped d q) else if c = q then Some (Sql d c) else Some (Quoted d q))"
| "lex_step (Escaped d q) c = Some (Quoted d q)"

fun lex_run :: "lex_state \<Rightarrow> string \<Rightarrow> lex_state option" where
  "lex_run s [] = Some s"
| "lex_run s (c # cs) = (case lex_step s c of None \<Rightarrow> None | Some s' \<Rightarrow> lex_run s' cs)"

text \<open>A character after which no comment can start.\<close>

definition calm :: "char \<Rightarrow> bool" where
  "calm p \<longleftrightarrow> p \<noteq> CHR ''-'' \<and> p \<noteq> CHR ''/''"

text \<open>A text that the lexer leaves at the depth it met it, outside quotes and able to be continued.\<close>

definition closed :: "string \<Rightarrow> bool" where
  "closed s \<longleftrightarrow> (\<forall>d p. calm p \<longrightarrow> (\<exists>p'. calm p' \<and> lex_run (Sql d p) s = Some (Sql d p')))"

definition last_char :: "char \<Rightarrow> string \<Rightarrow> char" where
  "last_char p s = last (p # s)"

lemma lex_run_append: "lex_run s (a @ b) = (case lex_run s a of None \<Rightarrow> None | Some s' \<Rightarrow> lex_run s' b)"
  by (induction a arbitrary: s) (auto split: option.split)

lemma lex_step_last: "lex_step s c = Some (Sql d p) \<Longrightarrow> p = c"
  by (cases s) (auto split: if_splits nat.splits)

lemma lex_run_last: "lex_run (Sql d p) s = Some (Sql d' p') \<Longrightarrow> p' = last_char p s"
proof (cases s rule: rev_cases)
  case (snoc t c)
  assume "lex_run (Sql d p) s = Some (Sql d' p')"
  with snoc show ?thesis
    by (auto simp: lex_run_append last_char_def split: option.splits dest: lex_step_last)
qed (simp add: last_char_def)

lemma closed_run:
  assumes "closed a" "calm p"
  shows "lex_run (Sql d p) a = Some (Sql d (last_char p a))" "calm (last_char p a)"
proof -
  from assms obtain p' where p': "calm p'" "lex_run (Sql d p) a = Some (Sql d p')" unfolding closed_def by blast
  with lex_run_last [OF p'(2)] show "lex_run (Sql d p) a = Some (Sql d (last_char p a))" "calm (last_char p a)" by auto
qed

lemma closed_step [simp]:
  assumes "closed a" "calm p"
  shows "lex_run (Sql d p) (a @ t) = lex_run (Sql d (last_char p a)) t"
    and "lex_run (Sql d p) a = Some (Sql d (last_char p a))" and "calm (last_char p a)"
  unfolding lex_run_append closed_run(1) [OF assms] using closed_run(2) [OF assms] by simp_all

lemma closedI: "(\<And>d p. calm p \<Longrightarrow> \<exists>p'. calm p' \<and> lex_run (Sql d p) s = Some (Sql d p')) \<Longrightarrow> closed s"
  unfolding closed_def by blast

lemma calm_noteq: "calm p \<Longrightarrow> p \<noteq> CHR ''-''" "calm p \<Longrightarrow> p \<noteq> CHR ''/''"
  by (simp_all add: calm_def)

text \<open>Texts of constants and closed parts are closed by evaluation.\<close>

lemma calm_Char [simp]:
  "calm (Char b0 b1 b2 b3 b4 b5 b6 b7) \<longleftrightarrow>
     Char b0 b1 b2 b3 b4 b5 b6 b7 \<noteq> CHR ''-'' \<and> Char b0 b1 b2 b3 b4 b5 b6 b7 \<noteq> CHR ''/''"
  by (simp add: calm_def)

lemma closed_append [intro]: "closed a \<Longrightarrow> closed b \<Longrightarrow> closed (a @ b)"
  by (rule closedI) (simp add: calm_noteq)

lemma closed_Nil [simp]: "closed []"
  by (simp add: closed_def)

lemma closed_join: "\<forall>s\<in>set ss. closed s \<Longrightarrow> closed sep \<Longrightarrow> closed (join_with ss sep)"
  by (induction ss sep rule: join_with.induct) (auto intro!: closed_append)

lemma closed_concat: "\<forall>s\<in>set ss. closed s \<Longrightarrow> closed (concat ss)"
  by (induction ss) (auto intro!: closed_append)

section \<open>Quotes, numbers and types\<close>

lemma quoted_body: "lex_run (Quoted d q) (concat (map (\<lambda>c. if c = CHR 0x5C \<or> c = q then [CHR 0x5C, c] else [c]) s) @ [q]) = Some (Sql d q)"
  if "q \<noteq> CHR 0x5C"
  using that by (induction s) auto

lemma QuoteWith_closed: "q = CHR 0x27 \<or> q = CHR 0x60 \<Longrightarrow> closed (QuoteWith s q)"
  by (rule closedI) (auto simp: QuoteWith_def quoted_body)

lemma Quote_closed [simp, intro]: "closed (QuoteLiteral s)" "closed (QuoteIdentifier s)"
  by (simp_all add: QuoteLiteral_def QuoteIdentifier_def QuoteWith_closed)

text \<open>Characters that mean nothing to the lexer, whatever came before.\<close>

definition plain :: "char \<Rightarrow> bool" where
  "plain c \<longleftrightarrow> c \<notin> set [CHR 0x27, CHR 0x60, CHR 0x22, CHR ''('', CHR '')'', CHR '';'', CHR ''#'', CHR ''$'', CHR 0xE2, CHR ''-'', CHR ''*'', CHR ''/'']"

lemma plain_closed: "\<forall>c\<in>set s. plain c \<Longrightarrow> closed s"
proof (rule closedI)
  fix d p assume "\<forall>c\<in>set s. plain c" "calm p"
  then show "\<exists>p'. calm p' \<and> lex_run (Sql d p) s = Some (Sql d p')"
  proof (induction s arbitrary: p)
    case (Cons c s)
    then have c: "lex_step (Sql d p) c = Some (Sql d c)" "calm c" by (auto simp: plain_def calm_def)
    with Cons.IH [of c] Cons.prems show ?case by auto
  qed auto
qed

lemma digit_plain: "ascii_digit c \<Longrightarrow> plain c"
  by (auto simp: ascii_digit_def plain_def)

lemma to_string_closed [simp, intro]: "closed (to_string n)"
  by (rule plain_closed) (use to_string_digits digit_plain in blast)

lemma minus_closed: assumes "\<forall>c\<in>set s. plain c" "s \<noteq> []" shows "closed (CHR ''-'' # s)"
proof (rule closedI)
  fix d p assume p: "calm p"
  obtain c cs where s: "s = c # cs" using assms(2) by (cases s) auto
  with assms(1) have c: "lex_step (Sql d (CHR ''-'')) c = Some (Sql d c)" "calm c" "closed cs"
    by (auto simp: plain_def calm_def plain_closed)
  have "lex_step (Sql d p) (CHR ''-'') = Some (Sql d (CHR ''-''))" using p by (simp add: calm_def)
  then have "lex_run (Sql d p) (CHR ''-'' # s) = lex_run (Sql d c) cs" unfolding s by (simp only: lex_run.simps option.case c(1))
  with closed_run [OF c(3,2)] show "\<exists>p'. calm p' \<and> lex_run (Sql d p) (CHR ''-'' # s) = Some (Sql d p')" by simp
qed

lemma int_text_closed [simp, intro]: "closed (int_text n)"
proof -
  have "closed (CHR ''-'' # to_string m)" for m
    by (rule minus_closed) (use to_string_digits digit_plain to_string_nonempty in auto)
  then show ?thesis by (simp add: int_text_def)
qed

text \<open>A concrete text is closed by running the lexer on it.\<close>

lemma EnumTypeSql_closed:
  assumes "string_util_ok U" "EnumTypeSql U labels = Inr s"
  shows "closed s"
proof -
  obtain es where es: "mapE (\<lambda>(i, label).
             if str_find label (CHR 0x27) \<noteq> None \<or> str_find label (CHR 0x5C) \<noteq> None then
               Inl (Exn NotImplementedException ''ENUM label contains a quote or a backslash'' [QuoteLiteral label])
             else Inr (QuoteLiteral label @ '' = '' @ to_string (Suc i))) (enumerate 0 labels) = Inr es"
    "s = (if length labels \<le> 127 then ''Enum8('' else ''Enum16('') @ join_with es '', '' @ '')''"
    using assms by (auto simp: EnumTypeSql_def Let_def string_util_laws split: if_splits)
  have "closed e" if "e \<in> set es" for e
  proof -
    from mapE_set [OF es(1) that] obtain i label where "e = QuoteLiteral label @ '' = '' @ to_string (Suc i)"
      by (auto split: if_splits)
    moreover have "closed ('' = '' @ to_string (Suc i))" by (rule closedI) (simp add: calm_noteq)
    ultimately show ?thesis by (simp add: closed_append)
  qed
  moreover have "closed '', ''" by (rule closedI) (simp add: calm_noteq)
  ultimately have "closed (join_with es '', '')" by (intro closed_join) auto
  then show ?thesis unfolding es(2) by (intro closedI) (simp add: calm_noteq)
qed


lemma Nullable_closed: "closed r \<Longrightarrow> closed (if n then ''Nullable('' @ r @ '')'' else r)"
  by (cases n) (auto intro!: closedI simp: calm_noteq)

lemma ToClickhouse_closed: "ToClickhouse U T t n = Inr s \<Longrightarrow> string_util_ok U \<Longrightarrow> closed s"
proof (induction U T t n arbitrary: s rule: ToClickhouse.induct)
  case (1 U T t n)
  note U = "1.prems"(2) and run = "1.prems"(1) [unfolded ToClickhouse.simps [of U T t n]]
  consider (list) c where "t = LIST c" | (fields) fs where "t = STRUCT fs \<or> t = TUPLE fs" | (map) k v where "t = MAP k v"
    | (enum) ls where "t = ENUM ls" | (decimal) w sc where "t = DECIMAL w sc"
    | (flat) "\<forall>c k v fs ls w sc. t \<noteq> LIST c \<and> t \<noteq> STRUCT fs \<and> t \<noteq> TUPLE fs \<and> t \<noteq> MAP k v \<and> t \<noteq> ENUM ls \<and> t \<noteq> DECIMAL w sc"
    by (cases t) auto
  then show ?case
  proof cases
    case list
    with run obtain a where a: "ToClickhouse U T c True = Inr a" "s = ''Array('' @ a @ '')''" by auto
    have "closed a" by (rule "1.IH"(1) [OF _ _ a(1) U]) (use list in auto)
    then show ?thesis unfolding a(2) by (intro closedI) (simp add: calm_noteq)
  next
    case fields
    then have "TupleSql U T t (\<lambda>c. ToClickhouse U T c True) fs = Inr s" using run by auto
    then obtain parts where parts: "mapE (\<lambda>(name, child).
         if IsUnnamed T t \<or> name = [] then
           Inl (Exn NotImplementedException ''STRUCT fields must be named'' [type_ToString T t])
         else bindE (ToClickhouse U T child True) (\<lambda>s. Inr (QuoteIdentifier name @ '' '' @ s))) fs = Inr parts"
      "s = ''Tuple('' @ join_with parts '', '' @ '')''" using U by (auto simp: TupleSql_def string_util_laws)
    have "closed p" if p: "p \<in> set parts" for p
    proof -
      from mapE_set [OF parts(1) p] obtain name child a where f: "(name, child) \<in> set fs" "ToClickhouse U T child True = Inr a"
        "p = QuoteIdentifier name @ '' '' @ a" by (auto split: if_splits)
      have "closed a" using fields
      proof
        assume "t = STRUCT fs"
        with f(1) show ?thesis by (intro "1.IH"(2) [OF _ _ _ f(2) U]) (auto intro: rev_image_eqI)
      next
        assume "t = TUPLE fs"
        with f(1) show ?thesis by (intro "1.IH"(3) [OF _ _ _ f(2) U]) (auto intro: rev_image_eqI)
      qed
      then show ?thesis unfolding f(3) by (intro closedI) (simp add: calm_noteq)
    qed
    moreover have "closed '', ''" by (rule closedI) (simp add: calm_noteq)
    ultimately have "closed (join_with parts '', '')" by (intro closed_join) auto
    then show ?thesis unfolding parts(2) by (intro closedI) (simp add: calm_noteq)
  next
    case map
    with run obtain a b where ab: "ToClickhouse U T k False = Inr a" "ToClickhouse U T v True = Inr b"
      "s = ''Map('' @ a @ '', '' @ b @ '')''" by auto
    have "closed a" by (rule "1.IH"(4) [OF _ _ ab(1) U]) (use map in auto)
    moreover have "closed b" by (rule "1.IH"(5) [OF _ _ _ ab(2) U]) (use map ab(1) in auto)
    ultimately show ?thesis unfolding ab(3) by (intro closedI) (simp add: calm_noteq)
  next
    case enum
    with run obtain r where "EnumTypeSql U ls = Inr r" "s = (if n then ''Nullable('' @ r @ '')'' else r)" by (auto simp: Let_def)
    with EnumTypeSql_closed [OF U] Nullable_closed show ?thesis by auto
  next
    case decimal
    with run have s: "s = (if n then ''Nullable('' @ (''Decimal('' @ to_string w @ '', '' @ to_string sc @ '')'') @ '')''
        else ''Decimal('' @ to_string w @ '', '' @ to_string sc @ '')'')" by (auto simp: Let_def)
    show ?thesis unfolding s by (rule Nullable_closed, rule closedI) (simp add: calm_noteq)
  next
    case flat
    with run show ?thesis by (cases t) (auto simp: Let_def calm_noteq intro!: closedI split: if_splits)
  qed
qed


section \<open>The translation is closed\<close>

text \<open>DuckDB prints numbers without quotes, brackets or comment signs.\<close>

definition number_texts_closed :: "duck_api \<Rightarrow> bool" where
  "number_texts_closed A \<longleftrightarrow>
     (\<forall>v. value_type v \<in> {TINYINT, SMALLINT, INTEGER, BIGINT, UTINYINT, USMALLINT, UINTEGER, UBIGINT, FLOAT, DOUBLE} \<longrightarrow>
        closed (value_ToString A v))"

lemma TransformConstant_closed:
  "TransformConstant A v = Inr s \<Longrightarrow> number_texts_closed A \<Longrightarrow> closed s"
  by (auto simp: TransformConstant_def number_texts_closed_def Let_def calm_noteq intro!: closedI split: if_splits logical_type.splits)

lemma FloatingPointLiteral_closed:
  assumes "number_texts_closed A" "value_type v \<in> {FLOAT, DOUBLE}"
  shows "closed (FloatingPointLiteral A v)"
proof -
  have "closed (value_ToString A v)" using assms by (auto simp: number_texts_closed_def)
  moreover have "closed ''nan''" "closed ''inf''" "closed ''-inf''" by (rule closedI, simp add: calm_noteq)+
  ultimately show ?thesis by (auto simp: FloatingPointLiteral_def split: duck_value.splits duck_double.splits)
qed

lemma Literal_closed:
  assumes "Literal A v = Inr s" "number_texts_closed A"
  shows "closed s"
proof (cases "value_type v \<in> {FLOAT, DOUBLE}")
  case True
  note f = FloatingPointLiteral_closed [OF assms(2) True]
  from True assms(1) have "s = ''NULL'' \<or> s = ''toFloat32('' @ FloatingPointLiteral A v @ '')'' \<or> s = FloatingPointLiteral A v"
    by (auto simp: Literal_def split: if_splits)
  moreover have "closed ''NULL''" by (rule closedI) (simp add: calm_noteq)
  moreover have "closed (''toFloat32('' @ FloatingPointLiteral A v @ '')'')" using f by (intro closedI) (simp add: calm_noteq)
  ultimately show ?thesis using f by auto
next
  case False
  show ?thesis
  proof (cases "IsNull v \<or> value_type v = UUID \<or> value_type v = TIMESTAMP_NS")
    case True
    with assms(1) show ?thesis
      by (auto simp: Literal_def calm_noteq intro!: closedI split: if_splits)
  next
    case other: False
    with False assms(1) have "\<exists>w. TransformConstant A w = Inr s"
      by (auto simp: Literal_def split: logical_type.splits)
    with TransformConstant_closed assms(2) show ?thesis by blast
  qed
qed

text \<open>Results whose text, if there is one, is closed.\<close>

definition safe :: "string res \<Rightarrow> bool" where
  "safe m \<longleftrightarrow> (\<forall>s. m = Inr s \<longrightarrow> closed s)"

lemma safe_simps [simp]: "safe (Inl ex)" "safe (Inr s) \<longleftrightarrow> closed s"
  by (simp_all add: safe_def)

lemma safe_intros: "safe (Inl ex)" "closed s \<Longrightarrow> safe (Inr s)"
  "(b \<Longrightarrow> safe m) \<Longrightarrow> (\<not> b \<Longrightarrow> safe m') \<Longrightarrow> safe (if b then m else m')"
  by simp_all

lemma safe_bind: "safe m \<Longrightarrow> (\<And>x. closed x \<Longrightarrow> safe (f x)) \<Longrightarrow> safe (bindE m f)"
  by (auto simp: safe_def)

lemma safe_bind_other: "(\<And>x. m = Inr x \<Longrightarrow> safe (f x)) \<Longrightarrow> safe (bindE m f)"
  by (auto simp: safe_def)

lemma safe_mapE: "(\<And>x. x \<in> set xs \<Longrightarrow> safe (f x)) \<Longrightarrow> mapE f xs = Inr ss \<Longrightarrow> \<forall>s\<in>set ss. closed s"
  by (auto simp: safe_def dest: mapE_set)

lemma comma_closed: "closed '', ''" "closed '' AND ''" "closed '' OR ''"
  by (rule closedI, simp add: calm_noteq)+

lemma Join_closed:
  "string_util_ok U \<Longrightarrow> \<forall>s\<in>set ss. closed s \<Longrightarrow> closed sep \<Longrightarrow> closed (Join U ss sep)"
  by (simp add: string_util_laws closed_join)

lemma InList_closed:
  assumes "string_util_ok U" "closed left" "\<forall>s\<in>set vals. closed s"
  shows "closed (InList U left vals n)"
  using assms(2) Join_closed [OF assms(1,3) comma_closed(1)]
  by (intro closedI) (cases n; simp add: InList_def calm_noteq)

lemma call_safe:
  "closed f \<Longrightarrow> safe (arg 0) \<Longrightarrow> safe (call1 f arg)"
  "closed f \<Longrightarrow> safe (arg 0) \<Longrightarrow> safe (arg 1) \<Longrightarrow> safe (call2 f arg)"
  by (auto simp: call1_def call2_def calm_noteq intro!: safe_bind closedI)

lemma infix_safe:
  "safe (arg 0) \<Longrightarrow> safe (arg 1) \<Longrightarrow> op \<in> set arithmetic_names \<Longrightarrow> op \<noteq> ''//'' \<Longrightarrow> safe (infix_op op arg)"
  by (auto simp: infix_op_def arithmetic_names_def calm_noteq intro!: safe_bind closedI)

lemma function_names_closed:
  "closed ''negate''" "closed ''intDiv''" "closed ''concat''" "closed ''startsWith''" "closed ''endsWith''" "closed ''position''"
  "closed ''lowerUTF8''" "closed ''upperUTF8''" "closed ''lengthUTF8''" "closed ''isNaN''"
  by (rule closedI, simp add: calm_noteq)+

lemma ArithmeticResult_closed: "closed s \<Longrightarrow> closed (ArithmeticResult rt s)"
  by (auto simp: ArithmeticResult_def calm_noteq intro!: closedI)

lemma TranslateArithmetic_safe:
  assumes "\<And>i. i < n \<Longrightarrow> safe (arg i)" "name \<in> set arithmetic_names"
  shows "safe (TranslateArithmetic T A e name rt n arg)"
proof -
  have args: "n = 1 \<Longrightarrow> safe (arg 0)" "n = 2 \<Longrightarrow> safe (arg 0)" "n = 2 \<Longrightarrow> safe (arg 1)" using assms(1) by auto
  show ?thesis unfolding TranslateArithmetic_def Let_def
    by (intro safe_intros safe_bind call_safe infix_safe ArithmeticResult_closed function_names_closed) (use args assms(2) in auto)
qed

lemma LikePattern_safe: "safe (LikePattern U A p)"
  by (auto simp: LikePattern_def intro!: safe_bind_other split: duck_expr.splits)


lemma TranslateFunction_safe:
  assumes "\<And>i. i < length children \<Longrightarrow> safe (arg i)"
  shows "safe (TranslateFunction U T A e name rt children arg)"
proof -
  let ?n = "length children"
  have args: "?n = 1 \<Longrightarrow> safe (arg 0)" "?n = 2 \<Longrightarrow> safe (arg 0)" "?n = 2 \<Longrightarrow> safe (arg 1)" using assms by auto
  have like: "closed (''('' @ a @ (if neg then '' NOT '' else '' '') @ (if i then ''ILIKE'' else ''LIKE'') @ '' '' @ p @ '')'')"
    if "closed a" "closed p" for a p neg i
    using that by (cases neg; cases i) (intro closedI, simp add: calm_noteq)+
  have pos: "closed (''('' @ a @ '' > 0)'')" if "closed a" for a using that by (intro closedI) (simp add: calm_noteq)
  show ?thesis unfolding TranslateFunction_def Let_def
    by (intro safe_intros safe_bind [OF LikePattern_safe] safe_bind call_safe function_names_closed TranslateArithmetic_safe pos)
      (use args assms like in auto)
qed

lemma TranslateOperator_safe:
  assumes "\<And>i. i < length children \<Longrightarrow> safe (arg i)" "string_util_ok U"
  shows "safe (TranslateOperator U A e t children arg)"
proof -
  have first: "length children = 1 \<Longrightarrow> safe (arg 0)" "\<not> length children < 2 \<Longrightarrow> safe (arg 0)"
    using assms(1) by (force, force)
  have unary: "closed (''(NOT '' @ a @ '')'')" "closed (''('' @ a @ '' IS NULL)'')" "closed (''('' @ a @ '' IS NOT NULL)'')"
    if "closed a" for a using that by (intro closedI, simp add: calm_noteq)+
  have all: "safe (bindE (mapE arg [0..<length children]) (\<lambda>vals. Inr (''coalesce('' @ Join U vals '', '' @ '')'')))"
  proof (rule safe_bind_other)
    fix vals assume "mapE arg [0..<length children] = Inr vals"
    from safe_mapE [OF _ this] assms(1) have "\<forall>s\<in>set vals. closed s" by auto
    from Join_closed [OF assms(2) this comma_closed(1)] show "safe (Inr (''coalesce('' @ Join U vals '', '' @ '')''))"
      by (auto intro!: closedI simp: calm_noteq)
  qed
  have list: "safe (bindE (mapE (\<lambda>i. if \<not> is_plain_constant (children ! i) then Inl ex else arg i) [1..<length children]) (\<lambda>vals.
      bindE (arg 0) (\<lambda>left. Inr (InList U left vals n))))" if "safe (arg 0)" for ex n
  proof (rule safe_bind_other)
    fix vals assume v: "mapE (\<lambda>i. if \<not> is_plain_constant (children ! i) then Inl ex else arg i) [1..<length children] = Inr vals"
    have "\<forall>s\<in>set vals. closed s" by (rule safe_mapE [OF _ v]) (use assms(1) in auto)
    then show "safe (bindE (arg 0) (\<lambda>left. Inr (InList U left vals n)))"
      by (intro safe_bind [OF that]) (simp add: InList_closed [OF assms(2)])
  qed
  show ?thesis unfolding TranslateOperator_def Let_def
    by (cases t) (use first all list unary in \<open>auto intro!: safe_bind\<close>)
qed

lemma CastSql_closed:
  assumes "closed s" "closed t"
  shows "closed (CastSql r s target t)"
  using assms by (cases r; cases target) (auto simp: CastSql_def calm_noteq intro!: closedI)

theorem Translate_closed:
  assumes U: "string_util_ok U" and A: "number_texts_closed A" and refs: "\<And>i. safe (resolve i)"
  shows "safe (Translate U T A resolve e)"
proof (induction e rule: measure_induct_rule [of size])
  case (less e)
  show ?case
  proof (cases e)
    case (Constant v)
    show ?thesis unfolding Translate.simps [of _ _ _ _ e] unfolding Constant duck_expr.case TranslateConstant_def
      using Literal_closed [OF _ A] by (auto split: sum.split)
  next
    case (Conjunction t children)
    have parts: "safe (bindE (ConjunctionSeparator A e t) (\<lambda>separator. Inr (''('' @ Join U parts separator @ '')'')))"
      if "mapE (Translate U T A resolve) children = Inr parts" for parts
    proof -
      have p: "\<forall>s\<in>set parts. closed s"
        by (rule safe_mapE [OF less.IH that]) (use Conjunction size_mem in simp)
      have "closed (''('' @ Join U parts sep @ '')'')" if "sep = '' AND '' \<or> sep = '' OR ''" for sep
        using Join_closed [OF U p, of sep] that comma_closed by (auto intro!: closedI simp: calm_noteq)
      then show ?thesis by (auto simp: ConjunctionSeparator_def)
    qed
    show ?thesis unfolding Translate.simps [of _ _ _ _ e] unfolding Conjunction duck_expr.case
      by (intro safe_intros safe_bind_other [OF parts [unfolded Conjunction]])
  next
    case (Operator t rt children)
    show ?thesis unfolding Translate.simps [of _ _ _ _ e] unfolding Operator duck_expr.case
      by (rule TranslateOperator_safe [OF less.IH U]) (use Operator size_nth in simp)
  next
    case (FunctionCall name rt children)
    show ?thesis unfolding Translate.simps [of _ _ _ _ e] unfolding FunctionCall duck_expr.case
      by (rule TranslateFunction_safe [OF less.IH]) (use FunctionCall size_nth in simp)
  next
    case (Comparison t l r)
    have "safe (Translate U T A resolve l)" "safe (Translate U T A resolve r)" by (rule less.IH, simp add: Comparison)+
    then show ?thesis unfolding Translate.simps [of _ _ _ _ e] unfolding Comparison duck_expr.case TranslateComparison_def
      by (intro safe_bind safe_intros safe_bind_other)
        (auto simp: ComparisonOperator_def calm_noteq intro!: safe_bind closedI split: expr_type.splits)
  next
    case (CastExpr tc c t)
    have "safe (Translate U T A resolve c)" by (rule less.IH) (simp add: CastExpr)
    then have "safe (bindE (Translate U T A resolve c) (\<lambda>s. Inr (CastSql r s t ct)))" if "ToClickhouse U T t True = Inr ct" for r ct
      using CastSql_closed ToClickhouse_closed [OF that U] by (auto intro!: safe_bind)
    then show ?thesis unfolding Translate.simps [of _ _ _ _ e] unfolding CastExpr duck_expr.case TranslateCast_def
      by (auto split: sum.split)
  next
    case (Between li ui i l u)
    have "safe (Translate U T A resolve i)" "safe (Translate U T A resolve l)" "safe (Translate U T A resolve u)"
      by (rule less.IH, simp add: Between)+
    then show ?thesis unfolding Translate.simps [of _ _ _ _ e] unfolding Between duck_expr.case TranslateBetween_def
      by (intro safe_bind safe_intros) (cases li; cases ui; auto intro!: closedI simp: calm_noteq)+
  next
    case (CaseExpr checks els t)
    let ?check = "\<lambda>(w, th). bindE (Translate U T A resolve w) (\<lambda>a. bindE (Translate U T A resolve th) (\<lambda>b.
      Inr ('' WHEN '' @ a @ '' THEN '' @ b)))"
    have check: "safe (?check c)" if "c \<in> set checks" for c
    proof -
      obtain w th where c: "c = (w, th)" by (cases c)
      have "size w < size e" "size th < size e" using size_pair [of w th checks] that c CaseExpr by auto
      from less.IH [OF this(1)] less.IH [OF this(2)] show ?thesis unfolding c prod.case
        by (intro safe_bind safe_intros) (auto intro!: closedI simp: calm_noteq)
    qed
    have els: "safe (Translate U T A resolve els)" by (rule less.IH) (simp add: CaseExpr)
    have "safe (bindE (Translate U T A resolve els) (\<lambda>c. Inr (''(CASE'' @ concat parts @ '' ELSE '' @ c @ '' END)'')))"
      if "mapE ?check checks = Inr parts" for parts
    proof -
      have "\<forall>s\<in>set parts. closed s" by (rule safe_mapE [OF check that])
      from closed_concat [OF this] show ?thesis
        by (intro safe_bind [OF els] safe_intros) (auto intro!: closedI simp: calm_noteq)
    qed
    then show ?thesis unfolding Translate.simps [of _ _ _ _ e] unfolding CaseExpr duck_expr.case
      by (rule safe_bind_other)
  qed (use refs in \<open>simp_all add: Translate.simps\<close>)
qed

end
