(* ===== verification/DmlSafety.thy ===== *)
theory DmlSafety
  imports Dml ExpressionSafety
begin

text \<open>
  The statements of \<open>clickhouse_dml.cpp\<close> as texts: whatever the names, labels and constants in a plan, what is sent
  is lexically closed, so no value leaves its place in the statement.
\<close>

section \<open>Columns\<close>

lemma variable_closed: "closed (''x'' @ to_string n)"
  by (intro closedI) (simp add: calm_noteq)

lemma element_closed: "closed expr \<Longrightarrow> closed (''tupleElement('' @ expr @ '', '' @ to_string (Suc i) @ '')'')"
  by (intro closedI) (simp add: calm_noteq)

lemma ArrayReadExpression_safe:
  assumes "safe (f element (''x'' @ to_string depth) (Suc depth))" "closed expr"
  shows "safe (ArrayReadExpression f element expr depth)"
  unfolding ArrayReadExpression_def Let_def
  by (rule safe_bind [OF assms(1)]) (use assms(2) in \<open>auto intro!: closedI simp: calm_noteq\<close>)

lemma fields_safe:
  assumes "string_util_ok U" "closed expr" "\<And>c x. c \<in> set children \<Longrightarrow> closed x \<Longrightarrow> safe (f c x)"
  shows "safe (bindE (mapE (\<lambda>(i, c). f c (''tupleElement('' @ expr @ '', '' @ to_string (Suc i) @ '')'')) (enumerate 0 children))
    (\<lambda>elements. if elements = es then Inr expr else Inr (''tuple('' @ Join U elements '', '' @ '')'')))"
proof (rule safe_bind_other)
  fix elements
  assume run: "mapE (\<lambda>(i, c). f c (''tupleElement('' @ expr @ '', '' @ to_string (Suc i) @ '')'')) (enumerate 0 children) = Inr elements"
  have "\<forall>s\<in>set elements. closed s"
  proof (rule safe_mapE [OF _ run])
    fix x assume "x \<in> set (enumerate 0 children)"
    then obtain i c where x: "x = (i, c)" and mem: "(i, c) \<in> set (enumerate 0 children)" by (metis surj_pair)
    from mem have "c \<in> set children" by (auto simp: in_set_enumerate_eq)
    then show "safe (case x of (i, c) \<Rightarrow> f c (''tupleElement('' @ expr @ '', '' @ to_string (Suc i) @ '')''))"
      unfolding x prod.case by (intro assms(3) element_closed assms(2))
  qed
  from Join_closed [OF assms(1) this comma_closed(1)] assms(2)
  show "safe (if elements = es then Inr expr else Inr (''tuple('' @ Join U elements '', '' @ '')''))"
    by (auto intro!: closedI simp: calm_noteq)
qed

lemma read_calls_closed:
  assumes "closed expr"
  shows "closed (''toString('' @ expr @ '')'')" "closed (''toFloat32('' @ expr @ '')'')" "closed (''wkt('' @ expr @ '')'')"
    "closed (''toJSONString('' @ expr @ '')'')" "closed (''mapKeys('' @ expr @ '')'')" "closed (''mapValues('' @ expr @ '')'')"
  using assms by (intro closedI, simp add: calm_noteq)+

lemma arrayZip_closed: "closed a \<Longrightarrow> closed b \<Longrightarrow> closed (''arrayZip('' @ a @ '', '' @ b @ '')'')"
  by (intro closedI) (simp add: calm_noteq)

lemma ReadExpressionInternal_safe:
  "string_util_ok U \<Longrightarrow> closed expr \<Longrightarrow> safe (ReadExpressionInternal U node expr depth)"
proof (induction node arbitrary: expr depth rule: measure_induct_rule [of size])
  case (less node)
  note U = less.prems(1) and expr = less.prems(2)
  have child: "safe (ReadExpressionInternal U c x d)" if "c \<in> set (node_children (Unwrap node))" "closed x" for c x d
    by (rule less.IH [OF _ U that(2)]) (use Unwrap_child_size that(1) in blast)
  have nth: "length (node_children (Unwrap node)) = Suc n \<Longrightarrow> m \<le> n \<Longrightarrow> node_children (Unwrap node) ! m \<in> set (node_children (Unwrap node))"
    for n m by simp
  have array: "safe (ArrayReadExpression (ReadExpressionInternal U) c x d)" if "c \<in> set (node_children (Unwrap node))" "closed x" for c x d
    by (intro ArrayReadExpression_safe child variable_closed that)
  have fields: "safe (bindE (mapE (\<lambda>(i, c). ReadExpressionInternal U c (''tupleElement('' @ expr @ '', '' @ to_string (Suc i) @ '')'') (Suc depth))
    (enumerate 0 (node_children (Unwrap node)))) (\<lambda>elements. if elements = es then Inr expr else Inr (''tuple('' @ Join U elements '', '' @ '')'')))" for es
    by (rule fields_safe [OF U expr, where f = "\<lambda>c x. ReadExpressionInternal U c x (Suc depth)"]) (rule child)
  show ?case unfolding ReadExpressionInternal.simps [of U node expr] Let_def
  proof (rule safe_bind_other, goal_cases)
    case (1 info)
    show ?case
    proof (cases info)
      case None
      show ?thesis unfolding None option.case
        by (intro safe_intros fields safe_bind array read_calls_closed arrayZip_closed expr nth) auto
    qed (use expr read_calls_closed [OF expr] in \<open>simp split: prod.split\<close>)
  qed
qed

lemma ReadExpression_safe: "string_util_ok U \<Longrightarrow> closed expr \<Longrightarrow> safe (ReadExpression U node expr)"
  by (simp add: ReadExpression_def ReadExpressionInternal_safe)

lemma ColumnSql_safe: "string_util_ok U \<Longrightarrow> safe (ColumnSql U bd column_id)"
  unfolding ColumnSql_def Let_def
  by (cases column_id) (auto intro!: safe_bind_other ReadExpression_safe)

section \<open>References and conditions\<close>

lemma ResolveOutput_safe:
  assumes U: "string_util_ok U" and A: "number_texts_closed A"
  shows "safe (ResolveOutput U T A op index)"
proof (induction op arbitrary: index rule: measure_induct_rule [of size])
  case (less op)
  show ?case unfolding ResolveOutput.simps [of _ _ _ op]
  proof (rule safe_bind_other, goal_cases)
    case (1 step)
    have next_safe: "safe (ResolveOutput U T A n i)" if "step = PassThrough n i" for n i
      by (rule less.IH) (use PassThrough_size 1 that in blast)
    have expr_safe: "safe (bindE (Translate U T A (\<lambda>i. ResolveOutput U T A child i) e) (\<lambda>s. Inr (''('' @ s @ '')'')))"
      if "op = ProjectionPlan es child rest" for es child rest e
      by (rule safe_bind [OF Translate_closed [OF U A]]) (use less.IH that in \<open>auto intro!: closedI simp: calm_noteq\<close>)
    show ?case
      using next_safe expr_safe ColumnSql_safe [OF U]
      by (auto simp: Let_def split: dml_plan.split reference_step.split option.split)
  qed
qed

lemma TableFilterParts_closed:
  "(\<And>e. e \<in> set es \<Longrightarrow> safe (TranslateTableFilterExpression U T A column e)) \<Longrightarrow>
     TableFilterParts U T A column is_and es = Inr ss \<Longrightarrow> \<forall>s\<in>set ss. closed s"
proof (induction es arbitrary: ss)
  case (Cons e es)
  from Cons.prems(2) obtain part where part: "TranslateTableFilterExpression U T A column e = Inr part"
    and rest: "TableFilterParts U T A column is_and es = Inr ss \<or>
      (\<exists>tail. TableFilterParts U T A column is_and es = Inr tail \<and> ss = part # tail)"
    by (auto split: if_splits)
  have "closed part" using Cons.prems(1) [of e] part by simp
  with rest Cons.IH Cons.prems(1) show ?case by auto
qed simp

lemma TranslateTableFilterExpression_safe:
  assumes U: "string_util_ok U" and A: "number_texts_closed A" and column: "closed column"
  shows "safe (TranslateTableFilterExpression U T A column e)"
proof (induction e rule: measure_induct_rule [of size])
  case (less e)
  have tr: "safe (Translate U T A (\<lambda>i. if i \<noteq> 0 then Inl (unsupported ''filter referencing another column'' []) else Inr column) e)" for e
    by (rule Translate_closed [OF U A]) (simp add: column)
  have parts: "safe (bindE (TableFilterParts U T A column is_and children) (\<lambda>parts.
      if parts = [] then (if is_and then Inr [] else Inl ex)
      else Inr (''('' @ Join U parts (if is_and then '' AND '' else '' OR '') @ '')'')))"
    if e: "e = Conjunction t children" for t children is_and ex
  proof (rule safe_bind_other)
    fix ps assume "TableFilterParts U T A column is_and children = Inr ps"
    then have "\<forall>s\<in>set ps. closed s"
      by (rule TableFilterParts_closed [rotated], intro less.IH) (use size_mem e in simp)
    from Join_closed [OF U this comma_closed(2)] Join_closed [OF U this comma_closed(3)]
    show "safe (if ps = [] then (if is_and then Inr [] else Inl ex)
      else Inr (''('' @ Join U ps (if is_and then '' AND '' else '' OR '') @ '')''))"
      by (cases is_and) (auto intro!: closedI simp: calm_noteq)
  qed
  show ?case
  proof (cases "\<exists>t children. e = Conjunction t children")
    case True
    then obtain t children where e: "e = Conjunction t children" by blast
    show ?thesis unfolding TranslateTableFilterExpression.simps [of _ _ _ _ e] unfolding e duck_expr.case Let_def
      by (intro safe_intros parts [OF e]) simp
  next
    case False
    then show ?thesis unfolding TranslateTableFilterExpression.simps [of _ _ _ _ e]
      using tr [of e] by (cases e) simp_all
  qed
qed

lemma TranslateTableFilter_safe:
  assumes "string_util_ok U" "number_texts_closed A" "closed column"
  shows "safe (TranslateTableFilter U T A flt column_type column)"
  unfolding TranslateTableFilter_def using TranslateTableFilterExpression_safe [OF assms]
  by (cases flt) (auto intro!: safe_bind_other)

lemma InListValues_closed:
  "number_texts_closed A \<Longrightarrow> InListValues A vs = Inr ss \<Longrightarrow> \<forall>s\<in>set ss. closed s"
  by (induction vs arbitrary: ss) (auto split: if_splits dest: Literal_closed)

lemma TranslateInListFilter_safe:
  assumes U: "string_util_ok U" and A: "number_texts_closed A"
  shows "safe (TranslateInListFilter U T A e input)"
proof -
  have list: "safe (bindE (Translate U T A (ResolveOutput U T A l) c) (\<lambda>left. bindE (InListValues A vs) (\<lambda>vals.
      if vals = [] then Inl ex else Inr (InList U left vals n))))" for l c vs ex n
    by (rule safe_bind [OF Translate_closed [OF U A ResolveOutput_safe [OF U A]]], rule safe_bind_other)
      (use InListValues_closed [OF A] InList_closed [OF U] in auto)
  have inner: "safe (let (negated, inner) = p in case inner of
      Some (BoundRef i t) \<Rightarrow> bindE (FindMarkJoin input i) (\<lambda>found. case found of
          None \<Rightarrow> Inr []
        | Some (join, left_input, constants) \<Rightarrow>
            bindE (Translate U T A (ResolveOutput U T A left_input) (cond_lhs (hd (join_conditions join)))) (\<lambda>left.
            bindE (InListValues A (concat constants)) (\<lambda>vals.
              if vals = [] then Inl (unsupported IN_LIST_JOIN []) else Inr (InList U left vals negated))))
    | _ \<Rightarrow> Inr [])" for p
    using list by (auto intro!: safe_bind_other split: option.split duck_expr.split prod.split)
  show ?thesis unfolding TranslateInListFilter_def by (rule inner)
qed

lemma FilterCondition_safe:
  assumes U: "string_util_ok U" and A: "number_texts_closed A"
  shows "safe (FilterCondition U T A input e)"
  unfolding FilterCondition_def
  by (rule safe_bind [OF TranslateInListFilter_safe [OF U A]])
    (simp add: Translate_closed [OF U A ResolveOutput_safe [OF U A]])

lemma PlanConditions_closed:
  assumes U: "string_util_ok U" and A: "number_texts_closed A" and run: "PlanConditions U T A filters = Inr cs"
  shows "\<forall>c\<in>set cs. closed c"
proof
  fix c assume "c \<in> set cs"
  with run obtain css cs' where css: "mapE (\<lambda>(es, input). mapE (FilterCondition U T A input) es) filters = Inr css"
    "cs' \<in> set css" "c \<in> set cs'" by (auto simp: PlanConditions_def)
  from mapE_set [OF css(1,2)] obtain es input where "mapE (FilterCondition U T A input) es = Inr cs'" by auto
  from safe_mapE [OF FilterCondition_safe [OF U A] this] css(3) show "closed c" by simp
qed

lemma ScanConditions_closed:
  assumes U: "string_util_ok U" and A: "number_texts_closed A"
  shows "ScanConditions U T A bd ids fs = Inr cs \<Longrightarrow> \<forall>c\<in>set cs. closed c"
proof (induction fs arbitrary: cs)
  case (Cons f fs)
  obtain i flt where f: "f = (i, flt)" by (cases f)
  with Cons.prems obtain column_id column sql cs' where
    column: "ColumnSql U bd (Some column_id) = Inr column" and
    sql: "TranslateTableFilter U T A flt (col_type (bd_columns bd ! column_id)) column = Inr sql" and
    cs': "ScanConditions U T A bd ids fs = Inr cs'" "cs = (if sql \<noteq> [] then sql # cs' else cs')"
    by (auto split: if_splits option.splits)
  have "closed column" using ColumnSql_safe [OF U, of bd "Some column_id"] column by simp
  with TranslateTableFilter_safe [OF U A this] sql have "closed sql" by (metis safe_simps(2))
  with Cons.IH [OF cs'(1)] cs'(2) show ?case by auto
qed simp

lemma TargetConditions_closed:
  assumes U: "string_util_ok U" and A: "number_texts_closed A" and run: "TargetConditions U T A table child = Inr (Some cs)"
  shows "\<forall>c\<in>set cs. closed c"
proof -
  from run obtain filters bottom where "CollectFilters child = Inr (filters, bottom)"
    by (cases "CollectFilters child") (auto simp: TargetConditions_def)
  with run obtain get where bottom: "CollectFilters child = Inr (filters, ScanPlan get)"
    by (cases bottom) (auto simp: TargetConditions_def)
  with run obtain bd entry where "scan_bind get = Some (bd, entry)"
    by (cases "scan_bind get") (auto simp: TargetConditions_def)
  with run bottom obtain xs ys where "ScanConditions U T A bd (scan_columns get) (scan_filters get) = Inr xs"
    "PlanConditions U T A filters = Inr ys" "cs = xs @ ys"
    by (auto simp: TargetConditions_def split: if_splits)
  with ScanConditions_closed [OF U A] PlanConditions_closed [OF U A] show ?thesis by auto
qed

lemma QualifiedName_closed: "closed (QualifiedName db table)"
  unfolding QualifiedName_def by (rule closedI) (simp add: calm_noteq)

lemma AnalyzeTarget_closed:
  assumes U: "string_util_ok U" and A: "number_texts_closed A" and run: "AnalyzeTarget U T A D statement table child = Inr target"
  shows "closed (predicate target)" "closed (qualified_name target)"
proof -
  let ?entry = "table_info table"
  from run have "qualified_name target = QualifiedName (te_schema ?entry) (te_name ?entry) \<and>
      (predicate target = [] \<or> (\<exists>cs. TargetConditions U T A table child = Inr (Some cs) \<and> predicate target = Join U cs '' AND ''))"
    by (auto simp: AnalyzeTarget_def Let_def rethrow_shape_def split: if_splits option.splits sum.splits)
  with TargetConditions_closed [OF U A] Join_closed [OF U _ comma_closed(2)] QualifiedName_closed
  show "closed (predicate target)" "closed (qualified_name target)" by auto
qed

section \<open>DELETE\<close>

definition statement_closed :: "dml_statement \<Rightarrow> bool" where
  "statement_closed st \<longleftrightarrow> closed (st_sql st) \<and> closed (count_sql st) \<and> closed (check_sql st) \<and> closed (null_check_sql st)"

lemma delete_texts_closed:
  assumes "closed q" "closed p"
  shows "closed (''SELECT count() FROM '' @ q)" "closed (''TRUNCATE TABLE '' @ q)" "closed ('' WHERE '' @ p)" "closed (''DELETE FROM '' @ q)"
  using assms by (intro closedI, simp add: calm_noteq)+

text \<open>
  C15. No value or name in a DELETE leaves its place in the statement: whatever constants, column and table names the
  plan holds, every text that is sent leaves the lexer outside quotes and brackets, and opens no comment and ends no
  statement on its way.
\<close>

theorem PlanDelete_closed:
  assumes U: "string_util_ok U" and A: "number_texts_closed A" and run: "PlanDelete U T A D op = Inr st"
  shows "statement_closed st"
proof -
  from run obtain target where target: "AnalyzeTarget U T A D ''DELETE'' (del_table op) (del_child op) = Inr target"
    by (auto simp: PlanDelete_def split: if_splits)
  note closed_parts = delete_texts_closed [OF AnalyzeTarget_closed(2) [OF U A target] AnalyzeTarget_closed(1) [OF U A target]]
  have "st_sql st \<in> {[], ''TRUNCATE TABLE '' @ qualified_name target, (''DELETE FROM '' @ qualified_name target) @ ('' WHERE '' @ predicate target)} \<and>
    count_sql st \<in> {[], ''SELECT count() FROM '' @ qualified_name target, (''SELECT count() FROM '' @ qualified_name target) @ ('' WHERE '' @ predicate target)} \<and>
    check_sql st = [] \<and> null_check_sql st = []"
    using run target by (auto simp: PlanDelete_def Let_def empty_statement_def split: if_splits)
  with closed_parts closed_append [OF closed_parts(1,3)] closed_append [OF closed_parts(4,3)]
  show ?thesis unfolding statement_closed_def by (auto simp del: append.simps append_assoc)
qed

section \<open>UPDATE\<close>

text \<open>The types of the table's columns as the server spells them.\<close>

definition types_closed :: "column_info list \<Rightarrow> bool" where
  "types_closed columns \<longleftrightarrow>
     (\<forall>c\<in>set columns. closed (clickhouse_type c) \<and> closed (node_text (tw_base (Of (type_node c)))))"

lemma FloorTimestamp_safe:
  assumes U: "string_util_ok U" and "closed sql"
  shows "safe (FloorTimestamp U T sql p)"
proof -
  have tick: "closed (''1'' @ replicate n (CHR ''0''))" for n by (rule plain_closed) (auto simp: plain_def)
  have micros: "closed (''toUnixTimestamp64Micro(CAST('' @ sql @ '' AS '' @ t @ ''))'')" if "closed t" for t
    using that assms(2) by (intro closedI) (simp add: calm_noteq)
  have floor: "closed (''fromUnixTimestamp64Micro('' @ m @ '' - positiveModulo('' @ m @ '', '' @ k @ ''), '' @ [CHR 0x27] @ ''UTC'' @ [CHR 0x27] @ '')'')"
    if "closed m" "closed k" for m k
    using that by (intro closedI) (simp add: calm_noteq)
  show ?thesis unfolding FloorTimestamp_def Let_def
  proof (rule safe_bind_other, unfold safe_simps)
    fix t assume "ToClickhouse U T TIMESTAMP_TZ True = Inr t"
    from micros [OF ToClickhouse_closed [OF this U]] tick
    show "closed (''fromUnixTimestamp64Micro('' @ (''toUnixTimestamp64Micro(CAST('' @ sql @ '' AS '' @ t @ ''))'') @ '' - positiveModulo('' @
        (''toUnixTimestamp64Micro(CAST('' @ sql @ '' AS '' @ t @ ''))'') @ '', '' @ (''1'' @ replicate (6 - p) (CHR ''0'')) @ ''), '' @
        [CHR 0x27] @ ''UTC'' @ [CHR 0x27] @ '')'')" by (rule floor)
  qed
qed

lemma cast_text_closed: "closed a \<Longrightarrow> closed t \<Longrightarrow> closed (''CAST('' @ a @ '' AS '' @ t @ '')'')"
  by (intro closedI) (simp add: calm_noteq)

lemma ParseText_safe:
  assumes "ParsedFromTextExactly base" "closed (node_text base)" "closed expr"
  shows "safe (ParseText base expr)"
proof -
  have "GetDecimalInfo base = Inr None" using assms(1) by (auto simp: GetDecimalInfo_def Let_def ParsedFromTextExactly_def)
  then have "ParseText base expr = Inr (''CAST('' @ expr @ '' AS '' @ node_text base @ '')'')"
    using assms(1) by (auto simp: ParseText_def DecimalScale_def ParsedFromTextExactly_def WKT_READERS_def Let_def)
  with cast_text_closed [OF assms(3,2)] show ?thesis by (simp del: append.simps)
qed

lemma Cast_safe:
  assumes "closed s" "closed t"
  shows "safe (Cast T s source target t)"
  unfolding Cast_def by (rule safe_bind_other) (simp add: CastSql_closed [OF assms])

text \<open>What a column of the SET list adds is closed.\<close>

definition result_closed :: "set_result \<Rightarrow> bool" where
  "result_closed r = (case r of
     Skipped \<Rightarrow> True
   | Assigned a c n \<Rightarrow> closed a \<and> (case c of None \<Rightarrow> True | Some s \<Rightarrow> closed s) \<and> (case n of None \<Rightarrow> True | Some (s, name) \<Rightarrow> closed s))"

lemma assignment_closed: "closed s \<Longrightarrow> closed (QuoteIdentifier name @ '' = '' @ s)"
  by (intro closedI) (simp add: calm_noteq)

definition yields :: "('a \<Rightarrow> bool) \<Rightarrow> 'a res \<Rightarrow> bool" where
  "yields P m \<longleftrightarrow> (\<forall>x. m = Inr x \<longrightarrow> P x)"

lemma yields_intros:
  "yields P (Inl ex)" "P x \<Longrightarrow> yields P (Inr x)"
  "(b \<Longrightarrow> yields P m) \<Longrightarrow> (\<not> b \<Longrightarrow> yields P m') \<Longrightarrow> yields P (if b then m else m')"
  "(\<And>y. n = Inr y \<Longrightarrow> yields P (f y)) \<Longrightarrow> yields P (bindE n f)"
  by (auto simp: yields_def)

lemma safe_yields: "safe m \<longleftrightarrow> yields closed m"
  by (simp add: safe_def yields_def)

lemma yields_step: "yields Q m \<Longrightarrow> (\<And>y. Q y \<Longrightarrow> yields P (f y)) \<Longrightarrow> yields P (bindE m f)"
  by (auto simp: yields_def)

lemma server_null_closed:
  "closed t \<Longrightarrow> result_closed (Assigned (QuoteIdentifier name @ '' = CAST(NULL AS '' @ t @ '')'') None None)"
  unfolding result_closed_def set_result.case option.case by (intro conjI TrueI closedI) (simp add: calm_noteq)

lemma server_value_closed:
  "closed p \<Longrightarrow> closed t \<Longrightarrow> result_closed (Assigned (QuoteIdentifier name @ '' = '' @ ''CAST('' @ p @ '' AS '' @ t @ '')'') (Some (''CAST('' @ p @ '' AS '' @ t @ '')'')) None)"
  unfolding result_closed_def set_result.case option.case by (intro conjI TrueI assignment_closed cast_text_closed)

lemma native_value_closed:
  assumes "closed f" "closed t"
  shows "result_closed (Assigned (QuoteIdentifier name @ '' = CAST('' @ f @ '' AS '' @ t @ '')'') None
    (if n then Some (''countIf(isNull('' @ f @ ''))'', name) else None))"
proof -
  have "closed (QuoteIdentifier name @ '' = CAST('' @ f @ '' AS '' @ t @ '')'')" "closed (''countIf(isNull('' @ f @ ''))'')"
    using assms by (intro closedI, simp add: calm_noteq)+
  then show ?thesis by (simp add: result_closed_def del: append.simps)
qed

lemma ServerValue_closed:
  assumes U: "string_util_ok U" and A: "number_texts_closed A"
    and types: "closed (clickhouse_type column)" "closed (node_text (tw_base (Of (type_node column))))"
  shows "yields result_closed (ServerValue U T A column e const child)"
proof -
  have translated: "yields closed (Translate U T A (ResolveOutput U T A child) e)"
    using Translate_closed [OF U A ResolveOutput_safe [OF U A]] by (simp only: safe_yields)
  have parsed: "yields closed (ParseText (tw_base (Of (type_node column))) literal)"
    if "ParsedFromTextExactly (tw_base (Of (type_node column)))" "closed literal" for literal
    using ParseText_safe [OF that(1) types(2) that(2)] by (simp only: safe_yields)
  show ?thesis unfolding ServerValue_def Let_def
    by (intro yields_intros(1-3) server_null_closed types yields_step [OF translated] yields_step [OF parsed] server_value_closed) auto
qed

lemma NativeValue_closed:
  assumes U: "string_util_ok U" and A: "number_texts_closed A" and type: "closed (clickhouse_type column)"
  shows "yields result_closed (NativeValue U T A column e check_nulls child)"
proof -
  have translated: "yields closed (Translate U T A (ResolveOutput U T A child) e)"
    using Translate_closed [OF U A ResolveOutput_safe [OF U A]] by (simp only: safe_yields)
  have cast: "yields closed (if return_type e \<noteq> t then bindE (ToClickhouse U T t True) (Cast T s (return_type e) t) else Inr s)"
    if "closed s" for s t
    using that ToClickhouse_closed [OF _ U] unfolding safe_yields [symmetric] by (auto intro!: safe_bind_other Cast_safe)
  have floor: "yields closed (case precision of Some p \<Rightarrow> if p < 6 then FloorTimestamp U T s p else Inr s | None \<Rightarrow> Inr s)"
    if "closed s" for s precision
    using that FloorTimestamp_safe [OF U that] unfolding safe_yields [symmetric] by (auto split: option.split)
  show ?thesis unfolding NativeValue_def
    by (rule yields_step [OF translated], rule yields_step [OF cast], assumption, rule yields_intros(4),
      rule yields_step [OF floor], assumption) (intro yields_intros native_value_closed type)
qed

lemma SetColumn_closed:
  assumes U: "string_util_ok U" and A: "number_texts_closed A" and types: "types_closed columns" and i: "i < length columns"
  shows "yields result_closed (SetColumn U T A D table columns child (i, v))"
proof -
  have type: "closed (clickhouse_type (columns ! i))" "closed (node_text (tw_base (Of (type_node (columns ! i)))))"
    using types i by (auto simp: types_closed_def)
  have "result_closed Skipped" by (simp add: result_closed_def)
  then show ?thesis unfolding SetColumn_def Let_def fst_conv snd_conv
    by (intro yields_intros ServerValue_closed [OF U A type] NativeValue_closed [OF U A type(1)])
qed

lemma mapE_defined: "mapE f xs = Inr ys \<Longrightarrow> x \<in> set xs \<Longrightarrow> \<exists>y. f x = Inr y"
  by (induction xs arbitrary: ys) auto

lemma CheckSetList_ok:
  assumes "CheckSetList D op columns = Inr u" "(i, v) \<in> set (zip (up_columns op) (up_values op))"
  shows "i < length columns"
proof -
  let ?sets = "enumerate 0 (zip (up_columns op) (up_values op))"
  have "fst (snd x) < length columns" if "x \<in> set ?sets" for x
    using assms(1) that by (auto simp: CheckSetList_def Let_def split: if_splits prod.splits dest!: mapE_defined)
  then have all: "\<forall>x\<in>set ?sets. fst (snd x) < length columns" by blast
  from assms(2) obtain k where "k < length (zip (up_columns op) (up_values op))" "zip (up_columns op) (up_values op) ! k = (i, v)"
    unfolding in_set_conv_nth by blast
  then have "(k, i, v) \<in> set ?sets" by (simp add: in_set_enumerate_eq)
  with all show ?thesis by fastforce
qed

lemma rethrow_shape_Inr [simp]: "rethrow_shape D statement table r = Inr x \<longleftrightarrow> r = Inr x"
  by (auto simp: rethrow_shape_def split: sum.splits)

lemma result_closed_parts:
  assumes "result_closed r" "r \<noteq> Skipped"
  shows "closed (assignment r)" "checked r = Some s \<Longrightarrow> closed s" "null_count r = Some (s, name) \<Longrightarrow> closed s"
  using assms by (cases r; simp add: result_closed_def)+

lemma assigned_closed:
  assumes "\<forall>r\<in>set rs. result_closed r"
  shows "\<forall>s\<in>set (map assignment (filter (\<lambda>r. r \<noteq> Skipped) rs)). closed s"
    and "\<forall>s\<in>set (List.map_filter checked (filter (\<lambda>r. r \<noteq> Skipped) rs)). closed s"
    and "\<forall>s\<in>set (map fst (List.map_filter null_count (filter (\<lambda>r. r \<noteq> Skipped) rs))). closed s"
proof -
  have r: "closed (assignment r)" "checked r = Some s \<Longrightarrow> closed s" "null_count r = Some (s, name) \<Longrightarrow> closed s"
    if "r \<in> set (filter (\<lambda>r. r \<noteq> Skipped) rs)" for r s name
    using result_closed_parts [of r] assms that by auto
  then show "\<forall>s\<in>set (map assignment (filter (\<lambda>r. r \<noteq> Skipped) rs)). closed s" by (simp only: set_map) blast
  show "\<forall>s\<in>set (List.map_filter checked (filter (\<lambda>r. r \<noteq> Skipped) rs)). closed s"
    using r(2) unfolding map_filter_def by (auto simp del: filter_filter)
  show "\<forall>s\<in>set (map fst (List.map_filter null_count (filter (\<lambda>r. r \<noteq> Skipped) rs))). closed s"
    using r(3) unfolding map_filter_def by (auto simp del: filter_filter)
qed

lemma update_texts_closed:
  assumes "closed q" "closed p" "closed s"
  shows "closed (''ALTER TABLE '' @ q @ '' UPDATE'')" "closed ('' FROM '' @ q @ '' WHERE '' @ p)" "closed ''SELECT count()''" "closed ''1''"
    "closed ('' '' @ s @ '' WHERE '' @ p)" "closed (''SELECT ignore('' @ s @ '')'')" "closed (''SELECT '' @ s)"
  using assms by (intro closedI, simp add: calm_noteq)+

text \<open>
  C16. No value or name in an UPDATE leaves its place: the statement, the count, the check of the constants and the
  count of NULLs are lexically closed when the texts of the column types are, which the server itself spelled.
\<close>

theorem PlanUpdate_closed:
  assumes U: "string_util_ok U" and A: "number_texts_closed A"
    and types: "types_closed (clickhouse_columns (table_info (up_table op)))"
    and run: "PlanUpdate U T A D current op = Inr st"
  shows "statement_closed st"
proof -
  let ?entry = "table_info (up_table op)"
  let ?sets = "zip (up_columns op) (up_values op)"
  from run obtain target where target: "AnalyzeTarget U T A D ''UPDATE'' (up_table op) (up_child op) = Inr target"
    and sets: "\<exists>u. CheckSetList D op (clickhouse_columns ?entry) = Inr u"
    by (auto simp: PlanUpdate_def Let_def split: if_splits)
  have none: "statement_closed (empty_statement\<lparr>st_catalog_name := c, description := d\<rparr>)"
    "statement_closed (empty_statement\<lparr>st_catalog_name := c, description := d, unbound_parameters := True\<rparr>)" for c d
    by (simp_all add: statement_closed_def empty_statement_def)
  show ?thesis
  proof (cases "target_unbound target \<or> matches_nothing target")
    case True
    with run target none show ?thesis by (auto simp: PlanUpdate_def Let_def split: if_splits)
  next
    case False
    with run target obtain rs where rs: "mapE (SetColumn U T A D ?entry (clickhouse_columns ?entry) (up_child op)) ?sets = Inr rs"
      by (auto simp: PlanUpdate_def Let_def split: if_splits)
    have "\<forall>r\<in>set rs. result_closed r"
    proof
      fix r assume "r \<in> set rs"
      from mapE_set [OF rs this] obtain i v where "(i, v) \<in> set ?sets"
        "SetColumn U T A D ?entry (clickhouse_columns ?entry) (up_child op) (i, v) = Inr r" by auto
      with SetColumn_closed [OF U A types] CheckSetList_ok sets show "result_closed r" unfolding yields_def by blast
    qed
    note parts = assigned_closed [OF this, THEN Join_closed [OF U _ comma_closed(1)]]
    note name = AnalyzeTarget_closed(2) [OF U A target]
    have cond: "closed (if predicate target = [] then ''1'' else predicate target)"
      using AnalyzeTarget_closed(1) [OF U A target] update_texts_closed(4) [OF name name name] by simp
    note texts = update_texts_closed [OF name cond]
    show ?thesis
      using run target False rs texts(1-3) [OF parts(1)] texts(5) [OF parts(1)] texts(6) [OF parts(2)] texts(7) [OF parts(3)]
        closed_append [OF texts(1) [OF parts(1)] texts(5) [OF parts(1)]]
        closed_append [OF texts(3) [OF parts(1)] texts(2) [OF parts(1)]]
        closed_append [OF texts(7) [OF parts(3)] texts(2) [OF parts(1)]]
      unfolding PlanUpdate_def Let_def statement_closed_def empty_statement_def
      by (auto simp del: append.simps simp: append_assoc split: if_splits)
  qed
qed

section \<open>An example\<close>

text \<open>A value that tries to end its literal, the statement and the rest of the text.\<close>

definition hostile :: string where
  "hostile = [CHR 0x5C, CHR 0x27] @ '') OR 1 = 1; --''"

definition text_column :: column_info where
  "text_column = \<lparr>col_name = ''n`'', clickhouse_type = ''String'', type_node = Node ''String'' [] [] [] ''String'', col_type = VARCHAR,
     col_readable = True, default_kind = []\<rparr>"

definition text_table :: dml_table where
  "text_table = \<lparr>table_id = 7, table_info = \<lparr>te_schema = ''db'', te_name = ''t'', te_columns = [(''n`'', VARCHAR)], te_not_null = [],
     clickhouse_columns = [text_column], te_approx_rows = None, engine = ''MergeTree'', column_collision = []\<rparr>\<rparr>"

definition text_scan :: scan_op where
  "text_scan = \<lparr>scan_function = ''clickhouse_scan'', scan_bind = Some (\<lparr>bd_database = ''db'', bd_table = ''t'', bd_query = [],
       bd_columns = [text_column], approx_rows = None, filter_pushdown = True, order_by_clause = [], limit_clause = []\<rparr>, Some 7),
     scan_columns = [(Some 0, False)], scan_projection = [], scan_filters = [], scan_inputs = 0\<rparr>"

definition text_filter :: dml_plan where
  "text_filter = FilterPlan [Comparison COMPARE_EQUAL (BoundRef 0 VARCHAR) (Constant (Varchar hostile))] [] (ScanPlan text_scan) []"

definition dml_instance :: dml_api where
  "dml_instance = \<lparr>HasParameter = (\<lambda>e. False), EnumerateExpressions = (\<lambda>p. []), expr_Equals = (=), WriteQuoted = QuoteWith,
     ListValue_GetChildren = (\<lambda>v. []), ArrayValue_GetChildren = (\<lambda>v. []), StructValue_GetChildren = (\<lambda>v. []),
     MapValue_GetChildren = (\<lambda>v. [])\<rparr>"

lemma number_texts_instance: "number_texts_closed duck_api_instance"
proof -
  have "closed ''NULL''" "closed ''value''" by (rule closedI, simp add: calm_noteq)+
  then show ?thesis
    by (auto simp: number_texts_closed_def duck_api_instance_def split: duck_value.split)
qed

definition text_delete :: delete_op where
  "text_delete = \<lparr>del_return_chunk = False, del_catalog = ''ch'', del_table = text_table, del_child = text_filter\<rparr>"

theorem PlanDelete_closed_witness:
  "\<exists>st. PlanDelete duck_strings duck_types duck_api_instance dml_instance text_delete = Inr st \<and> statement_closed st"
proof -
  have "is_ok (PlanDelete duck_strings duck_types duck_api_instance dml_instance text_delete)" by code_simp
  then obtain st where st: "PlanDelete duck_strings duck_types duck_api_instance dml_instance text_delete = Inr st"
    by (auto simp: is_ok_iff)
  from PlanDelete_closed [OF duck_strings_ok number_texts_instance st] st show ?thesis by blast
qed

definition text_update :: update_op where
  "text_update = \<lparr>up_return_chunk = False, up_catalog = ''ch'', up_table = text_table, up_columns = [0],
     up_values = [\<lparr>set_expr = Constant (Varchar hostile), bound_default = False, set_alias = None\<rparr>], bound_defaults = [],
     up_child = text_filter\<rparr>"

theorem PlanUpdate_closed_witness:
  "\<exists>st. PlanUpdate duck_strings duck_types duck_api_instance dml_instance (\<lambda>n. None) text_update = Inr st \<and> statement_closed st"
proof -
  have "is_ok (PlanUpdate duck_strings duck_types duck_api_instance dml_instance (\<lambda>n. None) text_update)" by code_simp
  then obtain st where st: "PlanUpdate duck_strings duck_types duck_api_instance dml_instance (\<lambda>n. None) text_update = Inr st"
    by (auto simp: is_ok_iff)
  have base: "node_text (tw_base (Of (type_node text_column))) = ''String''" by code_simp
  have "closed ''String''" by (rule closedI) (simp add: calm_noteq)
  with base have "types_closed (clickhouse_columns (table_info (up_table text_update)))"
    by (simp add: types_closed_def text_update_def text_table_def) (simp add: text_column_def)
  from PlanUpdate_closed [OF duck_strings_ok number_texts_instance this st] st show ?thesis by blast
qed

end
