(* ===== verification/DmlRun.thy ===== *)
theory DmlRun
  imports Dml "HOL-Library.Sublist"
begin

text \<open>
  The order in which the operator of \<open>clickhouse_dml.cpp\<close> sends its statements, seen by a client that keeps the
  texts of the queries it is given.
\<close>

section \<open>A client that keeps what it is sent\<close>

definition logged :: "('k, 'b) client_api \<Rightarrow> ('k \<times> string list, 'b) client_api" where
  "logged K = \<lparr>
     cl_connect = (\<lambda>options. case cl_connect K options of Inl f \<Rightarrow> Inl f | Inr k \<Rightarrow> Inr (k, [])),
     IsSelecting = IsSelecting K \<circ> fst,
     IsInserting = IsInserting K \<circ> fst,
     cl_BeginSelect = (\<lambda>q (k, sent). apsnd (\<lambda>k'. (k', sent @ [query_text q])) (cl_BeginSelect K q k)),
     cl_NextBlock = (\<lambda>(k, sent). apsnd (\<lambda>k'. (k', sent)) (cl_NextBlock K k)),
     cl_Cancel = (\<lambda>(k, sent). apsnd (\<lambda>k'. (k', sent)) (cl_Cancel K k)),
     cl_BeginInsert = (\<lambda>q (k, sent). apsnd (\<lambda>k'. (k', sent @ [query_text q])) (cl_BeginInsert K q k)),
     cl_SendInsertBlock = (\<lambda>b (k, sent). apsnd (\<lambda>k'. (k', sent)) (cl_SendInsertBlock K b k)),
     cl_EndInsert = (\<lambda>(k, sent). apsnd (\<lambda>k'. (k', sent)) (cl_EndInsert K k)),
     cl_Ping = (\<lambda>(k, sent). apsnd (\<lambda>k'. (k', sent)) (cl_Ping K k))\<rparr>"

definition texts :: "('k \<times> string list) conn \<Rightarrow> string list" where
  "texts c = snd (client c)"

lemma texts_update [simp]:
  "texts (c\<lparr>client := k\<rparr>) = snd k" "texts (c\<lparr>last_used := t\<rparr>) = texts c" "texts (c\<lparr>broken := b\<rparr>) = texts c"
  "texts (c\<lparr>client := k, last_used := t\<rparr>) = snd k" "texts (c\<lparr>client := k, broken := b\<rparr>) = snd k"
  by (simp_all add: texts_def)

lemma Rethrow_texts: "RethrowAsDuckDBException U d sql f c = (r, c') \<Longrightarrow> texts c' = texts c"
  by (auto simp: RethrowAsDuckDBException_def Let_def split: client_failure.splits)

lemma BeginQuery_texts: "BeginQuery U (logged K) d now sql st c = (r, c') \<Longrightarrow> texts c' = texts c @ [sql]"
  by (cases "client c"; cases "cl_BeginSelect K (MakeQuery (config c) sql st) (fst (client c))")
    (auto simp: BeginQuery_def logged_def MakeQuery_def texts_def split: sum.splits dest!: Rethrow_texts)

lemma NextBlock_texts: "NextBlock U (logged K) d now c = (r, c') \<Longrightarrow> texts c' = texts c"
  by (cases "client c"; cases "cl_NextBlock K (fst (client c))")
    (auto simp: NextBlock_def logged_def texts_def split: sum.splits dest!: Rethrow_texts)

lemma Cancel_texts: "texts (Cancel (logged K) c) = texts c"
  by (cases "client c"; cases "cl_Cancel K (fst (client c))")
    (auto simp: Cancel_def logged_def texts_def split: sum.splits)

lemma QueryLoop_texts_aux:
  "QueryLoop U (L :: ('k \<times> string list, 'b) client_api) d clock n bs c = Some result \<Longrightarrow> L = logged K \<longrightarrow> texts (snd result) = texts c"
proof (rule QueryLoop.raw_induct [of "\<lambda>U L d clock n bs c result. L = logged K \<longrightarrow> texts (snd result) = texts c"])
  fix loop U d and L :: "('k \<times> string list, 'b) client_api" and clock n bs c result
  assume IH: "\<And>U (L :: ('k \<times> string list, 'b) client_api) d clock n bs c result. loop U L d clock n bs c = Some result \<Longrightarrow> L = logged K \<longrightarrow> texts (snd result) = texts c"
    and run: "(case NextBlock U L d (clock n) c of (Inl ex, c') \<Rightarrow> Some (Inl ex, c') | (Inr None, c') \<Rightarrow> Some (Inr bs, c')
      | (Inr (Some block), c') \<Rightarrow> loop U L d clock (Suc n) (bs @ [block]) c') = Some result"
  show "L = logged K \<longrightarrow> texts (snd result) = texts c"
  proof
    assume L: "L = logged K"
    obtain r c1 where step: "NextBlock U L d (clock n) c = (r, c1)" by fastforce
    from run IH [of U L d clock "Suc n"] NextBlock_texts [OF step [unfolded L]] L step
    show "texts (snd result) = texts c" by (auto split: sum.splits option.splits)
  qed
qed

lemma ExecuteLoop_texts_aux:
  "ExecuteLoop U (L :: ('k \<times> string list, 'b) client_api) rows d clock n c = Some result \<Longrightarrow> L = logged K \<longrightarrow> texts (snd result) = texts c"
proof (rule ExecuteLoop.raw_induct [of "\<lambda>U L rows d clock n c result. L = logged K \<longrightarrow> texts (snd result) = texts c"])
  fix loop U rows d and L :: "('k \<times> string list, 'b) client_api" and clock n c result
  assume IH: "\<And>U (L :: ('k \<times> string list, 'b) client_api) rows d clock n c result. loop U L rows d clock n c = Some result \<Longrightarrow> L = logged K \<longrightarrow> texts (snd result) = texts c"
    and run: "(case NextBlock U L d (clock n) c of (Inl ex, c') \<Rightarrow> Some (Inl ex, c') | (Inr None, c') \<Rightarrow> Some (Inr True, c')
      | (Inr (Some block), c') \<Rightarrow> if rows block > 0 then Some (Inr False, Cancel L c') else loop U L rows d clock (Suc n) c') = Some result"
  show "L = logged K \<longrightarrow> texts (snd result) = texts c"
  proof
    assume L: "L = logged K"
    obtain r c1 where step: "NextBlock U L d (clock n) c = (r, c1)" by fastforce
    from run IH [of U L rows d clock "Suc n"] NextBlock_texts [OF step [unfolded L]] Cancel_texts [of K c1] L step
    show "texts (snd result) = texts c" by (auto split: sum.splits option.splits if_splits)
  qed
qed

lemma Query_texts: "Query U (logged K) d clock sql st c = Some (r, c') \<Longrightarrow> texts c' = texts c @ [sql]"
  by (auto simp: Query_def split: sum.splits prod.splits dest!: BeginQuery_texts dest: QueryLoop_texts_aux)

lemma Execute_texts: "Execute U (logged K) rows d clock sql st c = Some (r, c') \<Longrightarrow> texts c' = texts c @ [sql]"
  by (auto simp: Execute_def split: sum.splits prod.splits dest!: BeginQuery_texts dest: ExecuteLoop_texts_aux)

section \<open>The steps of the operator\<close>

definition one :: "string \<Rightarrow> string list" where
  "one sql = (if sql = [] then [] else [sql])"

lemma run_query_texts:
  assumes "run_query E n sql st f c = Some (r, c')" "dml_client E = logged K"
    and "\<And>blocks c1 r c2. f blocks c1 = Some (r, c2) \<Longrightarrow> c2 = c1"
  shows "texts c' = texts c @ [sql]"
  using assms by (auto simp: run_query_def split: option.splits sum.splits prod.splits dest!: Query_texts)

lemma steps_texts:
  assumes "dml_client E = logged K"
  shows "RunCheck E st c = Some (u, c') \<Longrightarrow> texts c' = texts c @ one (check_sql st)"
    and "RunNullCheck E st c = Some (u, c') \<Longrightarrow> texts c' = texts c @ one (null_check_sql st)"
    and "RunCount E st c = Some (n, c') \<Longrightarrow> texts c' = texts c @ [count_sql st]"
    and "RunSql E st c = Some (v, c') \<Longrightarrow> texts c' = texts c @ one (st_sql st)"
  using assms
  by (auto simp: RunCheck_def RunNullCheck_def RunCount_def RunSql_def one_def split: if_splits dest!: Execute_texts
      dest: run_query_texts [OF _ assms])

section \<open>Order and guards\<close>

text \<open>The statements of an operator in the order they may be sent.\<close>

definition statements :: "dml_statement \<Rightarrow> string list" where
  "statements st = one (check_sql st) @ one (null_check_sql st) @ [count_sql st] @ one (st_sql st)"

text \<open>The answer of the NULL check that lets the statement go on: every count of every block is there and zero.\<close>

definition no_nulls :: "'b block_api \<Rightarrow> dml_statement \<Rightarrow> 'b list \<Rightarrow> bool" where
  "no_nulls B st blocks \<longleftrightarrow>
     (\<forall>b\<in>set blocks. GetRowCount B b = 0 \<or>
        GetColumnCount B b = length (null_check_columns st) \<and> list_all (\<lambda>i. AsUInt64 B b i = Some 0) [0..<length (null_check_columns st)])"

lemma NullCounts_ok: "NullCounts B st b cols = Inr () \<longleftrightarrow> (\<forall>(i, column)\<in>set cols. AsUInt64 B b i = Some 0)"
  by (induction B st b cols rule: NullCounts.induct) (auto split: option.splits)

lemma NullCheckBlocks_ok: "NullCheckBlocks B st blocks = Inr () \<longleftrightarrow> no_nulls B st blocks"
proof (induction B st blocks rule: NullCheckBlocks.induct)
  case (2 B st b blocks)
  have cols: "(\<forall>(i, column)\<in>set (enumerate 0 cs). P i) \<longleftrightarrow> list_all P [0..<length cs]" for cs :: "string list" and P
    by (auto simp: list_all_iff in_set_enumerate_eq)
  show ?case
  proof (cases "GetRowCount B b = 0 \<or> GetColumnCount B b \<noteq> length (null_check_columns st)")
    case True
    with 2 show ?thesis by (auto simp: no_nulls_def)
  next
    case False
    with 2(2) show ?thesis
      by (cases "NullCounts B st b (enumerate 0 (null_check_columns st))")
        (use NullCounts_ok [of B st b "enumerate 0 (null_check_columns st)"] in \<open>auto simp: no_nulls_def cols\<close>)
  qed
qed (simp add: no_nulls_def)

text \<open>The answer of a query that was sent on some connection.\<close>

definition answered :: "('k, 'b) dml_env \<Rightarrow> nat \<Rightarrow> string \<Rightarrow> (string \<times> string) list \<Rightarrow> 'b list \<Rightarrow> bool" where
  "answered E n sql st blocks \<longleftrightarrow>
     (\<exists>c c'. Query (dml_strings E) (dml_client E) (dml_debug E) (dml_clock E n) sql st c = Some (Inr blocks, c'))"

lemma steps_ok:
  "RunCheck E st c = Some (Inr u, c') \<Longrightarrow> check_sql st = [] \<or> (\<exists>bs. answered E 0 (check_sql st) ExtensionQuerySettings bs)"
  "RunNullCheck E st c = Some (Inr u, c') \<Longrightarrow> null_check_sql st = [] \<or>
     (\<exists>bs. answered E 1 (null_check_sql st) (ExtensionQuerySettings @ [(''apply_deleted_mask'', ''0'')]) bs \<and> no_nulls (dml_blocks E) st bs)"
  "RunCount E st c = Some (Inr n, c') \<Longrightarrow>
     \<exists>bs. answered E 2 (count_sql st) ExtensionQuerySettings bs \<and> CountBlocks (dml_blocks E) st 0 bs = Inr n"
  by (auto simp: RunCheck_def RunNullCheck_def RunCount_def run_query_def answered_def NullCheckBlocks_ok
      split: if_splits option.splits sum.splits prod.splits)

text \<open>The checks that stand before the statement.\<close>

definition checks_passed :: "('k, 'b) dml_env \<Rightarrow> dml_statement \<Rightarrow> nat \<Rightarrow> bool" where
  "checks_passed E st n \<longleftrightarrow>
     (check_sql st = [] \<or> (\<exists>bs. answered E 0 (check_sql st) ExtensionQuerySettings bs)) \<and>
     (null_check_sql st = [] \<or>
        (\<exists>bs. answered E 1 (null_check_sql st) (ExtensionQuerySettings @ [(''apply_deleted_mask'', ''0'')]) bs \<and> no_nulls (dml_blocks E) st bs)) \<and>
     (\<exists>bs. answered E 2 (count_sql st) ExtensionQuerySettings bs \<and> CountBlocks (dml_blocks E) st 0 bs = Inr n)"

lemma RunStatement_order:
  assumes E: "dml_client E = logged K" and run: "RunStatement E st c = Some (r, c')"
  shows "\<exists>sent. texts c' = texts c @ sent \<and> prefix sent (statements st) \<and>
    (\<forall>n. r = Inr n \<longrightarrow> sent = statements st \<and> checks_passed E st n) \<and>
    (st_sql st \<noteq> [] \<and> sent = statements st \<longrightarrow> (\<exists>n. checks_passed E st n))"
proof -
  note texts = steps_texts [OF E]
  obtain r1 c1 where r1: "RunCheck E st c = Some (r1, c1)" using run by (auto simp: RunStatement_def split: option.splits)
  show ?thesis
  proof (cases r1)
    case (Inl ex)
    with run r1 texts(1) [OF r1] show ?thesis
      by (intro exI [of _ "one (check_sql st)"]) (auto simp: RunStatement_def statements_def one_def)
  next
    case ok1: (Inr u)
    note run2 = run [unfolded RunStatement_def r1 ok1 option.case prod.case sum.case]
    obtain r2 c2 where r2: "RunNullCheck E st c1 = Some (r2, c2)" using run2 by (auto split: option.splits)
    show ?thesis
    proof (cases r2)
      case (Inl ex)
      with run2 r2 texts(1) [OF r1] texts(2) [OF r2] show ?thesis
        by (intro exI [of _ "one (check_sql st) @ one (null_check_sql st)"]) (auto simp: statements_def)
    next
      case ok2: (Inr v)
      note run3 = run2 [unfolded r2 ok2 option.case prod.case sum.case]
      obtain r3 c3 where r3: "RunCount E st c2 = Some (r3, c3)" using run3 by (auto split: option.splits)
      show ?thesis
      proof (cases r3)
        case (Inl ex)
        with run3 r3 texts(1) [OF r1] texts(2) [OF r2] texts(3) [OF r3] show ?thesis
          by (intro exI [of _ "one (check_sql st) @ one (null_check_sql st) @ [count_sql st]"]) (auto simp: statements_def one_def)
      next
        case ok3: (Inr n)
        note run4 = run3 [unfolded r3 ok3 option.case prod.case sum.case]
        obtain r4 c4 where r4: "RunSql E st c3 = Some (r4, c4)" using run4 by (auto split: option.splits)
        have "checks_passed E st n"
          using steps_ok(1) [OF r1 [unfolded ok1]] steps_ok(2) [OF r2 [unfolded ok2]] steps_ok(3) [OF r3 [unfolded ok3]]
          by (simp add: checks_passed_def)
        with run4 r4 texts(1) [OF r1] texts(2) [OF r2] texts(3) [OF r3] texts(4) [OF r4] show ?thesis
          by (intro exI [of _ "statements st"]) (auto simp: statements_def split: sum.splits)
      qed
    qed
  qed
qed

text \<open>
  C17. The order of an UPDATE or DELETE: what reaches the server is a beginning of check, NULL check, count and
  statement, all of it when a number of rows is returned, and nothing for a statement that changes no row or has
  unbound parameters. The statement itself is only sent once the constants were checked, every NULL count came back
  zero and the count of the affected rows is known, which is the number returned.
\<close>

theorem statements_in_order:
  assumes E: "dml_client E = logged K" and fresh: "\<And>c. dml_acquired E = Inr c \<Longrightarrow> texts c = []"
    and run: "DmlGetDataInternal E st m = Some (r, used, m')"
  defines "sent \<equiv> (case used of None \<Rightarrow> [] | Some c \<Rightarrow> texts c)"
    and "due \<equiv> (if unbound_parameters st \<or> count_sql st = [] then [] else statements st)"
  shows "prefix sent due \<and> (\<forall>n. r = Inr n \<longrightarrow> sent = due \<and> (due = [] \<and> n = 0 \<or> (\<exists>k. n = int k \<and> checks_passed E st k))) \<and>
    (st_sql st \<noteq> [] \<and> due \<noteq> [] \<and> sent = due \<longrightarrow> (\<exists>k. checks_passed E st k))"
proof (cases "used")
  case None
  with run show ?thesis
    by (auto simp: DmlGetDataInternal_def Let_def sent_def due_def statements_def split: if_splits sum.splits prod.splits)
next
  case (Some c')
  with run obtain read_only c m1 r' where due: "\<not> unbound_parameters st" "count_sql st \<noteq> []"
    and attach: "dml_attached E = Inr read_only" and started: "StartWrite (st_catalog_name st) read_only (dml_acquired E) (dml_tid E) m = (Inr c, m1)"
    and stmt: "RunStatement E st c = Some (r', c')"
    and r: "r = bindE r' (\<lambda>count. if int count < 2 ^ 63 then Inr (int count) else Inl (Exn InternalException ''Information loss on integer cast'' []))"
    by (auto simp: DmlGetDataInternal_def Let_def split: if_splits sum.splits prod.splits)
  from started have "dml_acquired E = Inr c" by (auto simp: StartWrite_def split: sum.splits)
  from fresh [OF this] RunStatement_order [OF E stmt] have order: "prefix (texts c') (statements st)"
    "\<forall>n. r' = Inr n \<longrightarrow> texts c' = statements st \<and> checks_passed E st n"
    "st_sql st \<noteq> [] \<and> texts c' = statements st \<longrightarrow> (\<exists>n. checks_passed E st n)" by auto
  then show ?thesis unfolding sent_def due_def r using Some due by (auto split: if_splits)
qed

section \<open>An example\<close>

text \<open>A block \<open>n + 1\<close> is one row with the number \<open>n\<close>; the server answers no NULL, five rows and the mutation.\<close>

definition number_blocks :: "nat block_api" where
  "number_blocks = \<lparr>GetRowCount = (\<lambda>b. if b = 0 then 0 else 1), GetColumnCount = (\<lambda>b. 1), AsUInt64 = (\<lambda>b i. Some (b - 1))\<rparr>"

definition run_env :: "(script_client \<times> string list, nat) dml_env" where
  "run_env = \<lparr>dml_strings = duck_strings, dml_client = logged scripted, dml_blocks = number_blocks, dml_debug = False,
     dml_clock = (\<lambda>i n. int (i + n)), dml_attached = Inr False,
     dml_acquired = Inr (new_conn 0 (\<lparr>selecting = False, inserting = False,
       script = [Inr (Some 1), Inr None, Inr (Some 6), Inr None]\<rparr>, []) initial_config), dml_tid = 0\<rparr>"

definition run_update :: dml_statement where
  "run_update = empty_statement\<lparr>count_sql := ''SELECT count() FROM t'', st_sql := ''ALTER TABLE t UPDATE x = 1'',
     null_check_sql := ''SELECT countIf(isNull(x)) FROM t'', null_check_columns := [''x'']\<rparr>"

theorem statements_in_order_witness:
  "\<exists>c m'. DmlGetDataInternal run_env run_update (empty_manager :: nat txn_manager) = Some (Inr 5, Some c, m') \<and>
     texts c = [''SELECT countIf(isNull(x)) FROM t'', ''SELECT count() FROM t'', ''ALTER TABLE t UPDATE x = 1''] \<and>
     checks_passed run_env run_update 5"
proof -
  have "map_option (\<lambda>(r, used, m). (r, used = None)) (DmlGetDataInternal run_env run_update (empty_manager :: nat txn_manager)) = Some (Inr 5, False)"
    by (simp add: DmlGetDataInternal_def StartWrite_def ThrowIfReadOnly_def RunStatement_def RunCheck_def RunNullCheck_def RunCount_def RunSql_def
        run_query_def Query_def Execute_def BeginQuery_def NextBlock_def QueryLoop.simps [where n = "Suc 0"] QueryLoop.simps [where n = "Suc (Suc 0)"]
        QueryLoop.simps [where n = 2] ExecuteLoop.simps [where n = "Suc 0"] run_env_def run_update_def empty_statement_def new_conn_def number_blocks_def
        logged_def scripted_def duck_strings_def)
  then obtain c m' where run: "DmlGetDataInternal run_env run_update (empty_manager :: nat txn_manager) = Some (Inr 5, Some c, m')" by auto
  have "dml_client run_env = logged scripted" "\<And>c. dml_acquired run_env = Inr c \<Longrightarrow> texts c = []"
    by (auto simp: run_env_def texts_def new_conn_def)
  note order = statements_in_order [OF this run]
  have due: "unbound_parameters run_update = False" "count_sql run_update \<noteq> []"
    "statements run_update = [''SELECT countIf(isNull(x)) FROM t'', ''SELECT count() FROM t'', ''ALTER TABLE t UPDATE x = 1'']"
    by (simp_all add: statements_def one_def run_update_def empty_statement_def)
  from order have "texts c = statements run_update" "checks_passed run_env run_update 5"
    unfolding due(1) using due(2,3) by auto
  with run show ?thesis unfolding due(3) by blast
qed

end
