(* ===== verification/Functions.thy ===== *)
theory Functions
  imports Tables
begin

text \<open>
  The table functions that take SQL or a type (\<open>src/src/clickhouse_query.cpp\<close>, \<open>clickhouse_execute.cpp\<close>,
  \<open>clickhouse_type_mapping_function.cpp\<close>, \<open>storage/clickhouse_clear_cache.cpp\<close>), the secrets
  (\<open>clickhouse_secrets.cpp\<close>), ATTACH (\<open>storage/clickhouse_storage_extension.cpp\<close> and the constructor of the
  catalog), and the bind of \<open>clickhouse_scan\<close> with the start of a scan (\<open>clickhouse_scanner.cpp\<close>). DuckDB's
  database and secret managers are functions given as arguments.
\<close>

section \<open>Attached databases\<close>

definition CATALOG_TYPE :: string where "CATALOG_TYPE = ''clickhouse''"

text \<open>\<open>lookup\<close> finds an attached database: the type of its catalog and the catalog.\<close>

definition GetAttachedDatabase :: "(string \<Rightarrow> (string \<times> 'c) option) \<Rightarrow> string \<Rightarrow> string \<Rightarrow> 'c res" where
  "GetAttachedDatabase lookup database_name function_name =
     (case lookup database_name of
        None \<Rightarrow> Inl (Exn BinderException ''Failed to find attached database'' [database_name, function_name])
      | Some (type, catalog) \<Rightarrow>
          if type \<noteq> CATALOG_TYPE then Inl (Exn BinderException ''Attached database is not a ClickHouse database'' [database_name])
          else Inr catalog)"

section \<open>clickhouse\_query\<close>

definition IsIdentifierCharacter :: "string_util \<Rightarrow> char \<Rightarrow> bool" where
  "IsIdentifierCharacter U c \<longleftrightarrow> CharacterIsAlphaNumeric U c \<or> c = CHR ''_''"

text \<open>The position where the run of identifier characters that ends before position \<open>end_pos\<close> starts.\<close>

fun IdentifierStart :: "string_util \<Rightarrow> string \<Rightarrow> nat \<Rightarrow> nat" where
  "IdentifierStart U sql 0 = 0"
| "IdentifierStart U sql (Suc n) = (if IsIdentifierCharacter U (sql ! n) then IdentifierStart U sql n else Suc n)"

fun SpaceStart :: "string_util \<Rightarrow> string \<Rightarrow> nat \<Rightarrow> nat" where
  "SpaceStart U sql 0 = 0"
| "SpaceStart U sql (Suc n) = (if CharacterIsSpace U (sql ! n) then SpaceStart U sql n else Suc n)"

definition HasTrailingFormatClause :: "string_util \<Rightarrow> string \<Rightarrow> bool" where
  "HasTrailingFormatClause U sql =
     (let format_name_start = IdentifierStart U sql (length sql) in
      if format_name_start = length sql \<or> format_name_start = 0 then False
      else let keyword_end = SpaceStart U sql format_name_start in
        if keyword_end = format_name_start then False
        else let keyword_start = IdentifierStart U sql keyword_end in
          CIEquals U (substr sql keyword_start (keyword_end - keyword_start)) ''FORMAT'')"

text \<open>The rows of DESCRIBE, names and types, with the names seen before.\<close>

fun DescribeColumns :: "string_util \<Rightarrow> string list \<Rightarrow> (string \<times> string) list \<Rightarrow> column_info list res" where
  "DescribeColumns U seen_names [] = Inr []"
| "DescribeColumns U seen_names ((name, type) # rows) =
     (if name \<in> set seen_names then
        Inl (Exn BinderException ''clickhouse_query: the query returns more than one column named'' [name])
      else bindE (ColumnInfo_Create U name type) (\<lambda>column.
           bindE (DescribeColumns U (name # seen_names) rows) (\<lambda>columns. Inr (column # columns))))"

definition describe_sql :: "string \<Rightarrow> string" where
  "describe_sql query = ''DESCRIBE TABLE ('' @ [CHR 0x0A] @ query @ [CHR 0x0A] @ '')''"

text \<open>The bind once the semicolons are stripped; \<open>describe\<close> runs a query on a connection of the catalog's pool.\<close>

definition QueryBindStripped ::
  "string_util \<Rightarrow> duck_api \<Rightarrow> (string \<Rightarrow> (string \<times> string) list res) \<Rightarrow> duck_value option \<Rightarrow> string \<Rightarrow> bind_data res" where
  "QueryBindStripped U A describe setting query =
     (if query = [] then Inl (Exn BinderException ''clickhouse_query: the query cannot be empty'' [])
      else if HasTrailingFormatClause U query then
        Inl (Exn BinderException ''clickhouse_query: the query cannot end in a FORMAT clause'' [])
      else bindE (FilterPushdownEnabled A setting) (\<lambda>pushdown.
           bindE (describe (describe_sql query)) (\<lambda>rows.
           bindE (DescribeColumns U [] rows) (\<lambda>columns.
             if columns = [] then Inl (Exn BinderException ''clickhouse_query: the query does not return any columns'' [])
             else Inr \<lparr>bd_database = [], bd_table = [], bd_query = query, bd_columns = columns, approx_rows = None,
                       filter_pushdown = pushdown, order_by_clause = [], limit_clause = []\<rparr>))))"

text \<open>\<open>None\<close> when the loop that strips the semicolons does not end. The results are those of \<open>SetReturnTypes\<close>.\<close>

definition ClickhouseQueryBind ::
  "string_util \<Rightarrow> duck_api \<Rightarrow> (string \<Rightarrow> (string \<times> 'c) option) \<Rightarrow> ('c \<Rightarrow> string \<Rightarrow> (string \<times> string) list res) \<Rightarrow>
     duck_value option \<Rightarrow> duck_value \<Rightarrow> duck_value \<Rightarrow> bind_data res option" where
  "ClickhouseQueryBind U A lookup describe setting db query =
     (if IsNull db \<or> IsNull query then
        Some (Inl (Exn BinderException ''Parameters to clickhouse_query cannot be NULL'' []))
      else case bindE (StringValue_Get A db) (\<lambda>name. GetAttachedDatabase lookup name ''clickhouse_query'') of
        Inl ex \<Rightarrow> Some (Inl ex)
      | Inr catalog \<Rightarrow>
          (case StringValue_Get A query of
             Inl ex \<Rightarrow> Some (Inl ex)
           | Inr text \<Rightarrow>
               (case StripTrailingSemicolons U text of
                  None \<Rightarrow> None
                | Some sql \<Rightarrow> Some (QueryBindStripped U A (describe catalog) setting sql))))"

section \<open>clickhouse\_execute\<close>

record attached_catalog =
  catalog_name :: string
  catalog_read_only :: bool

definition GetWritableCatalog :: "(string \<Rightarrow> (string \<times> attached_catalog) option) \<Rightarrow> string \<Rightarrow> attached_catalog res" where
  "GetWritableCatalog lookup database_name =
     bindE (GetAttachedDatabase lookup database_name ''clickhouse_execute'') (\<lambda>catalog.
     bindE (ThrowIfReadOnly (catalog_name catalog) (catalog_read_only catalog)) (\<lambda>u. Inr catalog))"

record execute_bind =
  ex_database_name :: string
  ex_sql :: string

definition ClickhouseExecuteBind ::
  "string_util \<Rightarrow> duck_api \<Rightarrow> (string \<Rightarrow> (string \<times> attached_catalog) option) \<Rightarrow> duck_value \<Rightarrow> duck_value \<Rightarrow>
     execute_bind res option" where
  "ClickhouseExecuteBind U A lookup db sql =
     (if IsNull db \<or> IsNull sql then
        Some (Inl (Exn BinderException ''Parameters to clickhouse_execute cannot be NULL'' []))
      else case bindE (StringValue_Get A db) (\<lambda>name. bindE (StringValue_Get A sql) (\<lambda>text. Inr (name, text))) of
        Inl ex \<Rightarrow> Some (Inl ex)
      | Inr (name, text) \<Rightarrow>
          map_option (\<lambda>stripped.
              if stripped = [] then Inl (Exn BinderException ''clickhouse_execute: the statement cannot be empty'' [])
              else bindE (GetWritableCatalog lookup name) (\<lambda>catalog. Inr \<lparr>ex_database_name = name, ex_sql = stripped\<rparr>))
            (StripTrailingSemicolons U text))"

text \<open>What a call works on: whether it ran before, the catalog's cache, the transactions and the connection it took.\<close>

record ('a, 'k) execute_state =
  ex_finished :: bool
  ex_schemas :: "'a catalog_set"
  ex_txn :: "'a entry txn_manager"
  ex_connection :: "'k conn option"

record ('k, 'b) execute_env =
  ex_strings :: string_util
  ex_client :: "('k, 'b) client_api"
  ex_row_count :: "'b \<Rightarrow> nat"
  ex_debug :: bool
  ex_clock :: "nat \<Rightarrow> int"
  ex_lookup :: "string \<Rightarrow> (string \<times> attached_catalog) option"
  ex_acquired :: "'k conn res"
  ex_tid :: nat

text \<open>\<open>ClickhouseCatalog::ClearCache\<close>: what the cache held goes to the transaction manager.\<close>

definition ClearCatalogCache :: "('a, 'k) execute_state \<Rightarrow> ('a, 'k) execute_state" where
  "ClearCatalogCache s = (let (schemas, m) = ClearEntries (ex_schemas s) (ex_txn s) in s\<lparr>ex_schemas := schemas, ex_txn := m\<rparr>)"

definition RunExecute ::
  "('k, 'b) execute_env \<Rightarrow> execute_bind \<Rightarrow> attached_catalog \<Rightarrow> ('a, 'k) execute_state \<Rightarrow> (bool res \<times> ('a, 'k) execute_state) option" where
  "RunExecute E bd catalog s =
     (case StartWrite (catalog_name catalog) (catalog_read_only catalog) (ex_acquired E) (ex_tid E) (ex_txn s) of
        (Inl ex, m) \<Rightarrow> Some (Inl ex, s\<lparr>ex_txn := m\<rparr>)
      | (Inr c, m) \<Rightarrow>
          map_option (\<lambda>(r, c'). (r, s\<lparr>ex_txn := m, ex_connection := Some c'\<rparr>))
            (Execute (ex_strings E) (ex_client E) (ex_row_count E) (ex_debug E) (ex_clock E) (ex_sql bd) [] c))"

text \<open>One row with true, or none when the statement already ran.\<close>

definition ClickhouseExecuteExecute ::
  "('k, 'b) execute_env \<Rightarrow> execute_bind \<Rightarrow> ('a, 'k) execute_state \<Rightarrow> (bool list res \<times> ('a, 'k) execute_state) option" where
  "ClickhouseExecuteExecute E bd s0 =
     (if ex_finished s0 then Some (Inr [], s0)
      else let s = s0\<lparr>ex_finished := True\<rparr> in
        case GetWritableCatalog (ex_lookup E) (ex_database_name bd) of
          Inl ex \<Rightarrow> Some (Inl ex, s)
        | Inr catalog \<Rightarrow>
            (case RunExecute E bd catalog s of
               None \<Rightarrow> None
             | Some (Inl ex, s1) \<Rightarrow> Some (Inl ex, ClearCatalogCache s1)
             | Some (Inr returned_no_rows, s1) \<Rightarrow>
                 Some (if returned_no_rows then Inr [True]
                       else Inl (Exn InvalidInputException ''clickhouse_execute: the statement returned rows'' []), ClearCatalogCache s1)))"

section \<open>clickhouse\_clear\_cache\<close>

text \<open>Every attached database with its catalog's type; only ClickHouse catalogs have a cache to clear.\<close>

definition ClearClickhouseCaches :: "('c \<Rightarrow> 'c) \<Rightarrow> (string \<times> 'c) list \<Rightarrow> (string \<times> 'c) list" where
  "ClearClickhouseCaches clear databases = map (\<lambda>(type, catalog). (type, if type \<noteq> CATALOG_TYPE then catalog else clear catalog)) databases"

definition ClearCacheFunction :: "('c \<Rightarrow> 'c) \<Rightarrow> bool \<Rightarrow> (string \<times> 'c) list \<Rightarrow> bool \<times> (string \<times> 'c) list" where
  "ClearCacheFunction clear finished databases = (if finished then (True, databases) else (True, ClearClickhouseCaches clear databases))"

section \<open>clickhouse\_type\_mapping\<close>

record type_mapping =
  duckdb_type :: string
  read_expression :: string
  mapping_nullable :: bool
  mapping_pushdown :: bool
  mapping_readable :: bool
  mapping_finished :: bool

definition TypeMappingBind :: "string_util \<Rightarrow> type_api \<Rightarrow> duck_api \<Rightarrow> duck_value \<Rightarrow> type_mapping res" where
  "TypeMappingBind U T A input =
     (if IsNull input then Inl (Exn BinderException ''clickhouse_type_mapping: the type cannot be NULL'' [])
      else bindE (StringValue_Get A input) (\<lambda>text.
           bindE (Parse U text) (\<lambda>node.
           bindE (ToDuckDB U node) (\<lambda>(t, readable).
           bindE (ReadExpression U node ''c'') (\<lambda>read.
           bindE (SupportsFilterPushdown node) (\<lambda>pushdown.
             Inr \<lparr>duckdb_type = type_ToString T t, read_expression = read, mapping_nullable = IsNullable node,
                  mapping_pushdown = pushdown, mapping_readable = readable, mapping_finished = False\<rparr>))))))"

definition TypeMappingFunction :: "type_mapping \<Rightarrow> (string \<times> string \<times> bool \<times> bool \<times> bool) list \<times> type_mapping" where
  "TypeMappingFunction d =
     (if mapping_finished d then ([], d)
      else ([(duckdb_type d, read_expression d, mapping_nullable d, mapping_pushdown d, mapping_readable d)], d\<lparr>mapping_finished := True\<rparr>))"

section \<open>Secrets\<close>

text \<open>
  A key-value secret: its type, its map as the list of its entries and the keys that are not shown. The keys
  of the map are identifiers, which DuckDB compares without regard to case.
\<close>

definition TYPE_NAME :: string where "TYPE_NAME = ''clickhouse''"

definition DEFAULT_SECRET_NAME :: string where "DEFAULT_SECRET_NAME = ''__default_clickhouse''"

record secret =
  secret_type :: string
  secret_map :: "(string \<times> duck_value) list"
  redact_keys :: "string list"

fun map_insert :: "string_util \<Rightarrow> string \<Rightarrow> 'v \<Rightarrow> (string \<times> 'v) list \<Rightarrow> (string \<times> 'v) list" where
  "map_insert U key v [] = [(key, v)]"
| "map_insert U key v ((k, w) # items) = (if CIEquals U k key then (k, v) # items else (k, w) # map_insert U key v items)"

fun CreateSecretLoop ::
  "string_util \<Rightarrow> duck_api \<Rightarrow> (string \<times> duck_value) list \<Rightarrow> conn_config \<Rightarrow> (string \<times> duck_value) list \<Rightarrow> (string \<times> duck_value) list res" where
  "CreateSecretLoop U A [] validation items = Inr items"
| "CreateSecretLoop U A ((name, v) # options) validation items =
     (let key = Lower U name; text = value_ToString A v in
      bindE (SetOption U key text validation) (\<lambda>validation'.
        CreateSecretLoop U A options validation' (map_insert U key (Varchar text) items)))"

definition CreateSecret :: "string_util \<Rightarrow> duck_api \<Rightarrow> (string \<times> duck_value) list \<Rightarrow> secret res" where
  "CreateSecret U A options =
     bindE (CreateSecretLoop U A options initial_config []) (\<lambda>items.
       Inr \<lparr>secret_type = TYPE_NAME, secret_map = items, redact_keys = [''password'']\<rparr>)"

definition SecretParameters :: "(string \<times> logical_type) list" where
  "SecretParameters = map (\<lambda>name. (name, VARCHAR)) OptionNames"

definition GetSecretEntry :: "(string \<Rightarrow> secret option) \<Rightarrow> string \<Rightarrow> secret option res" where
  "GetSecretEntry GetSecretByName secret_name =
     (let name = (if secret_name = [] then DEFAULT_SECRET_NAME else secret_name) in
      case GetSecretByName name of
        None \<Rightarrow> if secret_name \<noteq> [] then Inl (Exn BinderException ''Secret not found'' [secret_name]) else Inr None
      | Some s \<Rightarrow>
          if secret_type s \<noteq> TYPE_NAME then
            Inl (Exn BinderException ''Secret is not a ClickHouse secret'' [name, secret_type s])
          else Inr (Some s))"

fun ApplyEntries :: "string_util \<Rightarrow> duck_api \<Rightarrow> (string \<times> duck_value) list \<Rightarrow> conn_config \<Rightarrow> conn_config res" where
  "ApplyEntries U A [] cfg = Inr cfg"
| "ApplyEntries U A ((key, v) # items) cfg =
     bindE (SetOption U key (value_ToString A v) cfg) (\<lambda>cfg'. ApplyEntries U A items cfg')"

text \<open>The order of the map is DuckDB's: \<open>sorted_entries\<close> lists its entries as the loop meets them.\<close>

definition ApplySecret ::
  "string_util \<Rightarrow> duck_api \<Rightarrow> ((string \<times> duck_value) list \<Rightarrow> (string \<times> duck_value) list) \<Rightarrow> secret \<Rightarrow> conn_config \<Rightarrow> conn_config res" where
  "ApplySecret U A sorted_entries s cfg = ApplyEntries U A (sorted_entries (secret_map s)) cfg"

record secret_env =
  secrets :: "string \<Rightarrow> secret option"
  entry_order :: "(string \<times> duck_value) list \<Rightarrow> (string \<times> duck_value) list"

text \<open>The start of ATTACH and of \<open>clickhouse_scan\<close>: the secret first, the connection string over it.\<close>

definition SecretConfig :: "string_util \<Rightarrow> duck_api \<Rightarrow> secret_env \<Rightarrow> string \<Rightarrow> conn_config res" where
  "SecretConfig U A S secret_name =
     bindE (GetSecretEntry (secrets S) secret_name) (\<lambda>entry.
       case entry of None \<Rightarrow> Inr initial_config | Some s \<Rightarrow> ApplySecret U A (entry_order S) s initial_config)"

section \<open>ATTACH\<close>

record attach_options =
  show_system :: bool
  only_schema :: string

fun AttachOptionLoop ::
  "string_util \<Rightarrow> duck_api \<Rightarrow> (duck_value \<Rightarrow> bool res) \<Rightarrow> (string \<times> duck_value) list \<Rightarrow> string \<times> string \<times> attach_options \<Rightarrow>
     (string \<times> string \<times> attach_options) res" where
  "AttachOptionLoop U A AsBoolean [] found = Inr found"
| "AttachOptionLoop U A AsBoolean ((name, v) # rest) (secret_name, settings_text, options) =
     (let key = Lower U name in
      if key = ''secret'' then AttachOptionLoop U A AsBoolean rest (value_ToString A v, settings_text, options)
      else if key = ''settings'' then AttachOptionLoop U A AsBoolean rest (secret_name, value_ToString A v, options)
      else if key = ''show_system'' then
        bindE (AsBoolean v) (\<lambda>b. AttachOptionLoop U A AsBoolean rest (secret_name, settings_text, options\<lparr>show_system := b\<rparr>))
      else if key = ''schema'' then
        (if value_ToString A v = [] then Inl (Exn BinderException ''SCHEMA must name a ClickHouse database'' [])
         else AttachOptionLoop U A AsBoolean rest (secret_name, settings_text, options\<lparr>only_schema := value_ToString A v\<rparr>))
      else Inl (Exn BinderException ''Unrecognized option for ClickHouse attach'' [name]))"

record catalog =
  cat_config :: conn_config
  cat_options :: attach_options
  cat_timeouts :: timeouts
  cat_pool :: pool_config

text \<open>
  What an ATTACH or a bind asks DuckDB and the server: the settings of the session, the number of processors for
  the size of the pool, and queries on a connection of a pool that is opened for a configuration.
\<close>

record 'c session_env =
  se_external_access :: bool
  se_setting :: "string \<Rightarrow> duck_value option"
  se_ubigint :: "duck_value \<Rightarrow> nat res"
  se_processors :: nat
  se_connect :: "conn_config \<Rightarrow> timeouts \<Rightarrow> pool_config \<Rightarrow> 'c res"
  se_query :: "'c \<Rightarrow> string \<Rightarrow> (string \<times> string) list \<Rightarrow> string list list res"

definition databases_sql :: "string \<Rightarrow> string" where
  "databases_sql name = ''SELECT name FROM system.databases WHERE lower(name) = lower('' @ QuoteLiteral name @ '') ORDER BY name''"

definition NewCatalog ::
  "duck_api \<Rightarrow> 'c session_env \<Rightarrow> conn_config \<Rightarrow> attach_options \<Rightarrow> catalog res" where
  "NewCatalog A E cfg options =
     bindE (FromContext (se_ubigint E) (se_setting E)) (\<lambda>t.
     bindE (PoolConfigFromContext (value_ToString A) (se_ubigint E) (se_processors E) (se_setting E)) (\<lambda>pool.
     bindE (se_connect E cfg t pool) (\<lambda>c.
     bindE (if only_schema options = [] then Inr options
            else bindE (se_query E c (databases_sql (only_schema options)) ExtensionQuerySettings) (\<lambda>rows.
                 bindE (ResolveSchemaOption (only_schema options) (map hd rows)) (\<lambda>name. Inr (options\<lparr>only_schema := name\<rparr>))))
       (\<lambda>options'. Inr \<lparr>cat_config = cfg, cat_options = options', cat_timeouts = t, cat_pool = pool\<rparr>))))"

definition ClickhouseAttach ::
  "string_util \<Rightarrow> duck_api \<Rightarrow> secret_env \<Rightarrow> 'c session_env \<Rightarrow> (duck_value \<Rightarrow> bool res) \<Rightarrow> string \<Rightarrow> (string \<times> duck_value) list \<Rightarrow>
     catalog res" where
  "ClickhouseAttach U A S E AsBoolean path attach_opts =
     (if \<not> se_external_access E then
        Inl (Exn PermissionException ''Attaching ClickHouse databases is disabled through configuration'' [])
      else bindE (AttachOptionLoop U A AsBoolean attach_opts ([], [], \<lparr>show_system = False, only_schema = []\<rparr>))
        (\<lambda>(secret_name, settings_text, options).
           bindE (SecretConfig U A S secret_name) (\<lambda>cfg.
           bindE (ApplyConnectionString U path cfg) (\<lambda>cfg'.
           bindE (if settings_text \<noteq> [] then AddSettings U settings_text cfg' else Inr cfg') (\<lambda>cfg''.
             NewCatalog A E cfg'' options)))))"

section \<open>clickhouse\_scan\<close>

definition scan_columns_sql :: "string \<Rightarrow> string \<Rightarrow> string" where
  "scan_columns_sql db table =
     ''SELECT name, type FROM system.columns WHERE database = '' @ QuoteLiteral db @ '' AND table = '' @ QuoteLiteral table @
     '' AND default_kind != '' @ QuoteLiteral ''EPHEMERAL'' @ '' ORDER BY position''"

text \<open>The inputs are the connection string, the database and the table; the pool of the scan starts no reaper.\<close>

definition ClickhouseScanBind ::
  "string_util \<Rightarrow> duck_api \<Rightarrow> secret_env \<Rightarrow> 'c session_env \<Rightarrow> duck_value list \<Rightarrow> duck_value option \<Rightarrow> bind_data res" where
  "ClickhouseScanBind U A S E inputs secret_parameter =
     (if \<not> se_external_access E then
        Inl (Exn PermissionException ''Reading from ClickHouse is disabled through configuration'' [])
      else if list_ex IsNull inputs then Inl (Exn BinderException ''Parameters to clickhouse_scan cannot be NULL'' [])
      else bindE (SecretConfig U A S (case secret_parameter of None \<Rightarrow> [] | Some v \<Rightarrow> value_ToString A v)) (\<lambda>cfg.
           bindE (StringValue_Get A (inputs ! 0)) (\<lambda>path.
           bindE (ApplyConnectionString U path cfg) (\<lambda>cfg'.
           bindE (PoolConfigFromContext (value_ToString A) (se_ubigint E) (se_processors E) (se_setting E)) (\<lambda>pool.
           bindE (FromContext (se_ubigint E) (se_setting E)) (\<lambda>t.
           bindE (StringValue_Get A (inputs ! 1)) (\<lambda>db.
           bindE (StringValue_Get A (inputs ! 2)) (\<lambda>table.
           bindE (FilterPushdownEnabled A (se_setting E ''ch_filter_pushdown'')) (\<lambda>pushdown.
           bindE (se_connect E cfg' t (pool\<lparr>cfg_start_reaper_thread := False\<rparr>)) (\<lambda>c.
           bindE (se_query E c (scan_columns_sql db table) ExtensionQuerySettings) (\<lambda>rows.
           bindE (mapE (\<lambda>row. ColumnInfo_Create U (row ! 0) (row ! 1)) rows) (\<lambda>columns.
             if columns = [] then Inl (Exn BinderException ''ClickHouse table not found'' [db, table])
             else Inr \<lparr>bd_database = db, bd_table = table, bd_query = [], bd_columns = columns, approx_rows = None,
                       filter_pushdown = pushdown, order_by_clause = [], limit_clause = []\<rparr>))))))))))))"

section \<open>The start of a scan\<close>

text \<open>The filters of the scan operator, which may have none; the input's own only when there is no operator.\<close>

definition StaticScanFilters ::
  "(nat \<times> table_filter) list option option \<Rightarrow> (nat \<times> table_filter) list option \<Rightarrow> (nat \<times> table_filter) list option" where
  "StaticScanFilters op_filters filters = (case op_filters of Some table_filters \<Rightarrow> table_filters | None \<Rightarrow> filters)"

record scan_state =
  scan_sql :: string
  column_names :: "string list"
  projection_ids :: "nat list"
  max_threads :: nat

text \<open>The result, the SQL kept for EXPLAIN, and the connection the scan holds.\<close>

definition ClickhouseInitGlobal ::
  "string_util \<Rightarrow> duck_api \<Rightarrow> ('k, 'b) client_api \<Rightarrow> bool \<Rightarrow> int \<Rightarrow> nat \<Rightarrow> 'k conn res \<Rightarrow> bind_data \<Rightarrow> nat option list \<Rightarrow>
     (nat \<times> table_filter) list option \<Rightarrow> nat list \<Rightarrow> scan_state res \<times> string option \<times> 'k conn option" where
  "ClickhouseInitGlobal U A K debug now threads conn bd column_ids filters projection =
     (case BuildQuery U A bd column_ids (case filters of None \<Rightarrow> [] | Some fs \<Rightarrow> fs) of
        Inl ex \<Rightarrow> (Inl ex, None, None)
      | Inr sql \<Rightarrow>
          (case conn of
             Inl ex \<Rightarrow> (Inl ex, Some sql, None)
           | Inr c \<Rightarrow>
               (case BeginQuery U K debug now sql [] c of
                  (Inl ex, c') \<Rightarrow> (Inl ex, Some sql, Some c')
                | (Inr u, c') \<Rightarrow>
                    (Inr \<lparr>scan_sql = sql,
                       column_names = map (\<lambda>id. case id of None \<Rightarrow> ''rowid'' | Some i \<Rightarrow> col_name (bd_columns bd ! i)) column_ids,
                       projection_ids = projection,
                       max_threads = (if order_by_clause bd = [] then max 1 threads else 1)\<rparr>, Some sql, Some c'))))"

text \<open>The end of a scan that may have stopped early.\<close>

definition EndScan :: "('k, 'b) client_api \<Rightarrow> 'k conn option \<Rightarrow> 'k conn option" where
  "EndScan K held =
     (case held of None \<Rightarrow> None | Some c \<Rightarrow> Some (if IsQueryRunning K c then Cancel K c else c))"

definition ClickhouseScanCardinality :: "bind_data \<Rightarrow> nat option" where
  "ClickhouseScanCardinality bd = approx_rows bd"

definition ClickhouseGetPartitionData :: "bool \<Rightarrow> nat \<Rightarrow> nat res" where
  "ClickhouseGetPartitionData requires_partition_columns batch =
     (if requires_partition_columns then
        Inl (Exn InternalException ''ClickhouseScan::GetPartitionData: partition columns are not supported'' [])
      else Inr batch)"

definition ClickhouseGetVirtualColumns :: "(string \<times> logical_type) list" where
  "ClickhouseGetVirtualColumns = [(''rowid'', BIGINT)]"

text \<open>Bind data with the identities of its pool and of the table entry it was made for.\<close>

record scan_bind_data =
  bind_pool :: nat
  bind_table_entry :: "nat option"
  bind_scan :: bind_data

definition ClickhouseGetTableEntry :: "scan_bind_data option \<Rightarrow> nat option" where
  "ClickhouseGetTableEntry b = (case b of None \<Rightarrow> None | Some d \<Rightarrow> bind_table_entry d)"

definition ScanBindEquals :: "scan_bind_data \<Rightarrow> scan_bind_data \<Rightarrow> bool" where
  "ScanBindEquals a b \<longleftrightarrow>
     bind_pool a = bind_pool b \<and> bind_table_entry a = bind_table_entry b \<and>
     (let x = bind_scan a; y = bind_scan b in
      bd_database x = bd_database y \<and> bd_table x = bd_table y \<and> bd_query x = bd_query y \<and> filter_pushdown x = filter_pushdown y \<and>
      order_by_clause x = order_by_clause y \<and> limit_clause x = limit_clause y)"

section \<open>What the functions promise\<close>

text \<open>A trailing FORMAT clause: the keyword, white space and a bare identifier at the end of the text.\<close>

definition format_clause :: "string \<Rightarrow> bool" where
  "format_clause sql \<longleftrightarrow>
     (\<exists>before keyword space name. sql = before @ keyword @ space @ name \<and> map ascii_lower_char keyword = ''format'' \<and>
        space \<noteq> [] \<and> list_all c_isspace space \<and> name \<noteq> [] \<and>
        list_all (\<lambda>c. ascii_alpha c \<or> ascii_digit c \<or> c = CHR ''_'') name \<and>
        (before = [] \<or> \<not> (ascii_alpha (last before) \<or> ascii_digit (last before) \<or> last before = CHR ''_'')))"

lemma rtrim_by_parts: "\<exists>b. s = rtrim_by p s @ b \<and> list_all p b"
proof -
  have "s = rev (dropWhile p (rev s)) @ rev (takeWhile p (rev s))"
    by (metis rev_append rev_rev_ident takeWhile_dropWhile_id)
  moreover have "list_all p (rev (takeWhile p (rev s)))" by (auto simp: list_all_iff dest: set_takeWhileD)
  ultimately show ?thesis unfolding rtrim_by_def by blast
qed

lemma rtrim_by_append: "list_all p b \<Longrightarrow> a = [] \<or> \<not> p (last a) \<Longrightarrow> rtrim_by p (a @ b) = a"
  by (cases a rule: rev_cases) (auto simp: rtrim_by_def list_all_iff dropWhile_append)

lemma rtrim_by_snoc: "rtrim_by p (s @ [c]) = (if p c then rtrim_by p s else s @ [c])"
  by (simp add: rtrim_by_def)

lemma IdentifierStart_rtrim: "n \<le> length sql \<Longrightarrow> take (IdentifierStart U sql n) sql = rtrim_by (IsIdentifierCharacter U) (take n sql) \<and> IdentifierStart U sql n \<le> n"
  by (induction U sql n rule: IdentifierStart.induct) (auto simp: rtrim_by_snoc take_Suc_conv_app_nth rtrim_by_def)

lemma SpaceStart_rtrim: "n \<le> length sql \<Longrightarrow> take (SpaceStart U sql n) sql = rtrim_by (CharacterIsSpace U) (take n sql) \<and> SpaceStart U sql n \<le> n"
  by (induction U sql n rule: SpaceStart.induct) (auto simp: rtrim_by_snoc take_Suc_conv_app_nth rtrim_by_def)

text \<open>The three positions as the lengths of three texts.\<close>

lemma HasTrailing_texts:
  assumes "string_util_ok U"
  defines "ident \<equiv> \<lambda>c. ascii_alpha c \<or> ascii_digit c \<or> c = CHR ''_''"
  defines "upto_name \<equiv> \<lambda>sql. rtrim_by ident sql"
  defines "upto_keyword \<equiv> \<lambda>sql. rtrim_by c_isspace (upto_name sql)"
  shows "HasTrailingFormatClause U sql \<longleftrightarrow>
    upto_name sql \<noteq> sql \<and> upto_name sql \<noteq> [] \<and> upto_keyword sql \<noteq> upto_name sql \<and>
    map ascii_lower_char (drop (length (rtrim_by ident (upto_keyword sql))) (upto_keyword sql)) = ''format''"
proof -
  let ?n = "IdentifierStart U sql (length sql)"
  let ?k = "SpaceStart U sql ?n"
  let ?s = "IdentifierStart U sql ?k"
  have P: "IsIdentifierCharacter U = ident" using assms(1) by (auto simp: IsIdentifierCharacter_def string_util_laws ident_def fun_eq_iff)
  have S: "CharacterIsSpace U = c_isspace" using assms(1) by (simp add: string_util_laws)
  have n: "take ?n sql = upto_name sql" "?n \<le> length sql" using IdentifierStart_rtrim [of "length sql" sql U] by (auto simp: P upto_name_def)
  have k: "take ?k sql = upto_keyword sql" "?k \<le> ?n" using SpaceStart_rtrim [OF n(2), of U] n by (auto simp: S upto_keyword_def)
  then have "?k \<le> length sql" using n(2) by linarith
  from IdentifierStart_rtrim [OF this, of U] have s: "take ?s sql = rtrim_by ident (upto_keyword sql)" "?s \<le> ?k" by (auto simp: P k)
  have len: "length (upto_name sql) = ?n" "length (upto_keyword sql) = ?k" "length (rtrim_by ident (upto_keyword sql)) = ?s"
    using n k s by (metis length_take min.absorb2 order.trans)+
  have eqs: "?n = length sql \<longleftrightarrow> upto_name sql = sql" "?n = 0 \<longleftrightarrow> upto_name sql = []" "?k = ?n \<longleftrightarrow> upto_keyword sql = upto_name sql"
    using len n k by (metis take_all order_refl, metis length_0_conv, metis)
  have "substr sql ?s (?k - ?s) = drop ?s (upto_keyword sql)" unfolding substr_def k(1) [symmetric] by (simp add: drop_take)
  moreover have "map ascii_lower_char ''FORMAT'' = ''format''" by code_simp
  with assms(1) have "CIEquals U a ''FORMAT'' \<longleftrightarrow> map ascii_lower_char a = ''format''" for a
    by (simp add: string_util_laws del: list.map)
  ultimately show ?thesis unfolding HasTrailingFormatClause_def Let_def len eqs [symmetric] by auto
qed



section \<open>The cache after clickhouse\_execute\<close>

text \<open>
  C23. However the statement of \<open>clickhouse_execute\<close> ends, by an exception, with rows or without, the catalog's
  cache is empty and will be loaded again, and every entry it held is kept by the transaction manager for each
  transaction that was active. The connection it used is that of a transaction marked as written.
\<close>

theorem execute_clears_cache:
  assumes run: "ClickhouseExecuteExecute E bd s = Some (r, s')" and first: "\<not> ex_finished s"
    and catalog: "GetWritableCatalog (ex_lookup E) (ex_database_name bd) = Inr catalog" and inv: "manager_inv (ex_txn s)"
  shows "\<not> is_loaded (ex_schemas s') \<and> ordered_entries (ex_schemas s') = [] \<and> entries (ex_schemas s') = Map.empty \<and>
    active (ex_txn s') = active (ex_txn s) \<and>
    (\<forall>e\<in>set (ordered_entries (ex_schemas s)). \<forall>tid\<in>active (ex_txn s). kept_for (ex_txn s') tid e) \<and>
    (\<forall>c. ex_acquired E = Inr c \<and> ex_tid E \<in> active (ex_txn s) \<longrightarrow> HasWritten (ex_tid E) (ex_txn s'))"
proof -
  obtain r1 s1 where run1: "RunExecute E bd catalog (s\<lparr>ex_finished := True\<rparr>) = Some (r1, s1)" and s': "s' = ClearCatalogCache s1"
    using run first catalog by (auto simp: ClickhouseExecuteExecute_def Let_def split: option.splits sum.splits prod.splits)
  have writable: "\<not> catalog_read_only catalog"
    using catalog by (auto simp: GetWritableCatalog_def ThrowIfReadOnly_def ThrowReadOnly_def split: if_splits)
  have s1: "ex_schemas s1 = ex_schemas s \<and>
      ex_txn s1 = (case ex_acquired E of Inl ex \<Rightarrow> ex_txn s | Inr c \<Rightarrow> MarkWritten (ex_tid E) (ex_txn s))"
    using run1 writable by (auto simp: RunExecute_def StartWrite_def ThrowIfReadOnly_def split: sum.splits prod.splits)
  have m: "manager_inv (ex_txn s1)" "active (ex_txn s1) = active (ex_txn s)"
    using s1 inv manager_inv_mark by (auto split: sum.splits)
  have kept: "kept_for (RetireEntries es (ex_txn s1)) tid e" if "e \<in> set es" "tid \<in> active (ex_txn s)" for es e tid
    using that m by (auto simp: kept_for_def RetireEntries_def manager_inv_def)
  have marked: "HasWritten (ex_tid E) (RetireEntries es (MarkWritten (ex_tid E) (ex_txn s)))" if "ex_tid E \<in> active (ex_txn s)" for es
  proof -
    from that obtain x where x: "x \<in> set (transactions (ex_txn s))" "transaction_id x = ex_tid E" by (auto simp: active_def)
    then have "x\<lparr>written := True\<rparr> \<in> set (transactions (MarkWritten (ex_tid E) (ex_txn s)))" by (force simp: MarkWritten_def)
    moreover have "transactions (RetireEntries es (MarkWritten (ex_tid E) (ex_txn s))) = transactions (MarkWritten (ex_tid E) (ex_txn s))"
      by (simp add: RetireEntries_def)
    ultimately show ?thesis unfolding HasWritten_def list_ex_iff using x(2) by (intro bexI [of _ "x\<lparr>written := True\<rparr>"]) simp_all
  qed
  have "active (RetireEntries es mgr) = active mgr" for es :: "'a entry list" and mgr by (simp add: RetireEntries_def active_def)
  with s1 m kept marked show ?thesis
    by (auto simp: s' ClearCatalogCache_def ClearEntries_def RemoveEntries_def Let_def)
qed

section \<open>Secrets\<close>

lemma AddEntries_ok: "is_ok (AddEntries U es cfg) \<longleftrightarrow> is_ok (AddEntries U es cfg')"
proof (induction es arbitrary: cfg cfg')
  case (Cons e es)
  show ?case by (simp add: Let_def) (intro conjI impI Cons.IH)
qed simp

text \<open>Whether an option is accepted depends on its name and value alone.\<close>

lemma SetOption_ok: "is_ok (SetOption U k v cfg) \<longleftrightarrow> is_ok (SetOption U k v cfg')"
  using AddEntries_ok [of U "Split U v (CHR '','')" cfg cfg']
  by (auto simp: SetOption_def Let_def AddSettings_def bindE_def split: sum.split)

lemma map_insert_set: "x \<in> set (map_insert U k v xs) \<Longrightarrow> x \<in> set xs \<or> (\<exists>k'. x = (k', v) \<and> (k' = k \<or> CIEquals U k' k))"
  by (induction U k v xs rule: map_insert.induct) (auto split: if_splits)

lemma SetOption_key: "string_util_ok U \<Longrightarrow> CIEquals U k k' \<Longrightarrow> is_ok (SetOption U k v cfg) \<longleftrightarrow> is_ok (SetOption U k' v cfg)"
  by (auto simp: SetOption_def Let_def option_key_def string_util_laws is_ok_iff)

lemma CreateSecretLoop_ok:
  assumes "string_util_ok U" "\<forall>s. value_ToString A (Varchar s) = s"
  shows "CreateSecretLoop U A options cfg acc = Inr es \<Longrightarrow>
    \<forall>(k, v)\<in>set acc. is_ok (SetOption U k (value_ToString A v) initial_config) \<Longrightarrow>
    \<forall>(k, v)\<in>set es. is_ok (SetOption U k (value_ToString A v) initial_config)"
proof (induction options arbitrary: cfg acc)
  case (Cons option options)
  obtain name v where option: "option = (name, v)" by (cases option)
  let ?key = "Lower U name" and ?text = "value_ToString A v"
  from Cons.prems(1) option obtain cfg' where set: "SetOption U ?key ?text cfg = Inr cfg'" by (auto simp: Let_def)
  then have ok: "is_ok (SetOption U ?key ?text initial_config)" using SetOption_ok [of U ?key ?text cfg initial_config] by simp
  have "is_ok (SetOption U k' ?text initial_config)" if "k' = ?key \<or> CIEquals U k' ?key" for k'
    using that
  proof
    assume key: "CIEquals U k' ?key"
    with ok show ?thesis by (simp only: SetOption_key [OF assms(1) key])
  qed (use ok in simp)
  then have step: "\<forall>(k, v)\<in>set (map_insert U ?key (Varchar ?text) acc). is_ok (SetOption U k (value_ToString A v) initial_config)"
    using Cons.prems(2) assms(2) by (auto dest!: map_insert_set)
  have "CreateSecretLoop U A options cfg' (map_insert U ?key (Varchar ?text) acc) = Inr es"
    using Cons.prems(1) option set by (simp add: Let_def)
  from Cons.IH [OF this step] show ?case by blast
qed simp

lemma ApplyEntries_ok:
  "\<forall>(k, v)\<in>set es. is_ok (SetOption U k (value_ToString A v) initial_config) \<Longrightarrow> is_ok (ApplyEntries U A es cfg)"
proof (induction es arbitrary: cfg)
  case (Cons e es)
  obtain k v where e: "e = (k, v)" by (cases e)
  with Cons.prems have "is_ok (SetOption U k (value_ToString A v) cfg)"
    using SetOption_ok [of U k "value_ToString A v" cfg initial_config] by simp
  with Cons e show ?case by (auto simp: is_ok_iff)
qed simp

text \<open>
  C35. A secret that CREATE SECRET accepts can always be applied: its options were validated when it was created, and
  whether an option is accepted depends on nothing else, so neither the order of the secret's map nor what was
  configured before can make ATTACH fail on it.
\<close>

theorem created_secret_applies:
  assumes "string_util_ok U" "\<forall>s. value_ToString A (Varchar s) = s"
    and "CreateSecret U A options = Inr s" "set (sorted_entries (secret_map s)) = set (secret_map s)"
  shows "is_ok (ApplySecret U A sorted_entries s cfg) \<and> secret_type s = TYPE_NAME"
proof -
  from assms(3) obtain es where "CreateSecretLoop U A options initial_config [] = Inr es"
    and s: "s = \<lparr>secret_type = TYPE_NAME, secret_map = es, redact_keys = [''password'']\<rparr>"
    by (auto simp: CreateSecret_def)
  from CreateSecretLoop_ok [OF assms(1,2) this(1)] assms(4) s show ?thesis
    by (auto simp: ApplySecret_def intro!: ApplyEntries_ok)
qed

theorem created_secret_applies_witness:
  "\<exists>s. CreateSecret duck_strings duck_api_instance [(''HOST'', Varchar ''db.example''), (''Secure'', Varchar ''yes'')] = Inr s \<and>
     is_ok (ApplySecret duck_strings duck_api_instance rev s initial_config)"
proof -
  let ?options = "[(''HOST'', Varchar ''db.example''), (''Secure'', Varchar ''yes'')]"
  have "is_ok (CreateSecret duck_strings duck_api_instance ?options)" by code_simp
  then obtain s where s: "CreateSecret duck_strings duck_api_instance ?options = Inr s" by (auto simp: is_ok_iff)
  have "\<forall>x. value_ToString duck_api_instance (Varchar x) = x" by (simp add: duck_api_instance_def)
  from created_secret_applies [OF duck_strings_ok this s] s show ?thesis by auto
qed

section \<open>Type mapping\<close>

text \<open>The columns \<open>pushdown\<close> and \<open>read_expression\<close> of \<open>clickhouse_type_mapping\<close> agree.\<close>

lemma mapped_pushdown_reads_itself:
  "TypeMappingBind U T A v = Inr d \<Longrightarrow> mapping_pushdown d \<Longrightarrow> read_expression d = ''c''"
  using pushdown_reads_unchanged by (fastforce simp: TypeMappingBind_def split: if_splits)

section \<open>An example\<close>

definition sample_execute_env :: "(script_client, nat) execute_env" where
  "sample_execute_env = \<lparr>ex_strings = duck_strings, ex_client = scripted, ex_row_count = (\<lambda>b. b), ex_debug = False, ex_clock = int,
     ex_lookup = (\<lambda>name. if name = ''ch'' then Some (CATALOG_TYPE, \<lparr>catalog_name = ''ch'', catalog_read_only = False\<rparr>) else None),
     ex_acquired = Inr (sample_conn [Inr (Some 0), Inr None]), ex_tid = 1\<rparr>"

definition sample_execute_state :: "(unit, script_client) execute_state" where
  "sample_execute_state = \<lparr>ex_finished = False,
     ex_schemas = \<lparr>is_loaded = True, ordered_entries = [entry_of 3 ''db''], entries = [''db'' \<mapsto> entry_of 3 ''db'']\<rparr>,
     ex_txn = snd (StartTransaction empty_manager), ex_connection = None\<rparr>"

theorem execute_clears_cache_witness:
  "\<exists>s'. ClickhouseExecuteExecute sample_execute_env \<lparr>ex_database_name = ''ch'', ex_sql = ''DROP TABLE t''\<rparr> sample_execute_state =
      Some (Inr [True], s') \<and> \<not> is_loaded (ex_schemas s') \<and> kept_for (ex_txn s') 1 (entry_of 3 ''db'') \<and> HasWritten 1 (ex_txn s')"
proof -
  let ?b = "\<lparr>ex_database_name = ''ch'', ex_sql = ''DROP TABLE t''\<rparr>"
  have "map_option fst (ClickhouseExecuteExecute sample_execute_env ?b sample_execute_state) = Some (Inr [True])"
    by (simp add: ClickhouseExecuteExecute_def GetWritableCatalog_def GetAttachedDatabase_def RunExecute_def StartWrite_def ThrowIfReadOnly_def
        Execute_def BeginQuery_def NextBlock_def ExecuteLoop.simps [where n = "Suc 0"] ExecuteLoop.simps [where n = 2]
        ExecuteLoop.simps [where n = "Suc (Suc 0)"] sample_execute_env_def sample_execute_state_def sample_conn_def new_conn_def scripted_def Let_def)
  then obtain s' where run: "ClickhouseExecuteExecute sample_execute_env ?b sample_execute_state = Some (Inr [True], s')" by auto
  have catalog: "GetWritableCatalog (ex_lookup sample_execute_env) (ex_database_name ?b) = Inr \<lparr>catalog_name = ''ch'', catalog_read_only = False\<rparr>"
    by (simp add: GetWritableCatalog_def GetAttachedDatabase_def ThrowIfReadOnly_def sample_execute_env_def)
  have inv: "manager_inv (ex_txn sample_execute_state)" by (simp add: sample_execute_state_def manager_inv_start manager_inv_empty)
  have "\<not> ex_finished sample_execute_state" by (simp add: sample_execute_state_def)
  from execute_clears_cache [OF run this catalog inv] run show ?thesis
    by (auto simp: sample_execute_env_def sample_execute_state_def StartTransaction_def empty_manager_def active_def Let_def)
qed

end
