(* ===== verification/Ddl.thy ===== *)
theory Ddl
  imports Dml
begin

text \<open>
  DDL statements: \<open>src/src/storage/clickhouse_ddl.cpp\<close>. The SQL of CREATE TABLE and ALTER TABLE, and the questions
  that are asked of the server before an ALTER is sent. The catalog and its connections are the record \<open>ddl_api\<close>
  over a state \<open>'w\<close>; DuckDB's binding and evaluation of a DEFAULT are part of the statement.
\<close>

section \<open>Running statements\<close>

definition bindS :: "'a res \<times> 'w \<Rightarrow> ('a \<Rightarrow> 'w \<Rightarrow> 'b res \<times> 'w) \<Rightarrow> 'b res \<times> 'w" where
  "bindS m f = (case m of (Inl ex, w) \<Rightarrow> (Inl ex, w) | (Inr x, w) \<Rightarrow> f x w)"

lemma bindS_simps [simp]: "bindS (Inl ex, w) f = (Inl ex, w)" "bindS (Inr x, w) f = f x w"
  by (simp_all add: bindS_def)

text \<open>
  \<open>StartWrite\<close> and \<open>Execute\<close> on the connection it gives, queries on a connection of the pool, \<open>ClearCache\<close>, and the
  lookup of a schema and a table in it. A query returns blocks of rows. A schema entry is its identity and its name.
\<close>

type_synonym schema_entry = "unit entry"

record 'w ddl_api =
  StartWriteExecute :: "string \<Rightarrow> (string \<times> string) list \<Rightarrow> 'w \<Rightarrow> unit res \<times> 'w"
  query_columns :: "string \<Rightarrow> (string \<times> string) list \<Rightarrow> 'w \<Rightarrow> (string \<times> string \<times> nat) list list res \<times> 'w"
  query_counts :: "string \<Rightarrow> (string \<times> string) list \<Rightarrow> 'w \<Rightarrow> nat list list res \<times> 'w"
  ClearCache :: "'w \<Rightarrow> 'w"
  LookupSchema :: "string \<Rightarrow> 'w \<Rightarrow> schema_entry option res \<times> 'w"
  LookupEntry :: "schema_entry \<Rightarrow> string \<Rightarrow> 'w \<Rightarrow> table_entry option res \<times> 'w"

definition DdlExecute :: "'w ddl_api \<Rightarrow> string \<Rightarrow> (string \<times> string) list \<Rightarrow> 'w \<Rightarrow> unit res \<times> 'w" where
  "DdlExecute C sql st w =
     (case StartWriteExecute C sql ((''enable_time_time64_type'', ''1'') # st) w of
        (Inl ex, w') \<Rightarrow> (Inl ex, ClearCache C w')
      | (Inr u, w') \<Rightarrow> (Inr (), ClearCache C w'))"

definition LookupTable :: "'w ddl_api \<Rightarrow> string \<Rightarrow> string \<Rightarrow> 'w \<Rightarrow> table_entry option res \<times> 'w" where
  "LookupTable C db table w =
     bindS (LookupSchema C db w) (\<lambda>found w'.
       case found of None \<Rightarrow> (Inr None, w') | Some schema \<Rightarrow> LookupEntry C schema table w')"

section \<open>CREATE TABLE\<close>

record bound_expr =
  IsFoldable :: bool
  IsConsistent :: bool
  evaluated :: "duck_value res"

text \<open>A DEFAULT is bound with the type of its column as the target.\<close>

record column_def =
  cd_name :: string
  cd_type :: logical_type
  cd_generated :: bool
  cd_default :: "(logical_type \<Rightarrow> bound_expr res) option"

definition DefaultValueSql :: "type_api \<Rightarrow> duck_api \<Rightarrow> column_def \<Rightarrow> string res" where
  "DefaultValueSql T A column =
     (case cd_default column of
        None \<Rightarrow> Inr []
      | Some binding \<Rightarrow>
          bindE (binding (cd_type column)) (\<lambda>bound.
            if \<not> IsFoldable bound \<or> \<not> IsConsistent bound then
              Inl (unsupported ''DEFAULT value must be a constant for ClickHouse tables'' [cd_name column])
            else bindE (evaluated bound) (\<lambda>v.
              case Literal A v of
                Inr s \<Rightarrow> Inr ('' DEFAULT '' @ s)
              | Inl ex \<Rightarrow> Inl (if exn_kind ex = NotImplementedException then
                    unsupported ''DEFAULT value cannot be written as a ClickHouse literal''
                      [value_ToString A v, cd_name column, type_ToString T (value_type v)] else ex))))"

definition ColumnDefSql :: "string_util \<Rightarrow> type_api \<Rightarrow> duck_api \<Rightarrow> column_def \<Rightarrow> bool \<Rightarrow> string res" where
  "ColumnDefSql U T A column nullable =
     (if cd_generated column then Inl (unsupported ''Generated columns are not supported for ClickHouse tables'' [])
      else bindE (ToClickhouse U T (cd_type column) nullable) (\<lambda>t.
           bindE (DefaultValueSql T A column) (\<lambda>d. Inr (QuoteIdentifier (cd_name column) @ '' '' @ t @ d))))"

text \<open>The loop over the argument list, from its opening parenthesis on; the text after position \<open>i\<close> is the argument.\<close>

function EngineArgs :: "nat \<Rightarrow> bool \<Rightarrow> string \<Rightarrow> bool" where
  "EngineArgs depth in_string [] \<longleftrightarrow> \<not> in_string \<and> depth = 0"
| "EngineArgs depth in_string (c # cs) \<longleftrightarrow>
     (if in_string then
        (if c = CHR 0x5C \<and> cs \<noteq> [] then EngineArgs depth True (tl cs)
         else if c = CHR 0x27 then EngineArgs depth False cs
         else EngineArgs depth True cs)
      else if c = CHR 0x27 then EngineArgs depth True cs
      else if c = CHR ''('' then EngineArgs (Suc depth) False cs
      else if c = CHR '')'' then
        (if depth = 0 then False
         else if depth = 1 \<and> cs \<noteq> [] then False
         else EngineArgs (depth - 1) False cs)
      else EngineArgs depth False cs)"
  by pat_completeness auto
termination
  by (relation "measure (\<lambda>(d, b, s). length s)") auto

definition ValidateEngine :: "string_util \<Rightarrow> string \<Rightarrow> unit res" where
  "ValidateEngine U name =
     (let start = (\<lambda>c. CharacterIsAlpha U c \<or> c = CHR ''_''); part = (\<lambda>c. CharacterIsAlphaNumeric U c \<or> c = CHR ''_'');
          args = dropWhile part name
      in if name \<noteq> [] \<and> start (hd name) \<and> (args \<noteq> [] \<longrightarrow> hd args = CHR ''('' \<and> EngineArgs 0 False args) then Inr ()
         else Inl (Exn InvalidInputException ''Invalid ch_default_table_engine'' [name]))"

definition TableEngine :: "string_util \<Rightarrow> duck_api \<Rightarrow> (string \<Rightarrow> duck_value option) \<Rightarrow> string res" where
  "TableEngine U A current =
     bindE (case current ''ch_default_table_engine'' of
              Some v \<Rightarrow> if IsNull v then Inr ''MergeTree'' else StringValue_Get A v
            | None \<Rightarrow> Inr ''MergeTree'')
       (\<lambda>name. bindE (ValidateEngine U name) (\<lambda>u. Inr name))"

definition EngineTakesOrderBy :: "string_util \<Rightarrow> string \<Rightarrow> bool" where
  "EngineTakesOrderBy U name \<longleftrightarrow> EndsWith U (takeWhile (\<lambda>c. c \<noteq> CHR ''('') name) ''MergeTree''"

datatype on_conflict = ERROR_ON_CONFLICT | IGNORE_ON_CONFLICT | REPLACE_ON_CONFLICT

text \<open>The columns of a unique constraint are an index or a list of names.\<close>

datatype constraint_def =
    NotNull nat
  | Unique bool "nat + string list"
  | CheckConstraint | ForeignKey | OtherConstraint

record create_info =
  ci_options :: bool
  ci_constraints :: "constraint_def list"
  ci_columns :: "column_def list"
  ci_on_conflict :: on_conflict
  ci_table_name :: string

text \<open>The columns that are NOT NULL and the primary key; each unique constraint on a list replaces the key.\<close>

fun Constraints :: "column_def list \<Rightarrow> nat set \<Rightarrow> string list \<Rightarrow> constraint_def list \<Rightarrow> (nat set \<times> string list) res" where
  "Constraints columns not_nulls primary_key [] = Inr (not_nulls, primary_key)"
| "Constraints columns not_nulls primary_key (k # ks) =
     (case k of
        NotNull i \<Rightarrow> Constraints columns (insert i not_nulls) primary_key ks
      | Unique is_primary key \<Rightarrow>
          if \<not> is_primary then Inl (unsupported ''UNIQUE constraints are not supported for ClickHouse tables'' [])
          else (case key of
              Inl i \<Rightarrow> if i \<ge> length columns then Inl (Exn InternalException ''Column index out of range'' [])
                       else Constraints columns not_nulls (primary_key @ [cd_name (columns ! i)]) ks
            | Inr names \<Rightarrow> Constraints columns not_nulls names ks)
      | CheckConstraint \<Rightarrow> Inl (unsupported ''CHECK constraints are not supported for ClickHouse tables'' [])
      | ForeignKey \<Rightarrow> Inl (unsupported ''FOREIGN KEY constraints are not supported for ClickHouse tables'' [])
      | OtherConstraint \<Rightarrow> Inl (unsupported ''This constraint is not supported for ClickHouse tables'' []))"

text \<open>\<open>ColumnList::GetColumn\<close>; DuckDB compares identifiers case-insensitively.\<close>

definition GetColumn :: "string_util \<Rightarrow> column_def list \<Rightarrow> string \<Rightarrow> column_def res" where
  "GetColumn U columns name = (case List.find (\<lambda>c. CIEquals U (cd_name c) name) columns of
     Some c \<Rightarrow> Inr c | None \<Rightarrow> Inl (Exn InternalException ''Column with name does not exist'' [name]))"

definition CreateTableSql ::
  "string_util \<Rightarrow> type_api \<Rightarrow> duck_api \<Rightarrow> (string \<Rightarrow> duck_value option) \<Rightarrow> string \<Rightarrow> create_info \<Rightarrow> string res" where
  "CreateTableSql U T A current db info =
     (if ci_options info then
        Inl (unsupported ''PARTITIONED BY, SORTED BY and WITH options are not supported for ClickHouse tables'' [])
      else bindE (Constraints (ci_columns info) {} [] (ci_constraints info)) (\<lambda>(not_nulls, primary_key).
        bindE (mapE (\<lambda>(i, column).
                 ColumnDefSql U T A column (\<not> list_ex (\<lambda>key. CIEquals U key (cd_name column)) primary_key \<and> i \<notin> not_nulls))
               (enumerate 0 (ci_columns info))) (\<lambda>columns.
        bindE (TableEngine U A current) (\<lambda>name.
        bindE (if \<not> EngineTakesOrderBy U name then Inr []
               else if primary_key = [] then Inr '' ORDER BY tuple()''
               else bindE (mapE (\<lambda>key. bindE (GetColumn U (ci_columns info) key) (\<lambda>c. Inr (QuoteIdentifier (cd_name c)))) primary_key)
                      (\<lambda>keys. Inr ('' ORDER BY ('' @ Join U keys '', '' @ '')''))) (\<lambda>order_by.
          Inr (''CREATE '' @ (if ci_on_conflict info = REPLACE_ON_CONFLICT then ''OR REPLACE '' else []) @ ''TABLE '' @
               (if ci_on_conflict info = IGNORE_ON_CONFLICT then ''IF NOT EXISTS '' else []) @
               QualifiedName db (ci_table_name info) @ '' ('' @ Join U columns '', '' @ '') ENGINE = '' @ name @ order_by))))))"

definition CreateTable ::
  "string_util \<Rightarrow> type_api \<Rightarrow> duck_api \<Rightarrow> (string \<Rightarrow> duck_value option) \<Rightarrow> 'w ddl_api \<Rightarrow> string \<Rightarrow> create_info \<Rightarrow> 'w \<Rightarrow>
     table_entry res \<times> 'w" where
  "CreateTable U T A current C db info w =
     (case CreateTableSql U T A current db info of
        Inl ex \<Rightarrow> (Inl ex, w)
      | Inr sql \<Rightarrow>
          bindS (DdlExecute C sql [] w) (\<lambda>u w1.
          bindS (LookupTable C db (ci_table_name info) w1) (\<lambda>entry w2.
            (case entry of
               Some e \<Rightarrow> Inr e
             | None \<Rightarrow> Inl (Exn InvalidInputException ''ClickHouse table was created but cannot be found; run CALL clickhouse_clear_cache() and retry''
                 [db, ci_table_name info]), w2))))"

section \<open>Columns\<close>

text \<open>The loop returns at the exact name, and otherwise keeps the last match and the number of them.\<close>

fun ResolveColumnLoop :: "string_util \<Rightarrow> string \<Rightarrow> column_info option \<times> nat \<Rightarrow> column_info list \<Rightarrow> column_info + column_info option \<times> nat" where
  "ResolveColumnLoop U name found [] = Inr found"
| "ResolveColumnLoop U name found (column # columns) =
     (if col_name column = name then Inl column
      else ResolveColumnLoop U name (if CIEquals U (col_name column) name then (Some column, snd found + 1) else found) columns)"

definition ResolveColumn :: "string_util \<Rightarrow> table_entry \<Rightarrow> string \<Rightarrow> column_info option res" where
  "ResolveColumn U table name =
     (case ResolveColumnLoop U name (None, 0) (clickhouse_columns table) of
        Inl column \<Rightarrow> Inr (Some column)
      | Inr (result, case_insensitive_matches) \<Rightarrow>
          if case_insensitive_matches > 1 then Inl (Exn CatalogException ''Column name is ambiguous'' [name, te_name table])
          else Inr result)"

definition no_such_column :: "table_entry \<Rightarrow> string \<Rightarrow> exn" where
  "no_such_column table name = Exn CatalogException ''Column with name does not exist in ClickHouse table'' [name, te_name table]"

definition RequireColumn :: "string_util \<Rightarrow> table_entry \<Rightarrow> string \<Rightarrow> column_info res" where
  "RequireColumn U table name =
     bindE (ResolveColumn U table name) (\<lambda>column. case column of Some c \<Rightarrow> Inr c | None \<Rightarrow> Inl (no_such_column table name))"

definition SpelledAs :: "column_info \<Rightarrow> string \<Rightarrow> string" where
  "SpelledAs column name = (if col_name column = name then [] else '' (ClickHouse column '' @ [CHR 0x22] @ col_name column @ [CHR 0x22] @ '')'')"

text \<open>The column as the server has it now.\<close>

record server_column =
  sc_info :: column_info
  sc_default_kind :: string
  in_key :: bool

definition server_column_query :: "string \<Rightarrow> table_entry \<Rightarrow> string \<Rightarrow> string" where
  "server_column_query db table column =
     ''SELECT type, default_kind, is_in_sorting_key OR is_in_primary_key OR is_in_partition_key OR is_in_sampling_key FROM system.columns WHERE database = '' @
     QuoteLiteral db @ '' AND table = '' @ QuoteLiteral (te_name table) @ '' AND name = '' @ QuoteLiteral column"

definition LoadServerColumn :: "string_util \<Rightarrow> 'w ddl_api \<Rightarrow> string \<Rightarrow> table_entry \<Rightarrow> string \<Rightarrow> 'w \<Rightarrow> server_column res \<times> 'w" where
  "LoadServerColumn U C db table column w =
     bindS (query_columns C (server_column_query db table column) ExtensionQuerySettings w) (\<lambda>blocks w'.
       (case List.find (\<lambda>b. b \<noteq> []) blocks of
          None \<Rightarrow> Inl (Exn CatalogException ''Column no longer exists; run CALL clickhouse_clear_cache() and retry'' [column, te_name table])
        | Some block \<Rightarrow>
            (case hd block of (type, kind, key) \<Rightarrow>
               bindE (ColumnInfo_Create U column type) (\<lambda>info. Inr \<lparr>sc_info = info, sc_default_kind = kind, in_key = (key \<noteq> 0)\<rparr>)), w'))"

fun LastCount :: "nat \<Rightarrow> nat list list \<Rightarrow> nat" where
  "LastCount count [] = count"
| "LastCount count (block # blocks) = LastCount (case block of [] \<Rightarrow> count | n # ns \<Rightarrow> n) blocks"

definition QueryCount :: "'w ddl_api \<Rightarrow> string \<Rightarrow> (string \<times> string) list \<Rightarrow> 'w \<Rightarrow> nat res \<times> 'w" where
  "QueryCount C sql extra_settings w =
     bindS (query_counts C sql (ExtensionQuerySettings @ extra_settings) w) (\<lambda>blocks w'. (Inr (LastCount 0 blocks), w'))"

definition CountStoredRows :: "'w ddl_api \<Rightarrow> string \<Rightarrow> string \<Rightarrow> 'w \<Rightarrow> nat res \<times> 'w" where
  "CountStoredRows C qualified condition w =
     QueryCount C (''SELECT countIf('' @ condition @ '') FROM '' @ qualified) [(''apply_deleted_mask'', ''0'')] w"

definition CountPartsWithout :: "'w ddl_api \<Rightarrow> string \<Rightarrow> table_entry \<Rightarrow> string \<Rightarrow> 'w \<Rightarrow> nat res \<times> 'w" where
  "CountPartsWithout C db table column w =
     QueryCount C (''SELECT countIf(NOT has(columns, '' @ QuoteLiteral column @
       '')) FROM (SELECT groupArray(column) AS columns FROM system.parts_columns WHERE database = '' @ QuoteLiteral db @
       '' AND table = '' @ QuoteLiteral (te_name table) @ '' AND active GROUP BY name)'') [] w"

definition ThrowIfNotRewritable :: "server_column \<Rightarrow> table_entry \<Rightarrow> unit res" where
  "ThrowIfNotRewritable column table =
     (if in_key column then
        Inl (unsupported ''Column is part of the sorting, primary, partition or sampling key, whose type ClickHouse cannot change''
          [col_name (sc_info column), te_name table])
      else if sc_default_kind column = ''ALIAS'' then
        Inl (unsupported ''Column is an ALIAS; change it with clickhouse_execute() instead'' [col_name (sc_info column), te_name table])
      else Inr ())"

definition CanBeNullable :: "type_node \<Rightarrow> bool" where
  "CanBeNullable node \<longleftrightarrow> node_name node \<notin> set [''Array'', ''Tuple'', ''Map'', ''Nested'', ''JSON'', ''Object'', ''Variant'',
     ''Dynamic'', ''Point'', ''Ring'', ''LineString'', ''MultiLineString'', ''Polygon'', ''MultiPolygon'', ''Geometry'',
     ''AggregateFunction'', ''SimpleAggregateFunction'', ''Nothing'']"

definition ModifyColumn :: "string \<Rightarrow> column_info \<Rightarrow> string \<Rightarrow> string" where
  "ModifyColumn qualified column what =
     ''ALTER TABLE '' @ qualified @ '' MODIFY COLUMN '' @ QuoteIdentifier (col_name column) @ '' '' @ what"

section \<open>SET and DROP DEFAULT\<close>

record alter_statement =
  alter_sql :: string
  mutation :: bool

definition no_statement :: alter_statement where
  "no_statement = \<lparr>alter_sql = [], mutation = False\<rparr>"

definition materialize_sql :: "string \<Rightarrow> string \<Rightarrow> string \<Rightarrow> string" where
  "materialize_sql qualified quoted kind =
     (if kind = [] then ''ALTER TABLE '' @ qualified @ '' UPDATE '' @ quoted @ '' = '' @ quoted @ '' WHERE 1''
      else ''ALTER TABLE '' @ qualified @ '' MATERIALIZE COLUMN '' @ quoted)"

definition StoreInEveryPart ::
  "string_util \<Rightarrow> string \<times> string \<Rightarrow> 'w ddl_api \<Rightarrow> string \<Rightarrow> table_entry \<Rightarrow> server_column \<Rightarrow> nat \<Rightarrow> 'w \<Rightarrow> unit res \<times> 'w" where
  "StoreInEveryPart U sync C db table column missing_parts w =
     (let name = col_name (sc_info column);
          replicated = (StartsWith U (engine table) ''Replicated'' \<or> StartsWith U (engine table) ''Shared'')
      in if snd sync = ''0'' \<or> replicated \<and> snd sync \<noteq> ''2'' then
           (Inl (unsupported ''Cannot change the default of column: part(s) do not store the column yet; SET ch_mutations_sync = 2''
              [name, te_name table, to_string missing_parts, snd sync, if snd sync = ''0'' then [] else '' on the other replicas'']), w)
         else let sql = materialize_sql (QualifiedName db (te_name table)) (QuoteIdentifier name) (sc_default_kind column) in
           bindS (DdlExecute C sql [sync] w) (\<lambda>u w1.
           bindS (CountPartsWithout C db table name w1) (\<lambda>missing w2.
             (if missing > 0 then
                Inl (Exn InvalidInputException ''Cannot change the default of column: part(s) still do not store the column''
                  [name, te_name table, to_string missing, sql])
              else Inr (), w2))))"

definition SetDefault ::
  "string_util \<Rightarrow> type_api \<Rightarrow> duck_api \<Rightarrow> string \<times> string \<Rightarrow> 'w ddl_api \<Rightarrow> string \<Rightarrow> table_entry \<Rightarrow> string \<Rightarrow>
     (logical_type \<Rightarrow> bound_expr res) option \<Rightarrow> 'w \<Rightarrow> alter_statement res \<times> 'w" where
  "SetDefault U T A sync C db table name expression w =
     bindS (RequireColumn U table name, w) (\<lambda>cached w0.
     let merge_tree = EndsWith U (engine table) ''MergeTree'' in
     if \<not> merge_tree \<and> engine table \<noteq> ''Memory'' then
       (Inl (unsupported ''Cannot change the default of column: only MergeTree-family and Memory tables are supported''
          [col_name cached, te_name table, engine table]), w0)
     else bindS (LoadServerColumn U C db table (col_name cached) w0) (\<lambda>column w1.
          bindS (if merge_tree then CountPartsWithout C db table (col_name (sc_info column)) w1 else (Inr 0, w1)) (\<lambda>missing_parts w2.
     if sc_default_kind column = ''MATERIALIZED'' \<or> sc_default_kind column = ''ALIAS'' then
       (Inl (unsupported ''Column is not a column with a DEFAULT; change it with clickhouse_execute() instead''
          [col_name (sc_info column), te_name table, sc_default_kind column]), w2)
     else if expression = None \<and> sc_default_kind column = [] then (Inr no_statement, w2)
     else bindS (case expression of
              None \<Rightarrow> Inr ''REMOVE DEFAULT''
            | Some e \<Rightarrow>
                bindE (DefaultValueSql T A \<lparr>cd_name = col_name (sc_info column), cd_type = col_type (sc_info column),
                          cd_generated = False, cd_default = Some e\<rparr>) (\<lambda>d. Inr (tl d)), w2) (\<lambda>what w3.
          bindS (if missing_parts > 0 then StoreInEveryPart U sync C db table column missing_parts w3 else (Inr (), w3)) (\<lambda>u w4.
            (Inr \<lparr>alter_sql = ModifyColumn (QualifiedName db (te_name table)) (sc_info column) what, mutation = False\<rparr>, w4))))))"

section \<open>SET and DROP NOT NULL\<close>

definition ChangeNullability ::
  "string_util \<Rightarrow> 'w ddl_api \<Rightarrow> string \<Rightarrow> table_entry \<Rightarrow> string \<Rightarrow> bool \<Rightarrow> 'w \<Rightarrow> alter_statement res \<times> 'w" where
  "ChangeNullability U C db table name nullable w =
     bindS (RequireColumn U table name, w) (\<lambda>cached w0.
     bindS (LoadServerColumn U C db table (col_name cached) w0) (\<lambda>column w1.
       let info = sc_info column; node = type_node info; wrappers = Of node; qualified = QualifiedName db (te_name table);
           modify = ModifyColumn qualified info (Wrap (wrappers\<lparr>tw_nullable := nullable\<rparr>) (node_text (tw_base wrappers)))
       in if IsNullable node = nullable then (Inr no_statement, w1)
       else bindS (ThrowIfNotRewritable column table, w1) (\<lambda>u w2.
         if nullable then
           (if \<not> CanBeNullable (tw_base wrappers)
            then Inl (unsupported ''Column cannot be Nullable in ClickHouse'' [col_name info, clickhouse_type info])
            else Inr \<lparr>alter_sql = modify, mutation = True\<rparr>, w2)
         else if \<not> tw_nullable wrappers then
           (Inl (unsupported ''Column cannot be made NOT NULL through ALTER TABLE; change it with clickhouse_execute() instead''
              [col_name info, clickhouse_type info]), w2)
         else bindS (CountStoredRows C qualified (QuoteIdentifier (col_name info) @ '' IS NULL'') w2) (\<lambda>nulls w3.
           (if nulls > 0
            then Inl (Exn ConstraintException ''NOT NULL constraint failed; nothing was changed'' [te_name table, col_name info, to_string nulls])
            else Inr \<lparr>alter_sql = modify, mutation = True\<rparr>, w3)))))"

section \<open>ALTER TYPE\<close>

text \<open>The expression of ALTER TYPE: a cast, whether it is TRY_CAST, and the name its child refers to if it is a plain column.\<close>

record type_change =
  change_target :: logical_type
  change_cast :: "(bool \<times> string option) option"

definition IsPlainTypeChange :: "string_util \<Rightarrow> string \<Rightarrow> type_change \<Rightarrow> bool" where
  "IsPlainTypeChange U name info =
     (case change_cast info of
        Some (False, Some column) \<Rightarrow> CIEquals U column name
      | _ \<Rightarrow> False)"

definition IsNested :: "logical_type \<Rightarrow> bool" where
  "IsNested t = (case t of LIST c \<Rightarrow> True | ARRAY c n \<Rightarrow> True | STRUCT fs \<Rightarrow> True | MAP k v \<Rightarrow> True | UNION_TYPE fs \<Rightarrow> True | _ \<Rightarrow> False)"

definition GetIntegerRange :: "type_api \<Rightarrow> logical_type \<Rightarrow> (nat \<times> bool) option" where
  "GetIntegerRange T t =
     map_option (\<lambda>bits. (bits, IsSigned T t))
       (case t of TINYINT \<Rightarrow> Some 8 | UTINYINT \<Rightarrow> Some 8 | SMALLINT \<Rightarrow> Some 16 | USMALLINT \<Rightarrow> Some 16
        | INTEGER \<Rightarrow> Some 32 | UINTEGER \<Rightarrow> Some 32 | BIGINT \<Rightarrow> Some 64 | UBIGINT \<Rightarrow> Some 64
        | HUGEINT \<Rightarrow> Some 128 | UHUGEINT \<Rightarrow> Some 128 | _ \<Rightarrow> None)"

definition IntegerDigits :: "nat \<Rightarrow> bool \<Rightarrow> nat" where
  "IntegerDigits bits is_signed =
     (if bits = 8 then 3 else if bits = 16 then 5 else if bits = 32 then 10
      else if bits = 64 then (if is_signed then 19 else 20) else 39)"

definition KeepsEveryValue :: "type_api \<Rightarrow> logical_type \<Rightarrow> logical_type \<Rightarrow> bool" where
  "KeepsEveryValue T source target =
     (let range = GetIntegerRange T source in
      case target of
        VARCHAR \<Rightarrow> range \<noteq> None \<or> source = DATE \<or> (case source of ENUM labels \<Rightarrow> True | _ \<Rightarrow> False)
      | JSON \<Rightarrow> False
      | FLOAT \<Rightarrow> (case range of Some (bits, is_signed) \<Rightarrow> bits \<le> 16 | None \<Rightarrow> False)
      | DOUBLE \<Rightarrow> source = FLOAT \<or> (case range of Some (bits, is_signed) \<Rightarrow> bits \<le> 32 | None \<Rightarrow> False)
      | DECIMAL w s \<Rightarrow>
          (case range of
             Some (bits, is_signed) \<Rightarrow> int w - int s \<ge> int (IntegerDigits bits is_signed)
           | None \<Rightarrow> (case source of DECIMAL w' s' \<Rightarrow> s \<ge> s' \<and> int w - int s \<ge> int w' - int s' | _ \<Rightarrow> False))
      | TIMESTAMP \<Rightarrow> source = DATE
      | _ \<Rightarrow>
          (case (range, GetIntegerRange T target) of
             (Some (bits, is_signed), Some (target_bits, target_signed)) \<Rightarrow> target_bits > bits \<and> (target_signed \<or> \<not> is_signed)
           | _ \<Rightarrow> False))"

definition is_enum_type :: "logical_type \<Rightarrow> bool" where
  "is_enum_type t = (case t of ENUM labels \<Rightarrow> True | _ \<Rightarrow> False)"

text \<open>Whether the column holds exactly the type DuckDB reads it as; \<open>canonical\<close> is that type in ClickHouse.\<close>

definition StoredExactly :: "logical_type \<Rightarrow> type_node \<Rightarrow> string \<Rightarrow> bool" where
  "StoredExactly source base canonical \<longleftrightarrow>
     node_text base = canonical \<or> source = DATE \<and> node_name base = ''Date'' \<or>
     is_enum_type source \<and> node_name base \<in> {''Enum8'', ''Enum16''}"

definition ChangeType ::
  "string_util \<Rightarrow> type_api \<Rightarrow> 'w ddl_api \<Rightarrow> string \<Rightarrow> table_entry \<Rightarrow> string \<Rightarrow> type_change \<Rightarrow> 'w \<Rightarrow> alter_statement res \<times> 'w" where
  "ChangeType U T C db table column_name info w =
     bindS (RequireColumn U table column_name, w) (\<lambda>cached w0.
     if \<not> IsPlainTypeChange U column_name info then
       (Inl (unsupported ''ALTER COLUMN TYPE USING is not supported for ClickHouse tables'' []), w0)
     else bindS (LoadServerColumn U C db table (col_name cached) w0) (\<lambda>column w1.
       let source = col_type (sc_info column); target = change_target info; name = col_name (sc_info column);
           wrappers = Of (type_node (sc_info column))
       in if source = target then (Inr no_statement, w1)
       else if IsNested source \<or> IsNested target then
         (Inl (unsupported ''Cannot change the type of column: only scalar columns can change type'' [name, te_name table]), w1)
       else if \<not> KeepsEveryValue T source target then
         (Inl (unsupported ''Cannot change the type of column: only conversions that keep every value exactly are supported''
            [name, te_name table, type_ToString T source, type_ToString T target]), w1)
       else bindS (if is_enum_type source then Inr [] else ToClickhouse U T source False, w1) (\<lambda>canonical w2.
         if \<not> StoredExactly source (tw_base wrappers) canonical then
           (Inl (unsupported ''Cannot change the type of column: its ClickHouse type is not one DuckDB converts exactly''
              [name, te_name table, clickhouse_type (sc_info column)]), w2)
         else bindS (ThrowIfNotRewritable column table, w2) (\<lambda>u w3.
              bindS (ToClickhouse U T target False, w3) (\<lambda>t w4.
                (Inr \<lparr>alter_sql = ModifyColumn (QualifiedName db (te_name table)) (sc_info column) (Wrap wrappers t),
                      mutation = True\<rparr>, w4))))))"

section \<open>ALTER TABLE\<close>

datatype alter_info =
    AddColumn column_def bool
  | RemoveColumn string bool
  | RenameColumn string string
  | RenameTable string
  | SetDefaultInfo string "(logical_type \<Rightarrow> bound_expr res) option"
  | DropNotNull string
  | SetNotNull string
  | ChangeColumnType string type_change
  | OtherAlter

definition already_exists :: "table_entry \<Rightarrow> column_info \<Rightarrow> string \<Rightarrow> exn" where
  "already_exists table column name =
     Exn CatalogException ''Column with name already exists in ClickHouse table'' [name, te_name table, SpelledAs column name]"

definition AddColumnSql ::
  "string_util \<Rightarrow> type_api \<Rightarrow> duck_api \<Rightarrow> 'w ddl_api \<Rightarrow> string \<Rightarrow> table_entry \<Rightarrow> column_def \<Rightarrow> bool \<Rightarrow> 'w \<Rightarrow> alter_statement res \<times> 'w" where
  "AddColumnSql U T A C qualified table new_column if_not_exists w =
     (case List.find (\<lambda>c. CIEquals U (col_name c) (cd_name new_column)) (clickhouse_columns table) of
        Some column \<Rightarrow>
          (if if_not_exists then Inr no_statement else Inl (already_exists table column (cd_name new_column)), w)
      | None \<Rightarrow>
          bindS (ColumnDefSql U T A new_column True, w) (\<lambda>column_sql w0.
          bindS (if cd_default new_column \<noteq> None \<and> \<not> EndsWith U (engine table) ''MergeTree''
                 then QueryCount C (''SELECT count() FROM '' @ qualified) [] w0 else (Inr 0, w0)) (\<lambda>stored_rows w1.
            (if stored_rows > 0 then
               Inl (unsupported ''Cannot add column with a DEFAULT to ClickHouse table: it holds rows, which ClickHouse would give NULL''
                 [cd_name new_column, te_name table, engine table])
             else Inr \<lparr>alter_sql = ''ALTER TABLE '' @ qualified @ '' ADD COLUMN '' @ (if if_not_exists then ''IF NOT EXISTS '' else []) @
                   column_sql, mutation = False\<rparr>, w1))))"

definition RenameColumnSql :: "string_util \<Rightarrow> string \<Rightarrow> table_entry \<Rightarrow> string \<Rightarrow> string \<Rightarrow> alter_statement res" where
  "RenameColumnSql U qualified table old_name new_name =
     bindE (ResolveColumn U table old_name) (\<lambda>found. case found of
       None \<Rightarrow> Inl (no_such_column table old_name)
     | Some column \<Rightarrow>
         (case List.find (\<lambda>other. other \<noteq> column \<and> CIEquals U (col_name other) new_name) (clickhouse_columns table) of
            Some other \<Rightarrow> Inl (already_exists table other new_name)
          | None \<Rightarrow> Inr \<lparr>alter_sql = ''ALTER TABLE '' @ qualified @ '' RENAME COLUMN '' @ QuoteIdentifier (col_name column) @
                '' TO '' @ QuoteIdentifier new_name, mutation = False\<rparr>))"

definition AlterTable ::
  "string_util \<Rightarrow> type_api \<Rightarrow> duck_api \<Rightarrow> string \<times> string \<Rightarrow> 'w ddl_api \<Rightarrow> string \<Rightarrow> table_entry \<Rightarrow> alter_info \<Rightarrow> 'w \<Rightarrow>
     alter_statement res \<times> 'w" where
  "AlterTable U T A sync C db table info w =
     (let qualified = QualifiedName db (te_name table) in
      case info of
        AddColumn column if_not_exists \<Rightarrow> AddColumnSql U T A C qualified table column if_not_exists w
      | RemoveColumn name if_exists \<Rightarrow>
          (bindE (ResolveColumn U table name) (\<lambda>found. case found of
             None \<Rightarrow> if if_exists then Inr no_statement else Inl (no_such_column table name)
           | Some column \<Rightarrow> Inr \<lparr>alter_sql = ''ALTER TABLE '' @ qualified @ '' DROP COLUMN '' @ (if if_exists then ''IF EXISTS '' else []) @
                 QuoteIdentifier (col_name column), mutation = False\<rparr>), w)
      | RenameColumn old_name new_name \<Rightarrow> (RenameColumnSql U qualified table old_name new_name, w)
      | RenameTable new_name \<Rightarrow>
          (Inr \<lparr>alter_sql = ''RENAME TABLE '' @ qualified @ '' TO '' @ QualifiedName db new_name, mutation = False\<rparr>, w)
      | SetDefaultInfo name expression \<Rightarrow> SetDefault U T A sync C db table name expression w
      | DropNotNull name \<Rightarrow> ChangeNullability U C db table name True w
      | SetNotNull name \<Rightarrow> ChangeNullability U C db table name False w
      | ChangeColumnType name change \<Rightarrow> ChangeType U T C db table name change w
      | OtherAlter \<Rightarrow> (Inl (unsupported ''This ALTER TABLE operation is not supported for ClickHouse tables'' []), w))"

end
