(* ===== verification/Schema.thy ===== *)
theory Schema
  imports Ddl Functions Insert
begin

text \<open>
  The catalog of an attached database over its caches and its server: \<open>src/src/storage/clickhouse_catalog.cpp\<close>
  and \<open>clickhouse_schema_entry.cpp\<close>. The state holds the cache of databases, the cache of tables of every
  database entry, also of the retired ones, the transaction manager and the server; the operations are the callbacks
  DuckDB runs for DDL statements, lookups and the plans of writes. The server answers the queries on its system tables
  from its state, which only statements change.
\<close>

section \<open>The catalog and its server\<close>

record 's server_api =
  sv_connect :: "'s \<Rightarrow> unit res"
  sv_execute :: "string \<Rightarrow> (string \<times> string) list \<Rightarrow> 's \<Rightarrow> unit res \<times> 's"
  sv_databases :: "string \<Rightarrow> (string \<times> string) list \<Rightarrow> 's \<Rightarrow> string list res"
  sv_tables :: "string \<Rightarrow> (string \<times> string) list \<Rightarrow> 's \<Rightarrow> (string \<times> nat option \<times> string) list res"
  sv_columns :: "string \<Rightarrow> (string \<times> string) list \<Rightarrow> 's \<Rightarrow> (string \<times> string \<times> string \<times> string) list res"
  sv_server_columns :: "string \<Rightarrow> (string \<times> string) list \<Rightarrow> 's \<Rightarrow> (string \<times> string \<times> nat) list list res"
  sv_counts :: "string \<Rightarrow> (string \<times> string) list \<Rightarrow> 's \<Rightarrow> nat list list res"

record 's catalog_env =
  ce_strings :: string_util
  ce_types :: type_api
  ce_duck :: duck_api
  ce_current :: "string \<Rightarrow> duck_value option"
  ce_name :: string
  ce_read_only :: bool
  ce_options :: attach_options
  ce_config :: conn_config
  ce_tid :: nat
  ce_server :: "'s server_api"

text \<open>The tables of a database entry hang on the identity of the entry; a new entry starts without.\<close>

record 's world =
  w_schemas :: "unit catalog_set"
  w_tables :: "nat \<Rightarrow> table_entry catalog_set"
  w_next :: nat
  w_txn :: "unit entry txn_manager"
  w_server :: 's

definition new_entries :: "nat \<Rightarrow> (string \<times> 'a) list \<Rightarrow> 'a entry list" where
  "new_entries n items = map (\<lambda>(i, name, x). \<lparr>entry_id = i, entry_name = name, contents = x\<rparr>) (enumerate n items)"

definition all_databases_sql :: string where
  "all_databases_sql = ''SELECT name FROM system.databases ORDER BY name''"

text \<open>\<open>LoadEntries\<close> of the two caches: what they create, or why they fail before they create anything.\<close>

definition SchemaEntries :: "'s catalog_env \<Rightarrow> 's world \<Rightarrow> unit entry list \<times> exn option" where
  "SchemaEntries E w =
     (case bindE (sv_connect (ce_server E) (w_server w)) (\<lambda>u. sv_databases (ce_server E) all_databases_sql ExtensionQuerySettings (w_server w)) of
        Inl ex \<Rightarrow> ([], Some ex)
      | Inr names \<Rightarrow> (new_entries (w_next w) (map (\<lambda>n. (n, ()))
          (LoadSchemas (only_schema (ce_options E)) (show_system (ce_options E)) (database (ce_config E)) names)), None))"

definition ServerTables :: "'s catalog_env \<Rightarrow> string \<Rightarrow> 's \<Rightarrow> table_entry list res" where
  "ServerTables E db s =
     bindE (sv_connect (ce_server E) s) (\<lambda>u.
     bindE (sv_tables (ce_server E) (tables_query db) ExtensionQuerySettings s) (\<lambda>infos.
     bindE (sv_columns (ce_server E) (columns_query db) ExtensionQuerySettings s) (\<lambda>rows.
       LoadTables (ce_strings E) db infos rows)))"

definition TableEntries :: "'s catalog_env \<Rightarrow> string \<Rightarrow> 's world \<Rightarrow> table_entry entry list \<times> exn option" where
  "TableEntries E db w =
     (case ServerTables E db (w_server w) of
        Inl ex \<Rightarrow> ([], Some ex)
      | Inr tables \<Rightarrow> (new_entries (w_next w) (map (\<lambda>t. (te_name t, t)) tables), None))"

definition loaded_ids :: "'a catalog_set \<Rightarrow> 'a entry list \<times> exn option \<Rightarrow> nat" where
  "loaded_ids s load = (if is_loaded s then 0 else length (fst load))"

definition CatalogLookupSchema :: "'s catalog_env \<Rightarrow> string \<Rightarrow> bool \<Rightarrow> 's world \<Rightarrow> schema_entry option res \<times> 's world" where
  "CatalogLookupSchema E name return_null w =
     (let load = SchemaEntries E w;
          (r, s) = Tables.LookupSchema (ce_strings E) load (GetDefaultSchema (only_schema (ce_options E)) (ce_config E)) name return_null (w_schemas w)
      in (r, w\<lparr>w_schemas := s, w_next := w_next w + loaded_ids (w_schemas w) load\<rparr>))"

text \<open>\<open>tables.GetEntry\<close> of a database entry.\<close>

definition TablesGetEntry :: "'s catalog_env \<Rightarrow> schema_entry \<Rightarrow> string \<Rightarrow> 's world \<Rightarrow> table_entry option res \<times> 's world" where
  "TablesGetEntry E schema name w =
     (let load = TableEntries E (entry_name schema) w; tables = w_tables w (entry_id schema);
          (r, s) = GetEntry (ce_strings E) load name tables
      in (bindE r (\<lambda>e. Inr (map_option contents e)),
          w\<lparr>w_tables := (w_tables w)(entry_id schema := s), w_next := w_next w + loaded_ids tables load\<rparr>))"

text \<open>\<open>StartWrite\<close> and the statement on its connection.\<close>

definition CatalogExecute :: "'s catalog_env \<Rightarrow> string \<Rightarrow> (string \<times> string) list \<Rightarrow> 's world \<Rightarrow> unit res \<times> 's world" where
  "CatalogExecute E sql st w =
     (case StartWrite (ce_name E) (ce_read_only E) (sv_connect (ce_server E) (w_server w)) (ce_tid E) (w_txn w) of
        (Inl ex, m) \<Rightarrow> (Inl ex, w\<lparr>w_txn := m\<rparr>)
      | (Inr u, m) \<Rightarrow>
          (case sv_execute (ce_server E) sql st (w_server w) of
             (r, s) \<Rightarrow> (r, w\<lparr>w_txn := m, w_server := s\<rparr>)))"

definition CatalogClearCache :: "'s world \<Rightarrow> 's world" where
  "CatalogClearCache w = (let (s, m) = ClearEntries (w_schemas w) (w_txn w) in w\<lparr>w_schemas := s, w_txn := m\<rparr>)"

text \<open>A query on a connection of the pool.\<close>

definition CatalogQuery :: "'s catalog_env \<Rightarrow> (string \<Rightarrow> (string \<times> string) list \<Rightarrow> 's \<Rightarrow> 'a res) \<Rightarrow> string \<Rightarrow> (string \<times> string) list \<Rightarrow>
     's world \<Rightarrow> 'a res \<times> 's world" where
  "CatalogQuery E query sql st w =
     (bindE (sv_connect (ce_server E) (w_server w)) (\<lambda>u. query sql st (w_server w)), w)"

definition catalog_ddl :: "'s catalog_env \<Rightarrow> 's world ddl_api" where
  "catalog_ddl E =
     \<lparr>StartWriteExecute = CatalogExecute E,
      query_columns = CatalogQuery E (sv_server_columns (ce_server E)),
      query_counts = CatalogQuery E (sv_counts (ce_server E)),
      ClearCache = CatalogClearCache,
      LookupSchema = (\<lambda>db. CatalogLookupSchema E db True),
      LookupEntry = TablesGetEntry E\<rparr>"

section \<open>Databases\<close>

definition DEFAULT_SCHEMA :: string where "DEFAULT_SCHEMA = ''main''"

text \<open>DuckDB compares identifiers without regard to case.\<close>

definition ThrowIfDefaultSchema :: "'s catalog_env \<Rightarrow> string \<Rightarrow> unit res" where
  "ThrowIfDefaultSchema E schema_name =
     (if \<not> CIEquals (ce_strings E) schema_name DEFAULT_SCHEMA then Inr ()
      else if only_schema (ce_options E) \<noteq> [] then
        Inl (Exn CatalogException ''Cannot create or drop schema: in this attached ClickHouse database it stands for the SCHEMA database''
          [schema_name, only_schema (ce_options E)])
      else Inl (Exn CatalogException ''Cannot create or drop schema: in an attached ClickHouse database it stands for the database of the connection''
          [schema_name, database (ce_config E)]))"

definition CreateSchema :: "'s catalog_env \<Rightarrow> string \<Rightarrow> on_conflict \<Rightarrow> 's world \<Rightarrow> schema_entry option res \<times> 's world" where
  "CreateSchema E name conflict w =
     (case ThrowIfDefaultSchema E name of
        Inl ex \<Rightarrow> (Inl ex, w)
      | Inr u \<Rightarrow>
          let only = only_schema (ce_options E) in
          if only \<noteq> [] \<and> \<not> CIEquals (ce_strings E) name only then
            (Inl (Exn CatalogException ''Cannot create schema: attached with SCHEMA and shows no other ClickHouse database''
               [name, ce_name E, only]), w)
          else let schema_name = (if only \<noteq> [] then only else name) in
            if conflict = REPLACE_ON_CONFLICT then
              (Inl (unsupported ''CREATE OR REPLACE SCHEMA is not supported for ClickHouse databases'' []), w)
            else bindS (DdlExecute (catalog_ddl E) (''CREATE DATABASE '' @
                    (if conflict = IGNORE_ON_CONFLICT then ''IF NOT EXISTS '' else []) @ QuoteIdentifier schema_name) [] w)
                  (\<lambda>u w1. CatalogLookupSchema E schema_name True w1))"

definition table_count_sql :: "string \<Rightarrow> string" where
  "table_count_sql db = ''SELECT count() FROM system.tables WHERE database = '' @ QuoteLiteral db"

text \<open>The statement of DROP: the name, the kind of entry, IF EXISTS and CASCADE. A kind that is not a table is its text.\<close>

datatype entry_type = TABLE_ENTRY | OtherEntry string

record drop_info =
  drop_name :: string
  drop_type :: entry_type
  drop_if_exists :: bool
  drop_cascade :: bool

definition DropSchema :: "'s catalog_env \<Rightarrow> drop_info \<Rightarrow> 's world \<Rightarrow> unit res \<times> 's world" where
  "DropSchema E info w =
     (case ThrowIfDefaultSchema E (drop_name info) of
        Inl ex \<Rightarrow> (Inl ex, w)
      | Inr u \<Rightarrow>
          bindS (CatalogLookupSchema E (drop_name info) True w) (\<lambda>found w1.
          case found of
            None \<Rightarrow> (if drop_if_exists info then Inr ()
                     else Inl (Exn CatalogException ''Schema with name does not exist!'' [drop_name info]), w1)
          | Some schema \<Rightarrow>
              let db = entry_name schema in
              bindS (if drop_cascade info then (Inr 0, w1)
                     else bindS (CatalogQuery E (sv_counts (ce_server E)) (table_count_sql db) ExtensionQuerySettings w1)
                            (\<lambda>blocks w2. (Inr (LastCount 0 blocks), w2))) (\<lambda>table_count w2.
              if table_count > 0 then
                (Inl (Exn CatalogException ''Cannot drop ClickHouse database: it contains table(s); use DROP SCHEMA CASCADE''
                   [db, to_string table_count]), w2)
              else DdlExecute (catalog_ddl E)
                     (''DROP DATABASE '' @ (if drop_if_exists info then ''IF EXISTS '' else []) @ QuoteIdentifier db) [] w2)))"

definition ScanSchemas :: "'s catalog_env \<Rightarrow> 's world \<Rightarrow> schema_entry list res \<times> 's world" where
  "ScanSchemas E w =
     (let load = SchemaEntries E w; (r, s) = CatalogSet.Scan load (w_schemas w)
      in (r, w\<lparr>w_schemas := s, w_next := w_next w + loaded_ids (w_schemas w) load\<rparr>))"

section \<open>Tables\<close>

definition SchemaCreateTable :: "'s catalog_env \<Rightarrow> schema_entry \<Rightarrow> create_info \<Rightarrow> 's world \<Rightarrow> table_entry res \<times> 's world" where
  "SchemaCreateTable E schema info w =
     (let create = Ddl.CreateTable (ce_strings E) (ce_types E) (ce_duck E) (ce_current E) (catalog_ddl E) (entry_name schema) info in
      if ci_on_conflict info = REPLACE_ON_CONFLICT then create w
      else bindS (TablesGetEntry E schema (ci_table_name info) w) (\<lambda>existing w1.
        case existing of
          None \<Rightarrow> create w1
        | Some table \<Rightarrow>
            (if ci_on_conflict info = IGNORE_ON_CONFLICT then Inr table
             else Inl (Exn CatalogException ''Table already exists in ClickHouse database'' [ci_table_name info, entry_name schema]), w1)))"

text \<open>What else cannot be created in a schema.\<close>

datatype create_other =
    CreateFunction | CreateIndex | CreateView | CreateSequence | CreateTableFunction | CreateCopyFunction
  | CreatePragmaFunction | CreateCollation | CreateType

definition ThrowNotSupported :: "string \<Rightarrow> 'a res" where
  "ThrowNotSupported what = Inl (unsupported ''cannot be created in a ClickHouse database'' [what])"

definition CreateOther :: "create_other \<Rightarrow> 'a res" where
  "CreateOther what =
     (case what of
        CreateFunction \<Rightarrow> ThrowNotSupported ''Functions and macros''
      | CreateIndex \<Rightarrow> Inl (unsupported ''Indexes are not supported for ClickHouse tables'' [])
      | CreateView \<Rightarrow> Inl (unsupported ''CREATE VIEW is not supported for ClickHouse databases'' [])
      | CreateSequence \<Rightarrow> ThrowNotSupported ''Sequences''
      | CreateTableFunction \<Rightarrow> ThrowNotSupported ''Table functions''
      | CreateCopyFunction \<Rightarrow> ThrowNotSupported ''Copy functions''
      | CreatePragmaFunction \<Rightarrow> ThrowNotSupported ''Pragma functions''
      | CreateCollation \<Rightarrow> ThrowNotSupported ''Collations''
      | CreateType \<Rightarrow> ThrowNotSupported ''Types'')"

text \<open>ALTER TABLE with its table and IF EXISTS, or another ALTER.\<close>

record alter_request =
  alter_is_table :: bool
  alter_table_name :: string
  alter_if_exists :: bool
  alter_what :: alter_info

definition Alter :: "'s catalog_env \<Rightarrow> schema_entry \<Rightarrow> alter_request \<Rightarrow> 's world \<Rightarrow> unit res \<times> 's world" where
  "Alter E schema info w =
     (if \<not> alter_is_table info then
        (Inl (unsupported ''This ALTER statement is not supported for ClickHouse databases'' []), w)
      else bindS (TablesGetEntry E schema (alter_table_name info) w) (\<lambda>found w1.
        case found of
          None \<Rightarrow> (if alter_if_exists info then Inr ()
                   else Inl (Exn CatalogException ''Table with name does not exist!'' [alter_table_name info]), w1)
        | Some table \<Rightarrow>
            if IsViewLike table then
              (Inl (unsupported ''ALTER TABLE cannot modify a ClickHouse view or dictionary''
                 [te_name table, ViewLikeKind table, engine table]), w1)
            else bindS (ThrowIfReadOnly (ce_name E) (ce_read_only E), w1) (\<lambda>u w2.
              let sync = MutationsSyncSetting (value_ToString (ce_duck E)) (ce_current E) in
              bindS (AlterTable (ce_strings E) (ce_types E) (ce_duck E) sync (catalog_ddl E) (entry_name schema) table (alter_what info) w2)
                (\<lambda>statement w3.
                  if alter_sql statement = [] then (Inr (), w3)
                  else DdlExecute (catalog_ddl E) (alter_sql statement) (if mutation statement then [sync] else []) w3))))"

definition DropEntry :: "'s catalog_env \<Rightarrow> schema_entry \<Rightarrow> drop_info \<Rightarrow> 's world \<Rightarrow> unit res \<times> 's world" where
  "DropEntry E schema info w =
     (case drop_type info of
        OtherEntry kind \<Rightarrow> (Inl (unsupported ''DROP is not supported for ClickHouse databases'' [kind]), w)
      | TABLE_ENTRY \<Rightarrow> bindS (TablesGetEntry E schema (drop_name info) w) (\<lambda>found w1.
        case found of
          None \<Rightarrow> (if drop_if_exists info then Inr ()
                   else Inl (Exn CatalogException ''Table with name does not exist!'' [drop_name info]), w1)
        | Some table \<Rightarrow>
            if IsViewLike table then
              (Inl (unsupported ''DROP TABLE does not drop a ClickHouse view or dictionary''
                 [te_name table, ViewLikeKind table, engine table, ce_name E,
                  if engine table = ''Dictionary'' then ''DICTIONARY'' else ''VIEW'', QualifiedName (entry_name schema) (te_name table)]), w1)
            else DdlExecute (catalog_ddl E)
                   (''DROP TABLE '' @ (if drop_if_exists info then ''IF EXISTS '' else []) @ QualifiedName (entry_name schema) (te_name table)) [] w1))"

definition ScanTables :: "'s catalog_env \<Rightarrow> schema_entry \<Rightarrow> entry_type \<Rightarrow> 's world \<Rightarrow> table_entry list res \<times> 's world" where
  "ScanTables E schema type w =
     (if type \<noteq> TABLE_ENTRY then (Inr [], w)
      else let load = TableEntries E (entry_name schema) w; tables = w_tables w (entry_id schema);
               (r, s) = CatalogSet.Scan load tables
           in (bindE r (\<lambda>es. Inr (map contents es)),
               w\<lparr>w_tables := (w_tables w)(entry_id schema := s), w_next := w_next w + loaded_ids tables load\<rparr>))"

definition SchemaLookupEntry :: "'s catalog_env \<Rightarrow> schema_entry \<Rightarrow> entry_type \<Rightarrow> string \<Rightarrow> 's world \<Rightarrow> table_entry option res \<times> 's world" where
  "SchemaLookupEntry E schema type name w =
     (if type \<noteq> TABLE_ENTRY then (Inr None, w) else TablesGetEntry E schema name w)"

section \<open>The plans of writes\<close>

text \<open>A CREATE TABLE AS: the checks are made before anything is created, and the operator keeps what it creates.\<close>

definition CheckWritable :: "'s catalog_env \<Rightarrow> column_def \<Rightarrow> unit res" where
  "CheckWritable E column =
     bindE (ToClickhouse (ce_strings E) (ce_types E) (cd_type column) True) (\<lambda>type.
     bindE (Parse (ce_strings E) type) (\<lambda>node.
     bindE (GetWriteMode (ce_strings E) node) (\<lambda>mode.
       if mode = UNSUPPORTED then
         Inl (unsupported ''Column cannot be written into ClickHouse by CREATE TABLE AS'' [cd_name column, type_ToString (ce_types E) (cd_type column)])
       else Inr ())))"

definition PlanCreateTableAs :: "'s catalog_env \<Rightarrow> string \<Rightarrow> create_info \<Rightarrow> nat \<Rightarrow> insert_op res" where
  "PlanCreateTableAs E db info input_columns =
     bindE (ThrowIfReadOnly (ce_name E) (ce_read_only E)) (\<lambda>u.
     bindE (CreateTableSql (ce_strings E) (ce_types E) (ce_duck E) (ce_current E) db info) (\<lambda>sql.
     bindE (mapE (CheckWritable E) (ci_columns info)) (\<lambda>us.
       Inr \<lparr>op_catalog_name = ce_name E, op_database_name = db, op_table_name = ci_table_name info, op_columns = [], op_insert_sql = [],
            create_info = Some (ci_on_conflict info = IGNORE_ON_CONFLICT, map cd_name (ci_columns info)), input_column_count = input_columns\<rparr>)))"

record logical_insert =
  li_return_chunk :: bool
  li_conflict_throw :: bool
  li_table :: table_entry
  li_column_index_map :: "nat option list"
  li_bound_defaults :: "bool list"
  li_input_columns :: nat

definition PlanInsert :: "'s catalog_env \<Rightarrow> logical_insert \<Rightarrow> insert_op res" where
  "PlanInsert E op =
     bindE (ThrowIfReadOnly (ce_name E) (ce_read_only E)) (\<lambda>u.
       if li_return_chunk op then Inl (unsupported ''RETURNING is not supported for ClickHouse tables'' [])
       else if \<not> li_conflict_throw op then Inl (unsupported ''ON CONFLICT is not supported for ClickHouse tables'' [])
       else let table = li_table op in
         bindE (GetInsertColumnsOp (ce_strings E) table (li_column_index_map op) (li_bound_defaults op)) (\<lambda>columns.
         bindE (BuildInsertQuery (ce_strings E) table columns) (\<lambda>sql.
           Inr \<lparr>op_catalog_name = ce_name E, op_database_name = te_schema table, op_table_name = te_name table, op_columns = columns,
                op_insert_sql = sql, create_info = None, input_column_count = li_input_columns op\<rparr>)))"

definition CatalogPlanDelete :: "'s catalog_env \<Rightarrow> dml_api \<Rightarrow> delete_op \<Rightarrow> dml_statement res" where
  "CatalogPlanDelete E D op =
     bindE (ThrowIfReadOnly (ce_name E) (ce_read_only E)) (\<lambda>u. PlanDelete (ce_strings E) (ce_types E) (ce_duck E) D op)"

definition CatalogPlanUpdate :: "'s catalog_env \<Rightarrow> dml_api \<Rightarrow> update_op \<Rightarrow> dml_statement res" where
  "CatalogPlanUpdate E D op =
     bindE (ThrowIfReadOnly (ce_name E) (ce_read_only E)) (\<lambda>u. PlanUpdate (ce_strings E) (ce_types E) (ce_duck E) D (ce_current E) op)"

text \<open>The callbacks that are never translated.\<close>

definition ThrowPlannedChild :: "string \<Rightarrow> 'a res" where
  "ThrowPlannedChild statement =
     Inl (unsupported ''on ClickHouse tables is translated from its logical plan only, and this plan reached the extension already planned'' [statement])"

definition PlanDeletePlanned :: "'s catalog_env \<Rightarrow> dml_statement res" where
  "PlanDeletePlanned E = bindE (ThrowIfReadOnly (ce_name E) (ce_read_only E)) (\<lambda>u. ThrowPlannedChild ''DELETE'')"

definition PlanUpdatePlanned :: "'s catalog_env \<Rightarrow> dml_statement res" where
  "PlanUpdatePlanned E = bindE (ThrowIfReadOnly (ce_name E) (ce_read_only E)) (\<lambda>u. ThrowPlannedChild ''UPDATE'')"

definition PlanMergeInto :: "'s catalog_env \<Rightarrow> dml_statement res" where
  "PlanMergeInto E = bindE (ThrowIfReadOnly (ce_name E) (ce_read_only E))
     (\<lambda>u. Inl (unsupported ''MERGE INTO is not supported for ClickHouse tables'' []))"

definition BindIndex :: "'a res" where
  "BindIndex = Inl (unsupported ''Indexes are not supported for ClickHouse tables'' [])"

end
