(* ===== verification/SchemaSafety.thy ===== *)
theory SchemaSafety
  imports Schema
begin

text \<open>
  What the catalog operations of theory \<open>Schema\<close> promise: which statements reach the server and when, that a
  read-only database is never written, and that what the caches hold after any sequence of them is what the server
  lists. The operations on a table rely on DDL only through its reads, stated as a locale.
\<close>

section \<open>The contract of reads\<close>

definition executed :: "'w ddl_api \<Rightarrow> (string \<times> (string \<times> string) list) list \<Rightarrow> 'w \<Rightarrow> 'w" where
  "executed C statements w = fold (\<lambda>(sql, st) w. snd (DdlExecute C sql st w)) statements w"

text \<open>The statement that stores a column in every part, before its default changes.\<close>

definition stores_column :: "string \<Rightarrow> table_entry \<Rightarrow> string \<times> string \<Rightarrow> (string \<times> (string \<times> string) list) list \<Rightarrow> bool" where
  "stores_column db table sync sts \<longleftrightarrow> sts = [] \<or>
     (\<exists>name kind. sts = [(materialize_sql (QualifiedName db (te_name table)) (QuoteIdentifier name) kind, [sync])])"

lemma bindS_keeps: "snd m = w \<Longrightarrow> (\<And>x. m = (Inr x, w) \<Longrightarrow> snd (f x w) = w) \<Longrightarrow> snd (bindS m f) = w"
  by (cases m) (auto simp: bindS_def split: sum.split)

lemma bindS_state: "snd (bindS m f) = (case fst m of Inl ex \<Rightarrow> snd m | Inr x \<Rightarrow> snd (f x (snd m)))"
  by (cases m) (simp add: bindS_def split: sum.split)

lemma bindS_Inr: "bindS m f = (Inr y, w') \<longleftrightarrow> (\<exists>x w1. m = (Inr x, w1) \<and> f x w1 = (Inr y, w'))"
  by (cases m) (auto simp: bindS_def split: sum.splits)

locale ddl_reads =
  fixes C :: "'w ddl_api"
  assumes columns_keep: "snd (query_columns C sql st w) = w"
    and counts_keep: "snd (query_counts C sql st w) = w"
begin

lemma LoadServerColumn_keeps: "snd (LoadServerColumn U C db table column w) = w"
  unfolding LoadServerColumn_def by (rule bindS_keeps) (simp_all add: columns_keep)

lemma QueryCount_keeps: "snd (QueryCount C sql st w) = w"
  unfolding QueryCount_def by (rule bindS_keeps) (simp_all add: counts_keep)

lemma CountPartsWithout_keeps: "snd (CountPartsWithout C db table column w) = w"
  by (simp add: CountPartsWithout_def QueryCount_keeps)

lemma CountStoredRows_keeps: "snd (CountStoredRows C qualified condition w) = w"
  by (simp add: CountStoredRows_def QueryCount_keeps)

lemmas keeps = LoadServerColumn_keeps QueryCount_keeps CountPartsWithout_keeps CountStoredRows_keeps

lemma ChangeNullability_keeps: "snd (ChangeNullability U C db table name nullable w) = w"
  unfolding ChangeNullability_def Let_def by (intro bindS_keeps) (auto simp: keeps intro!: bindS_keeps)

lemma ChangeType_keeps: "snd (ChangeType U T C db table name change w) = w"
  unfolding ChangeType_def Let_def by (intro bindS_keeps) (auto simp: keeps intro!: bindS_keeps)

lemma AddColumnSql_keeps: "snd (AddColumnSql U T A C qualified table column if_not_exists w) = w"
  unfolding AddColumnSql_def by (auto simp: keeps split: option.split intro!: bindS_keeps)

lemma StoreInEveryPart_executes:
  "snd (StoreInEveryPart U sync C db table column missing w) = w \<or>
   snd (StoreInEveryPart U sync C db table column missing w) =
     executed C [(materialize_sql (QualifiedName db (te_name table)) (QuoteIdentifier (col_name (sc_info column))) (sc_default_kind column), [sync])] w"
  unfolding StoreInEveryPart_def Let_def executed_def
  by (auto simp: bindS_state keeps split: sum.split)

lemma SetDefault_executes:
  "\<exists>sts. snd (SetDefault U T A sync C db table name expression w) = executed C sts w \<and> stores_column db table sync sts"
proof -
  define P where "P w' \<longleftrightarrow> (\<exists>sts. w' = executed C sts w \<and> stores_column db table sync sts)" for w'
  have same: "P w" unfolding P_def by (intro exI [of _ "[]"]) (simp add: executed_def stores_column_def)
  have store: "P (snd (StoreInEveryPart U sync C db table column missing w))" for column missing
    using StoreInEveryPart_executes [of U sync db table column missing w]
  proof
    assume "snd (StoreInEveryPart U sync C db table column missing w) = w"
    then show ?thesis using same by simp
  next
    assume "snd (StoreInEveryPart U sync C db table column missing w) = executed C [(materialize_sql (QualifiedName db (te_name table))
        (QuoteIdentifier (col_name (sc_info column))) (sc_default_kind column), [sync])] w"
    then show ?thesis unfolding P_def stores_column_def by blast
  qed
  have "P (snd (SetDefault U T A sync C db table name expression w))"
    unfolding SetDefault_def Let_def
    by (auto simp: bindS_state keeps same store split: sum.split option.split)
  then show ?thesis unfolding P_def .
qed

lemma AlterTable_executes:
  "\<exists>sts. snd (AlterTable U T A sync C db table change w) = executed C sts w \<and> stores_column db table sync sts \<and>
     (sts = [] \<or> (\<exists>name expression. change = SetDefaultInfo name expression))"
  (is "\<exists>sts. ?w = _ \<and> _ \<and> _")
proof (cases change)
  case (SetDefaultInfo name expression)
  with SetDefault_executes [of U T A sync db table name expression w] show ?thesis by (auto simp: AlterTable_def)
qed (auto simp: AlterTable_def executed_def stores_column_def AddColumnSql_keeps ChangeNullability_keeps ChangeType_keeps intro: exI [of _ "[]"])

end

interpretation reads: ddl_reads "catalog_ddl E" for E :: "'s catalog_env"
  by unfold_locales (simp_all add: catalog_ddl_def CatalogQuery_def)

section \<open>Statements on the catalog\<close>

text \<open>
  DuckDB finds the database entry of a statement first, and runs the operation on it; a statement on a database that
  is not there fails before.
\<close>

definition in_schema :: "'s catalog_env \<Rightarrow> string \<Rightarrow> (schema_entry \<Rightarrow> 's world \<Rightarrow> 'a res \<times> 's world) \<Rightarrow> 's world \<Rightarrow> unit res \<times> 's world" where
  "in_schema E db f w =
     bindS (CatalogLookupSchema E db False w) (\<lambda>found w1.
       case found of None \<Rightarrow> (Inr (), w1) | Some schema \<Rightarrow> bindS (f schema w1) (\<lambda>x w2. (Inr (), w2)))"

datatype catalog_statement =
    CreateSchemaStatement string on_conflict
  | DropSchemaStatement drop_info
  | CreateTableStatement string create_info
  | AlterStatement string alter_request
  | DropTableStatement string drop_info
  | ScanSchemasStatement
  | ScanTablesStatement string entry_type
  | LookupStatement string entry_type string

fun run_statement :: "'s catalog_env \<Rightarrow> catalog_statement \<Rightarrow> 's world \<Rightarrow> unit res \<times> 's world" where
  "run_statement E (CreateSchemaStatement name conflict) w = bindS (CreateSchema E name conflict w) (\<lambda>x w1. (Inr (), w1))"
| "run_statement E (DropSchemaStatement info) w = DropSchema E info w"
| "run_statement E (CreateTableStatement db info) w = in_schema E db (\<lambda>schema. SchemaCreateTable E schema info) w"
| "run_statement E (AlterStatement db info) w = in_schema E db (\<lambda>schema. Alter E schema info) w"
| "run_statement E (DropTableStatement db info) w = in_schema E db (\<lambda>schema. DropEntry E schema info) w"
| "run_statement E ScanSchemasStatement w = bindS (ScanSchemas E w) (\<lambda>x w1. (Inr (), w1))"
| "run_statement E (ScanTablesStatement db type) w = in_schema E db (\<lambda>schema. ScanTables E schema type) w"
| "run_statement E (LookupStatement db type name) w = in_schema E db (\<lambda>schema. SchemaLookupEntry E schema type name) w"

definition new_world :: "'s \<Rightarrow> 's world" where
  "new_world s = \<lparr>w_schemas = empty_set, w_tables = (\<lambda>i. empty_set), w_next = 0, w_txn = empty_manager, w_server = s\<rparr>"

definition run_all :: "'s catalog_env \<Rightarrow> catalog_statement list \<Rightarrow> 's world \<Rightarrow> 's world" where
  "run_all E sts w = fold (\<lambda>st w. snd (run_statement E st w)) sts w"

section \<open>What the caches hold\<close>

definition ServerSchemas :: "'s catalog_env \<Rightarrow> 's \<Rightarrow> string list res" where
  "ServerSchemas E s =
     bindE (sv_connect (ce_server E) s) (\<lambda>u.
     bindE (sv_databases (ce_server E) all_databases_sql ExtensionQuerySettings s) (\<lambda>names.
       Inr (LoadSchemas (only_schema (ce_options E)) (show_system (ce_options E)) (database (ce_config E)) names)))"

definition empty_until_loaded :: "'a catalog_set \<Rightarrow> bool" where
  "empty_until_loaded s \<longleftrightarrow> set_inv s \<and> (\<not> is_loaded s \<longrightarrow> ordered_entries s = [])"

definition world_inv :: "'s world \<Rightarrow> bool" where
  "world_inv w \<longleftrightarrow>
     empty_until_loaded (w_schemas w) \<and> (\<forall>i. empty_until_loaded (w_tables w i)) \<and>
     (\<forall>i\<ge>w_next w. \<not> is_loaded (w_tables w i)) \<and>
     (\<forall>i. \<forall>e\<in>set (ordered_entries (w_tables w i)). entry_name e = te_name (contents e)) \<and>
     distinct (map entry_id (ordered_entries (w_schemas w))) \<and> (\<forall>e\<in>set (ordered_entries (w_schemas w)). entry_id e < w_next w)"

text \<open>Every loaded cache lists what the server has now.\<close>

definition coherent :: "'s catalog_env \<Rightarrow> 's world \<Rightarrow> bool" where
  "coherent E w \<longleftrightarrow>
     (is_loaded (w_schemas w) \<longrightarrow> ServerSchemas E (w_server w) = Inr (map entry_name (ordered_entries (w_schemas w)))) \<and>
     (\<forall>e\<in>set (ordered_entries (w_schemas w)). is_loaded (w_tables w (entry_id e)) \<longrightarrow>
        ServerTables E (entry_name e) (w_server w) = Inr (map contents (ordered_entries (w_tables w (entry_id e)))))"

lemma fold_create: "ordered_entries (fold CreateEntry es s) = ordered_entries s @ es \<and> is_loaded (fold CreateEntry es s) = is_loaded s"
  by (induction es arbitrary: s) (simp_all add: CreateEntry_def)

lemma load_loaded: "is_loaded s \<Longrightarrow> TryLoadEntries load s = (None, s)"
  by (simp add: TryLoadEntries_def)

lemma load_failed: "snd load = Some ex \<Longrightarrow> \<not> is_loaded s \<Longrightarrow>
  fst (TryLoadEntries load s) = Some ex \<and> \<not> is_loaded (snd (TryLoadEntries load s)) \<and> ordered_entries (snd (TryLoadEntries load s)) = []"
  by (simp add: TryLoadEntries_def Let_def fold_create)

lemma load_done: "snd load = None \<Longrightarrow> \<not> is_loaded s \<Longrightarrow> ordered_entries s = [] \<Longrightarrow>
  fst (TryLoadEntries load s) = None \<and> is_loaded (snd (TryLoadEntries load s)) \<and> ordered_entries (snd (TryLoadEntries load s)) = fst load"
  by (simp add: TryLoadEntries_def Let_def fold_create)

lemma load_inv: "empty_until_loaded s \<Longrightarrow> empty_until_loaded (snd (TryLoadEntries load s))"
  unfolding empty_until_loaded_def
  using set_inv_load [of s load] load_failed [of load _ s] load_loaded [of s load] load_done [of load s]
  by (cases "is_loaded s"; cases "snd load") auto

lemma find_listed: "set_inv s \<Longrightarrow> FindEntry U name s = Some e \<Longrightarrow> e \<in> set (ordered_entries s)"
  by (auto simp: FindEntry_def set_inv_def find_Some_iff split: option.splits)

lemma lookup_set:
  "snd (Tables.LookupSchema U load db name return_null s) = snd (TryLoadEntries load s)"
proof -
  have again: "TryLoadEntries load s' = (None, s')" if "TryLoadEntries load s = (None, s')" for s'
    using that by (auto simp: TryLoadEntries_def Let_def split: if_splits option.splits)
  show ?thesis
    by (auto simp: Tables.LookupSchema_def GetEntry_def Let_def again split: prod.splits option.splits sum.splits)
qed

lemma lookup_listed:
  assumes "set_inv s" "fst (Tables.LookupSchema U load db name return_null s) = Inr (Some e)"
  shows "e \<in> set (ordered_entries (snd (TryLoadEntries load s))) \<and> fst (TryLoadEntries load s) = None"
proof -
  have again: "TryLoadEntries load s' = (None, s')" if "TryLoadEntries load s = (None, s')" for s'
    using that by (auto simp: TryLoadEntries_def Let_def split: if_splits option.splits)
  have inv: "set_inv (snd (TryLoadEntries load s))" using assms(1) by (rule set_inv_load)
  then show ?thesis using assms(2)
    by (auto simp: Tables.LookupSchema_def GetEntry_def Let_def again split: prod.splits option.splits sum.splits if_splits
        intro: find_listed)
qed

definition with_schemas :: "'s catalog_env \<Rightarrow> 's world \<Rightarrow> 's world" where
  "with_schemas E w = w\<lparr>w_schemas := snd (TryLoadEntries (SchemaEntries E w) (w_schemas w)),
     w_next := w_next w + loaded_ids (w_schemas w) (SchemaEntries E w)\<rparr>"

definition with_tables :: "'s catalog_env \<Rightarrow> schema_entry \<Rightarrow> 's world \<Rightarrow> 's world" where
  "with_tables E schema w =
     (let load = TableEntries E (entry_name schema) w; tables = w_tables w (entry_id schema) in
      w\<lparr>w_tables := (w_tables w)(entry_id schema := snd (TryLoadEntries load tables)), w_next := w_next w + loaded_ids tables load\<rparr>)"

lemma lookups_load:
  "snd (CatalogLookupSchema E name return_null w) = with_schemas E w"
  "snd (ScanSchemas E w) = with_schemas E w"
  "snd (TablesGetEntry E schema name w) = with_tables E schema w"
  "snd (ScanTables E schema TABLE_ENTRY w) = with_tables E schema w"
  by (auto simp: CatalogLookupSchema_def ScanSchemas_def TablesGetEntry_def ScanTables_def with_schemas_def with_tables_def Let_def
      GetEntry_def CatalogSet.Scan_def case_prod_unfold lookup_set split: option.split)

lemma new_entries_simps:
  "new_entries n [] = []"
  "new_entries n (x # xs) = \<lparr>entry_id = n, entry_name = fst x, contents = snd x\<rparr> # new_entries (Suc n) xs"
  by (simp_all add: new_entries_def case_prod_unfold)

lemma new_entries_parts:
  "map entry_name (new_entries n xs) = map fst xs" "map contents (new_entries n xs) = map snd xs"
  "map entry_id (new_entries n xs) = [n..<n + length xs]" "length (new_entries n xs) = length xs"
proof -
  have "map entry_name (new_entries n xs) = map fst xs \<and> map contents (new_entries n xs) = map snd xs \<and>
      map entry_id (new_entries n xs) = [n..<n + length xs] \<and> length (new_entries n xs) = length xs"
  proof (induction xs arbitrary: n)
    case (Cons x xs)
    from Cons.IH [of "Suc n"] show ?case by (simp add: new_entries_simps upt_conv_Cons del: upt_Suc)
  qed (simp add: new_entries_simps)
  then show "map entry_name (new_entries n xs) = map fst xs" "map contents (new_entries n xs) = map snd xs"
    "map entry_id (new_entries n xs) = [n..<n + length xs]" "length (new_entries n xs) = length xs" by blast+
qed

lemma SchemaEntries_parts:
  "snd (SchemaEntries E w) = None \<Longrightarrow>
     ServerSchemas E (w_server w) = Inr (map entry_name (fst (SchemaEntries E w))) \<and>
     map entry_id (fst (SchemaEntries E w)) = [w_next w..<w_next w + length (fst (SchemaEntries E w))]"
  "snd (SchemaEntries E w) = Some ex \<Longrightarrow> fst (SchemaEntries E w) = []"
  by (auto simp: SchemaEntries_def ServerSchemas_def new_entries_parts comp_def split: sum.splits)

lemma TableEntries_parts:
  "snd (TableEntries E db w) = None \<Longrightarrow> ServerTables E db (w_server w) = Inr (map contents (fst (TableEntries E db w)))"
  "snd (TableEntries E db w) = Some ex \<Longrightarrow> fst (TableEntries E db w) = []"
  by (auto simp: TableEntries_def new_entries_parts comp_def split: sum.splits)

lemma with_schemas_inv:
  assumes "world_inv w"
  shows "world_inv (with_schemas E w)"
proof (cases "is_loaded (w_schemas w)")
  case True
  with assms show ?thesis by (simp add: with_schemas_def load_loaded loaded_ids_def)
next
  case False
  let ?load = "SchemaEntries E w" and ?s = "snd (TryLoadEntries (SchemaEntries E w) (w_schemas w))"
  have e: "ordered_entries (w_schemas w) = []" "empty_until_loaded (w_schemas w)"
    using assms False by (auto simp: world_inv_def empty_until_loaded_def)
  have ok: "empty_until_loaded ?s" using e(2) by (rule load_inv)
  show ?thesis
  proof (cases "snd ?load")
    case None
    from load_done [OF this False e(1)] SchemaEntries_parts(1) [OF None] have
      new: "ordered_entries ?s = fst ?load" "map entry_id (fst ?load) = [w_next w..<w_next w + length (fst ?load)]" by auto
    then have "distinct (map entry_id (ordered_entries ?s))" by simp
    moreover have "entry_id x < w_next w + length (fst ?load)" if "x \<in> set (ordered_entries ?s)" for x
    proof -
      have "entry_id x \<in> set (map entry_id (fst ?load))" using that new(1) by simp
      then show ?thesis unfolding new(2) by simp
    qed
    ultimately show ?thesis using assms ok False by (auto simp: world_inv_def with_schemas_def loaded_ids_def)
  next
    case (Some ex)
    from load_failed [OF this False] SchemaEntries_parts(2) [OF Some] assms ok False show ?thesis
      by (auto simp: world_inv_def with_schemas_def loaded_ids_def)
  qed
qed

lemma with_schemas_coherent:
  assumes "world_inv w" "coherent E w"
  shows "coherent E (with_schemas E w)"
proof (cases "is_loaded (w_schemas w)")
  case True
  with assms show ?thesis by (simp add: with_schemas_def load_loaded loaded_ids_def)
next
  case False
  let ?load = "SchemaEntries E w" and ?s = "snd (TryLoadEntries (SchemaEntries E w) (w_schemas w))"
  have e: "ordered_entries (w_schemas w) = []" using assms(1) False by (auto simp: world_inv_def empty_until_loaded_def)
  show ?thesis
  proof (cases "snd ?load")
    case None
    from load_done [OF this False e] SchemaEntries_parts(1) [OF None] have
      new: "ordered_entries ?s = fst ?load" "map entry_id (fst ?load) = [w_next w..<w_next w + length (fst ?load)]"
        "ServerSchemas E (w_server w) = Inr (map entry_name (fst ?load))" by auto
    have "\<not> is_loaded (w_tables w (entry_id x))" if "x \<in> set (ordered_entries ?s)" for x
    proof -
      have "entry_id x \<in> set (map entry_id (fst ?load))" using that new(1) by simp
      then have "w_next w \<le> entry_id x" unfolding new(2) by simp
      with assms(1) show ?thesis by (simp add: world_inv_def)
    qed
    with new show ?thesis by (auto simp: coherent_def with_schemas_def)
  next
    case (Some ex)
    from load_failed [OF this False] show ?thesis by (auto simp: coherent_def with_schemas_def)
  qed
qed

lemma with_tables_inv:
  assumes "world_inv w" "entry_id schema < w_next w"
  shows "world_inv (with_tables E schema w)"
proof -
  let ?load = "TableEntries E (entry_name schema) w" and ?s = "w_tables w (entry_id schema)"
  have "entry_name e = te_name (contents e)" if "e \<in> set (ordered_entries (snd (TryLoadEntries ?load ?s)))" for e
  proof (cases "is_loaded ?s")
    case True
    with that assms(1) show ?thesis by (simp add: load_loaded world_inv_def)
  next
    case False
    then have e: "ordered_entries ?s = []" using assms(1) by (auto simp: world_inv_def empty_until_loaded_def)
    with that have "snd ?load = None" using load_failed [OF _ False, of ?load] by (cases "snd ?load") auto
    with load_done [OF this False e] that have "e \<in> set (fst ?load)" by simp
    then show ?thesis by (auto simp: TableEntries_def new_entries_def in_set_enumerate_eq nth_map split: sum.splits)
  qed
  then show ?thesis using assms load_inv [of "w_tables w (entry_id schema)"]
    by (auto simp: world_inv_def with_tables_def Let_def intro: less_le_trans)
qed

lemma with_tables_coherent:
  assumes "world_inv w" "coherent E w" "schema \<in> set (ordered_entries (w_schemas w))"
  shows "coherent E (with_tables E schema w)"
proof -
  let ?load = "TableEntries E (entry_name schema) w" and ?s = "w_tables w (entry_id schema)"
  have same: "e = schema" if "e \<in> set (ordered_entries (w_schemas w))" "entry_id e = entry_id schema" for e
    using assms(1,3) that by (auto simp: world_inv_def distinct_map inj_on_def)
  have "ServerTables E (entry_name schema) (w_server w) = Inr (map contents (ordered_entries (snd (TryLoadEntries ?load ?s))))"
    if "is_loaded (snd (TryLoadEntries ?load ?s))"
  proof (cases "is_loaded ?s")
    case True
    with assms show ?thesis by (simp add: coherent_def load_loaded)
  next
    case False
    then have e: "ordered_entries ?s = []" using assms(1) by (auto simp: world_inv_def empty_until_loaded_def)
    from that have "snd ?load = None" using load_failed [OF _ False, of ?load] by (cases "snd ?load") auto
    with load_done [OF this False e] TableEntries_parts(1) [OF this] show ?thesis by simp
  qed
  then show ?thesis using assms(2) same by (auto simp: coherent_def with_tables_def Let_def)
qed

lemma DdlExecute_cleared:
  "\<not> is_loaded (w_schemas (snd (DdlExecute (catalog_ddl E) sql st w))) \<and> ordered_entries (w_schemas (snd (DdlExecute (catalog_ddl E) sql st w))) = [] \<and>
   w_tables (snd (DdlExecute (catalog_ddl E) sql st w)) = w_tables w \<and> w_next (snd (DdlExecute (catalog_ddl E) sql st w)) = w_next w \<and>
   set_inv (w_schemas (snd (DdlExecute (catalog_ddl E) sql st w)))"
  by (auto simp: DdlExecute_def catalog_ddl_def CatalogExecute_def CatalogClearCache_def ClearEntries_def RemoveEntries_def Let_def set_inv_def
      split: sum.split prod.split)

lemma DdlExecute_fresh:
  "world_inv w \<Longrightarrow> world_inv (snd (DdlExecute (catalog_ddl E) sql st w))" "coherent E (snd (DdlExecute (catalog_ddl E) sql st w))"
  using DdlExecute_cleared [of E sql st w] by (simp_all add: world_inv_def coherent_def empty_until_loaded_def)

definition fresh :: "'s catalog_env \<Rightarrow> 's world \<Rightarrow> bool" where
  "fresh E w \<longleftrightarrow> world_inv w \<and> coherent E w"

lemma fresh_new: "fresh E (new_world s)"
  by (simp add: fresh_def new_world_def world_inv_def coherent_def empty_set_def empty_until_loaded_def set_inv_def)

lemma fresh_schemas: "fresh E w \<Longrightarrow> fresh E (with_schemas E w)"
  by (simp add: fresh_def with_schemas_inv with_schemas_coherent)

lemma fresh_tables: "fresh E w \<Longrightarrow> schema \<in> set (ordered_entries (w_schemas w)) \<Longrightarrow> fresh E (with_tables E schema w)"
  using with_tables_inv [of w schema E] by (auto simp: fresh_def with_tables_coherent world_inv_def)

lemma fresh_execute: "fresh E w \<Longrightarrow> fresh E (snd (DdlExecute (catalog_ddl E) sql st w))"
  by (simp add: fresh_def DdlExecute_fresh)

lemma fresh_executed: "fresh E w \<Longrightarrow> fresh E (executed (catalog_ddl E) sts w)"
  unfolding executed_def by (induction sts arbitrary: w) (auto simp: fresh_execute)

lemma lookup_found:
  assumes "fresh E w" "CatalogLookupSchema E name return_null w = (Inr (Some schema), w1)"
  shows "w1 = with_schemas E w \<and> fresh E w1 \<and> schema \<in> set (ordered_entries (w_schemas w1))"
proof -
  have w1: "w1 = with_schemas E w" using lookups_load(1) [of E name return_null w] assms(2) by simp
  have "fst (Tables.LookupSchema (ce_strings E) (SchemaEntries E w) (GetDefaultSchema (only_schema (ce_options E)) (ce_config E)) name return_null (w_schemas w)) = Inr (Some schema)"
    using assms(2) by (auto simp: CatalogLookupSchema_def Let_def split: prod.splits)
  from lookup_listed [OF _ this] assms(1) have "schema \<in> set (ordered_entries (w_schemas w1))"
    by (auto simp: w1 with_schemas_def fresh_def world_inv_def empty_until_loaded_def)
  with w1 fresh_schemas [OF assms(1)] show ?thesis by simp
qed

lemma bindS_fresh:
  "fresh E (snd m) \<Longrightarrow> (\<And>x w'. m = (Inr x, w') \<Longrightarrow> fresh E w' \<Longrightarrow> fresh E (snd (f x w'))) \<Longrightarrow> fresh E (snd (bindS m f))"
  by (cases m) (auto simp: bindS_def split: sum.split)

lemma fresh_lookup: "fresh E w \<Longrightarrow> fresh E (snd (CatalogLookupSchema E name return_null w))"
  by (simp add: lookups_load fresh_schemas)

lemma fresh_entry: "fresh E w \<Longrightarrow> schema \<in> set (ordered_entries (w_schemas w)) \<Longrightarrow> fresh E (snd (TablesGetEntry E schema name w))"
  by (simp add: lookups_load fresh_tables)

lemma fresh_LookupTable: "fresh E w \<Longrightarrow> fresh E (snd (LookupTable (catalog_ddl E) db name w))"
  unfolding LookupTable_def
  by (rule bindS_fresh) (auto simp: catalog_ddl_def fresh_lookup fresh_entry dest: lookup_found split: option.split)

lemma fresh_CreateTable: "fresh E w \<Longrightarrow> fresh E (snd (Ddl.CreateTable U T A current (catalog_ddl E) db info w))"
  unfolding Ddl.CreateTable_def
  by (auto split: sum.split option.split intro!: bindS_fresh fresh_execute fresh_LookupTable)

lemma fresh_AlterTable: "fresh E w \<Longrightarrow> fresh E (snd (AlterTable U T A sync (catalog_ddl E) db table change w))"
  using reads.AlterTable_executes [of U T A sync E db table change w] fresh_executed by (metis (no_types))

lemma fresh_SchemaCreateTable:
  "fresh E w \<Longrightarrow> schema \<in> set (ordered_entries (w_schemas w)) \<Longrightarrow> fresh E (snd (SchemaCreateTable E schema info w))"
  unfolding SchemaCreateTable_def Let_def
  by (auto split: option.split intro!: bindS_fresh fresh_CreateTable fresh_entry)

lemma fresh_Alter:
  "fresh E w \<Longrightarrow> schema \<in> set (ordered_entries (w_schemas w)) \<Longrightarrow> fresh E (snd (Alter E schema info w))"
  unfolding Alter_def Let_def
  by (auto split: option.split intro!: bindS_fresh fresh_AlterTable fresh_entry fresh_execute)

lemma fresh_DropEntry:
  "fresh E w \<Longrightarrow> schema \<in> set (ordered_entries (w_schemas w)) \<Longrightarrow> fresh E (snd (DropEntry E schema info w))"
  unfolding DropEntry_def
  by (auto split: option.split entry_type.split intro!: bindS_fresh fresh_entry fresh_execute)

lemma fresh_CreateSchema: "fresh E w \<Longrightarrow> fresh E (snd (CreateSchema E name conflict w))"
  unfolding CreateSchema_def Let_def
  by (auto split: sum.split intro!: bindS_fresh fresh_lookup fresh_execute)

lemma fresh_DropSchema: "fresh E w \<Longrightarrow> fresh E (snd (DropSchema E info w))"
  unfolding DropSchema_def Let_def
  by (auto simp: CatalogQuery_def split: sum.split option.split intro!: bindS_fresh fresh_lookup fresh_execute)

lemma fresh_in_schema:
  assumes "fresh E w" "\<And>schema w1. fresh E w1 \<Longrightarrow> schema \<in> set (ordered_entries (w_schemas w1)) \<Longrightarrow> fresh E (snd (f schema w1))"
  shows "fresh E (snd (in_schema E db f w))"
  unfolding in_schema_def
  by (rule bindS_fresh) (use assms in \<open>auto simp: fresh_lookup dest: lookup_found split: option.split intro!: bindS_fresh\<close>)

lemma fresh_scan: "fresh E w \<Longrightarrow> schema \<in> set (ordered_entries (w_schemas w)) \<Longrightarrow> fresh E (snd (ScanTables E schema type w))"
  using lookups_load(4) [of E schema w] fresh_tables [of E w schema] by (cases "type = TABLE_ENTRY") (simp_all add: ScanTables_def)

lemma fresh_lookup_entry:
  "fresh E w \<Longrightarrow> schema \<in> set (ordered_entries (w_schemas w)) \<Longrightarrow> fresh E (snd (SchemaLookupEntry E schema type name w))"
  by (simp add: SchemaLookupEntry_def fresh_entry)

lemma fresh_statement: "fresh E w \<Longrightarrow> fresh E (snd (run_statement E st w))"
  by (cases st) (auto intro!: fresh_in_schema bindS_fresh fresh_CreateSchema fresh_DropSchema fresh_SchemaCreateTable fresh_Alter
      fresh_DropEntry fresh_scan fresh_lookup_entry simp: lookups_load fresh_schemas)

lemma fresh_run: "fresh E (run_all E sts (new_world s))"
proof -
  have "fresh E w \<Longrightarrow> fresh E (run_all E sts w)" for w
    unfolding run_all_def by (induction sts arbitrary: w) (simp_all add: fresh_statement)
  then show ?thesis using fresh_new .
qed

text \<open>
  C5. After any sequence of statements and lookups on an attached database, whatever they are and whether they succeed
  or fail, its caches are no older than the last statement that was sent: if the databases are cached they are
  those the server lists now that are visible, and if the tables of a cached database are, they are the tables the
  server lists in it now, with their columns. (Statements that others send, INSERT, UPDATE and DELETE do not clear the
  caches, and are not among those here.)
\<close>

theorem caches_follow_statements: "coherent E (run_all E sts (new_world s))"
  using fresh_run [of E sts s] by (simp add: fresh_def)

section \<open>A read-only database\<close>

definition untouched :: "'s world \<Rightarrow> 's world \<Rightarrow> bool" where
  "untouched w w' \<longleftrightarrow> w_server w' = w_server w \<and> transactions (w_txn w') = transactions (w_txn w)"

lemma untouched_refl: "untouched w w" by (simp add: untouched_def)

lemma untouched_trans: "untouched w w1 \<Longrightarrow> untouched w1 w2 \<Longrightarrow> untouched w w2" by (simp add: untouched_def)

lemma bindS_untouched:
  "untouched w (snd m) \<Longrightarrow> (\<And>x w'. m = (Inr x, w') \<Longrightarrow> untouched w' (snd (f x w'))) \<Longrightarrow> untouched w (snd (bindS m f))"
  by (cases m) (auto simp: bindS_def split: sum.split intro: untouched_trans)

lemma untouched_lookups:
  "untouched w (snd (CatalogLookupSchema E name return_null w))" "untouched w (snd (ScanSchemas E w))"
  "untouched w (snd (TablesGetEntry E schema name w))" "untouched w (snd (ScanTables E schema type w))"
  using lookups_load(4) [of E schema w]
  by (cases "type = TABLE_ENTRY"; simp add: lookups_load untouched_def with_schemas_def with_tables_def Let_def ScanTables_def)+

lemma untouched_query: "untouched w (snd (CatalogQuery E query sql st w))"
  by (simp add: CatalogQuery_def untouched_def)

lemma untouched_execute: "ce_read_only E \<Longrightarrow> untouched w (snd (DdlExecute (catalog_ddl E) sql st w))"
  by (simp add: DdlExecute_def catalog_ddl_def CatalogExecute_def StartWrite_def ThrowIfReadOnly_def ThrowReadOnly_def CatalogClearCache_def
      ClearEntries_def RemoveEntries_def RetireEntries_def untouched_def Let_def)

lemma untouched_executed: "ce_read_only E \<Longrightarrow> untouched w (executed (catalog_ddl E) sts w)"
  unfolding executed_def by (induction sts arbitrary: w) (auto intro: untouched_refl untouched_trans untouched_execute)

lemma untouched_AlterTable: "ce_read_only E \<Longrightarrow> untouched w (snd (AlterTable U T A sync (catalog_ddl E) db table change w))"
  using reads.AlterTable_executes [of U T A sync E db table change w] untouched_executed by (metis (no_types))

lemma untouched_CreateTable: "ce_read_only E \<Longrightarrow> untouched w (snd (Ddl.CreateTable U T A current (catalog_ddl E) db info w))"
  unfolding Ddl.CreateTable_def LookupTable_def
  by (auto split: sum.split option.split intro!: bindS_untouched untouched_execute untouched_refl)
     (auto simp: catalog_ddl_def untouched_lookups)

lemmas untouched_rules = bindS_untouched untouched_lookups untouched_query untouched_execute untouched_AlterTable untouched_CreateTable untouched_refl


lemma DdlExecute_server:
  "w_server (snd (DdlExecute (catalog_ddl E) sql st w)) =
     (if ce_read_only E \<or> \<not> is_ok (sv_connect (ce_server E) (w_server w)) then w_server w
      else snd (sv_execute (ce_server E) sql ((''enable_time_time64_type'', ''1'') # st) (w_server w)))"
  by (auto simp: DdlExecute_def catalog_ddl_def CatalogExecute_def StartWrite_def ThrowIfReadOnly_def ThrowReadOnly_def CatalogClearCache_def
      ClearEntries_def RemoveEntries_def Let_def is_ok_iff split: sum.splits prod.splits)

section \<open>Which database and which table a name means\<close>

lemma lookup_found_by:
  assumes "fst (Tables.LookupSchema U load d name return_null s) = Inr (Some e)"
  defines "s' \<equiv> snd (TryLoadEntries load s)"
  shows "FindEntry U name s' = Some e \<or> FindEntry U name s' = None \<and> CIEquals U name ''main'' \<and> FindEntry U d s' = Some e"
proof -
  have again: "TryLoadEntries load s' = (None, s')" if "TryLoadEntries load s = (None, s')" for s'
    using that by (auto simp: TryLoadEntries_def Let_def split: if_splits option.splits)
  show ?thesis using assms
    by (auto simp: Tables.LookupSchema_def GetEntry_def Let_def again split: prod.splits option.splits sum.splits if_splits)
qed

text \<open>The entry \<open>e\<close> is what \<open>name\<close> means among \<open>names\<close>: that very name if it is there, else one that differs in case.\<close>

definition named :: "string \<Rightarrow> string list \<Rightarrow> string \<Rightarrow> bool" where
  "named name names e \<longleftrightarrow> e \<in> set names \<and> lower_name e = lower_name name \<and> (name \<in> set names \<longrightarrow> e = name)"

lemma FindEntry_named:
  assumes "string_util_ok U" "set_inv s" "FindEntry U name s = Some e"
  shows "named name (map entry_name (ordered_entries s)) (entry_name e) \<and> e \<in> set (ordered_entries s)"
proof (cases "entries s name")
  case None
  then have "name \<notin> entry_name ` set (ordered_entries s)" using assms(2) by (fastforce simp: set_inv_def)
  with None assms show ?thesis
    by (auto simp: FindEntry_def find_Some_iff named_def string_util_okD(11) lower_name_def)
next
  case (Some x)
  with assms show ?thesis by (force simp: FindEntry_def set_inv_def named_def)
qed

lemma CatalogLookupSchema_named:
  assumes "string_util_ok (ce_strings E)" "fresh E w" "CatalogLookupSchema E name return_null w = (Inr (Some schema), w1)"
  shows "\<exists>names. ServerSchemas E (w_server w) = Inr names \<and>
    (named name names (entry_name schema) \<or>
     name \<notin> set names \<and> lower_name name = ''main'' \<and> named (GetDefaultSchema (only_schema (ce_options E)) (ce_config E)) names (entry_name schema))"
proof -
  let ?load = "SchemaEntries E w" and ?d = "GetDefaultSchema (only_schema (ce_options E)) (ce_config E)"
  have w1: "w1 = with_schemas E w" and fresh: "fresh E w1" using lookup_found [OF assms(2,3)] by auto
  have found: "fst (Tables.LookupSchema (ce_strings E) ?load ?d name return_null (w_schemas w)) = Inr (Some schema)"
    using assms(3) by (auto simp: CatalogLookupSchema_def Let_def split: prod.splits)
  have inv: "set_inv (w_schemas w)" using assms(2) by (simp add: fresh_def world_inv_def empty_until_loaded_def)
  from lookup_listed [OF this found] have "fst (TryLoadEntries ?load (w_schemas w)) = None" by simp
  then have "is_loaded (w_schemas w1)"
    by (auto simp: w1 with_schemas_def TryLoadEntries_def Let_def split: if_splits option.splits)
  with fresh have names: "ServerSchemas E (w_server w) = Inr (map entry_name (ordered_entries (w_schemas w1)))"
    by (auto simp: fresh_def coherent_def w1 with_schemas_def)
  have s: "snd (TryLoadEntries ?load (w_schemas w)) = w_schemas w1" by (simp add: w1 with_schemas_def)
  have inv1: "set_inv (w_schemas w1)" using fresh by (simp add: fresh_def world_inv_def empty_until_loaded_def)
  have absent: "name \<notin> entry_name ` set (ordered_entries (w_schemas w1))" if "FindEntry (ce_strings E) name (w_schemas w1) = None"
    using that inv1 by (fastforce simp: FindEntry_def set_inv_def split: option.splits)
  have "map ascii_lower_char ''main'' = ''main''" by code_simp
  with lookup_found_by [OF found] FindEntry_named [OF assms(1) inv1] absent show ?thesis
    unfolding names s by (auto simp: string_util_okD(11) [OF assms(1)] lower_name_def)
qed

text \<open>
  C19. DROP SCHEMA drops the database that its name means and no other: one the server lists and the attached database
  shows, with exactly that name if there is one, never the one that \<open>main\<close> stands for, and never on a read-only database. Without CASCADE
  the server was asked for the number of its tables and answered zero. One statement is sent, the name quoted.
\<close>

theorem DropSchema_only_empty:
  assumes U: "string_util_ok (ce_strings E)" and w: "w = run_all E sts (new_world s)"
    and drop: "DropSchema E info w = (r, w')" and sent: "w_server w' \<noteq> w_server w"
  shows "\<exists>db names. ServerSchemas E (w_server w) = Inr names \<and> named (drop_name info) names db \<and>
    lower_name (drop_name info) \<noteq> ''main'' \<and> \<not> ce_read_only E \<and>
    (drop_cascade info \<or> (\<exists>blocks. sv_counts (ce_server E) (table_count_sql db) ExtensionQuerySettings (w_server w) = Inr blocks \<and> LastCount 0 blocks = 0)) \<and>
    w_server w' = snd (sv_execute (ce_server E) (''DROP DATABASE '' @ (if drop_if_exists info then ''IF EXISTS '' else []) @ QuoteIdentifier db)
      [(''enable_time_time64_type'', ''1'')] (w_server w))"
proof -
  have fresh: "fresh E w" unfolding w by (rule fresh_run) 
  have main: "lower_name (drop_name info) \<noteq> ''main''"
  proof
    have "map ascii_lower_char ''main'' = ''main''" by code_simp
    moreover assume "lower_name (drop_name info) = ''main''"
    ultimately have "w' = w" using drop
      by (auto simp: DropSchema_def ThrowIfDefaultSchema_def DEFAULT_SCHEMA_def string_util_okD(11) [OF U] lower_name_def split: if_splits)
    with sent show False by simp
  qed
  show ?thesis
  proof (cases "CatalogLookupSchema E (drop_name info) True w")
    case (Pair found w1)
    have same: "w_server w1 = w_server w" using untouched_lookups(1) [of w E "drop_name info" True] Pair by (simp add: untouched_def)
    from drop sent Pair same obtain schema where schema: "found = Inr (Some schema)"
      by (auto simp: DropSchema_def Let_def bindS_def split: sum.splits option.splits if_splits)
    from CatalogLookupSchema_named [OF U fresh Pair [unfolded schema]] main obtain names where
      names: "ServerSchemas E (w_server w) = Inr names" "named (drop_name info) names (entry_name schema)" by auto
    let ?sql = "''DROP DATABASE '' @ (if drop_if_exists info then ''IF EXISTS '' else []) @ QuoteIdentifier (entry_name schema)"
    have "w' = snd (DdlExecute (catalog_ddl E) ?sql [] w1) \<and>
        (drop_cascade info \<or> (\<exists>blocks. sv_counts (ce_server E) (table_count_sql (entry_name schema)) ExtensionQuerySettings (w_server w) = Inr blocks \<and> LastCount 0 blocks = 0))"
      using drop sent Pair schema same
      by (auto simp: DropSchema_def Let_def CatalogQuery_def bindS_def split: sum.splits if_splits)
    with sent same DdlExecute_server [of E ?sql "[]" w1] names main show ?thesis
      by (auto split: if_splits)
  qed
qed

section \<open>SET NOT NULL\<close>

definition nulls_sql :: "string \<Rightarrow> table_entry \<Rightarrow> string \<Rightarrow> string" where
  "nulls_sql db table column =
     ''SELECT countIf('' @ QuoteIdentifier column @ '' IS NULL) FROM '' @ QualifiedName db (te_name table)"

text \<open>The column can lose its NULLs: as the server has it now it is nullable, is in no key and is stored.\<close>

definition may_drop_nulls :: "server_column \<Rightarrow> bool" where
  "may_drop_nulls column \<longleftrightarrow>
     tw_nullable (Of (type_node (sc_info column))) \<and> \<not> in_key column \<and> sc_default_kind column \<noteq> ''ALIAS''"

lemma ChangeNullability_not_null:
  assumes "ChangeNullability U (catalog_ddl E) db table name False w = (Inr statement, w')" "alter_sql statement \<noteq> []"
  shows "w' = w \<and> (\<exists>cached column blocks. RequireColumn U table name = Inr cached \<and>
    fst (LoadServerColumn U (catalog_ddl E) db table (col_name cached) w) = Inr column \<and> may_drop_nulls column \<and>
    sv_counts (ce_server E) (nulls_sql db table (col_name (sc_info column))) (ExtensionQuerySettings @ [(''apply_deleted_mask'', ''0'')]) (w_server w) = Inr blocks \<and>
    LastCount 0 blocks = 0 \<and> mutation statement \<and>
    alter_sql statement = ModifyColumn (QualifiedName db (te_name table)) (sc_info column)
      (Wrap ((Of (type_node (sc_info column)))\<lparr>tw_nullable := False\<rparr>) (node_text (tw_base (Of (type_node (sc_info column)))))))"
proof -
  have w': "w' = w" using reads.ChangeNullability_keeps [of U E db table name False w] assms(1) by simp
  show ?thesis
  proof (cases "RequireColumn U table name")
    case (Inl ex)
    with assms(1) show ?thesis by (simp add: ChangeNullability_def)
  next
    case cached: (Inr cached)
    obtain r where load: "LoadServerColumn U (catalog_ddl E) db table (col_name cached) w = (r, w)"
      using reads.LoadServerColumn_keeps [of U E db table "col_name cached" w] by (cases "LoadServerColumn U (catalog_ddl E) db table (col_name cached) w") simp
    show ?thesis
    proof (cases r)
      case (Inl ex)
      with assms(1) cached load show ?thesis by (simp add: ChangeNullability_def)
    next
      case column: (Inr column)
      note run = assms(1) [unfolded ChangeNullability_def cached load column bindS_simps Let_def]
      have nullable: "IsNullable (type_node (sc_info column))"
        using run assms(2) by (auto simp: no_statement_def split: if_splits)
      note run1 = run [simplified nullable, simplified]
      have free: "ThrowIfNotRewritable column table = Inr ()"
        using run1 by (cases "ThrowIfNotRewritable column table") simp_all
      note run2 = run1 [unfolded free bindS_simps]
      have drops: "tw_nullable (Of (type_node (sc_info column)))" using run2 by (auto split: if_splits)
      from run2 drops w' cached load column free show ?thesis
        by (auto simp: bindS_Inr CountStoredRows_def QueryCount_def catalog_ddl_def CatalogQuery_def nulls_sql_def may_drop_nulls_def
            ThrowIfNotRewritable_def split: if_splits)
    qed
  qed
qed

text \<open>
  C20. SET NOT NULL is sent only when it cannot fail half way: for a table that is no view, whose column as the server
  has it now is nullable, stored and in no key, and only after the server counted zero NULLs in all its stored rows, deleted ones included. The one
  statement gives the column the type it has without the Nullable wrapper.
\<close>

theorem set_not_null_checked:
  assumes alter: "Alter E schema info w = (r, w')" "alter_what info = SetNotNull name" and sent: "w_server w' \<noteq> w_server w"
  shows "\<not> ce_read_only E \<and> (\<exists>table column blocks w1. TablesGetEntry E schema (alter_table_name info) w = (Inr (Some table), w1) \<and> \<not> IsViewLike table \<and>
    (\<exists>cached. RequireColumn (ce_strings E) table name = Inr cached \<and>
      fst (LoadServerColumn (ce_strings E) (catalog_ddl E) (entry_name schema) table (col_name cached) w1) = Inr column) \<and> may_drop_nulls column \<and>
    sv_counts (ce_server E) (nulls_sql (entry_name schema) table (col_name (sc_info column)))
      (ExtensionQuerySettings @ [(''apply_deleted_mask'', ''0'')]) (w_server w) = Inr blocks \<and> LastCount 0 blocks = 0 \<and>
    w_server w' = snd (sv_execute (ce_server E)
      (ModifyColumn (QualifiedName (entry_name schema) (te_name table)) (sc_info column)
        (Wrap ((Of (type_node (sc_info column)))\<lparr>tw_nullable := False\<rparr>) (node_text (tw_base (Of (type_node (sc_info column)))))))
      [(''enable_time_time64_type'', ''1''), MutationsSyncSetting (value_ToString (ce_duck E)) (ce_current E)] (w_server w)))"
proof -
  obtain found w1 where found: "TablesGetEntry E schema (alter_table_name info) w = (found, w1)" by fastforce
  have same: "w_server w1 = w_server w" using untouched_lookups(3) [of w E schema "alter_table_name info"] found by (simp add: untouched_def)
  from alter sent same found obtain table where table: "found = Inr (Some table)" "\<not> IsViewLike table" "\<not> ce_read_only E" "alter_is_table info"
    by (auto simp: Alter_def ThrowIfReadOnly_def ThrowReadOnly_def bindS_def split: sum.splits option.splits if_splits)
  let ?sync = "MutationsSyncSetting (value_ToString (ce_duck E)) (ce_current E)"
  obtain m w2 where change: "ChangeNullability (ce_strings E) (catalog_ddl E) (entry_name schema) table name False w1 = (m, w2)" by fastforce
  from reads.ChangeNullability_keeps [of "ce_strings E" E "entry_name schema" table name False w1] change have w2: "w2 = w1" by simp
  have run: "(r, w') = bindS (m, w1) (\<lambda>statement w3. if alter_sql statement = [] then (Inr (), w3)
      else DdlExecute (catalog_ddl E) (alter_sql statement) (if mutation statement then [?sync] else []) w3)"
    using alter found table change w2 by (auto simp: Alter_def ThrowIfReadOnly_def AlterTable_def Let_def split: if_splits)
  have moved: "w' \<noteq> w1" using sent same by auto
  have "\<exists>statement. m = Inr statement \<and> alter_sql statement \<noteq> []"
  proof (cases m)
    case (Inl ex)
    with run moved show ?thesis by simp
  next
    case (Inr statement)
    with run moved show ?thesis by (cases "alter_sql statement = []") simp_all
  qed
  then obtain statement where m: "m = Inr statement" "alter_sql statement \<noteq> []" by blast
  have w': "w' = snd (DdlExecute (catalog_ddl E) (alter_sql statement) (if mutation statement then [?sync] else []) w1)"
    using run unfolding m(1) bindS_simps if_not_P [OF m(2)] by (simp add: prod_eq_iff)
  from ChangeNullability_not_null [OF change [unfolded m(1)] m(2)] obtain cached column blocks where
    checked: "RequireColumn (ce_strings E) table name = Inr cached"
      "fst (LoadServerColumn (ce_strings E) (catalog_ddl E) (entry_name schema) table (col_name cached) w1) = Inr column"
      "may_drop_nulls column"
      "sv_counts (ce_server E) (nulls_sql (entry_name schema) table (col_name (sc_info column)))
        (ExtensionQuerySettings @ [(''apply_deleted_mask'', ''0'')]) (w_server w) = Inr blocks" "LastCount 0 blocks = 0"
    and statement: "mutation statement" "alter_sql statement = ModifyColumn (QualifiedName (entry_name schema) (te_name table)) (sc_info column)
        (Wrap ((Of (type_node (sc_info column)))\<lparr>tw_nullable := False\<rparr>) (node_text (tw_base (Of (type_node (sc_info column))))))"
    unfolding same by blast
  have server: "w_server w' = snd (sv_execute (ce_server E) (alter_sql statement) [(''enable_time_time64_type'', ''1''), ?sync] (w_server w))"
    using sent w' statement(1) DdlExecute_server [of E "alter_sql statement" "[?sync]" w1] same by (auto split: if_splits)
  show ?thesis
    using found checked table(2,3) server [unfolded statement(2)] unfolding table(1) by blast
qed

section \<open>CREATE TABLE\<close>

lemma TablesGetEntry_listed:
  assumes "string_util_ok (ce_strings E)" "fresh E w" "schema \<in> set (ordered_entries (w_schemas w))"
    and "TablesGetEntry E schema name w = (Inr (Some t), w')"
  shows "w_server w' = w_server w \<and> (\<exists>tables. ServerTables E (entry_name schema) (w_server w) = Inr tables \<and> t \<in> set tables \<and>
    named name (map te_name tables) (te_name t))"
proof -
  let ?load = "TableEntries E (entry_name schema) w" and ?s = "w_tables w (entry_id schema)"
  let ?s' = "snd (TryLoadEntries ?load ?s)"
  have w': "w' = with_tables E schema w" using lookups_load(3) [of E schema name w] assms(4) by simp
  have fresh: "fresh E w'" using fresh_tables [OF assms(2,3)] by (simp add: w')
  from assms(4) obtain e where found: "fst (TryLoadEntries ?load ?s) = None" "FindEntry (ce_strings E) name ?s' = Some e" "t = contents e"
    by (auto simp: TablesGetEntry_def GetEntry_def Let_def split: prod.splits option.splits)
  have s': "w_tables w' (entry_id schema) = ?s'" "w_schemas w' = w_schemas w" "w_server w' = w_server w"
    by (simp_all add: w' with_tables_def Let_def)
  have "is_loaded ?s'" using found(1) by (auto simp: TryLoadEntries_def Let_def split: if_splits option.splits)
  with fresh assms(3) s' have listed: "ServerTables E (entry_name schema) (w_server w) = Inr (map contents (ordered_entries ?s'))"
    unfolding fresh_def coherent_def by metis
  have inv: "set_inv ?s'" "\<forall>e\<in>set (ordered_entries ?s'). entry_name e = te_name (contents e)"
    using fresh s'(1) unfolding fresh_def world_inv_def empty_until_loaded_def by metis+
  from FindEntry_named [OF assms(1) inv(1) found(2)] have "named name (map entry_name (ordered_entries ?s')) (entry_name e)" "e \<in> set (ordered_entries ?s')" by auto
  moreover have "map entry_name (ordered_entries ?s') = map te_name (map contents (ordered_entries ?s'))" using inv(2) by simp
  ultimately show ?thesis using listed inv(2) found(3) s' by auto
qed

lemma CreateTable_listed:
  assumes U: "string_util_ok (ce_strings E)" and fresh: "fresh E w"
    and create: "Ddl.CreateTable (ce_strings E) T A current (catalog_ddl E) db info w = (Inr t, w')"
  shows "\<exists>name tables names sql. ServerTables E name (w_server w') = Inr tables \<and> t \<in> set tables \<and>
    named (ci_table_name info) (map te_name tables) (te_name t) \<and>
    ServerSchemas E (w_server w') = Inr names \<and> name \<in> set names \<and> (db \<in> set names \<longrightarrow> name = db) \<and>
    CreateTableSql (ce_strings E) T A current db info = Inr sql \<and>
    w_server w' = snd (sv_execute (ce_server E) sql [(''enable_time_time64_type'', ''1'')] (w_server w))"
proof -
  obtain sql w1 where sql: "CreateTableSql (ce_strings E) T A current db info = Inr sql"
    and run: "DdlExecute (catalog_ddl E) sql [] w = (Inr (), w1)" and found: "LookupTable (catalog_ddl E) db (ci_table_name info) w1 = (Inr (Some t), w')"
    using create by (auto simp: Ddl.CreateTable_def bindS_Inr split: sum.splits option.splits)
  have fresh1: "fresh E w1" using fresh_execute [OF fresh, of sql "[]"] run by simp
  obtain schema w2 where schema: "CatalogLookupSchema E db True w1 = (Inr (Some schema), w2)"
    and entry: "TablesGetEntry E schema (ci_table_name info) w2 = (Inr (Some t), w')"
    using found by (auto simp: LookupTable_def bindS_Inr catalog_ddl_def split: option.splits)
  from lookup_found [OF fresh1 schema] have 2: "fresh E w2" "schema \<in> set (ordered_entries (w_schemas w2))" "w_server w2 = w_server w1"
    by (auto simp: with_schemas_def)
  from CatalogLookupSchema_named [OF U fresh1 schema] obtain names where
    names: "ServerSchemas E (w_server w1) = Inr names" "entry_name schema \<in> set names" "db \<in> set names \<longrightarrow> entry_name schema = db"
    by (auto simp: named_def)
  from TablesGetEntry_listed [OF U 2(1,2) entry] obtain tables where
    tables: "w_server w' = w_server w1" "ServerTables E (entry_name schema) (w_server w1) = Inr tables" "t \<in> set tables"
      "named (ci_table_name info) (map te_name tables) (te_name t)" by (auto simp: 2(3))
  have "w_server w1 = snd (sv_execute (ce_server E) sql [(''enable_time_time64_type'', ''1'')] (w_server w))"
    using run by (auto simp: DdlExecute_def catalog_ddl_def CatalogExecute_def StartWrite_def CatalogClearCache_def
        ClearEntries_def RemoveEntries_def Let_def split: sum.splits prod.splits)
  with names tables sql show ?thesis by auto
qed

text \<open>
  C22. The table CREATE TABLE gives to DuckDB is one that the server lists after the statement, under the name asked
  for, in the database of the statement as long as that is still there: either the statement was sent and the table
  was read back after it, or with IF NOT EXISTS the table was there before and nothing was sent.
\<close>

theorem created_table_listed:
  assumes U: "string_util_ok (ce_strings E)" and w: "CatalogLookupSchema E db False (run_all E sts (new_world s)) = (Inr (Some schema), w)"
    and create: "SchemaCreateTable E schema info w = (Inr t, w')"
  shows "\<exists>name tables. ServerTables E name (w_server w') = Inr tables \<and> t \<in> set tables \<and>
    named (ci_table_name info) (map te_name tables) (te_name t) \<and>
    (\<exists>names. ServerSchemas E (w_server w') = Inr names \<and> name \<in> set names \<and> (entry_name schema \<in> set names \<longrightarrow> name = entry_name schema)) \<and>
    (w' = snd (TablesGetEntry E schema (ci_table_name info) w) \<and> ci_on_conflict info = IGNORE_ON_CONFLICT \<or>
     (\<exists>sql. CreateTableSql (ce_strings E) (ce_types E) (ce_duck E) (ce_current E) (entry_name schema) info = Inr sql \<and>
        w_server w' = snd (sv_execute (ce_server E) sql [(''enable_time_time64_type'', ''1'')] (w_server w))))"
proof -
  let ?w0 = "run_all E sts (new_world s)"
  from lookup_found [OF fresh_run w] have w0: "fresh E w" "schema \<in> set (ordered_entries (w_schemas w))" "w_server w = w_server ?w0"
    by (auto simp: with_schemas_def)
  from CatalogLookupSchema_named [OF U fresh_run w] obtain names where
    names: "ServerSchemas E (w_server w) = Inr names" "entry_name schema \<in> set names" by (auto simp: named_def w0(3))
  obtain found w1 where get: "TablesGetEntry E schema (ci_table_name info) w = (found, w1)" by fastforce
  have 1: "fresh E w1" "w_server w1 = w_server w"
    using fresh_entry [OF w0(1,2), of "ci_table_name info"] untouched_lookups(3) [of w E schema "ci_table_name info"] get
    by (simp_all add: untouched_def)
  consider "ci_on_conflict info = IGNORE_ON_CONFLICT" "found = Inr (Some t)" "w' = w1"
    | w2 where "w2 = w \<or> w2 = w1"
        "Ddl.CreateTable (ce_strings E) (ce_types E) (ce_duck E) (ce_current E) (catalog_ddl E) (entry_name schema) info w2 = (Inr t, w')"
    using create get by (auto simp: SchemaCreateTable_def Let_def bindS_def split: if_splits sum.splits option.splits)
  then show ?thesis
  proof cases
    case 1
    with TablesGetEntry_listed [OF U w0(1,2)] get names show ?thesis by (intro exI [of _ "entry_name schema"]) fastforce
  next
    case 2
    then have "fresh E w2" "w_server w2 = w_server w" using 1 w0(1) by auto
    with CreateTable_listed [OF U this(1) 2(2)] show ?thesis by fastforce
  qed
qed

section \<open>An example\<close>

text \<open>
  A server that keeps the statements it got. The database \<open>shop\<close> has a table with a nullable column, and a second
  table once a statement was sent; no table counts any row and no database any table.
\<close>

definition sample_server :: "string list server_api" where
  "sample_server = \<lparr>sv_connect = (\<lambda>s. Inr ()), sv_execute = (\<lambda>sql st s. (Inr (), s @ [sql])),
     sv_databases = (\<lambda>sql st s. Inr [''default'', ''shop'']),
     sv_tables = (\<lambda>sql st s. Inr [(''t'', Some 0, ''MergeTree''), (''fresh'', Some 0, ''MergeTree'')]),
     sv_columns = (\<lambda>sql st s. Inr ([(''t'', ''x'', ''Nullable(UInt8)'', [])] @ (if s = [] then [] else [(''fresh'', ''id'', ''UInt8'', [])]))),
     sv_server_columns = (\<lambda>sql st s. Inr [[(''Nullable(UInt8)'', [], 0)]]), sv_counts = (\<lambda>sql st s. Inr [[0]])\<rparr>"

definition sample_catalog :: "bool \<Rightarrow> string list catalog_env" where
  "sample_catalog read_only = \<lparr>ce_strings = duck_strings, ce_types = duck_types, ce_duck = duck_api_instance, ce_current = (\<lambda>s. None),
     ce_name = ''ch'', ce_read_only = read_only, ce_options = \<lparr>show_system = False, only_schema = []\<rparr>, ce_config = initial_config,
     ce_tid = 0, ce_server = sample_server\<rparr>"

definition drop_shop :: drop_info where
  "drop_shop = \<lparr>drop_name = ''SHOP'', drop_type = OtherEntry ''Schema'', drop_if_exists = False, drop_cascade = False\<rparr>"


lemma sample_schemas: "ServerSchemas (sample_catalog read_only) s = Inr [''default'', ''shop'']"
  by (simp add: ServerSchemas_def sample_catalog_def sample_server_def LoadSchemas_def VisibleDatabase_def IsSystemDatabase_def)

theorem DropSchema_only_empty_witness:
  "\<exists>r w'. DropSchema (sample_catalog False) drop_shop (new_world []) = (r, w') \<and> w_server w' = [''DROP DATABASE '' @ QuoteIdentifier ''shop''] \<and>
     named ''SHOP'' [''default'', ''shop''] ''shop''"
proof -
  let ?run = "DropSchema (sample_catalog False) drop_shop (new_world [])"
  have sent: "w_server (snd ?run) = [''DROP DATABASE '' @ QuoteIdentifier ''shop'']" by code_simp
  have "string_util_ok (ce_strings (sample_catalog False))" by (simp add: sample_catalog_def duck_strings_ok)
  from DropSchema_only_empty [OF this _ _, of "new_world []" "[]" "[]" drop_shop "fst ?run" "snd ?run"] sent obtain db names where
    db: "ServerSchemas (sample_catalog False) (w_server (new_world [])) = Inr names" "named (drop_name drop_shop) names db"
    by (auto simp: run_all_def new_world_def)
  with sample_schemas db have "named ''SHOP'' [''default'', ''shop''] db" by (simp add: drop_shop_def)
  moreover have "lower_name ''default'' \<noteq> lower_name ''SHOP''" by code_simp
  ultimately have "named ''SHOP'' [''default'', ''shop''] ''shop''" by (auto simp: named_def)
  with sent show ?thesis by (metis prod.collapse)
qed

definition set_x_not_null :: alter_request where
  "set_x_not_null = \<lparr>alter_is_table = True, alter_table_name = ''t'', alter_if_exists = False, alter_what = SetNotNull ''X''\<rparr>"

theorem set_not_null_checked_witness:
  "\<exists>r w' column. Alter (sample_catalog False) \<lparr>entry_id = 1, entry_name = ''shop'', contents = ()\<rparr> set_x_not_null (new_world []) = (r, w') \<and>
     w_server w' = [''ALTER TABLE '' @ QualifiedName ''shop'' ''t'' @ '' MODIFY COLUMN '' @ QuoteIdentifier ''x'' @ '' UInt8''] \<and> may_drop_nulls column"
proof -
  let ?run = "Alter (sample_catalog False) \<lparr>entry_id = 1, entry_name = ''shop'', contents = ()\<rparr> set_x_not_null (new_world [])"
  have sent: "w_server (snd ?run) = [''ALTER TABLE '' @ QualifiedName ''shop'' ''t'' @ '' MODIFY COLUMN '' @ QuoteIdentifier ''x'' @ '' UInt8'']" by code_simp
  have change: "alter_what set_x_not_null = SetNotNull ''X''" by (simp add: set_x_not_null_def)
  have "w_server (snd ?run) \<noteq> w_server (new_world [])" unfolding sent by (simp add: new_world_def)
  from set_not_null_checked [OF prod.collapse [symmetric] change this] have "\<exists>column. may_drop_nulls column" by blast
  with sent show ?thesis by (metis prod.collapse)
qed

definition create_fresh_table :: create_info where
  "create_fresh_table = \<lparr>ci_options = False, ci_constraints = [NotNull 0],
     ci_columns = [\<lparr>cd_name = ''id'', cd_type = UTINYINT, cd_generated = False, cd_default = None\<rparr>],
     ci_on_conflict = ERROR_ON_CONFLICT, ci_table_name = ''fresh''\<rparr>"

theorem created_table_listed_witness:
  "\<exists>t w'. SchemaCreateTable (sample_catalog False) \<lparr>entry_id = 1, entry_name = ''shop'', contents = ()\<rparr> create_fresh_table
      (snd (CatalogLookupSchema (sample_catalog False) ''shop'' False (new_world []))) = (Inr t, w') \<and>
    (\<exists>tables. ServerTables (sample_catalog False) ''shop'' (w_server w') = Inr tables \<and> t \<in> set tables)"
proof -
  let ?E = "sample_catalog False" and ?schema = "\<lparr>entry_id = 1, entry_name = ''shop'', contents = ()\<rparr> :: schema_entry"
  let ?found = "CatalogLookupSchema ?E ''shop'' False (new_world [])"
  let ?run = "SchemaCreateTable ?E ?schema create_fresh_table (snd ?found)"
  have U: "string_util_ok (ce_strings ?E)" by (simp add: sample_catalog_def duck_strings_ok)
  have "fst ?found = Inr (Some ?schema)" by code_simp
  then have found: "CatalogLookupSchema ?E ''shop'' False (run_all ?E [] (new_world [])) = (Inr (Some ?schema), snd ?found)"
    by (simp add: run_all_def prod_eq_iff)
  have "is_ok (fst ?run)" by code_simp
  then obtain t where t: "fst ?run = Inr t" by (auto simp: is_ok_iff)
  then have run: "?run = (Inr t, snd ?run)" by (simp add: prod_eq_iff)
  have schemas: "ServerSchemas ?E (w_server (snd ?run)) = Inr [''default'', ''shop'']" by (rule sample_schemas)
  from created_table_listed [OF U found run] obtain name tables where
    "ServerTables ?E name (w_server (snd ?run)) = Inr tables" "t \<in> set tables"
    "\<exists>names. ServerSchemas ?E (w_server (snd ?run)) = Inr names \<and> name \<in> set names \<and> (entry_name ?schema \<in> set names \<longrightarrow> name = entry_name ?schema)"
    by blast
  with schemas have "ServerTables ?E ''shop'' (w_server (snd ?run)) = Inr tables" "t \<in> set tables" by auto
  with run show ?thesis by blast
qed

end
