(* ===== verification/Attached.thy ===== *)
theory Attached
  imports Schema
begin

text \<open>
  The helpers of the connector library that are not specific to one server: looking up an attached catalog and a table
  in it (\<open>database-connector/src/attached/\<close>), and its transaction manager
  (\<open>include/dbconnector/storage/transaction_manager.hpp\<close>) for a server that has transactions itself, which this
  extension does not use: it has its own (theory \<open>Transactions\<close>).
\<close>

section \<open>Lookups through a database\<close>

text \<open>\<open>AttachedTable::Lookup\<close> of the connector: the catalog by its type and name, then the schema and the table.\<close>

definition AttachedCatalogLookup :: "(string \<times> string \<times> 'c) list \<Rightarrow> string \<Rightarrow> string \<Rightarrow> 'c option" where
  "AttachedCatalogLookup databases catalog_type name =
     map_option (\<lambda>(t, n, c). c) (List.find (\<lambda>(t, n, c). t = catalog_type \<and> n = name) databases)"

definition AttachedTableLookup ::
  "(string \<times> string \<times> 'c) list \<Rightarrow> ('c \<Rightarrow> 'w ddl_api) \<Rightarrow> string \<Rightarrow> string \<Rightarrow> string \<Rightarrow> string \<Rightarrow> 'w \<Rightarrow> ('c \<times> table_entry) option res \<times> 'w" where
  "AttachedTableLookup databases api catalog_type name schema table w =
     (case AttachedCatalogLookup databases catalog_type name of
        None \<Rightarrow> (Inr None, w)
      | Some c \<Rightarrow> bindS (LookupTable (api c) schema table w) (\<lambda>entry w'. (Inr (map_option (Pair c) entry), w')))"

section \<open>The transaction manager of the library\<close>

text \<open>
  The transactions that are registered. \<open>Start\<close>, \<open>Commit\<close> and \<open>Rollback\<close> of a transaction are the server's:
  their results are arguments.
\<close>

definition GenericStartTransaction :: "'t res \<Rightarrow> 't list \<Rightarrow> 't res \<times> 't list" where
  "GenericStartTransaction started registered =
     (case started of Inl ex \<Rightarrow> (Inl ex, registered) | Inr t \<Rightarrow> (Inr t, t # removeAll t registered))"

definition DestroyTransaction :: "'t \<Rightarrow> 't list \<Rightarrow> 't list" where
  "DestroyTransaction t registered = removeAll t registered"

text \<open>A commit returns its error, if any, and a rollback throws it; both forget the transaction first.\<close>

definition GenericCommitTransaction :: "unit res \<Rightarrow> 't \<Rightarrow> 't list \<Rightarrow> exn option \<times> 't list" where
  "GenericCommitTransaction committed t registered =
     (case committed of
        Inl ex \<Rightarrow> (Some ex, DestroyTransaction t registered)
      | Inr u \<Rightarrow> (None, DestroyTransaction t registered))"

definition GenericRollbackTransaction :: "unit res \<Rightarrow> 't \<Rightarrow> 't list \<Rightarrow> unit res \<times> 't list" where
  "GenericRollbackTransaction rolled_back t registered =
     (case rolled_back of
        Inl ex \<Rightarrow> (Inl ex, DestroyTransaction t registered)
      | Inr u \<Rightarrow> (Inr (), DestroyTransaction t registered))"

datatype 't txn_call = TxnStart "'t res" | TxnCommit "unit res" 't | TxnRollback "unit res" 't

fun run_call :: "'t txn_call \<Rightarrow> 't list \<Rightarrow> 't list" where
  "run_call (TxnStart started) registered = snd (GenericStartTransaction started registered)"
| "run_call (TxnCommit committed t) registered = snd (GenericCommitTransaction committed t registered)"
| "run_call (TxnRollback rolled_back t) registered = snd (GenericRollbackTransaction rolled_back t registered)"

fun ended_by :: "'t txn_call \<Rightarrow> 't \<Rightarrow> bool" where
  "ended_by (TxnStart started) t \<longleftrightarrow> False"
| "ended_by (TxnCommit committed t') t \<longleftrightarrow> t = t'"
| "ended_by (TxnRollback rolled_back t') t \<longleftrightarrow> t = t'"

text \<open>A transaction is registered exactly from its start until it ends, also when the server fails to end it.\<close>

lemma registered_while_active:
  "t \<in> set (fold run_call events []) \<longleftrightarrow>
     (\<exists>before after. events = before @ TxnStart (Inr t) # after \<and> (\<forall>e\<in>set after. \<not> ended_by e t))"
proof (induction events rule: rev_induct)
  case (snoc e events)
  have step: "t \<in> set (run_call e registered) \<longleftrightarrow> e = TxnStart (Inr t) \<or> t \<in> set registered \<and> \<not> ended_by e t" for registered
    by (cases e) (auto simp: GenericStartTransaction_def GenericCommitTransaction_def GenericRollbackTransaction_def
        DestroyTransaction_def split: sum.splits)
  show ?case
  proof
    assume "t \<in> set (fold run_call (events @ [e]) [])"
    then consider "e = TxnStart (Inr t)" | "t \<in> set (fold run_call events [])" "\<not> ended_by e t" by (auto simp: step)
    then show "\<exists>before after. events @ [e] = before @ TxnStart (Inr t) # after \<and> (\<forall>e\<in>set after. \<not> ended_by e t)"
    proof cases
      case 1
      then show ?thesis by (intro exI [of _ events] exI [of _ "[]"]) simp
    next
      case 2
      with snoc.IH obtain before after where "events = before @ TxnStart (Inr t) # after" "\<forall>e\<in>set after. \<not> ended_by e t" by blast
      with 2 show ?thesis by (intro exI [of _ before] exI [of _ "after @ [e]"]) auto
    qed
  next
    assume "\<exists>before after. events @ [e] = before @ TxnStart (Inr t) # after \<and> (\<forall>e\<in>set after. \<not> ended_by e t)"
    then obtain before after where p: "events @ [e] = before @ TxnStart (Inr t) # after" "\<forall>e\<in>set after. \<not> ended_by e t" by blast
    show "t \<in> set (fold run_call (events @ [e]) [])"
    proof (cases after rule: rev_cases)
      case Nil
      with p(1) have "e = TxnStart (Inr t)" by simp
      then show ?thesis using step by simp
    next
      case last: (snoc after' e')
      from p [unfolded last] have "events = before @ TxnStart (Inr t) # after'" "e = e'" "\<forall>x\<in>set after'. \<not> ended_by x t" "\<not> ended_by e t" by auto
      with snoc.IH have "t \<in> set (fold run_call events [])" by blast
      with \<open>\<not> ended_by e t\<close> show ?thesis using step by simp
    qed
  qed
qed simp

end
