(* ===== verification/Settings.thy ===== *)
theory Settings
  imports Ddl Insert Optimizer
begin

text \<open>
  The settings of the extension: \<open>src/src/clickhouse_scanner_extension.cpp\<close> registers each with a type, a default and
  perhaps a callback that checks a new value. They are read where they are used, with a fallback for a setting that is
  unknown or NULL: in \<open>FromContext\<close>, \<open>PoolConfigFromContext\<close>, \<open>FilterPushdownEnabled\<close>, \<open>Optimize\<close>, \<open>TableEngine\<close>,
  \<open>MutationsSyncSetting\<close> and \<open>GetGlobalSinkState\<close>.
\<close>

section \<open>Callbacks\<close>

text \<open>The flag of the connection; \<open>UBigIntValue::Get\<close> is the argument \<open>get\<close>.\<close>

definition SetClickhouseDebugPrintQueries :: "duck_api \<Rightarrow> duck_value \<Rightarrow> bool \<Rightarrow> unit res \<times> bool" where
  "SetClickhouseDebugPrintQueries A v debug_print_queries =
     (case BooleanValue_Get A v of Inl ex \<Rightarrow> (Inl ex, debug_print_queries) | Inr b \<Rightarrow> (Inr (), b))"

definition SetClickhouseInsertBlockSize :: "(duck_value \<Rightarrow> nat res) \<Rightarrow> duck_value \<Rightarrow> unit res" where
  "SetClickhouseInsertBlockSize get v =
     bindE (get v) (\<lambda>n. if n = 0 then Inl (Exn InvalidInputException ''ch_insert_block_size must be greater than 0'' []) else Inr ())"

definition SetClickhouseMutationsSync :: "(duck_value \<Rightarrow> nat res) \<Rightarrow> duck_value \<Rightarrow> unit res" where
  "SetClickhouseMutationsSync get v =
     (let wrong = Inl (Exn InvalidInputException ''ch_mutations_sync must be 0, 1 or 2'' []) in
      if IsNull v then wrong else bindE (get v) (\<lambda>n. if n > 2 then wrong else Inr ()))"

definition SetClickhouseDefaultTableEngine :: "string_util \<Rightarrow> duck_api \<Rightarrow> duck_value \<Rightarrow> unit res" where
  "SetClickhouseDefaultTableEngine U A v =
     (if IsNull v then Inl (Exn InvalidInputException ''ch_default_table_engine cannot be NULL'' [])
      else bindE (StringValue_Get A v) (ValidateEngine U))"

section \<open>The list of settings\<close>

record extension_option =
  opt_name :: string
  opt_type :: logical_type
  opt_default :: duck_value
  opt_set :: "(duck_value \<Rightarrow> unit res) option"

definition ubigint :: "nat \<Rightarrow> duck_value" where
  "ubigint n = Integer UBIGINT (int n)"

text \<open>\<open>detected\<close> is the number of processors, as for the default size of a pool.\<close>

definition extension_options :: "string_util \<Rightarrow> duck_api \<Rightarrow> (duck_value \<Rightarrow> nat res) \<Rightarrow> nat \<Rightarrow> extension_option list" where
  "extension_options U A get detected =
     (let pool = default_config detected;
          plain = (\<lambda>name t v. \<lparr>opt_name = name, opt_type = t, opt_default = v, opt_set = None\<rparr>);
          checked = (\<lambda>name t v check. \<lparr>opt_name = name, opt_type = t, opt_default = v, opt_set = Some check\<rparr>)
      in [checked ''ch_debug_show_queries'' BOOLEAN (Boolean False) (\<lambda>v. fst (SetClickhouseDebugPrintQueries A v False)),
          plain ''ch_filter_pushdown'' BOOLEAN (Boolean True),
          plain ''ch_connect_timeout_ms'' UBIGINT (ubigint 10000),
          plain ''ch_receive_timeout_ms'' UBIGINT (ubigint 300000),
          plain ''ch_pool_max_connections'' UBIGINT (ubigint (cfg_max_connections pool)),
          plain ''ch_pool_acquire_mode'' VARCHAR (Varchar ''force''),
          plain ''ch_pool_wait_timeout_millis'' UBIGINT (ubigint (cfg_wait_timeout_millis pool)),
          plain ''ch_pool_idle_timeout_millis'' UBIGINT (ubigint (cfg_idle_timeout_millis pool)),
          plain ''ch_order_pushdown'' BOOLEAN (Boolean True),
          checked ''ch_insert_block_size'' UBIGINT (ubigint 65536) (SetClickhouseInsertBlockSize get),
          checked ''ch_default_table_engine'' VARCHAR (Varchar ''MergeTree'') (SetClickhouseDefaultTableEngine U A),
          checked ''ch_mutations_sync'' UBIGINT (ubigint 2) (SetClickhouseMutationsSync get)])"

text \<open>The current settings when nobody changed one.\<close>

definition default_settings :: "extension_option list \<Rightarrow> string \<Rightarrow> duck_value option" where
  "default_settings options name = map_option opt_default (List.find (\<lambda>opt. opt_name opt = name) options)"

section \<open>Defaults and fallbacks\<close>

text \<open>What DuckDB's accessors do with the values of the types of the settings.\<close>

definition settings_api_ok :: "duck_api \<Rightarrow> (duck_value \<Rightarrow> nat res) \<Rightarrow> bool" where
  "settings_api_ok A get \<longleftrightarrow>
     (\<forall>b. BooleanValue_Get A (Boolean b) = Inr b) \<and> (\<forall>s. StringValue_Get A (Varchar s) = Inr s) \<and>
     (\<forall>s. value_ToString A (Varchar s) = s) \<and> (\<forall>n. value_ToString A (ubigint n) = to_string n) \<and> (\<forall>n. get (ubigint n) = Inr n)"

lemma settings_api_okD:
  assumes "settings_api_ok A get"
  shows "BooleanValue_Get A (Boolean b) = Inr b" "StringValue_Get A (Varchar s) = Inr s" "value_ToString A (Varchar s) = s"
    "value_ToString A (ubigint n) = to_string n" "get (ubigint n) = Inr n"
  using assms by (simp_all add: settings_api_ok_def)

lemma not_null: "\<not> IsNull (ubigint n)" "\<not> IsNull (Boolean b)" "\<not> IsNull (Varchar s)"
  by (simp_all add: IsNull_def ubigint_def)

lemma MergeTree_valid:
  assumes "string_util_ok U"
  shows "ValidateEngine U ''MergeTree'' = Inr ()"
proof -
  have "list_all (\<lambda>c. ascii_alpha c) ''MergeTree''" by code_simp
  then show ?thesis using assms by (simp add: ValidateEngine_def string_util_laws)
qed

text \<open>
  C36. The settings nobody changed behave as if the extension had not registered them: every reader gives with the
  registered defaults what it gives when the setting is unknown, and every default has the type of its setting and is
  accepted by the setting's own callback.
\<close>

theorem defaults_are_fallbacks:
  fixes detected :: nat
  assumes U: "string_util_ok U" and A: "settings_api_ok A get"
  defines "options \<equiv> extension_options U A get detected"
  defines "current \<equiv> default_settings options"
  shows "FromContext get current = FromContext get Map.empty \<and>
    PoolConfigFromContext (value_ToString A) get detected current = PoolConfigFromContext (value_ToString A) get detected Map.empty \<and>
    FilterPushdownEnabled A (current ''ch_filter_pushdown'') = FilterPushdownEnabled A None \<and>
    Optimize U A (current ''ch_order_pushdown'') plan = Optimize U A None plan \<and>
    GetGlobalSinkState get current m = GetGlobalSinkState get Map.empty m \<and>
    TableEngine U A current = TableEngine U A Map.empty \<and>
    MutationsSyncSetting (value_ToString A) current = MutationsSyncSetting (value_ToString A) Map.empty \<and>
    list_all (\<lambda>opt. value_type (opt_default opt) = opt_type opt \<and> (case opt_set opt of None \<Rightarrow> True | Some check \<Rightarrow> check (opt_default opt) = Inr ())) options"
proof -
  have c: "current ''ch_filter_pushdown'' = Some (Boolean True)" "current ''ch_connect_timeout_ms'' = Some (ubigint 10000)"
    "current ''ch_receive_timeout_ms'' = Some (ubigint 300000)" "current ''ch_pool_max_connections'' = Some (ubigint (DefaultPoolSize 4 32 detected))"
    "current ''ch_pool_acquire_mode'' = Some (Varchar ''force'')" "current ''ch_pool_wait_timeout_millis'' = Some (ubigint 30000)"
    "current ''ch_pool_idle_timeout_millis'' = Some (ubigint 60000)" "current ''ch_order_pushdown'' = Some (Boolean True)"
    "current ''ch_insert_block_size'' = Some (ubigint 65536)" "current ''ch_default_table_engine'' = Some (Varchar ''MergeTree'')"
    "current ''ch_mutations_sync'' = Some (ubigint 2)"
    by (simp_all add: current_def options_def default_settings_def extension_options_def default_config_def Let_def)
  note api = settings_api_okD [OF A] not_null
  have force: "mode_FromString ''force'' = Inr FORCE" by code_simp
  have two: "to_string 2 = ''2''" by code_simp
  note engine = MergeTree_valid [OF U]
  have "FromContext get current = FromContext get Map.empty"
    by (simp add: FromContext_def read_setting_def c api default_timeouts_def)
  moreover have "PoolConfigFromContext (value_ToString A) get detected current = PoolConfigFromContext (value_ToString A) get detected Map.empty"
    by (simp add: PoolConfigFromContext_def read_setting_def c api force default_config_def)
  moreover have "FilterPushdownEnabled A (current ''ch_filter_pushdown'') = FilterPushdownEnabled A None"
    "Optimize U A (current ''ch_order_pushdown'') plan = Optimize U A None plan"
    by (simp_all add: FilterPushdownEnabled_def Optimize_def c api)
  moreover have "GetGlobalSinkState get current m = GetGlobalSinkState get Map.empty m"
    by (simp add: GetGlobalSinkState_def read_setting_def c api)
  moreover have "TableEngine U A current = TableEngine U A Map.empty"
    by (simp add: TableEngine_def c api)
  moreover have "MutationsSyncSetting (value_ToString A) current = MutationsSyncSetting (value_ToString A) Map.empty"
    by (simp add: MutationsSyncSetting_def c api two)
  moreover have "list_all (\<lambda>opt. value_type (opt_default opt) = opt_type opt \<and> (case opt_set opt of None \<Rightarrow> True | Some check \<Rightarrow> check (opt_default opt) = Inr ())) options"
    using api engine
    by (simp add: options_def extension_options_def Let_def ubigint_def [symmetric] SetClickhouseDebugPrintQueries_def SetClickhouseInsertBlockSize_def
        SetClickhouseMutationsSync_def SetClickhouseDefaultTableEngine_def) (simp add: ubigint_def)
  ultimately show ?thesis by blast
qed

text \<open>
  A value that a setting's callback accepted never fails later and keeps its promise: INSERT sends blocks of at
  least one row, a mutation waits for nothing, for this replica or for all, and CREATE TABLE uses the engine as it was
  checked.
\<close>

theorem accepted_settings_hold:
  assumes A: "settings_api_ok A get" and current: "current ''ch_insert_block_size'' = Some (ubigint n)"
    "current ''ch_mutations_sync'' = Some (ubigint k)" "current ''ch_default_table_engine'' = Some (Varchar name)"
    and accepted: "SetClickhouseInsertBlockSize get (ubigint n) = Inr ()" "SetClickhouseMutationsSync get (ubigint k) = Inr ()"
    "SetClickhouseDefaultTableEngine U A (Varchar name) = Inr ()"
  shows "(\<exists>s. GetGlobalSinkState get current m = Inr s \<and> block_size s = n \<and> 0 < block_size s) \<and>
    MutationsSyncSetting (value_ToString A) current \<in> {''mutations_sync''} \<times> {''0'', ''1'', ''2''} \<and>
    TableEngine U A current = Inr name"
proof -
  note api = settings_api_okD [OF A] not_null
  have "0 < n" using accepted(1) by (cases "n = 0") (simp_all add: SetClickhouseInsertBlockSize_def api)
  moreover have "k \<le> 2" using accepted(2) by (auto simp: SetClickhouseMutationsSync_def api Let_def split: if_splits)
  then have "k = 0 \<or> k = 1 \<or> k = 2" by linarith
  moreover have "to_string 0 = ''0''" "to_string 1 = ''1''" "to_string 2 = ''2''" by code_simp+
  ultimately show ?thesis using accepted(3)
    by (auto simp: GetGlobalSinkState_def read_setting_def MutationsSyncSetting_def TableEngine_def SetClickhouseDefaultTableEngine_def current api Let_def)
qed

section \<open>An example\<close>

definition get_ubigint :: "duck_value \<Rightarrow> nat res" where
  "get_ubigint v = (case v of Integer t n \<Rightarrow> Inr (nat n) | _ \<Rightarrow> Inl no_value)"

lemma settings_api_instance: "settings_api_ok duck_api_instance get_ubigint"
  by (simp add: settings_api_ok_def duck_api_instance_def get_ubigint_def ubigint_def int_text_def)

theorem defaults_are_fallbacks_witness:
  "FromContext get_ubigint (default_settings (extension_options duck_strings duck_api_instance get_ubigint 8)) = Inr default_timeouts \<and>
   MutationsSyncSetting (value_ToString duck_api_instance) (default_settings (extension_options duck_strings duck_api_instance get_ubigint 8)) =
     (''mutations_sync'', ''2'')"
proof -
  have "FromContext get_ubigint Map.empty = Inr default_timeouts"
    "MutationsSyncSetting (value_ToString duck_api_instance) Map.empty = (''mutations_sync'', ''2'')"
    by (simp_all add: FromContext_def read_setting_def MutationsSyncSetting_def)
  moreover note defaults_are_fallbacks [OF duck_strings_ok settings_api_instance, of 8]
  ultimately show ?thesis by metis
qed

definition tuned :: "string \<Rightarrow> duck_value option" where
  "tuned = [''ch_insert_block_size'' \<mapsto> ubigint 100, ''ch_mutations_sync'' \<mapsto> ubigint 1, ''ch_default_table_engine'' \<mapsto> Varchar ''Memory'']"

theorem accepted_settings_hold_witness:
  "TableEngine duck_strings duck_api_instance tuned = Inr ''Memory'' \<and>
   (\<exists>s. GetGlobalSinkState get_ubigint tuned empty_manager = Inr s \<and> block_size s = 100)"
proof -
  have c: "tuned ''ch_insert_block_size'' = Some (ubigint 100)" "tuned ''ch_mutations_sync'' = Some (ubigint 1)"
    "tuned ''ch_default_table_engine'' = Some (Varchar ''Memory'')" by (simp_all add: tuned_def)
  have a: "SetClickhouseInsertBlockSize get_ubigint (ubigint 100) = Inr ()" "SetClickhouseMutationsSync get_ubigint (ubigint 1) = Inr ()"
    "SetClickhouseDefaultTableEngine duck_strings duck_api_instance (Varchar ''Memory'') = Inr ()" by code_simp+
  from accepted_settings_hold [OF settings_api_instance c a, of empty_manager] show ?thesis by blast
qed

section \<open>Engines with comments\<close>

text \<open>
  The check of an engine knows no comments, so text after the argument list passes as long as it hides in what the
  check takes for a string: \<open>ValidateEngine\<close> sees one argument list with a string in it, ClickHouse two comments and
  a SETTINGS clause.
\<close>

lemma engine_with_comments_accepted:
  "ValidateEngine duck_strings (''MergeTree(/*'' @ [CHR 0x27] @ ''*/) SETTINGS index_granularity = (1 /*'' @ [CHR 0x27] @ ''*/)'') = Inr ()"
  by code_simp

end
