(* ===== verification/TypeChanges.thy ===== *)
theory TypeChanges
  imports Complex_Main Ddl
begin

text \<open>
  ALTER TYPE (\<open>ChangeType\<close> of \<open>src/src/storage/clickhouse_ddl.cpp\<close>): which numbers a numeric type holds, and that a column is
  changed only to a type that holds all of them.
\<close>

section \<open>The numbers of a type\<close>

definition integer_values :: "int \<Rightarrow> int \<Rightarrow> rat set" where
  "integer_values lo hi = of_int ` {lo..hi}"

definition decimal_values :: "nat \<Rightarrow> nat \<Rightarrow> rat set" where
  "decimal_values width scale = {of_int n / 10 ^ scale | n. \<bar>n\<bar> < 10 ^ width}"

text \<open>The finite numbers with a mantissa below \<open>2 ^ p\<close> and an exponent between two bounds.\<close>

definition floating_values :: "nat \<Rightarrow> int \<Rightarrow> int \<Rightarrow> rat set" where
  "floating_values p lo hi = {of_int m * 2 powi e | m e. \<bar>m\<bar> < 2 ^ p \<and> lo \<le> e \<and> e \<le> hi}"

fun numbers :: "logical_type \<Rightarrow> rat set option" where
  "numbers TINYINT = Some (integer_values (-(2 ^ 7)) (2 ^ 7 - 1))"
| "numbers SMALLINT = Some (integer_values (-(2 ^ 15)) (2 ^ 15 - 1))"
| "numbers INTEGER = Some (integer_values (-(2 ^ 31)) (2 ^ 31 - 1))"
| "numbers BIGINT = Some (integer_values (-(2 ^ 63)) (2 ^ 63 - 1))"
| "numbers HUGEINT = Some (integer_values (-(2 ^ 127)) (2 ^ 127 - 1))"
| "numbers UTINYINT = Some (integer_values 0 (2 ^ 8 - 1))"
| "numbers USMALLINT = Some (integer_values 0 (2 ^ 16 - 1))"
| "numbers UINTEGER = Some (integer_values 0 (2 ^ 32 - 1))"
| "numbers UBIGINT = Some (integer_values 0 (2 ^ 64 - 1))"
| "numbers UHUGEINT = Some (integer_values 0 (2 ^ 128 - 1))"
| "numbers (DECIMAL width scale) = Some (decimal_values width scale)"
| "numbers FLOAT = Some (floating_values 24 (-149) 104)"
| "numbers DOUBLE = Some (floating_values 53 (-1074) 971)"
| "numbers _ = None"

section \<open>Integer ranges\<close>

definition least :: "nat \<Rightarrow> bool \<Rightarrow> int" where
  "least bits is_signed = (if is_signed then -(2 ^ (bits - 1)) else 0)"

definition greatest :: "nat \<Rightarrow> bool \<Rightarrow> int" where
  "greatest bits is_signed = (if is_signed then 2 ^ (bits - 1) - 1 else 2 ^ bits - 1)"

lemma GetIntegerRange_numbers:
  assumes "type_api_ok T" "GetIntegerRange T t = Some (bits, is_signed)"
  shows "bits \<in> {8, 16, 32, 64, 128} \<and> numbers t = Some (integer_values (least bits is_signed) (greatest bits is_signed))"
proof -
  have "\<forall>t\<in>set integral_types. IsSigned T t \<longleftrightarrow> t \<in> set [TINYINT, SMALLINT, INTEGER, BIGINT, HUGEINT]"
    using assms(1) by (simp add: type_api_ok_def)
  then have s: "IsSigned T TINYINT" "IsSigned T SMALLINT" "IsSigned T INTEGER" "IsSigned T BIGINT" "IsSigned T HUGEINT"
    "\<not> IsSigned T UTINYINT" "\<not> IsSigned T USMALLINT" "\<not> IsSigned T UINTEGER" "\<not> IsSigned T UBIGINT" "\<not> IsSigned T UHUGEINT"
    by (simp_all add: integral_types_def)
  show ?thesis using assms(2)
    by (cases t) (auto simp: GetIntegerRange_def s least_def greatest_def)
qed

lemma wider_integers:
  assumes "bits \<in> {8, 16, 32, 64, 128}" "target_bits \<in> {8, 16, 32, 64, 128}" "bits < target_bits" "target_signed \<or> \<not> is_signed"
  shows "least target_bits target_signed \<le> least bits is_signed \<and> greatest bits is_signed \<le> greatest target_bits target_signed"
  using assms by (elim insertE; cases is_signed; cases target_signed) (simp_all add: least_def greatest_def)

lemma integer_digits:
  assumes "bits \<in> {8, 16, 32, 64, 128}" "least bits is_signed \<le> n" "n \<le> greatest bits is_signed"
  shows "\<bar>n\<bar> < 10 ^ IntegerDigits bits is_signed"
  using assms by (elim insertE; cases is_signed) (simp_all add: least_def greatest_def IntegerDigits_def)

lemma integer_mantissa:
  assumes "bits \<in> {8, 16, 32, 64, 128}" "bits \<le> k" "least bits is_signed \<le> n" "n \<le> greatest bits is_signed"
  shows "\<bar>n\<bar> < (2 :: int) ^ k"
proof -
  have "\<bar>n\<bar> < (2 :: int) ^ bits"
    using assms(1,3,4) by (elim insertE; cases is_signed) (simp_all add: least_def greatest_def)
  also have "\<dots> \<le> 2 ^ k" using assms(2) by (rule power_increasing) simp
  finally show ?thesis .
qed

section \<open>Casts that keep every number\<close>

lemma integer_subset: "lo' \<le> lo \<Longrightarrow> hi \<le> hi' \<Longrightarrow> integer_values lo hi \<subseteq> integer_values lo' hi'"
  by (auto simp: integer_values_def)

lemma integer_in_decimal:
  assumes "\<And>n. lo \<le> n \<Longrightarrow> n \<le> hi \<Longrightarrow> \<bar>n\<bar> < 10 ^ d" "d + s \<le> w"
  shows "integer_values lo hi \<subseteq> decimal_values w s"
proof
  fix x assume "x \<in> integer_values lo hi"
  then obtain n where n: "x = of_int n" "lo \<le> n" "n \<le> hi" by (auto simp: integer_values_def)
  have "\<bar>n * 10 ^ s\<bar> = \<bar>n\<bar> * 10 ^ s" by (simp add: abs_mult)
  also have "\<dots> < 10 ^ d * 10 ^ s" using assms(1) [OF n(2,3)] by simp
  also have "\<dots> \<le> (10 :: int) ^ w" using assms(2) by (simp add: power_add [symmetric] power_increasing)
  finally have "\<bar>n * 10 ^ s\<bar> < 10 ^ w" .
  moreover have "x = of_int (n * 10 ^ s) / 10 ^ s" by (simp add: n)
  ultimately show "x \<in> decimal_values w s" unfolding decimal_values_def by blast
qed

lemma decimal_in_decimal:
  assumes "s' \<le> s" "w' + (s - s') \<le> w"
  shows "decimal_values w' s' \<subseteq> decimal_values w s"
proof
  fix x assume "x \<in> decimal_values w' s'"
  then obtain n where n: "x = of_int n / 10 ^ s'" "\<bar>n\<bar> < 10 ^ w'" by (auto simp: decimal_values_def)
  have "\<bar>n * 10 ^ (s - s')\<bar> = \<bar>n\<bar> * 10 ^ (s - s')" by (simp add: abs_mult)
  also have "\<dots> < 10 ^ w' * 10 ^ (s - s')" using n(2) by simp
  also have "\<dots> \<le> (10 :: int) ^ w" using assms(2) by (simp add: power_add [symmetric] power_increasing)
  finally have "\<bar>n * 10 ^ (s - s')\<bar> < 10 ^ w" .
  moreover have "x = of_int (n * 10 ^ (s - s')) / 10 ^ s"
  proof -
    have "(10 :: rat) ^ s = 10 ^ s' * 10 ^ (s - s')" using assms(1) by (simp add: power_add [symmetric])
    then show ?thesis by (simp add: n)
  qed
  ultimately show "x \<in> decimal_values w s" unfolding decimal_values_def by blast
qed

lemma integer_in_floating:
  assumes "\<And>n. lo \<le> n \<Longrightarrow> n \<le> hi \<Longrightarrow> \<bar>n\<bar> < 2 ^ p" "emin \<le> 0" "0 \<le> emax"
  shows "integer_values lo hi \<subseteq> floating_values p emin emax"
proof
  fix x assume "x \<in> integer_values lo hi"
  then obtain n where n: "x = of_int n" "lo \<le> n" "n \<le> hi" by (auto simp: integer_values_def)
  then have "x = of_int n * 2 powi 0" "\<bar>n\<bar> < 2 ^ p" using assms(1) by simp_all
  with assms(2,3) show "x \<in> floating_values p emin emax" unfolding floating_values_def by blast
qed

lemma floating_in_floating:
  assumes "p \<le> p'" "emin' \<le> emin" "emax \<le> emax'"
  shows "floating_values p emin emax \<subseteq> floating_values p' emin' emax'"
proof
  fix x assume "x \<in> floating_values p emin emax"
  then obtain m e where m: "x = of_int m * 2 powi e" "\<bar>m\<bar> < 2 ^ p" "emin \<le> e" "e \<le> emax" by (auto simp: floating_values_def)
  have "(2 :: int) ^ p \<le> 2 ^ p'" using assms(1) by (rule power_increasing) simp
  then have "\<bar>m\<bar> < 2 ^ p'" "emin' \<le> e" "e \<le> emax'" using m assms by linarith+
  with m(1) show "x \<in> floating_values p' emin' emax'" unfolding floating_values_def by blast
qed

lemma KeepsEveryValue_numbers:
  assumes T: "type_api_ok T" and keeps: "KeepsEveryValue T source target"
    and n: "numbers source = Some xs" "numbers target = Some ys"
  shows "xs \<subseteq> ys"
proof -
  note ranges = GetIntegerRange_numbers [OF T]
  have float: ?thesis if "GetIntegerRange T source = Some (bits, is_signed)" "bits \<le> p" "ys = floating_values p emin emax" "emin \<le> 0" "0 \<le> emax"
    for bits is_signed p emin emax
  proof -
    from ranges [OF that(1)] n(1) have b: "bits \<in> {8, 16, 32, 64, 128}" "xs = integer_values (least bits is_signed) (greatest bits is_signed)" by auto
    show ?thesis unfolding b(2) that(3)
      by (rule integer_in_floating) (use integer_mantissa [OF b(1) that(2)] that(4,5) in auto)
  qed
  have wider: ?thesis if r: "GetIntegerRange T source = Some (bits, is_signed)" "GetIntegerRange T target = Some (target_bits, target_signed)"
    and w: "bits < target_bits" "target_signed \<or> \<not> is_signed" for bits is_signed target_bits target_signed
  proof -
    from ranges [OF r(1)] ranges [OF r(2)] n have b: "bits \<in> {8, 16, 32, 64, 128}" "target_bits \<in> {8, 16, 32, 64, 128}"
      "xs = integer_values (least bits is_signed) (greatest bits is_signed)"
      "ys = integer_values (least target_bits target_signed) (greatest target_bits target_signed)" by auto
    show ?thesis unfolding b(3,4) using wider_integers [OF b(1,2) w] by (intro integer_subset) blast+
  qed
  consider (FLOAT) "target = FLOAT" | (DOUBLE) "target = DOUBLE" | (DECIMAL) w s where "target = DECIMAL w s"
    | (Integer) bits is_signed target_bits target_signed where "GetIntegerRange T source = Some (bits, is_signed)"
        "GetIntegerRange T target = Some (target_bits, target_signed)" "bits < target_bits" "target_signed \<or> \<not> is_signed"
    using keeps n(2) by (cases target) (auto simp: KeepsEveryValue_def split: option.splits prod.splits)
  then show ?thesis
  proof cases
    case FLOAT
    with keeps obtain bits is_signed where "GetIntegerRange T source = Some (bits, is_signed)" "bits \<le> 16"
      by (auto simp: KeepsEveryValue_def split: option.splits)
    with n(2) FLOAT show ?thesis by (intro float [of bits is_signed 24 "-149" 104]) simp_all
  next
    case DOUBLE
    with keeps n(2) consider "source = FLOAT" | bits is_signed where "GetIntegerRange T source = Some (bits, is_signed)" "bits \<le> 32"
      by (auto simp: KeepsEveryValue_def split: option.splits)
    then show ?thesis
    proof cases
      case 1
      with n DOUBLE show ?thesis using floating_in_floating [of 24 53 "-1074" "-149" 104 971] by simp
    next
      case 2
      then have "bits \<le> 53" by simp
      with 2 n(2) DOUBLE show ?thesis by (intro float [of bits is_signed 53 "-1074" 971]) simp_all
    qed
  next
    case (DECIMAL w s)
    show ?thesis
    proof (cases "GetIntegerRange T source")
      case None
      with keeps DECIMAL obtain w' s' where "source = DECIMAL w' s'" "s' \<le> s" "int w' - int s' \<le> int w - int s"
        by (auto simp: KeepsEveryValue_def split: logical_type.splits)
      moreover from this have "w' + (s - s') \<le> w" by linarith
      ultimately show ?thesis using n DECIMAL by (auto intro: decimal_in_decimal [THEN subsetD])
    next
      case (Some r)
      obtain bits is_signed where r: "r = (bits, is_signed)" by (cases r)
      from Some r DECIMAL keeps have "IntegerDigits bits is_signed + s \<le> w" by (simp add: KeepsEveryValue_def)
      with ranges [OF Some [unfolded r]] n DECIMAL integer_digits [of bits is_signed] show ?thesis
        by (auto intro: integer_in_decimal [THEN subsetD])
    qed
  next
    case Integer
    then show ?thesis by (rule wider)
  qed
qed

section \<open>ALTER TYPE\<close>

text \<open>
  C21. A type change that is sent loses no number: the column as the server has it now holds its type exactly, is in no
  key and stored, and every number of its type is one of the new type. The statement keeps the column's wrappers,
  so it stays nullable if it was. Everything else is refused or changes nothing.
\<close>

theorem type_change_keeps_numbers:
  assumes T: "type_api_ok T" and change: "ChangeType U T C db table name info w = (Inr statement, w')" and sent: "alter_sql statement \<noteq> []"
  shows "\<exists>cached column w1 canonical t. RequireColumn U table name = Inr cached \<and>
    LoadServerColumn U C db table (col_name cached) w = (Inr column, w1) \<and>
    (let source = col_type (sc_info column); target = change_target info; wrappers = Of (type_node (sc_info column)) in
     source \<noteq> target \<and> StoredExactly source (tw_base wrappers) canonical \<and> (is_enum_type source \<or> ToClickhouse U T source False = Inr canonical) \<and>
     \<not> in_key column \<and> sc_default_kind column \<noteq> ''ALIAS'' \<and> ToClickhouse U T target False = Inr t \<and> KeepsEveryValue T source target \<and>
     (\<forall>xs ys. numbers source = Some xs \<and> numbers target = Some ys \<longrightarrow> xs \<subseteq> ys) \<and>
     alter_sql statement = ModifyColumn (QualifiedName db (te_name table)) (sc_info column) (Wrap wrappers t) \<and> mutation statement)"
proof (cases "RequireColumn U table name")
  case (Inl ex)
  with change show ?thesis by (simp add: ChangeType_def)
next
  case cached: (Inr cached)
  have plain: "IsPlainTypeChange U name info"
    using change cached by (auto simp: ChangeType_def split: if_splits)
  obtain r w1 where load: "LoadServerColumn U C db table (col_name cached) w = (r, w1)" by fastforce
  show ?thesis
  proof (cases r)
    case (Inl ex)
    with change cached plain load show ?thesis by (simp add: ChangeType_def)
  next
    case column: (Inr column)
    let ?source = "col_type (sc_info column)" and ?target = "change_target info" and ?wrappers = "Of (type_node (sc_info column))"
    note run = change [unfolded ChangeType_def cached bindS_simps load column Let_def]
    have differ: "?source \<noteq> ?target" using run plain sent by (auto simp: no_statement_def)
    have flat: "\<not> (IsNested ?source \<or> IsNested ?target)" using run plain differ by (auto split: if_splits)
    have keeps: "KeepsEveryValue T ?source ?target" using run plain differ flat by (auto split: if_splits)
    obtain canonical where canonical: "(if is_enum_type ?source then Inr [] else ToClickhouse U T ?source False) = Inr canonical"
      using run plain differ flat keeps by (auto simp: bindS_def split: sum.splits if_splits)
    have exact: "StoredExactly ?source (tw_base ?wrappers) canonical"
      using run plain differ flat keeps unfolding canonical by (auto split: if_splits)
    have free: "ThrowIfNotRewritable column table = Inr ()"
      using run plain differ flat keeps exact unfolding canonical by (cases "ThrowIfNotRewritable column table") auto
    obtain t where t: "ToClickhouse U T ?target False = Inr t"
      using run plain differ flat keeps exact free unfolding canonical by (cases "ToClickhouse U T ?target False") auto
    have statement: "alter_sql statement = ModifyColumn (QualifiedName db (te_name table)) (sc_info column) (Wrap ?wrappers t)" "mutation statement"
      using run plain differ flat keeps exact free t unfolding canonical by auto
    have key: "\<not> in_key column" "sc_default_kind column \<noteq> ''ALIAS''" using free by (auto simp: ThrowIfNotRewritable_def split: if_splits)
    have "is_enum_type ?source \<or> ToClickhouse U T ?source False = Inr canonical" using canonical by (auto split: if_splits)
    with cached load column differ exact key t keeps statement KeepsEveryValue_numbers [OF T keeps] show ?thesis
      unfolding Let_def by blast
  qed
qed

section \<open>An example\<close>

text \<open>A server whose table has one column of type \<open>Nullable(UInt8)\<close>.\<close>

definition one_column :: "unit ddl_api" where
  "one_column = \<lparr>StartWriteExecute = (\<lambda>sql st w. (Inr (), w)), query_columns = (\<lambda>sql st w. (Inr [[], [(''Nullable(UInt8)'', [], 0)]], w)),
     query_counts = (\<lambda>sql st w. (Inr [[0]], w)), ClearCache = id, LookupSchema = (\<lambda>db w. (Inr None, w)), LookupEntry = (\<lambda>schema name w. (Inr None, w))\<rparr>"

definition one_column_table :: table_entry where
  "one_column_table = \<lparr>te_schema = ''db'', te_name = ''t'', te_columns = [(''x'', UTINYINT)], te_not_null = [],
     clickhouse_columns = [\<lparr>col_name = ''x'', clickhouse_type = ''Nullable(UInt8)'', type_node = Node ''Nullable'' [] [] [] ''Nullable(UInt8)'',
       col_type = UTINYINT, col_readable = True, default_kind = []\<rparr>],
     te_approx_rows = None, engine = ''MergeTree'', column_collision = []\<rparr>"

theorem type_change_keeps_numbers_witness:
  "\<exists>statement. fst (ChangeType duck_strings duck_types one_column ''db'' one_column_table ''x''
      \<lparr>change_target = BIGINT, change_cast = Some (False, Some ''x'')\<rparr> ()) = Inr statement \<and>
    alter_sql statement = ModifyColumn (QualifiedName ''db'' ''t'')
      \<lparr>col_name = ''x'', clickhouse_type = [], type_node = Node [] [] [] [] [], col_type = BIGINT, col_readable = True, default_kind = []\<rparr> ''Nullable(Int64)'' \<and>
    KeepsEveryValue duck_types UTINYINT BIGINT"
proof -
  let ?info = "\<lparr>change_target = BIGINT, change_cast = Some (False, Some ''x'')\<rparr>"
  let ?run = "ChangeType duck_strings duck_types one_column ''db'' one_column_table ''x'' ?info ()"
  let ?sql = "ModifyColumn (QualifiedName ''db'' ''t'')
      \<lparr>col_name = ''x'', clickhouse_type = [], type_node = Node [] [] [] [] [], col_type = BIGINT, col_readable = True, default_kind = []\<rparr> ''Nullable(Int64)''"
  have "(case fst ?run of Inl ex \<Rightarrow> False | Inr statement \<Rightarrow> alter_sql statement = ?sql)" by code_simp
  then obtain statement where statement: "fst ?run = Inr statement" "alter_sql statement = ?sql" by (auto split: sum.splits)
  then have run: "?run = (Inr statement, snd ?run)" by (simp add: prod_eq_iff)
  have source: "(case LoadServerColumn duck_strings one_column ''db'' one_column_table ''x'' () of
      (Inr column, w) \<Rightarrow> col_type (sc_info column) = UTINYINT | _ \<Rightarrow> False)" by code_simp
  have "ResolveColumnLoop duck_strings ''x'' (None, 0) (clickhouse_columns one_column_table) = Inl (hd (clickhouse_columns one_column_table))"
    by (simp add: one_column_table_def)
  then have cached: "RequireColumn duck_strings one_column_table ''x'' = Inr cached \<Longrightarrow> col_name cached = ''x''" for cached
    by (auto simp: RequireColumn_def ResolveColumn_def one_column_table_def)
  have "?sql \<noteq> []" by (simp add: ModifyColumn_def)
  with statement(2) have "alter_sql statement \<noteq> []" by simp
  from type_change_keeps_numbers [OF duck_types_ok run this] source cached have "KeepsEveryValue duck_types UTINYINT BIGINT"
    by (fastforce simp: Let_def)
  with statement show ?thesis by blast
qed

end
