(* ===== verification/ScanWorkers.thy ===== *)
theory ScanWorkers
  imports Prelude
begin

text \<open>
  The workers of a scan (\<open>src/src/clickhouse_scanner.cpp\<close>, \<open>FetchNextBlock\<close> and \<open>ClickhouseScan\<close>): they
  take turns pulling the blocks of one query and convert them in parallel. A block is the list of its
  rows. What \<open>NextBlock\<close> of the connection will return is a list of outcomes: an exception, a block, or
  the end of the query; an exhausted list is a server that does not answer.
\<close>

section \<open>States\<close>

record 'r scan_global =
  has_connection :: bool
  outcomes :: "'r list option res list"
  finished :: bool
  next_batch_index :: nat

record 'r scan_local =
  block :: "'r list option"
  offset :: nat
  batch_index :: nat

definition STANDARD_VECTOR_SIZE :: nat where "STANDARD_VECTOR_SIZE = 2048"

text \<open>The loop over \<open>NextBlock\<close>: empty blocks are skipped; \<open>None\<close> waits for ever.\<close>

fun FetchLoop :: "'r list option res list \<Rightarrow> ('r list option res \<times> 'r list option res list) option" where
  "FetchLoop [] = None"
| "FetchLoop (Inl ex # os) = Some (Inl ex, os)"
| "FetchLoop (Inr None # os) = Some (Inr None, os)"
| "FetchLoop (Inr (Some rows) # os) = (if rows = [] then FetchLoop os else Some (Inr (Some rows), os))"

definition FetchNextBlock ::
  "'r scan_global \<Rightarrow> 'r scan_local \<Rightarrow> (bool res \<times> 'r scan_global \<times> 'r scan_local) option" where
  "FetchNextBlock g l =
     (let l1 = l\<lparr>block := None, offset := 0\<rparr> in
      if finished g then Some (Inr False, g, l1)
      else (case FetchLoop (outcomes g) of
              None \<Rightarrow> None
            | Some (Inl ex, os) \<Rightarrow> Some (Inl ex, g\<lparr>finished := True, has_connection := False\<rparr>, l1)
            | Some (Inr None, os) \<Rightarrow> Some (Inr False, g\<lparr>finished := True, has_connection := False\<rparr>, l1)
            | Some (Inr (Some rows), os) \<Rightarrow>
                Some (Inr True, g\<lparr>outcomes := os, next_batch_index := Suc (next_batch_index g)\<rparr>,
                      l1\<lparr>block := Some rows, batch_index := next_batch_index g\<rparr>)))"

definition has_rows :: "'r scan_local \<Rightarrow> bool" where
  "has_rows l = (case block l of None \<Rightarrow> False | Some rows \<Rightarrow> offset l < length rows)"

text \<open>One chunk of the block a worker holds.\<close>

definition NextChunk :: "'r scan_local \<Rightarrow> 'r list \<times> 'r scan_local" where
  "NextChunk l =
     (let rows = the (block l);
          count = min STANDARD_VECTOR_SIZE (length rows - offset l)
      in (take count (drop (offset l) rows), l\<lparr>offset := offset l + count\<rparr>))"

text \<open>
  A call of the scan function: a chunk, or nothing at the end of the query. A fetched block is not
  empty, so the second round of the loop returns its first chunk (\<open>FetchNextBlock_rows\<close>).
\<close>

definition ClickhouseScan ::
  "'r scan_global \<Rightarrow> 'r scan_local \<Rightarrow> ('r list res \<times> 'r scan_global \<times> 'r scan_local) option" where
  "ClickhouseScan g l =
     (if has_rows l then (let (chunk, l') = NextChunk l in Some (Inr chunk, g, l'))
      else (case FetchNextBlock g l of
              None \<Rightarrow> None
            | Some (Inl ex, g', l') \<Rightarrow> Some (Inl ex, g', l')
            | Some (Inr False, g', l') \<Rightarrow> Some (Inr [], g', l')
            | Some (Inr True, g', l') \<Rightarrow> (let (chunk, l'') = NextChunk l' in Some (Inr chunk, g', l''))))"

lemma FetchLoop_rows: "FetchLoop os = Some (Inr (Some rows), os') \<Longrightarrow> rows \<noteq> []"
  by (induction os rule: FetchLoop.induct) (auto split: if_splits)

lemma FetchNextBlock_rows: "FetchNextBlock g l = Some (Inr True, g', l') \<Longrightarrow> has_rows l'"
  by (fastforce simp: FetchNextBlock_def Let_def has_rows_def split: if_splits option.splits sum.splits dest: FetchLoop_rows)

section \<open>The system of workers\<close>

text \<open>
  A step is a worker pulling a block (under the lock) when it has no rows left, or returning a chunk of
  its block. \<open>delivered\<close> records the chunks returned with their batch index, \<open>failure\<close> the first exception.
\<close>

record 'r scan_system =
  global :: "'r scan_global"
  workers :: "'r scan_local list"
  delivered :: "(nat \<times> 'r list) list"
  failure :: "exn option"

datatype scan_action = Pull nat | Emit nat

fun scan_step :: "scan_action \<Rightarrow> 'r scan_system \<Rightarrow> 'r scan_system option" where
  "scan_step (Pull i) s =
     (if i < length (workers s) \<and> \<not> has_rows (workers s ! i) then
        (case FetchNextBlock (global s) (workers s ! i) of
           None \<Rightarrow> None
         | Some (r, g, l) \<Rightarrow> Some (s\<lparr>global := g, workers := (workers s)[i := l],
             failure := (case r of Inl ex \<Rightarrow> Some ex | Inr b \<Rightarrow> failure s)\<rparr>))
      else None)"
| "scan_step (Emit i) s =
     (if i < length (workers s) \<and> has_rows (workers s ! i) then
        (let (chunk, l) = NextChunk (workers s ! i) in
         Some (s\<lparr>workers := (workers s)[i := l], delivered := delivered s @ [(batch_index l, chunk)]\<rparr>))
      else None)"

definition scan_start :: "'r list option res list \<Rightarrow> nat \<Rightarrow> 'r scan_system" where
  "scan_start os threads = \<lparr>global = \<lparr>has_connection = True, outcomes = os, finished = False, next_batch_index = 0\<rparr>,
     workers = replicate threads \<lparr>block = None, offset = 0, batch_index = 0\<rparr>, delivered = [], failure = None\<rparr>"

inductive scan_reachable :: "'r list option res list \<Rightarrow> 'r scan_system \<Rightarrow> bool" for os where
  scan_init: "scan_reachable os (scan_start os threads)"
| scan_next: "scan_reachable os s \<Longrightarrow> scan_step a s = Some s' \<Longrightarrow> scan_reachable os s'"

text \<open>The blocks of the query, and the rows delivered of one of them.\<close>

fun blocks_of :: "'r list option res list \<Rightarrow> 'r list list" where
  "blocks_of [] = []"
| "blocks_of (Inl ex # os) = []"
| "blocks_of (Inr None # os) = []"
| "blocks_of (Inr (Some rows) # os) = (if rows = [] then blocks_of os else rows # blocks_of os)"

definition delivered_rows :: "'r scan_system \<Rightarrow> nat \<Rightarrow> 'r list" where
  "delivered_rows s k = concat (map snd (filter (\<lambda>d. fst d = k) (delivered s)))"

lemma FetchLoop_blocks:
  "FetchLoop os = Some (r, os') \<Longrightarrow>
     (case r of Inl ex \<Rightarrow> blocks_of os = [] | Inr None \<Rightarrow> blocks_of os = []
      | Inr (Some rows) \<Rightarrow> blocks_of os = rows # blocks_of os')"
  by (induction os rule: FetchLoop.induct) (auto split: if_splits sum.splits option.splits)

section \<open>The invariant\<close>

definition holds_batch :: "'r scan_local \<Rightarrow> nat \<Rightarrow> bool" where
  "holds_batch l k \<longleftrightarrow> block l \<noteq> None \<and> batch_index l = k"

definition scan_inv :: "'r list option res list \<Rightarrow> 'r scan_system \<Rightarrow> bool" where
  "scan_inv os s \<longleftrightarrow>
     next_batch_index (global s) \<le> length (blocks_of os) \<and>
     (\<not> finished (global s) \<longrightarrow>
        drop (next_batch_index (global s)) (blocks_of os) = blocks_of (outcomes (global s)) \<and> failure s = None) \<and>
     (finished (global s) \<and> failure s = None \<longrightarrow> next_batch_index (global s) = length (blocks_of os)) \<and>
     (finished (global s) \<longleftrightarrow> \<not> has_connection (global s)) \<and>
     (\<forall>i<length (workers s). \<forall>k. holds_batch (workers s ! i) k \<longrightarrow> k < next_batch_index (global s) \<and>
        delivered_rows s k @ drop (offset (workers s ! i)) (the (block (workers s ! i))) = blocks_of os ! k) \<and>
     (\<forall>i<length (workers s). \<forall>j<length (workers s). \<forall>k.
        holds_batch (workers s ! i) k \<and> holds_batch (workers s ! j) k \<longrightarrow> i = j) \<and>
     (\<forall>k<next_batch_index (global s). (\<forall>i<length (workers s). \<not> holds_batch (workers s ! i) k) \<longrightarrow>
        delivered_rows s k = blocks_of os ! k) \<and>
     (\<forall>k\<ge>next_batch_index (global s). delivered_rows s k = [])"

lemma scan_inv_start: "scan_inv os (scan_start os threads)"
  by (auto simp: scan_inv_def scan_start_def holds_batch_def delivered_rows_def)

lemma delivered_rows_cong: "delivered s = delivered s' \<Longrightarrow> delivered_rows s k = delivered_rows s' k"
  by (simp add: delivered_rows_def)

lemma delivered_rows_append: "delivered s' = delivered s @ [(j, chunk)] \<Longrightarrow>
    delivered_rows s' k = delivered_rows s k @ (if j = k then chunk else [])"
  by (simp add: delivered_rows_def)

text \<open>A worker without rows has delivered the whole block it still holds.\<close>

lemma scan_inv_idle:
  assumes "scan_inv os s" and "i < length (workers s)" and "\<not> has_rows (workers s ! i)" and "holds_batch (workers s ! i) k"
  shows "delivered_rows s k = blocks_of os ! k"
proof -
  have "drop (offset (workers s ! i)) (the (block (workers s ! i))) = []"
    using assms(3,4) by (auto simp: has_rows_def holds_batch_def)
  then show ?thesis using assms(1,2,4) unfolding scan_inv_def by (metis append_Nil2)
qed

lemma scan_invD:
  assumes "scan_inv os s"
  shows "next_batch_index (global s) \<le> length (blocks_of os)"
    "\<not> finished (global s) \<Longrightarrow> drop (next_batch_index (global s)) (blocks_of os) = blocks_of (outcomes (global s))"
    "\<not> finished (global s) \<Longrightarrow> failure s = None"
    "finished (global s) \<Longrightarrow> failure s = None \<Longrightarrow> next_batch_index (global s) = length (blocks_of os)"
    "finished (global s) \<longleftrightarrow> \<not> has_connection (global s)"
    "i < length (workers s) \<Longrightarrow> holds_batch (workers s ! i) k \<Longrightarrow> k < next_batch_index (global s)"
    "i < length (workers s) \<Longrightarrow> holds_batch (workers s ! i) k \<Longrightarrow>
       delivered_rows s k @ drop (offset (workers s ! i)) (the (block (workers s ! i))) = blocks_of os ! k"
    "i < length (workers s) \<Longrightarrow> j < length (workers s) \<Longrightarrow> holds_batch (workers s ! i) k \<Longrightarrow>
       holds_batch (workers s ! j) k \<Longrightarrow> i = j"
    "k < next_batch_index (global s) \<Longrightarrow> (\<And>i. i < length (workers s) \<Longrightarrow> \<not> holds_batch (workers s ! i) k) \<Longrightarrow>
       delivered_rows s k = blocks_of os ! k"
    "next_batch_index (global s) \<le> k \<Longrightarrow> delivered_rows s k = []"
  using assms unfolding scan_inv_def by blast+

text \<open>What a pull leaves: no block and the same batches, or the next block of the query.\<close>

lemma FetchNextBlock_cases:
  assumes "FetchNextBlock g l = Some (r, g', l')"
  obtains (over) "block l' = None" "finished g'" "next_batch_index g' = next_batch_index g"
      "finished g \<Longrightarrow> g' = g \<and> r = Inr False"
      "\<not> finished g \<Longrightarrow> blocks_of (outcomes g) = [] \<and> \<not> has_connection g'"
  | (got) rows os where "r = Inr True" "\<not> finished g" "blocks_of (outcomes g) = rows # blocks_of os"
      "g' = g\<lparr>outcomes := os, next_batch_index := Suc (next_batch_index g)\<rparr>"
      "block l' = Some rows" "offset l' = 0" "batch_index l' = next_batch_index g"
proof (cases "finished g")
  case True
  with assms show ?thesis by (intro over) (auto simp: FetchNextBlock_def Let_def)
next
  case False
  with assms obtain res os where loop: "FetchLoop (outcomes g) = Some (res, os)"
    by (auto simp: FetchNextBlock_def Let_def split: option.splits)
  note b = FetchLoop_blocks [OF loop]
  consider ex where "res = Inl ex" | "res = Inr None" | rows where "res = Inr (Some rows)" by (metis option.exhaust sum.exhaust)
  then show ?thesis
  proof cases
    case 1
    with assms False loop b show ?thesis by (intro over) (auto simp: FetchNextBlock_def Let_def)
  next
    case 2
    with assms False loop b show ?thesis by (intro over) (auto simp: FetchNextBlock_def Let_def)
  next
    case 3
    with assms False loop b show ?thesis by (intro got) (auto simp: FetchNextBlock_def Let_def)
  qed
qed

lemma pull_inv:
  assumes inv: "scan_inv os s" and i: "i < length (workers s)" "\<not> has_rows (workers s ! i)"
    and f: "FetchNextBlock (global s) (workers s ! i) = Some (r, g, l)"
  shows "scan_inv os (s\<lparr>global := g, workers := (workers s)[i := l],
      failure := (case r of Inl ex \<Rightarrow> Some ex | Inr b \<Rightarrow> failure s)\<rparr>)" (is "scan_inv os ?s")
proof -
  note D = scan_invD [OF inv]
  have upd: "(workers s)[i := l] ! j = (if j = i then l else workers s ! j)" for j
    using i(1) by (simp add: nth_list_update)
  note idle = scan_inv_idle [OF inv i]
  have dr: "delivered_rows ?s k = delivered_rows s k" for k by (rule delivered_rows_cong) simp
  from f show ?thesis
  proof (cases rule: FetchNextBlock_cases)
    case over
    have none: "\<not> holds_batch l k" for k by (simp add: holds_batch_def over(1))
    have keep: "delivered_rows s k = blocks_of os ! k" if "k < next_batch_index (global s)"
        "\<forall>j<length (workers s). j \<noteq> i \<longrightarrow> \<not> holds_batch (workers s ! j) k" for k
      using that D(9) [of k] idle [of k] by blast
    have len: "next_batch_index (global s) = length (blocks_of os)" if "\<not> finished (global s)"
      using D(1,2) over(5) that by simp
    show ?thesis
      unfolding scan_inv_def dr
    proof (intro conjI allI impI)
      fix j k assume j: "j < length (workers ?s)" and h: "holds_batch (workers ?s ! j) k"
      then have h: "holds_batch (workers s ! j) k" "j \<noteq> i" using none by (auto simp: upd split: if_splits)
      show "k < next_batch_index (global ?s)" using j h D(6) [of j k] over(3) by simp
      show "delivered_rows s k @ drop (offset (workers ?s ! j)) (the (block (workers ?s ! j))) = blocks_of os ! k"
        using j h D(7) [of j k] by (simp add: upd)
    next
      fix j j' k assume "j < length (workers ?s)" "j' < length (workers ?s)"
        and "holds_batch (workers ?s ! j) k \<and> holds_batch (workers ?s ! j') k"
      then show "j = j'" using none D(8) [of j j' k] by (auto simp: upd split: if_splits)
    next
      fix k assume k: "k < next_batch_index (global ?s)"
        and no: "\<forall>j<length (workers ?s). \<not> holds_batch (workers ?s ! j) k"
      show "delivered_rows s k = blocks_of os ! k"
        by (rule keep) (use k no over(3) in \<open>auto simp: upd split: if_splits\<close>)
    next
      assume "finished (global ?s) \<and> failure ?s = None"
      then show "next_batch_index (global ?s) = length (blocks_of os)"
        using D(4) len over(3,4) by (cases "finished (global s)") (auto split: sum.splits)
    next
      show "finished (global ?s) = (\<not> has_connection (global ?s))"
        using D(5) over(2,4,5) by (cases "finished (global s)") auto
    qed (use D(1,10) over in auto)
  next
    case (got rows os')
    have d: "drop (next_batch_index (global s)) (blocks_of os) = rows # blocks_of os'" using D(2) got(2,3) by simp
    then have n: "next_batch_index (global s) < length (blocks_of os)"
      by (metis drop_all list.distinct(1) not_less)
    have "rows = blocks_of os ! next_batch_index (global s)"
      and "blocks_of os' = drop (Suc (next_batch_index (global s))) (blocks_of os)"
      using d Cons_nth_drop_Suc [OF n] by simp_all
    note here = this
    have new: "holds_batch l k \<longleftrightarrow> k = next_batch_index (global s)" for k by (auto simp: holds_batch_def got)
    have old: "j < length (workers s) \<Longrightarrow> \<not> holds_batch (workers s ! j) (next_batch_index (global s))" for j
      using D(6) [of j "next_batch_index (global s)"] by blast
    have keep: "delivered_rows s k = blocks_of os ! k" if "k < next_batch_index (global s)"
        "\<forall>j<length (workers s). j \<noteq> i \<longrightarrow> \<not> holds_batch (workers s ! j) k" for k
      using that D(9) [of k] idle [of k] by blast
    show ?thesis
      unfolding scan_inv_def dr
    proof (intro conjI allI impI)
      fix k assume k: "k < next_batch_index (global ?s)"
        and no: "\<forall>j<length (workers ?s). \<not> holds_batch (workers ?s ! j) k"
      have "\<not> holds_batch l k" using no i(1) by (auto dest: spec [of _ i])
      moreover have "\<forall>j<length (workers s). j \<noteq> i \<longrightarrow> \<not> holds_batch (workers s ! j) k"
        using no by (auto simp: upd split: if_splits)
      ultimately show "delivered_rows s k = blocks_of os ! k"
        using k new keep got(4) by (auto simp: less_Suc_eq)
    next
      fix j k assume j: "j < length (workers ?s)" and h: "holds_batch (workers ?s ! j) k"
      show "k < next_batch_index (global ?s)"
        using j h new D(6) [of j k] got(4) by (auto simp: upd less_SucI split: if_splits)
      show "delivered_rows s k @ drop (offset (workers ?s ! j)) (the (block (workers ?s ! j))) = blocks_of os ! k"
        using j h new D(7) [of j k] D(10) [of k] here got by (auto simp: upd split: if_splits)
    next
      fix j j' k assume "j < length (workers ?s)" "j' < length (workers ?s)"
        and "holds_batch (workers ?s ! j) k \<and> holds_batch (workers ?s ! j') k"
      then show "j = j'" using new old D(8) [of j j' k] by (auto simp: upd split: if_splits)
    qed (use D got n here in auto)
  qed
qed

lemma emit_inv:
  assumes inv: "scan_inv os s" and i: "i < length (workers s)" "has_rows (workers s ! i)"
    and c: "NextChunk (workers s ! i) = (chunk, l)"
  shows "scan_inv os (s\<lparr>workers := (workers s)[i := l], delivered := delivered s @ [(batch_index l, chunk)]\<rparr>)"
    (is "scan_inv os ?s")
proof -
  note D = scan_invD [OF inv]
  have upd: "(workers s)[i := l] ! j = (if j = i then l else workers s ! j)" for j
    using i(1) by (simp add: nth_list_update)
  let ?b = "batch_index (workers s ! i)"
  obtain rows where rows: "block (workers s ! i) = Some rows" "offset (workers s ! i) < length rows"
    using i(2) by (auto simp: has_rows_def split: option.splits)
  have l: "block l = Some rows" "batch_index l = ?b"
    "chunk @ drop (offset l) rows = drop (offset (workers s ! i)) rows"
  proof -
    define n where "n = min STANDARD_VECTOR_SIZE (length rows - offset (workers s ! i))"
    have "chunk = take n (drop (offset (workers s ! i)) rows)" "l = (workers s ! i)\<lparr>offset := offset (workers s ! i) + n\<rparr>"
      using c rows by (simp_all add: NextChunk_def Let_def n_def)
    moreover have "take n (drop (offset (workers s ! i)) rows) @ drop (offset (workers s ! i) + n) rows =
        drop (offset (workers s ! i)) rows"
      by (metis add.commute append_take_drop_id drop_drop)
    ultimately show "block l = Some rows" "batch_index l = ?b"
      "chunk @ drop (offset l) rows = drop (offset (workers s ! i)) rows"
      using rows by simp_all
  qed
  have own: "holds_batch (workers s ! i) ?b" by (simp add: holds_batch_def rows)
  have hl: "holds_batch l k \<longleftrightarrow> k = ?b" "holds_batch (workers s ! i) k \<longleftrightarrow> k = ?b" for k
    by (auto simp: holds_batch_def l rows)
  have dr: "delivered_rows ?s k = delivered_rows s k @ (if ?b = k then chunk else [])" for k
    using delivered_rows_append [of ?s s ?b chunk] by (simp add: l(2))
  have only: "j < length (workers s) \<Longrightarrow> holds_batch (workers s ! j) ?b \<Longrightarrow> j = i" for j
    using D(8) [OF _ i(1) _ own] by blast
  show ?thesis
    unfolding scan_inv_def dr
  proof (intro conjI allI impI)
    fix j k assume j: "j < length (workers ?s)" and h: "holds_batch (workers ?s ! j) k"
    show "k < next_batch_index (global ?s)"
      using j h hl D(6) [of j k] D(6) [OF i(1) own] by (auto simp: upd split: if_splits)
    show "(delivered_rows s k @ (if ?b = k then chunk else [])) @ drop (offset (workers ?s ! j)) (the (block (workers ?s ! j))) =
        blocks_of os ! k"
    proof (cases "j = i")
      case True
      then have "k = ?b" using h j hl by simp
      then show ?thesis using True i(1) D(7) [OF i(1) own] l rows by simp
    next
      case False
      then have "holds_batch (workers s ! j) k" "j < length (workers s)" using h j by simp_all
      then show ?thesis using False only D(7) [of j k] by auto
    qed
  next
    fix j j' k assume "j < length (workers ?s)" "j' < length (workers ?s)"
      and "holds_batch (workers ?s ! j) k \<and> holds_batch (workers ?s ! j') k"
    then show "j = j'" using hl only D(8) [of j j' k] by (auto simp: upd split: if_splits)
  next
    fix k assume k: "k < next_batch_index (global ?s)"
      and no: "\<forall>j<length (workers ?s). \<not> holds_batch (workers ?s ! j) k"
    have "?b \<noteq> k" using no i(1) hl upd [of i] by auto
    moreover have "\<not> holds_batch (workers s ! j) k" if "j < length (workers s)" for j
      using no that hl \<open>?b \<noteq> k\<close> by (cases "j = i") (auto simp: upd)
    ultimately show "delivered_rows s k @ (if ?b = k then chunk else []) = blocks_of os ! k"
      using D(9) [of k] k by simp
  next
    fix k assume "next_batch_index (global ?s) \<le> k"
    then show "delivered_rows s k @ (if ?b = k then chunk else []) = []"
      using D(10) [of k] D(6) [OF i(1) own] by auto
  qed (use D in auto)
qed

lemma scan_reachable_inv: "scan_reachable os s \<Longrightarrow> scan_inv os s"
proof (induction rule: scan_reachable.induct)
  case (scan_next s a s')
  then show ?case
    by (cases a) (auto split: if_splits option.splits prod.splits intro: pull_inv emit_inv)
qed (rule scan_inv_start)

text \<open>
  C11. Every row of the query is returned exactly once and in batch order, whatever the number of
  workers and the interleaving of their pulls and chunks: when the query is over without an exception
  and no worker has rows left, the chunks put in batch order are the rows of all blocks. At any time
  the rows delivered of a batch are an initial part of its block, and the connection has gone back to
  the pool exactly when the query is over.
\<close>

theorem scan_delivers_rows:
  assumes "scan_reachable os s"
  shows "(finished (global s) \<and> failure s = None \<and> (\<forall>l\<in>set (workers s). \<not> has_rows l) \<longrightarrow>
      concat (map (delivered_rows s) [0..<next_batch_index (global s)]) = concat (blocks_of os)) \<and>
    (\<forall>k<next_batch_index (global s). prefix (delivered_rows s k) (blocks_of os ! k)) \<and>
    (finished (global s) \<longleftrightarrow> \<not> has_connection (global s))"
proof -
  note inv = scan_reachable_inv [OF assms]
  note D = scan_invD [OF inv]
  have all: "delivered_rows s k = blocks_of os ! k"
    if "\<forall>l\<in>set (workers s). \<not> has_rows l" "k < next_batch_index (global s)" for k
    using scan_inv_idle [OF inv _ _] D(9) [of k] that nth_mem by blast
  have "map (delivered_rows s) [0..<next_batch_index (global s)] = blocks_of os"
    if "finished (global s)" "failure s = None" "\<forall>l\<in>set (workers s). \<not> has_rows l"
    using all D(4) that by (intro nth_equalityI) simp_all
  moreover have "prefix (delivered_rows s k) (blocks_of os ! k)" if "k < next_batch_index (global s)" for k
    using that D(7) [of _ k] D(9) [of k] by (metis prefix_def prefix_order.refl)
  ultimately show ?thesis using D(5) by auto
qed

fun run_scan :: "scan_action list \<Rightarrow> 'r scan_system \<Rightarrow> 'r scan_system option" where
  "run_scan [] s = Some s"
| "run_scan (a # as) s = (case scan_step a s of None \<Rightarrow> None | Some s' \<Rightarrow> run_scan as s')"

lemma run_scan_reachable: "scan_reachable os s \<Longrightarrow> run_scan as s = Some s' \<Longrightarrow> scan_reachable os s'"
  by (induction as arbitrary: s) (auto split: option.splits intro: scan_next)

theorem scan_delivers_rows_witness:
  "\<exists>s. scan_reachable [Inr (Some [1, 2]), Inr (Some []), Inr (Some [3 :: nat]), Inr None] s \<and>
     delivered s = [(1, [3]), (0, [1, 2])] \<and>
     concat (map (delivered_rows s) [0..<next_batch_index (global s)]) = [1, 2, 3]"
proof -
  let ?os = "[Inr (Some [1, 2]), Inr (Some []), Inr (Some [3 :: nat]), Inr None]"
  have "(case run_scan [Pull 0, Pull 1, Emit 1, Pull 1, Emit 0] (scan_start ?os 2) of None \<Rightarrow> False
      | Some s \<Rightarrow> delivered s = [(1, [3]), (0, [1, 2])] \<and> finished (global s) \<and> failure s = None \<and>
          list_all (\<lambda>l. \<not> has_rows l) (workers s))" by code_simp
  then obtain s where s: "run_scan [Pull 0, Pull 1, Emit 1, Pull 1, Emit 0] (scan_start ?os 2) = Some s"
      "delivered s = [(1, [3]), (0, [1, 2])]" "finished (global s)" "failure s = None" "list_all (\<lambda>l. \<not> has_rows l) (workers s)"
    by (auto split: option.splits)
  have r: "scan_reachable ?os s" by (rule run_scan_reachable [OF scan_init s(1)])
  from scan_delivers_rows [OF r] s(2-5) r show ?thesis by (auto simp: list_all_iff)
qed

end
