(* ===== verification/ScanProgress.thy ===== *)
theory ScanProgress
  imports ScanWorkers
begin

text \<open>
  The end of a scan (\<open>src/src/clickhouse_scanner.cpp\<close>): how much work the workers of theory \<open>ScanWorkers\<close> have left, and
  that as long as there is some they can go on, provided the server ends its answer.
\<close>

section \<open>The work left\<close>

text \<open>The server ends its answer, with the end of the query or with an exception.\<close>

fun answer_ends :: "'r list option res list \<Rightarrow> bool" where
  "answer_ends [] \<longleftrightarrow> False"
| "answer_ends (Inl ex # os) \<longleftrightarrow> True"
| "answer_ends (Inr None # os) \<longleftrightarrow> True"
| "answer_ends (Inr (Some rows) # os) \<longleftrightarrow> answer_ends os"

definition outcome_work :: "'r list option res \<Rightarrow> nat" where
  "outcome_work r = (case r of Inr (Some rows) \<Rightarrow> Suc (length rows) | _ \<Rightarrow> 1)"

definition rows_left :: "'r scan_local \<Rightarrow> nat" where
  "rows_left l = (case block l of None \<Rightarrow> 0 | Some rows \<Rightarrow> length rows - offset l)"

definition work :: "'r scan_system \<Rightarrow> nat" where
  "work s = (if finished (global s) then 0 else Suc (sum_list (map outcome_work (outcomes (global s))))) + sum_list (map rows_left (workers s))"

definition scan_over :: "'r scan_system \<Rightarrow> bool" where
  "scan_over s \<longleftrightarrow> finished (global s) \<and> (\<forall>l\<in>set (workers s). \<not> has_rows l)"

text \<open>A pull after the end of the query: the call that tells DuckDB the worker is done.\<close>

definition end_of_worker :: "scan_action \<Rightarrow> 'r scan_system \<Rightarrow> bool" where
  "end_of_worker a s \<longleftrightarrow> finished (global s) \<and> (\<exists>i. a = Pull i)"

lemma FetchLoop_ends: "answer_ends os \<Longrightarrow> FetchLoop os \<noteq> None"
  by (induction os rule: FetchLoop.induct) auto

lemma FetchLoop_work:
  "FetchLoop os = Some (Inr (Some rows), os') \<Longrightarrow>
     (answer_ends os \<longleftrightarrow> answer_ends os') \<and> length rows + sum_list (map outcome_work os') < sum_list (map outcome_work os)"
  by (induction os rule: FetchLoop.induct) (auto simp: outcome_work_def split: if_splits)

lemma rows_left_pos: "0 < rows_left l \<longleftrightarrow> has_rows l"
  by (auto simp: rows_left_def has_rows_def split: option.splits)

lemma sum_update: "i < length xs \<Longrightarrow> sum_list (map f (xs[i := x])) + f (xs ! i) = sum_list (map f xs) + (f x :: nat)"
  by (induction xs arbitrary: i) (auto split: nat.splits)

lemma pull_work:
  assumes "i < length (workers s)" "\<not> has_rows (workers s ! i)" "\<not> finished (global s)"
    and step: "scan_step (Pull i) s = Some s'"
  shows "work s' < work s"
proof -
  obtain r g l where f: "FetchNextBlock (global s) (workers s ! i) = Some (r, g, l)"
    and s': "s' = s\<lparr>global := g, workers := (workers s)[i := l], failure := (case r of Inl ex \<Rightarrow> Some ex | Inr b \<Rightarrow> failure s)\<rparr>"
    using step assms(1,2) by (auto split: option.splits prod.splits)
  have none: "rows_left (workers s ! i) = 0" using assms(2) rows_left_pos by blast
  have sum: "sum_list (map rows_left ((workers s)[i := l])) = sum_list (map rows_left (workers s)) + rows_left l"
    using sum_update [OF assms(1), of rows_left l] none by simp
  from f assms(3) obtain res os where loop: "FetchLoop (outcomes (global s)) = Some (res, os)"
    by (auto simp: FetchNextBlock_def Let_def split: option.splits)
  consider ex where "res = Inl ex" | "res = Inr None" | rows where "res = Inr (Some rows)" by (metis option.exhaust sum.exhaust)
  then show ?thesis
  proof cases
    case 3
    with f assms(3) loop FetchLoop_work [OF loop [unfolded 3]] sum show ?thesis
      by (auto simp: s' work_def FetchNextBlock_def Let_def rows_left_def)
  qed (use f assms(3) loop sum in \<open>auto simp: s' work_def FetchNextBlock_def Let_def rows_left_def\<close>)
qed

lemma emit_work:
  assumes "i < length (workers s)" "has_rows (workers s ! i)" and step: "scan_step (Emit i) s = Some s'"
  shows "work s' < work s"
proof -
  obtain chunk l where c: "NextChunk (workers s ! i) = (chunk, l)"
    and s': "s' = s\<lparr>workers := (workers s)[i := l], delivered := delivered s @ [(batch_index l, chunk)]\<rparr>"
    using step assms(1,2) by (auto split: prod.splits)
  have "rows_left l < rows_left (workers s ! i)"
    using c assms(2) by (auto simp: NextChunk_def Let_def rows_left_def has_rows_def STANDARD_VECTOR_SIZE_def split: option.splits)
  with sum_update [OF assms(1), of rows_left l] show ?thesis by (simp add: s' work_def)
qed

text \<open>Every step but the last call of a worker uses up work.\<close>

lemma step_work: "scan_step a s = Some s' \<Longrightarrow> \<not> end_of_worker a s \<Longrightarrow> work s' < work s"
  using pull_work [of _ s s'] emit_work [of _ s s']
  by (cases a) (auto simp: end_of_worker_def simp del: scan_step.simps, (simp split: if_splits)+)

lemma answer_still_ends:
  "scan_reachable os s \<Longrightarrow> answer_ends os \<Longrightarrow> finished (global s) \<or> answer_ends (outcomes (global s))"
proof (induction rule: scan_reachable.induct)
  case (scan_init threads)
  then show ?case by (simp add: scan_start_def)
next
  case (scan_next s a s')
  then have IH: "finished (global s) \<or> answer_ends (outcomes (global s))" by blast
  show ?case
  proof (cases a)
    case (Pull i)
    with scan_next.hyps(2) obtain r g l where f: "FetchNextBlock (global s) (workers s ! i) = Some (r, g, l)" and g: "global s' = g"
      by (auto split: if_splits option.splits prod.splits)
    have next_ends: "answer_ends b" if "FetchLoop (outcomes (global s)) = Some (Inr (Some rows), b)" "\<not> finished (global s)" for rows b
      using FetchLoop_work [OF that(1)] IH that(2) by blast
    from f IH next_ends show ?thesis unfolding g
      by (auto simp: FetchNextBlock_def Let_def split: if_splits option.splits sum.splits)
  next
    case (Emit i)
    with scan_next.hyps(2) IH show ?thesis by (auto split: if_splits prod.splits)
  qed
qed

lemma reachable_workers: "scan_step a s = Some s' \<Longrightarrow> length (workers s') = length (workers s)"
  by (cases a) (auto split: if_splits option.splits prod.splits)

lemma step_enabled:
  assumes "scan_reachable os s" "answer_ends os" "workers s \<noteq> []" "\<not> scan_over s"
  shows "\<exists>a s'. scan_step a s = Some s' \<and> \<not> end_of_worker a s"
proof (cases "\<exists>i<length (workers s). has_rows (workers s ! i)")
  case True
  then obtain i where "i < length (workers s)" "has_rows (workers s ! i)" by blast
  then show ?thesis by (intro exI [of _ "Emit i"]) (auto simp: end_of_worker_def split: prod.splits)
next
  case False
  then have open_query: "\<not> finished (global s)" using assms(4) by (auto simp: scan_over_def in_set_conv_nth)
  with answer_still_ends [OF assms(1,2)] have "FetchLoop (outcomes (global s)) \<noteq> None" by (auto dest: FetchLoop_ends)
  then have "FetchNextBlock (global s) (workers s ! 0) \<noteq> None"
    using open_query by (auto simp: FetchNextBlock_def Let_def split: option.splits sum.splits)
  with False assms(3) show ?thesis
    by (intro exI [of _ "Pull 0"]) (auto simp: end_of_worker_def open_query split: prod.splits)
qed



end
