(* ===== verification/Spec2Isabelle.thy ===== *)
theory Spec2Isabelle
  imports Utf8 ErrorCodes DdlTypes CacheSafety PoolAcquire ConnConfig Tables WriteModes BlockRoundtrip Scan Optimizer InsertCorrect
    DmlSafety DmlRun Functions SchemaSafety Attached Settings TypeChanges ScanProgress
begin

text \<open>
  A model of \<open>duckdb-clickhouse\<close>, a DuckDB extension that attaches ClickHouse databases. Paths below are relative to
  \<open>src/src/\<close>; the pool and the generic helpers are in \<open>src/database-connector/src/\<close>.

  \<^bold>\<open>The parts and how they interact.\<close> A user attaches a database with a connection string or a secret, and settings
  apply to it. Queries run on connections of a pool, each wrapping a client of the native protocol; server errors are
  reported under their symbolic names. The catalog of an attached database is a cache of databases and one of tables for
  each; every statement that may change the server clears it, and the entries it held live on in the transaction
  manager until every transaction that may point to them has ended. Column types travel as text, which is parsed and
  mapped to DuckDB types, and printed for the columns of new tables. A scan builds one SELECT from the columns,
  filters, ORDER BY and LIMIT pushed into it, and its workers share the blocks of the answer and convert them to
  vectors. INSERT converts vectors to blocks; UPDATE and DELETE become one mutation, checked and counted before. All
  SQL is built with the same quoting.

  \<^bold>\<open>Conventions.\<close> A function that may throw returns \<open>exn + 'a\<close> (\<open>Prelude.res\<close>); of an exception the class, the constant
  part of the message and its arguments are kept. A C++ string is a list of characters (bytes). State is passed
  explicitly; what several threads do is an \<open>inductive\<close> set of reachable states over steps that are each one locked
  section of the code. DuckDB, the protocol client and the server are not part of the repository: what the code asks of
  them are records of functions (\<open>string_util\<close>, \<open>type_api\<close>, \<open>duck_api\<close>, \<open>vector_api\<close>, \<open>dml_api\<close>, \<open>ddl_api\<close>, \<open>client_api\<close>,
  \<open>catalog_env\<close>), what it relies on of their documented behaviour is a predicate on the record (named \<open>..._ok\<close>), and
  an instance shows that the predicate can hold. Clock readings, health checks and the outcome of opening a connection
  are arguments.

  \<^bold>\<open>The theories, in the order of the code.\<close>

  \<^item> \<open>Prelude\<close>: results, \<open>std::string\<close>, 64-bit arithmetic, DuckDB's \<open>StringUtil\<close>.
  \<^item> \<open>ChUtils\<close>, \<open>Utf8\<close>: \<open>clickhouse_utils.cpp\<close>. Quoting is inverted by a scanner (locale \<open>quoting\<close>, interpreted for
    identifiers and literals); the UTF-8 check accepts exactly the encodings of scalar values.
  \<^item> \<open>ErrorCodes\<close>: \<open>clickhouse_error_codes.cpp\<close>, the whole table, and \<open>ErrorCodeName\<close> of \<open>clickhouse_connection.cpp\<close>.
  \<^item> \<open>TypeParser\<close>, \<open>TypeRoundtrip\<close>, \<open>DuckTypes\<close>, \<open>Types\<close>, \<open>Reading\<close>: \<open>clickhouse_types.cpp\<close>. A printer of well-formed types is the
    specification of the parser.
  \<^item> \<open>DdlTypes\<close>: \<open>clickhouse_ddl_types.cpp\<close>. A created type is read back as the type it was created for.
  \<^item> \<open>Transactions\<close>, \<open>CatalogSet\<close>, \<open>CacheSafety\<close>: \<open>storage/clickhouse_transaction.cpp\<close> and \<open>storage/clickhouse_catalog_set.cpp\<close>. The
    locale \<open>retirement\<close> is the contract of the transaction manager; \<open>CacheSafety\<close> interleaves loads, lookups and clears
    of any number of connections, with the pointers handed out as a ghost.
  \<^item> \<open>Pool\<close>, \<open>PoolSafety\<close>, \<open>PoolAcquire\<close>: \<open>dbconnector/pool/\<close>. One definition per locked section; the accounting of connections
    in every interleaving; and an undisturbed \<open>Acquire\<close> as a whole.
  \<^item> \<open>ConnConfig\<close>: \<open>clickhouse_connection_config.cpp\<close>, both syntaxes of a connection string.
  \<^item> \<open>Connection\<close>: \<open>clickhouse_connection.cpp\<close> and \<open>storage/clickhouse_connection_pool.cpp\<close>. The locale \<open>pooled_resource\<close> is
    what the pool relies on of its connections.
  \<^item> \<open>DuckExpr\<close>, \<open>FilterPushdown\<close>: \<open>clickhouse_filter_pushdown.cpp\<close>. The generated conditions have a meaning of their
    own, three-valued as in SQL, and are compared with the filters they stand for.
  \<^item> \<open>Scan\<close>, \<open>ScanWorkers\<close>, \<open>ScanProgress\<close>: \<open>clickhouse_scanner.cpp\<close>. The query and its callbacks; safety and progress of the
    workers, by a measure that every step decreases.
  \<^item> \<open>Optimizer\<close>: \<open>storage/clickhouse_optimizer.cpp\<close>, against the rows a plan returns.
  \<^item> \<open>Columns\<close>, \<open>WriteModes\<close>, \<open>Writer\<close>, \<open>WriterScalars\<close>, \<open>WriterCorrect\<close>: \<open>clickhouse_writer.cpp\<close>. \<open>Conversion\<close>, \<open>ConversionCorrect\<close>:
    \<open>clickhouse_conversion.cpp\<close>. \<open>BlockRoundtrip\<close> composes the two.
  \<^item> \<open>Insert\<close>, \<open>InsertCorrect\<close>: \<open>storage/clickhouse_insert.cpp\<close>, which relies on the writer by the locale \<open>column_writer\<close>.
  \<^item> \<open>Expression\<close>, \<open>ExpressionSafety\<close>: \<open>clickhouse_expression.cpp\<close>. \<open>Dml\<close>, \<open>DmlSafety\<close>, \<open>DmlRun\<close>: \<open>storage/clickhouse_dml.cpp\<close>. A lexer's
    view of SQL shows that no value leaves its place; a client that keeps what it is sent shows the order.
  \<^item> \<open>Ddl\<close>, \<open>TypeChanges\<close>: \<open>storage/clickhouse_ddl.cpp\<close>.
  \<^item> \<open>Tables\<close>, \<open>Schema\<close>, \<open>SchemaSafety\<close>: \<open>storage/clickhouse_table_set.cpp\<close>, \<open>clickhouse_schema_set.cpp\<close>,
    \<open>clickhouse_table_entry.cpp\<close>, \<open>clickhouse_schema_entry.cpp\<close> and \<open>clickhouse_catalog.cpp\<close>, over the caches and an abstract
    server. ALTER relies on DDL by the locale \<open>ddl_reads\<close>.
  \<^item> \<open>Functions\<close>, \<open>Settings\<close>: \<open>clickhouse_query.cpp\<close>, \<open>clickhouse_execute.cpp\<close>, \<open>clickhouse_secrets.cpp\<close>,
    \<open>clickhouse_type_mapping_function.cpp\<close>, \<open>storage/clickhouse_clear_cache.cpp\<close>, \<open>storage/clickhouse_storage_extension.cpp\<close> and
    \<open>clickhouse_scanner_extension.cpp\<close>.
  \<^item> \<open>Attached\<close>: \<open>attached/\<close> and \<open>dbconnector/storage/transaction_manager.hpp\<close>, helpers the extension does not use.

  \<^bold>\<open>Bounds and fuel.\<close> The bounds are those of the code: types nest at most 64 deep, an error name is looked for in the last
  three words of a message, a connection is pinged after 30 seconds, a chunk has 2048 rows, an INSERT block 65536 unless
  it is configured. Loops that consume something recurse on it; the parser of types recurses on its depth limit. Loops that
  wait for the server (\<open>QueryLoop\<close>, the workers of a scan) recurse on the list of its answers, and that they end is proved
  as long as the answer ends.

  \<^bold>\<open>Not modelled.\<close> The registration of functions, settings and secrets with DuckDB, and the constructors that only store
  their arguments; the texts for EXPLAIN and the profiler; the printing of queries for debugging; getters of one
  field (they are the selectors of the records); copies and comparisons of bind data; \<open>defer.hpp\<close>; wake-ups of waiting
  threads, for which a thread that waits may take its next step at any time. What an exception leaves in
  objects that are dropped with it is not modelled either. Tests, scripts and vendored headers are no part of the program.
\<close>

end
